(* ===== verification/Prelude.thy ===== *)
theory Prelude
  imports Main "HOL-Library.Sublist"
begin

text \<open>
  The part of Go and of its standard library that the modelled packages use, and the
  generic lemmas the component theories share.

  A Go \<^verbatim>\<open>string\<close> is a byte sequence, and so is HOL's \<^typ>\<open>string\<close> (a list of
  \<^typ>\<open>char\<close>, each one byte), so lengths, slices and prefixes count bytes in both. Go's
  \<^verbatim>\<open>int\<close>, \<^verbatim>\<open>time.Duration\<close> and \<^verbatim>\<open>time.Time\<close> are \<^typ>\<open>int\<close>: durations in
  nanoseconds, instants in nanoseconds since the zero time, so that \<^verbatim>\<open>IsZero\<close> is
  equality with \<open>0\<close>. A Go map is a HOL map; a value paired with an \<^verbatim>\<open>error\<close> is a sum
  whose left side is the error.
\<close>

section \<open>Names of the model's types\<close>

type_synonym go_time = int
type_synonym duration = int
type_synonym session_id = string
type_synonym 'a result = "string + 'a"

named_theorems go_defs \<open>definitions of the string routines, for evaluation\<close>
named_theorems frame \<open>an operation leaves another field or another key alone\<close>
named_theorems inv_intro \<open>an operation keeps its component's invariant\<close>

section \<open>Package strings\<close>

definition HasPrefix :: "string \<Rightarrow> string \<Rightarrow> bool" where
  "HasPrefix s p = prefix p s"

definition HasSuffix :: "string \<Rightarrow> string \<Rightarrow> bool" where
  "HasSuffix s p = suffix p s"

fun Index :: "string \<Rightarrow> string \<Rightarrow> nat option" where
  "Index s p = (if prefix p s then Some 0
     else case s of [] \<Rightarrow> None | _ # r \<Rightarrow> map_option Suc (Index r p))"

declare Index.simps [simp del]

definition Contains :: "string \<Rightarrow> string \<Rightarrow> bool" where
  "Contains s p = (Index s p \<noteq> None)"

fun LastIndex_from :: "nat \<Rightarrow> string \<Rightarrow> char \<Rightarrow> nat option \<Rightarrow> nat option" where
  "LastIndex_from i [] c acc = acc"
| "LastIndex_from i (x # xs) c acc = LastIndex_from (Suc i) xs c (if x = c then Some i else acc)"

definition TrimPrefix :: "string \<Rightarrow> string \<Rightarrow> string" where
  "TrimPrefix s p = (if prefix p s then drop (length p) s else s)"

definition TrimLeft :: "string \<Rightarrow> string \<Rightarrow> string" where
  "TrimLeft s cutset = dropWhile (\<lambda>c. c \<in> set cutset) s"

definition TrimRight :: "string \<Rightarrow> string \<Rightarrow> string" where
  "TrimRight s cutset = rev (dropWhile (\<lambda>c. c \<in> set cutset) (rev s))"

definition Cut :: "string \<Rightarrow> char \<Rightarrow> (string \<times> string) option" where
  "Cut s c = (if c \<in> set s
     then Some (takeWhile (\<lambda>x. x \<noteq> c) s, tl (dropWhile (\<lambda>x. x \<noteq> c) s)) else None)"

fun Split_acc :: "char \<Rightarrow> string \<Rightarrow> string \<Rightarrow> string list" where
  "Split_acc c acc [] = [rev acc]"
| "Split_acc c acc (x # xs) =
     (if x = c then rev acc # Split_acc c [] xs else Split_acc c (x # acc) xs)"

definition Split :: "string \<Rightarrow> char \<Rightarrow> string list" where
  "Split s c = Split_acc c [] s"

fun Join :: "string list \<Rightarrow> string \<Rightarrow> string" where
  "Join [] sep = []"
| "Join [x] sep = x"
| "Join (x # y # xs) sep = x @ sep @ Join (y # xs) sep"

subsection \<open>White space\<close>

text \<open>
  \<^verbatim>\<open>unicode.IsSpace\<close> holds of the six ASCII spaces and of nineteen further runes. Their
  UTF-8 encodings are listed; a lead byte never occurs inside another rune's encoding, so
  looking for the encodings at byte positions agrees with decoding rune by rune.
\<close>

definition ascii_space :: "char \<Rightarrow> bool" where
  "ascii_space c = (c \<in> {CHR 0x09, CHR 0x0A, CHR 0x0B, CHR 0x0C, CHR 0x0D, CHR 0x20})"

definition wide_spaces :: "string list" where
  "wide_spaces = [[CHR 0xC2, CHR 0x85], [CHR 0xC2, CHR 0xA0], [CHR 0xE1, CHR 0x9A, CHR 0x80]]
     @ map (\<lambda>c. [CHR 0xE2, CHR 0x80, c]) [CHR 0x80, CHR 0x81, CHR 0x82, CHR 0x83, CHR 0x84,
         CHR 0x85, CHR 0x86, CHR 0x87, CHR 0x88, CHR 0x89, CHR 0x8A, CHR 0xA8, CHR 0xA9, CHR 0xAF]
     @ [[CHR 0xE2, CHR 0x81, CHR 0x9F], [CHR 0xE3, CHR 0x80, CHR 0x80]]"

text \<open>The number of bytes of the space rune \<open>s\<close> starts with, \<open>0\<close> for none.\<close>

definition space_at :: "string \<Rightarrow> nat" where
  "space_at s = (case s of [] \<Rightarrow> 0
     | c # _ \<Rightarrow> if ascii_space c then 1
        else case find (\<lambda>w. prefix w s) wide_spaces of None \<Rightarrow> 0 | Some w \<Rightarrow> length w)"

definition space_end :: "string \<Rightarrow> nat" where
  "space_end s = (case rev s of [] \<Rightarrow> 0
     | c # _ \<Rightarrow> if ascii_space c then 1
        else case find (\<lambda>w. suffix w s) wide_spaces of None \<Rightarrow> 0 | Some w \<Rightarrow> length w)"

text \<open>Each step drops at least one byte, so \<^term>\<open>length s\<close> steps are enough.\<close>

fun trim_left_n :: "nat \<Rightarrow> string \<Rightarrow> string" where
  "trim_left_n 0 s = s"
| "trim_left_n (Suc n) s = (if space_at s = 0 then s else trim_left_n n (drop (space_at s) s))"

fun trim_right_n :: "nat \<Rightarrow> string \<Rightarrow> string" where
  "trim_right_n 0 s = s"
| "trim_right_n (Suc n) s =
     (if space_end s = 0 then s else trim_right_n n (take (length s - space_end s) s))"

definition TrimSpace :: "string \<Rightarrow> string" where
  "TrimSpace s = (let t = trim_left_n (length s) s in trim_right_n (length t) t)"

fun fields_n :: "nat \<Rightarrow> string \<Rightarrow> string \<Rightarrow> string list" where
  "fields_n 0 acc s = (if acc = [] then [] else [rev acc])"
| "fields_n (Suc n) acc s = (case s of
       [] \<Rightarrow> (if acc = [] then [] else [rev acc])
     | c # r \<Rightarrow> (if space_at s = 0 then fields_n n (c # acc) r
         else (if acc = [] then [] else [rev acc]) @ fields_n n [] (drop (space_at s) s)))"

definition Fields :: "string \<Rightarrow> string list" where
  "Fields s = fields_n (length s) [] s"

subsection \<open>Case\<close>

text \<open>
  \<^verbatim>\<open>strings.ToLower\<close> maps a pure ASCII string bytewise and any other string rune by rune
  through the Unicode tables. The tables are the parameter \<open>ul\<close>.
\<close>

definition ascii_byte :: "char \<Rightarrow> bool" where
  "ascii_byte c = (\<not> digit7 c)"

definition ascii_lower :: "char \<Rightarrow> char" where
  "ascii_lower c = (let n = (of_char c :: nat) in
     if 65 \<le> n \<and> n \<le> 90 then char_of (n + 32) else c)"

definition ToLower :: "(string \<Rightarrow> string) \<Rightarrow> string \<Rightarrow> string" where
  "ToLower ul s = (if list_all ascii_byte s then map ascii_lower s else ul s)"

subsection \<open>UTF-8\<close>

text \<open>
  The number of bytes of the valid rune a string starts with, \<open>0\<close> where the bytes are not
  valid UTF-8 (overlong forms, surrogates and code points above \<^verbatim>\<open>U+10FFFF\<close> are not).
\<close>

definition between :: "char \<Rightarrow> nat \<Rightarrow> nat \<Rightarrow> bool" where
  "between c lo hi = (lo \<le> of_char c \<and> of_char c \<le> hi)"

definition two :: "char \<Rightarrow> char \<Rightarrow> bool" where
  "two a b = (between a 0xC2 0xDF \<and> between b 0x80 0xBF)"

definition three :: "char \<Rightarrow> char \<Rightarrow> char \<Rightarrow> bool" where
  "three a b c = (between a 0xE0 0xEF \<and> between c 0x80 0xBF
     \<and> between b (if a = CHR 0xE0 then 0xA0 else 0x80) (if a = CHR 0xED then 0x9F else 0xBF))"

definition four :: "char \<Rightarrow> char \<Rightarrow> char \<Rightarrow> char \<Rightarrow> bool" where
  "four a b c d = (between a 0xF0 0xF4 \<and> between c 0x80 0xBF \<and> between d 0x80 0xBF
     \<and> between b (if a = CHR 0xF0 then 0x90 else 0x80) (if a = CHR 0xF4 then 0x8F else 0xBF))"

definition rune_len :: "string \<Rightarrow> nat" where
  "rune_len s = (case s of [] \<Rightarrow> 0 | a # r \<Rightarrow> if ascii_byte a then 1 else
     (case r of [] \<Rightarrow> 0 | b # r2 \<Rightarrow> if two a b then 2 else
       (case r2 of [] \<Rightarrow> 0 | c # r3 \<Rightarrow> if three a b c then 3 else
         (case r3 of [] \<Rightarrow> 0 | d # _ \<Rightarrow> if four a b c d then 4 else 0))))"

text \<open>
  A string as its runes, each given by its bytes; an invalid byte decodes to
  \<^verbatim>\<open>U+FFFD\<close>. This is \<^verbatim>\<open>[]rune(s)\<close>, and \<^const>\<open>concat\<close> is the conversion back.
\<close>

fun runes_n :: "nat \<Rightarrow> string \<Rightarrow> string list" where
  "runes_n 0 s = []"
| "runes_n (Suc n) s = (if s = [] then []
     else if rune_len s = 0 then [CHR 0xEF, CHR 0xBF, CHR 0xBD] # runes_n n (tl s)
     else take (rune_len s) s # runes_n n (drop (rune_len s) s))"

definition runes :: "string \<Rightarrow> string list" where
  "runes s = runes_n (length s) s"

subsection \<open>Decimal printing\<close>

fun show_nat :: "nat \<Rightarrow> string" where
  "show_nat n = (if n < 10 then [char_of (48 + n)]
     else show_nat (n div 10) @ [char_of (48 + n mod 10)])"

declare show_nat.simps [simp del]

definition show_int :: "int \<Rightarrow> string" where
  "show_int i = (if i < 0 then CHR ''-'' # show_nat (nat (- i)) else show_nat (nat i))"

text \<open>The digits of a decimal number and its value.\<close>

definition digit_char :: "char \<Rightarrow> bool" where
  "digit_char c = between c 48 57"

definition num :: "string \<Rightarrow> nat" where
  "num s = foldl (\<lambda>a c. 10 * a + (of_char c - 48)) 0 s"

declare HasPrefix_def [go_defs] HasSuffix_def [go_defs] Contains_def [go_defs]
  TrimPrefix_def [go_defs] TrimLeft_def [go_defs] TrimRight_def [go_defs]
  Cut_def [go_defs] Split_def [go_defs]

section \<open>Errors\<close>

text \<open>An error of package \<^verbatim>\<open>errors\<close> or \<^verbatim>\<open>fmt\<close>: a plain one, a sentinel variable, or one that
  wraps another with a prefix (\<^verbatim>\<open>%w\<close>). \<open>Is\<close> is \<^verbatim>\<open>errors.Is\<close> for a sentinel.\<close>

datatype go_error = Errorf string | Sentinel string | Wrapf string go_error

fun Is :: "go_error \<Rightarrow> go_error \<Rightarrow> bool" where
  "Is (Wrapf p e) t \<longleftrightarrow> Wrapf p e = t \<or> Is e t"
| "Is e t \<longleftrightarrow> e = t"

section \<open>Slices and loops\<close>

text \<open>Appending to a slice while skipping values already seen, as the deduplicating loops do.\<close>

fun dedup_onto :: "'a list \<Rightarrow> 'a list \<Rightarrow> 'a list" where
  "dedup_onto seen [] = []"
| "dedup_onto seen (x # xs) =
     (if x \<in> set seen then dedup_onto seen xs else x # dedup_onto (x # seen) xs)"

section \<open>Shared lemmas\<close>

lemma prefix_comparable: "prefix xs zs \<Longrightarrow> prefix ys zs \<Longrightarrow> prefix xs ys \<or> prefix ys xs"
  by (rule prefix_same_cases) auto

lemma prefix_snoc_cases: "prefix xs (ys @ [y]) \<Longrightarrow> xs = ys @ [y] \<or> prefix xs ys"
  by (simp add: prefix_snoc)

lemma set_dedup_onto: "set (dedup_onto seen xs) = set xs - set seen"
  by (induction seen xs rule: dedup_onto.induct) auto

lemma distinct_dedup_onto: "distinct (dedup_onto seen xs)"
  by (induction seen xs rule: dedup_onto.induct) (auto simp: set_dedup_onto)

lemma Index_Nil_right [simp]: "Index s [] = Some 0"
  by (subst Index.simps) simp

lemma Index_Some: "Index s p = Some i \<Longrightarrow> i + length p \<le> length s \<and> prefix p (drop i s)"
proof (induction s arbitrary: i)
  case Nil
  then show ?case by (subst (asm) Index.simps) (auto split: if_splits)
next
  case (Cons a s)
  from Cons.prems show ?case
    by (subst (asm) Index.simps)
       (auto split: if_splits dest: Cons.IH prefix_length_le)
qed

lemma Index_None: "Index s p = None \<Longrightarrow> \<not> sublist p s"
proof (induction s)
  case Nil
  then show ?case by (subst (asm) Index.simps) (auto split: if_splits)
next
  case (Cons a s)
  from Cons.prems have "\<not> prefix p (a # s)" "Index s p = None"
    by (subst (asm) Index.simps, simp split: if_splits)+
  with Cons.IH show ?case by (simp add: sublist_Cons_right)
qed

lemma Contains_iff_sublist: "Contains s p \<longleftrightarrow> sublist p s"
proof
  assume "Contains s p"
  then obtain i where "Index s p = Some i" by (auto simp: Contains_def)
  then have "prefix p (drop i s)" by (simp add: Index_Some)
  moreover have "suffix (drop i s) s" by (simp add: suffix_drop)
  ultimately show "sublist p s" by (auto simp: sublist_altdef')
next
  assume "sublist p s"
  then show "Contains s p" using Index_None by (auto simp: Contains_def)
qed

lemma char_of_digit: "n < 10 \<Longrightarrow> (of_char (char_of (48 + n) :: char) :: nat) = 48 + n"
  by (simp add: of_char_of)

lemma length_show_nat: "0 < k \<Longrightarrow> n < 10 ^ k \<Longrightarrow> length (show_nat n) \<le> k"
proof (induction k arbitrary: n)
  case (Suc k)
  show ?case
  proof (cases "n < 10")
    case False
    then have "0 < k" using Suc.prems by (cases k) auto
    moreover have "n div 10 < 10 ^ k" using Suc.prems by (simp add: less_mult_imp_div_less mult.commute)
    ultimately show ?thesis using False Suc.IH [of "n div 10"] by (subst show_nat.simps) simp
  qed (subst show_nat.simps, simp)
qed simp

lemma num_append: "num (s @ [c]) = 10 * num s + (of_char c - 48)"
  by (simp add: num_def)

lemma foldl_zeros: "foldl (\<lambda>a c. 10 * a + (of_char c - 48)) (0::nat) (replicate k (CHR ''0'')) = 0"
  by (induction k) auto

lemma num_zeros [simp]: "num (replicate k (CHR ''0'') @ s) = num s"
  by (simp add: num_def foldl_zeros)

lemma num_show_nat [simp]: "num (show_nat n) = n"
proof (induction n rule: show_nat.induct)
  case (1 n)
  show ?case
  proof (cases "n < 10")
    case True
    then show ?thesis by (subst show_nat.simps) (simp add: num_def char_of_digit)
  next
    case False
    then have "num (show_nat n) = 10 * num (show_nat (n div 10)) + n mod 10"
      by (subst show_nat.simps) (simp add: num_append char_of_digit)
    with 1 False show ?thesis by simp
  qed
qed

lemma digit_char_of [simp]: "(n::nat) < 10 \<Longrightarrow> digit_char (char_of (48 + n))"
  by (simp add: digit_char_def between_def char_of_digit)

lemma digits_show_nat [simp]: "list_all digit_char (show_nat n)"
proof (induction n rule: show_nat.induct)
  case (1 n)
  then show ?case by (subst show_nat.simps) simp
qed

lemma suffix_iff_drop: "suffix p s \<longleftrightarrow> length p \<le> length s \<and> drop (length s - length p) s = p"
  by (auto simp: suffix_def) (metis append_take_drop_id)

section \<open>Interfaces shared by the components\<close>

text \<open>
  A component as a machine: a first state, an operation at a time, and an invariant that
  the first state has and every admissible operation keeps. Any sequence of admissible
  operations then keeps it.
\<close>

locale invariant_machine =
  fixes init :: 's
    and step :: "'s \<Rightarrow> 'o \<Rightarrow> 's"
    and ok :: "'o \<Rightarrow> bool"
    and inv :: "'s \<Rightarrow> bool"
  assumes inv_init: "inv init"
    and inv_step: "inv s \<Longrightarrow> ok x \<Longrightarrow> inv (step s x)"
begin

lemma inv_run_from: "inv s \<Longrightarrow> \<forall>x\<in>set xs. ok x \<Longrightarrow> inv (foldl step s xs)"
  by (induction xs arbitrary: s) (auto intro: inv_step)

lemma inv_run: "\<forall>x\<in>set xs. ok x \<Longrightarrow> inv (foldl step init xs)"
  by (rule inv_run_from [OF inv_init])

end

text \<open>
  A component whose calls interleave: an event is one atomic step of one of them, possible in
  some states only. A run is a list of events each possible where it stands.
\<close>

fun run_events :: "('e \<Rightarrow> 's \<Rightarrow> 's option) \<Rightarrow> 'e list \<Rightarrow> 's \<Rightarrow> 's option" where
  "run_events step [] s = Some s"
| "run_events step (e # es) s = (case step e s of None \<Rightarrow> None | Some s' \<Rightarrow> run_events step es s')"

lemma run_events_append: "run_events step (es @ fs) s = Option.bind (run_events step es s) (run_events step fs)"
  by (induction es arbitrary: s) (auto split: option.splits)

lemma run_events_snoc:
  "run_events step (es @ [e]) s = Some u \<longleftrightarrow> (\<exists>t. run_events step es s = Some t \<and> step e t = Some u)"
  by (auto simp: run_events_append bind_eq_Some_conv split: option.splits)

locale guarded_machine =
  fixes step :: "'e \<Rightarrow> 's \<Rightarrow> 's option"
    and ok :: "'e \<Rightarrow> bool"
    and inv :: "'s \<Rightarrow> bool"
  assumes inv_event: "step e s = Some s' \<Longrightarrow> ok e \<Longrightarrow> inv s \<Longrightarrow> inv s'"
begin

lemma inv_events: "run_events step es s = Some s' \<Longrightarrow> list_all ok es \<Longrightarrow> inv s \<Longrightarrow> inv s'"
  by (induction es arbitrary: s) (auto split: option.splits dest: inv_event)

end

text \<open>
  A component that keeps its state per key (a session, a job, a token): an operation
  touches some keys, and what a key shows after it depends only on what it showed before.
  Then what a key shows after any interleaving of operations is what it shows after its
  own operations alone.
\<close>

locale keyed_machine =
  fixes step :: "'s \<Rightarrow> 'o \<Rightarrow> 's"
    and touches :: "'o \<Rightarrow> 'k \<Rightarrow> bool"
    and view :: "'k \<Rightarrow> 's \<Rightarrow> 'v"
  assumes untouched: "\<not> touches x k \<Longrightarrow> view k (step s x) = view k s"
    and local_step: "view k s = view k t \<Longrightarrow> view k (step s x) = view k (step t x)"
begin

lemma run_local: "view k s = view k t \<Longrightarrow> view k (foldl step s xs) = view k (foldl step t xs)"
proof (induction xs arbitrary: s t)
  case (Cons x xs)
  have "view k (step s x) = view k (step t x)" by (rule local_step [OF Cons.prems])
  then have "view k (foldl step (step s x) xs) = view k (foldl step (step t x) xs)" by (rule Cons.IH)
  then show ?case by simp
qed simp

lemma run_untouched: "\<forall>x\<in>set xs. \<not> touches x k \<Longrightarrow> view k (foldl step s xs) = view k s"
  by (induction xs arbitrary: s) (auto simp: untouched)

lemma run_project:
  "view k (foldl step s xs) = view k (foldl step s (filter (\<lambda>x. touches x k) xs))"
proof (induction xs arbitrary: s)
  case (Cons x xs)
  show ?case
  proof (cases "touches x k")
    case False
    then have "view k (foldl step (step s x) xs) = view k (foldl step s xs)"
      by (rule run_local [OF untouched])
    with False Cons.IH show ?thesis by simp
  qed (simp add: Cons.IH)
qed simp

end

text \<open>
  An endless \<^verbatim>\<open>for\<close> loop whose body returns or goes on. Each pass reads one answer of the
  outside world; the result is \<^const>\<open>None\<close> if the answers run out before the loop returns.
  \<open>bounded_loop\<close> is the contract of a loop that counts: a pass that goes on uses up one unit
  of a bound, and a pass with at most one unit left returns.
\<close>

fun drive :: "('e \<Rightarrow> 's \<Rightarrow> 's + 'r) \<Rightarrow> 'e list \<Rightarrow> 's \<Rightarrow> 'r option" where
  "drive body [] s = None"
| "drive body (e # es) s = (case body e s of Inr r \<Rightarrow> Some r | Inl s' \<Rightarrow> drive body es s')"

lemma drive_induct:
  assumes "drive body es s = Some r" and "P s"
    and "\<And>e s s'. P s \<Longrightarrow> body e s = Inl s' \<Longrightarrow> P s'"
    and "\<And>e s r. P s \<Longrightarrow> body e s = Inr r \<Longrightarrow> Q r"
  shows "Q r"
  using assms(1,2)
proof (induction es arbitrary: s)
  case (Cons e es)
  show ?case
  proof (cases "body e s")
    case (Inl s')
    with Cons.prems Cons.IH [of s'] assms(3) [of s e s'] show ?thesis by simp
  next
    case (Inr r')
    with Cons.prems assms(4) [of s e r'] show ?thesis by simp
  qed
qed simp

locale bounded_loop =
  fixes body :: "'e \<Rightarrow> 's \<Rightarrow> 's + 'r"
    and left :: "'s \<Rightarrow> nat"
    and inv :: "'s \<Rightarrow> bool"
  assumes keeps: "inv s \<Longrightarrow> body e s = Inl s' \<Longrightarrow> inv s'"
    and counts: "inv s \<Longrightarrow> body e s = Inl s' \<Longrightarrow> left s' < left s"
    and stops: "inv s \<Longrightarrow> left s \<le> 1 \<Longrightarrow> \<exists>r. body e s = Inr r"
begin

lemma returns: "inv s \<Longrightarrow> es \<noteq> [] \<Longrightarrow> left s \<le> length es \<Longrightarrow> \<exists>r. drive body es s = Some r"
proof (induction es arbitrary: s)
  case (Cons e es)
  show ?case
  proof (cases "body e s")
    case (Inl s')
    have "left s' < left s" "inv s'" using keeps counts Cons.prems(1) Inl by blast+
    moreover have "2 \<le> left s" using stops [OF Cons.prems(1), of e] Inl by (cases "left s \<le> 1") auto
    moreover have "es \<noteq> []" using Cons.prems(3) \<open>2 \<le> left s\<close> by auto
    ultimately have "\<exists>r. drive body es s' = Some r" using Cons.IH [of s'] Cons.prems(3) by simp
    with Inl show ?thesis by simp
  qed simp
qed simp

text \<open>What was not needed was not read.\<close>

lemma enough: "inv s \<Longrightarrow> es \<noteq> [] \<Longrightarrow> left s \<le> length es \<Longrightarrow> drive body (es @ fs) s = drive body es s"
proof (induction es arbitrary: s)
  case (Cons e es)
  show ?case
  proof (cases "body e s")
    case (Inl s')
    have "left s' < left s" "inv s'" using keeps counts Cons.prems(1) Inl by blast+
    moreover have "2 \<le> left s" using stops [OF Cons.prems(1), of e] Inl by (cases "left s \<le> 1") auto
    moreover have "es \<noteq> []" using Cons.prems(3) \<open>2 \<le> left s\<close> by auto
    ultimately have "drive body (es @ fs) s' = drive body es s'" using Cons.IH [of s'] Cons.prems(3) by simp
    with Inl show ?thesis by simp
  qed simp
qed simp

end

end
