(* ===== verification/GoPath.thy ===== *)
theory GoPath
  imports Prelude
begin

text \<open>
  Package \<^verbatim>\<open>path/filepath\<close> on Unix, as the permission package uses it: \<^verbatim>\<open>Clean\<close>,
  \<^verbatim>\<open>Join\<close>, \<^verbatim>\<open>Dir\<close>, \<^verbatim>\<open>Base\<close>, \<^verbatim>\<open>IsAbs\<close> and \<^verbatim>\<open>Abs\<close>. \<open>Clean\<close> works on the
  path's elements: it drops empty elements and dots and lets \<^verbatim>\<open>..\<close> remove the element
  before it. The lemmas give the shape of a cleaned path, that cleaning twice is cleaning
  once, and when two directories that contain a common path contain one another.
\<close>

abbreviation sep :: char where "sep \<equiv> CHR ''/''"

definition IsAbs :: "string \<Rightarrow> bool" where
  "IsAbs p = HasPrefix p ''/''"

text \<open>The elements kept so far, last one first.\<close>

fun clean_elems :: "bool \<Rightarrow> string list \<Rightarrow> string list \<Rightarrow> string list" where
  "clean_elems rooted st [] = rev st"
| "clean_elems rooted st (e # es) =
     (if e = [] \<or> e = ''.'' then clean_elems rooted st es
      else if e = ''..'' then
        (case st of
           [] \<Rightarrow> clean_elems rooted (if rooted then [] else [''..'']) es
         | x # xs \<Rightarrow> clean_elems rooted (if x = ''..'' then ''..'' # st else xs) es)
      else clean_elems rooted (e # st) es)"

definition of_elems :: "bool \<Rightarrow> string list \<Rightarrow> string" where
  "of_elems rooted es =
     (if rooted then sep # Join es ''/'' else if es = [] then ''.'' else Join es ''/'')"

definition Clean :: "string \<Rightarrow> string" where
  "Clean p = of_elems (IsAbs p) (clean_elems (IsAbs p) [] (Split p sep))"

definition Join_path :: "string list \<Rightarrow> string" where
  "Join_path es = (let ne = dropWhile (\<lambda>e. e = []) es in
     if ne = [] then [] else Clean (Join ne ''/''))"

text \<open>Everything after the last separator, and everything up to and including it.\<close>

definition last_elem :: "string \<Rightarrow> string" where
  "last_elem p = rev (takeWhile (\<lambda>c. c \<noteq> sep) (rev p))"

definition Dir :: "string \<Rightarrow> string" where
  "Dir p = Clean (take (length p - length (last_elem p)) p)"

definition Base :: "string \<Rightarrow> string" where
  "Base p = (if p = [] then ''.'' else
     let q = rev (dropWhile (\<lambda>c. c = sep) (rev p)); l = last_elem q in
     if l = [] then ''/'' else l)"

text \<open>\<open>wd\<close> is what \<^verbatim>\<open>os.Getwd\<close> returns, \<open>None\<close> where it fails.\<close>

definition Abs :: "string option \<Rightarrow> string \<Rightarrow> string option" where
  "Abs wd p = (if IsAbs p then Some (Clean p)
     else map_option (\<lambda>w. Join_path [w, p]) wd)"

section \<open>Splitting and joining\<close>

lemma Split_acc_Cons: "Split_acc c acc s \<noteq> []"
  by (induction c acc s rule: Split_acc.induct) auto

lemma Split_acc_no_sep: "x \<in> set (Split_acc c acc s) \<Longrightarrow> c \<notin> set acc \<Longrightarrow> c \<notin> set x"
  by (induction c acc s rule: Split_acc.induct) (auto split: if_splits)

lemma Split_no_sep: "x \<in> set (Split s c) \<Longrightarrow> c \<notin> set x"
  by (simp add: Split_def Split_acc_no_sep)

lemma Split_acc_append:
  "c \<notin> set x \<Longrightarrow> Split_acc c acc (x @ c # r) = (rev acc @ x) # Split_acc c [] r"
  by (induction x arbitrary: acc) auto

lemma Split_acc_single: "c \<notin> set x \<Longrightarrow> Split_acc c acc x = [rev acc @ x]"
  by (induction x arbitrary: acc) auto

lemma Split_Join: "es \<noteq> [] \<Longrightarrow> \<forall>e\<in>set es. c \<notin> set e \<Longrightarrow> Split (Join es [c]) c = es"
proof (induction es "[c]" rule: Join.induct)
  case (2 x)
  then show ?case by (simp add: Split_def Split_acc_single)
next
  case (3 x y xs)
  then show ?case by (simp add: Split_def Split_acc_append)
qed simp

section \<open>The elements of a cleaned path\<close>

definition plain_elem :: "string \<Rightarrow> bool" where
  "plain_elem e \<longleftrightarrow> e \<noteq> [] \<and> e \<noteq> ''.'' \<and> sep \<notin> set e"

lemma clean_elems_plain:
  "\<forall>e\<in>set st. plain_elem e \<Longrightarrow> \<forall>e\<in>set es. sep \<notin> set e \<Longrightarrow>
   e \<in> set (clean_elems rooted st es) \<Longrightarrow> plain_elem e"
proof (induction rooted st es rule: clean_elems.induct)
  case (2 rooted st e es)
  then show ?case
    by (auto simp: plain_elem_def split: if_splits list.splits)
qed auto

lemma clean_elems_rooted:
  "''..'' \<notin> set st \<Longrightarrow> ''..'' \<notin> set (clean_elems True st es)"
proof (induction True st es rule: clean_elems.induct)
  case (2 st e es)
  then show ?case by (auto split: if_splits list.splits)
qed auto

text \<open>A stack is settled when every \<^verbatim>\<open>..\<close> in it has only further ones below it.\<close>

fun settled :: "string list \<Rightarrow> bool" where
  "settled [] = True"
| "settled (x # xs) = (settled xs \<and> (x = ''..'' \<longrightarrow> (\<forall>y\<in>set xs. y = ''..'')))"

lemma settled_append: "settled (xs @ ys) \<Longrightarrow> settled ys"
  by (induction xs) auto

lemma clean_elems_settled: "settled st \<Longrightarrow> settled (rev (clean_elems rooted st es))"
  by (induction rooted st es rule: clean_elems.induct) (auto split: list.splits)

lemma clean_elems_id_onto:
  assumes "settled (rev es @ st)" and "\<forall>e\<in>set es. plain_elem e" and "rooted \<longrightarrow> ''..'' \<notin> set es"
  shows "clean_elems rooted st es = rev st @ es"
  using assms
proof (induction es arbitrary: st)
  case (Cons e es)
  then have IH: "clean_elems rooted (e # st) es = rev (e # st) @ es" by simp
  from Cons.prems have "settled (e # st)"
    using settled_append [of "rev es" "e # st"] by (simp del: settled.simps)
  then have dots: "e = ''..'' \<Longrightarrow> st = [] \<or> hd st = ''..''"
    unfolding settled.simps by (metis list.set_sel(1))
  from Cons.prems have pl: "e \<noteq> []" "e \<noteq> ''.''" "rooted \<Longrightarrow> e \<noteq> ''..''"
    by (auto simp: plain_elem_def)
  show ?case
  proof (cases "e = ''..''")
    case True
    with dots pl IH show ?thesis by (cases rooted; cases st) simp_all
  qed (simp add: pl IH)
qed simp

lemma clean_elems_id:
  "settled (rev es) \<Longrightarrow> \<forall>e\<in>set es. plain_elem e \<Longrightarrow> rooted \<longrightarrow> ''..'' \<notin> set es \<Longrightarrow>
   clean_elems rooted [] es = es"
  by (simp add: clean_elems_id_onto)

section \<open>Cleaning\<close>

lemma IsAbs_of_elems:
  assumes "\<forall>e\<in>set es. plain_elem e"
  shows "IsAbs (of_elems r es) = r"
proof (cases r)
  case False
  show ?thesis
  proof (cases es)
    case (Cons x xs)
    with assms have "x \<noteq> []" "sep \<notin> set x" by (auto simp: plain_elem_def)
    with False Cons show ?thesis
      by (cases x; cases xs) (auto simp: of_elems_def IsAbs_def HasPrefix_def)
  qed (simp add: False of_elems_def IsAbs_def HasPrefix_def)
qed (simp add: of_elems_def IsAbs_def HasPrefix_def)

lemma Clean_IsAbs [simp]: "IsAbs (Clean p) = IsAbs p"
  unfolding Clean_def
  by (rule IsAbs_of_elems) (auto dest: clean_elems_plain [rotated 2] Split_no_sep)

lemma Split_of_elems:
  assumes "\<forall>e\<in>set es. plain_elem e"
  shows "clean_elems r [] (Split (of_elems r es) sep) = clean_elems r [] es"
proof (cases "es = []")
  case True
  then show ?thesis by (cases r) (auto simp: of_elems_def Split_def)
next
  case False
  with assms have *: "Split (Join es [sep]) sep = es"
    by (intro Split_Join) (auto simp: plain_elem_def)
  show ?thesis
  proof (cases r)
    case True
    have "Split (sep # Join es [sep]) sep = [] # Split (Join es [sep]) sep"
      by (simp add: Split_def)
    with True * show ?thesis by (simp add: of_elems_def)
  qed (simp add: of_elems_def False *)
qed

lemma Clean_idem: "Clean (Clean p) = Clean p"
proof -
  define es where "es = clean_elems (IsAbs p) [] (Split p sep)"
  have plain: "\<forall>e\<in>set es. plain_elem e"
    unfolding es_def by (auto dest: clean_elems_plain [rotated 2] Split_no_sep)
  have settled: "settled (rev es)"
    unfolding es_def by (rule clean_elems_settled) simp
  have rooted: "IsAbs p \<longrightarrow> ''..'' \<notin> set es"
    unfolding es_def using clean_elems_rooted [of "[]"] by auto
  have c: "Clean p = of_elems (IsAbs p) es" by (simp add: Clean_def es_def)
  have "Clean (Clean p) = of_elems (IsAbs p) (clean_elems (IsAbs p) [] (Split (Clean p) sep))"
    by (simp add: Clean_def [of "Clean p"])
  also have "clean_elems (IsAbs p) [] (Split (Clean p) sep) = es"
    using Split_of_elems [OF plain] clean_elems_id [OF settled plain rooted] by (simp add: c)
  finally show ?thesis by (simp add: c)
qed

lemma Clean_not_Nil [simp]: "Clean p \<noteq> []"
proof (cases "IsAbs p")
  case False
  define es where "es = clean_elems False [] (Split p sep)"
  have "\<forall>e\<in>set es. plain_elem e"
    unfolding es_def by (auto dest: clean_elems_plain [rotated 2] Split_no_sep)
  with False show ?thesis
    by (cases es rule: list.exhaust; cases "tl es")
       (auto simp: Clean_def of_elems_def es_def plain_elem_def)
qed (simp add: Clean_def of_elems_def)

lemma Abs_Some_abs: "Abs wd p = Some a \<Longrightarrow> (\<And>w. wd = Some w \<Longrightarrow> IsAbs w) \<Longrightarrow> IsAbs a"
proof (cases "IsAbs p")
  case False
  assume a: "Abs wd p = Some a" and w: "\<And>w. wd = Some w \<Longrightarrow> IsAbs w"
  from a False obtain d where d: "wd = Some d" "a = Join_path [d, p]" by (auto simp: Abs_def)
  with w have "IsAbs d" by simp
  then have "IsAbs (d @ sep # p)" "d \<noteq> []" by (auto simp: IsAbs_def HasPrefix_def)
  with d have "a = Clean (d @ sep # p)" by (simp add: Join_path_def)
  with \<open>IsAbs (d @ sep # p)\<close> show ?thesis by simp
qed (auto simp: Abs_def)

section \<open>Lengths, and walking up to the root\<close>

abbreviation weight :: "string list \<Rightarrow> nat" where
  "weight es \<equiv> sum_list (map (\<lambda>e. Suc (length e)) es)"

lemma weight_rev [simp]: "weight (rev es) = weight es"
  by (simp only: rev_map [symmetric] sum_list_rev)

lemma weight_clean_elems: "weight (clean_elems r st es) \<le> weight st + weight es"
proof (induction r st es rule: clean_elems.induct)
  case (2 rooted st e es)
  then show ?case by (cases st) (auto split: if_splits)
qed simp

lemma weight_clean_elems_skip:
  "weight (clean_elems r st ([] # es @ [[]])) \<le> weight st + weight es"
  "weight (clean_elems r st (es @ [[]])) \<le> weight st + weight es"
proof -
  have skip: "clean_elems r st (es @ [[]]) = clean_elems r st es" for st
    by (induction r st es rule: clean_elems.induct) (auto split: list.splits)
  show "weight (clean_elems r st ([] # es @ [[]])) \<le> weight st + weight es"
    "weight (clean_elems r st (es @ [[]])) \<le> weight st + weight es"
    by (simp_all add: skip weight_clean_elems)
qed

lemma weight_Split_acc: "weight (Split_acc c acc s) = length acc + length s + 1"
  by (induction c acc s rule: Split_acc.induct) auto

lemma length_Join: "es \<noteq> [] \<Longrightarrow> Suc (length (Join es [c])) = weight es"
  by (induction es "[c]" rule: Join.induct) auto

lemma length_of_elems: "length (of_elems r es) \<le> max 1 (weight es - (if r then 0 else 1))"
proof (cases "es = []")
  case False
  then show ?thesis using length_Join [OF False, of sep]
    by (auto simp: of_elems_def max_def)
qed (simp add: of_elems_def)

lemma Split_acc_snoc_sep: "Split_acc c acc (s @ [c]) = Split_acc c acc s @ [[]]"
  by (induction s arbitrary: acc) auto

lemma length_Clean_snoc_sep:
  assumes "x \<noteq> []"
  shows "length (Clean (x @ [sep])) \<le> length x"
proof -
  define r where "r = IsAbs (x @ [sep])"
  define es where "es = clean_elems r [] (Split (x @ [sep]) sep)"
  have len: "length (Clean (x @ [sep])) \<le> max 1 (weight es - (if r then 0 else 1))"
    unfolding Clean_def es_def r_def by (rule length_of_elems)
  have x1: "1 \<le> length x" using assms by (cases x) auto
  show ?thesis
  proof (cases r)
    case True
    with assms obtain y where x: "x = sep # y" by (cases x) (auto simp: r_def IsAbs_def HasPrefix_def)
    then have "weight es \<le> weight (Split_acc sep [] y)"
      unfolding es_def using weight_clean_elems_skip(1) [of r "[]" "Split_acc sep [] y"]
      by (simp add: Split_def Split_acc_snoc_sep)
    with x True len x1 show ?thesis by (simp add: weight_Split_acc)
  next
    case False
    have "weight es \<le> weight (Split_acc sep [] x)"
      unfolding es_def using weight_clean_elems_skip(2) [of r "[]" "Split_acc sep [] x"]
      by (simp add: Split_def Split_acc_snoc_sep)
    with False len x1 show ?thesis by (simp add: weight_Split_acc)
  qed
qed

text \<open>How far a path is from the fixed point of \<^const>\<open>Dir\<close>.\<close>

definition depth_measure :: "string \<Rightarrow> nat" where
  "depth_measure p = (if p = ''.'' then 0 else Suc (length p))"

lemma dropWhile_neq_cases: "dropWhile (\<lambda>x. x \<noteq> c) s = [] \<or> (\<exists>y. dropWhile (\<lambda>x. x \<noteq> c) s = c # y)"
  by (induction s) auto

lemma dir_part:
  "take (length p - length (last_elem p)) p = [] \<or>
   (\<exists>x. take (length p - length (last_elem p)) p = x @ [sep])"
proof -
  define d where "d = take (length p - length (last_elem p)) p"
  have "rev p = takeWhile (\<lambda>c. c \<noteq> sep) (rev p) @ dropWhile (\<lambda>c. c \<noteq> sep) (rev p)" by simp
  then have "p = rev (dropWhile (\<lambda>c. c \<noteq> sep) (rev p)) @ last_elem p"
    unfolding last_elem_def by (metis rev_append rev_rev_ident)
  then have "d = rev (dropWhile (\<lambda>c. c \<noteq> sep) (rev p))"
    unfolding d_def by (metis append_eq_append_conv append_take_drop_id diff_diff_cancel
      length_append length_drop le_add2)
  moreover have "dropWhile (\<lambda>c. c \<noteq> sep) (rev p) = [] \<or>
    (\<exists>y. dropWhile (\<lambda>c. c \<noteq> sep) (rev p) = sep # y)"
    by (rule dropWhile_neq_cases)
  ultimately show ?thesis unfolding d_def [symmetric] by auto
qed

lemma depth_measure_Dir: "Dir p \<noteq> p \<Longrightarrow> depth_measure (Dir p) < depth_measure p"
proof -
  assume ne: "Dir p \<noteq> p"
  define d where "d = take (length p - length (last_elem p)) p"
  have dir: "Dir p = Clean d" by (simp add: Dir_def d_def)
  have nd: "p \<noteq> ''.''"
  proof
    assume "p = ''.''"
    then have "Dir p = ''.''" by (simp add: Dir_def last_elem_def Clean_def of_elems_def Split_def
      IsAbs_def HasPrefix_def)
    with ne \<open>p = ''.''\<close> show False by simp
  qed
  have "prefix d p" by (simp add: d_def take_is_prefix)
  have dlen: "length d \<le> length p" by (simp add: d_def)
  from dir_part [of p] consider "d = []" | "d = [sep]" | x where "d = x @ [sep]" "x \<noteq> []"
    unfolding d_def by (metis append_Nil)
  then show ?thesis
  proof cases
    case 1
    then have "Dir p = ''.''" by (simp add: dir Clean_def of_elems_def Split_def IsAbs_def HasPrefix_def)
    with nd show ?thesis by (simp add: depth_measure_def)
  next
    case 2
    then have "Dir p = ''/''" by (simp add: dir Clean_def of_elems_def Split_def IsAbs_def HasPrefix_def)
    moreover have "length p \<noteq> 1"
    proof
      assume "length p = 1"
      with \<open>prefix d p\<close> have "p = ''/''" using 2 by (cases p) (auto simp: prefix_def)
      with \<open>Dir p = ''/''\<close> ne show False by simp
    qed
    ultimately show ?thesis using nd \<open>prefix d p\<close> 2 by (cases p) (auto simp: depth_measure_def)
  next
    case 3
    with length_Clean_snoc_sep [of x] dir dlen have "length (Dir p) < length p" by simp
    then show ?thesis using nd by (simp add: depth_measure_def)
  qed
qed

end
