(* ===== verification/PathGrants.thy ===== *)
theory PathGrants
  imports GoPath
begin

text \<open>
  Package \<^verbatim>\<open>internal/permission\<close>: the session-scoped store of path grants
  (\<^verbatim>\<open>path_grants.go\<close>), the policy that bounds which paths a chat message may turn into
  grants (\<^verbatim>\<open>path_mention_policy.go\<close>) and \<^verbatim>\<open>home_dir.go\<close>.

  The operating system is the record \<open>host\<close>: working directory, home directories,
  environment, symbolic links and which paths are directories. A grant bucket, a Go
  \<^verbatim>\<open>map[string]struct{}\<close>, is a list without repetitions; where the code ranges over one the
  order is Go's choice, and every statement below is about membership. The store's methods
  are atomic steps here. They hold one lock each, except \<^verbatim>\<open>RegisterMentions\<close>, whose refusal checks
  and whose write of the bucket take the lock one after the other: a change of policy, roots or
  protected directories in between is outside the model. Their first line returns at once on a
  nil receiver, which has no state to model. \<open>'r\<close> is the rule set type of the permission
  library, whose values the store only keeps.
\<close>

section \<open>The operating system\<close>

record host =
  Getwd :: "string option"
  UserHomeDir :: "string option"
  CurrentUserHome :: "string option"
  Getenv :: "string \<Rightarrow> string"
  EvalSymlinks :: "string \<Rightarrow> string option"
  StatIsDir :: "string \<Rightarrow> bool"

definition HomeDir :: "host \<Rightarrow> string option" where
  "HomeDir h = (case UserHomeDir h of
       Some d \<Rightarrow> if d \<noteq> [] then Some d else
         (case CurrentUserHome h of Some u \<Rightarrow> if u = [] then None else Some u | None \<Rightarrow> None)
     | None \<Rightarrow>
         (case CurrentUserHome h of Some u \<Rightarrow> if u = [] then None else Some u | None \<Rightarrow> None))"

section \<open>The store\<close>

record MentionPolicy =
  Confine :: bool
  Home :: string
  Bases :: "string list"
  Denied :: "string list"

datatype LookupKind = LookupKindNone | LookupKindLiteral | LookupKindAncestor
  | LookupKindAncestorSession

record 'r PathGrants =
  grants :: "session_id \<rightharpoonup> string list"
  lineage :: "session_id \<rightharpoonup> session_id"
  derivedRules :: "session_id \<rightharpoonup> 'r"
  roots :: "session_id \<rightharpoonup> string"
  protected :: "session_id \<rightharpoonup> string list"
  shellRefusal :: "session_id \<rightharpoonup> string"
  mention :: "MentionPolicy option"

definition lineageMaxHops :: nat where
  "lineageMaxHops = 4"

definition NewPathGrants :: "'r PathGrants" where
  "NewPathGrants = \<lparr>grants = Map.empty, lineage = Map.empty, derivedRules = Map.empty,
     roots = Map.empty, protected = Map.empty, shellRefusal = Map.empty, mention = None\<rparr>"

text \<open>Reading a Go map: the element type's zero value where the key is absent.\<close>

definition mget :: "'v \<Rightarrow> ('k \<rightharpoonup> 'v) \<Rightarrow> 'k \<Rightarrow> 'v" where
  "mget z m k = (case m k of None \<Rightarrow> z | Some v \<Rightarrow> v)"

abbreviation bucket :: "'r PathGrants \<Rightarrow> session_id \<Rightarrow> string list" where
  "bucket g s \<equiv> mget [] (grants g) s"

definition RegisterProtected ::
  "'r PathGrants \<Rightarrow> session_id \<Rightarrow> string list \<Rightarrow> string \<Rightarrow> 'r PathGrants" where
  "RegisterProtected g sid dirs refusal =
     (if sid = [] then g
      else let g1 = g\<lparr>protected := (protected g)(sid \<mapsto> dirs)\<rparr> in
        if refusal = [] then g1\<lparr>shellRefusal := (shellRefusal g1)(sid := None)\<rparr>
        else g1\<lparr>shellRefusal := (shellRefusal g1)(sid \<mapsto> refusal)\<rparr>)"

text \<open>One turn of the loop per parent link; at most \<^const>\<open>lineageMaxHops\<close> turns.\<close>

fun chain_from :: "nat \<Rightarrow> (session_id \<rightharpoonup> session_id) \<Rightarrow> session_id \<Rightarrow> session_id list \<Rightarrow> session_id list"
where
  "chain_from 0 m cursor seen = []"
| "chain_from (Suc n) m cursor seen =
     (let parent = mget [] m cursor in
      if parent = [] \<or> parent \<in> set seen then []
      else parent # chain_from n m parent (parent # seen))"

definition lineageChain :: "'r PathGrants \<Rightarrow> session_id \<Rightarrow> session_id list" where
  "lineageChain g sid = sid # chain_from lineageMaxHops (lineage g) sid [sid]"

definition Protected :: "'r PathGrants \<Rightarrow> session_id \<Rightarrow> string list" where
  "Protected g sid = (if sid = [] then []
     else concat (map (\<lambda>i. mget [] (protected g) i) (lineageChain g sid)))"

definition ShellRefusal :: "'r PathGrants \<Rightarrow> session_id \<Rightarrow> string" where
  "ShellRefusal g sid = (if sid = [] then []
     else case find (\<lambda>i. mget [] (shellRefusal g) i \<noteq> []) (lineageChain g sid) of
       Some i \<Rightarrow> mget [] (shellRefusal g) i | None \<Rightarrow> [])"

text \<open>Adding paths to a bucket, a map used as a set.\<close>

definition add_paths :: "string list \<Rightarrow> string list \<Rightarrow> string list" where
  "add_paths bkt ps = bkt @ dedup_onto bkt ps"

definition RegisterRoots :: "'r PathGrants \<Rightarrow> session_id \<Rightarrow> string list \<Rightarrow> 'r PathGrants" where
  "RegisterRoots g sid rs =
     (if sid = [] then g
      else let clean = map Clean (filter (\<lambda>r. \<not> (r = [] \<or> \<not> IsAbs r)) rs) in
        if clean = [] then g
        else g\<lparr>grants := (grants g)(sid \<mapsto> add_paths (bucket g sid) clean),
               roots := (roots g)(sid \<mapsto> hd clean)\<rparr>)"

section \<open>Reading paths out of a message\<close>

definition mention_pairs :: "(string \<times> string) list" where
  "mention_pairs = [(''`'', ''`''), (''*'', ''*''), (''_'', ''_''), ([CHR 0x22], [CHR 0x22]),
     ([CHR 0x27], [CHR 0x27]), (''('', '')''), (''['', '']''), (''{'', ''}''), (''<'', ''>'')]"

definition peel_pair :: "string \<times> string \<Rightarrow> string \<Rightarrow> string" where
  "peel_pair pr tok = (case pr of (op, cl) \<Rightarrow>
     if HasPrefix tok op \<and> HasSuffix tok cl \<and> length tok \<ge> length op + length cl
     then take (length tok - length cl - length op) (drop (length op) tok) else tok)"

definition trimMarkdownAndPunct :: "string \<Rightarrow> string" where
  "trimMarkdownAndPunct tok =
     TrimLeft (TrimRight (fold peel_pair mention_pairs (TrimSpace tok))
       (''.,;:!?'' @ [CHR 0x22] @ '')]}>'')) (''([{<'' @ [CHR 0x22, CHR 0x27])"

definition isPathToken :: "string \<Rightarrow> bool" where
  "isPathToken tok =
     (if length tok < 2 then False
      else if HasPrefix tok ''http://'' \<or> HasPrefix tok ''https://'' \<or> HasPrefix tok ''ftp://''
        \<or> HasPrefix tok ''file://'' then False
      else if HasPrefix tok ''~/'' then True
      else if HasPrefix tok ''./'' then True
      else if HasPrefix tok ''/'' then \<not> (length tok \<ge> 2 \<and> tok ! 1 = sep)
      else False)"

fun extract_from :: "string list \<Rightarrow> string list \<Rightarrow> string list" where
  "extract_from seen [] = []"
| "extract_from seen (raw # fs) =
     (let tok = trimMarkdownAndPunct raw in
      if tok = [] then extract_from seen fs
      else if \<not> isPathToken tok then extract_from seen fs
      else if tok \<in> set seen then extract_from seen fs
      else tok # extract_from (tok # seen) fs)"

definition ExtractPathMentions :: "string \<Rightarrow> string list" where
  "ExtractPathMentions msg = (if msg = [] then [] else extract_from [] (Fields msg))"

definition absolutize :: "host \<Rightarrow> string \<Rightarrow> string option" where
  "absolutize h p =
     (if p = [] then None
      else
        let ep = (if p = ''~'' \<or> HasPrefix p ''~/'' then
            (case HomeDir h of None \<Rightarrow> None
             | Some home \<Rightarrow> Some (if p = ''~'' then home else Join_path [home, drop 2 p]))
          else Some p)
        in case ep of None \<Rightarrow> None
           | Some q \<Rightarrow> (case Abs (Getwd h) q of None \<Rightarrow> None | Some a \<Rightarrow> Some (Clean a)))"

definition ensureTrailingSep :: "string \<Rightarrow> string" where
  "ensureTrailingSep p = (if p = [] then p else if HasSuffix p [sep] then p else p @ [sep])"

definition within :: "string \<Rightarrow> string \<Rightarrow> bool" where
  "within p dir = (p = dir \<or> HasPrefix p (ensureTrailingSep dir))"

section \<open>The mention policy\<close>

definition SetMentionPolicy :: "'r PathGrants \<Rightarrow> MentionPolicy \<Rightarrow> 'r PathGrants" where
  "SetMentionPolicy g p = g\<lparr>mention := Some p\<rparr>"

datatype Refusal = RefusedSensitive | RefusedCoversSensitive | RefusedOutsideAllowed

definition sensitiveHomeDirs :: "string list" where
  "sensitiveHomeDirs = [''.ssh'', ''.gnupg'', ''.codex'', ''.aws'', ''.kube'', ''.docker'', ''.netrc'',
     ''.bashrc'', ''.bash_profile'', ''.bash_login'', ''.profile'',
     ''.zshrc'', ''.zprofile'', ''.zshenv'', Join_path [''.local'', ''bin'']]"

definition sensitiveHomePrefixes :: "string list" where
  "sensitiveHomePrefixes = [''.claude'']"

definition sensitiveApps :: "string list" where
  "sensitiveApps = [''nanite'', ''torque'', ''tether'', ''tesseract'', ''hadron'', ''tangent'',
     ''fragments-engine'']"

definition xdgRoots :: "host \<Rightarrow> string \<Rightarrow> string \<Rightarrow> string list \<Rightarrow> string list" where
  "xdgRoots h home env fallback =
     (let r0 = Join_path (home # fallback); v = Getenv h env in
      if IsAbs v \<and> Clean v \<noteq> r0 then [r0, Clean v] else [r0])"

definition sensitiveDirs :: "host \<Rightarrow> string \<Rightarrow> string list \<Rightarrow> string list" where
  "sensitiveDirs h home extra =
     (if home \<noteq> [] then
        let configRoots = xdgRoots h home ''XDG_CONFIG_HOME'' [''.config''];
            dataRoots = xdgRoots h home ''XDG_DATA_HOME'' [''.local'', ''share''];
            stateRoots = xdgRoots h home ''XDG_STATE_HOME'' [''.local'', ''state'']
        in map (\<lambda>rel. Join_path [home, rel]) sensitiveHomeDirs
           @ concat (map (\<lambda>root. [Join_path [root, ''systemd''], Join_path [root, ''autostart'']]) configRoots)
           @ concat (map (\<lambda>root. map (\<lambda>app. Join_path [root, app]) sensitiveApps)
               (configRoots @ dataRoots @ stateRoots))
      else [])
     @ map Clean (filter (\<lambda>d. d \<noteq> []) extra)"

text \<open>The loop climbs one directory per turn and ends at the latest at the root.\<close>

function realPath_from :: "host \<Rightarrow> string \<Rightarrow> string \<Rightarrow> string \<Rightarrow> string" where
  "realPath_from h p rest cur =
     (case EvalSymlinks h cur of
        Some resolved \<Rightarrow> if rest = [] then resolved else Join_path [resolved, rest]
      | None \<Rightarrow>
         (let parent = Dir cur in
          if parent = cur then p
          else realPath_from h p (Join_path [Base cur, rest]) parent))"
  by pat_completeness auto
termination
  by (relation "measure (\<lambda>(h, p, rest, cur). depth_measure cur)") (auto simp: depth_measure_Dir)

declare realPath_from.simps [simp del]

definition realPath :: "host \<Rightarrow> string \<Rightarrow> string" where
  "realPath h p = realPath_from h (Clean p) [] (Clean p)"

definition forms :: "host \<Rightarrow> string \<Rightarrow> string list" where
  "forms h p = (let clean = Clean p; resolved = realPath h clean in
     if resolved = clean then [clean] else [clean, resolved])"

definition policy_home :: "host \<Rightarrow> MentionPolicy option \<Rightarrow> string" where
  "policy_home h pol =
     (let home = (case pol of Some p \<Rightarrow> Home p | None \<Rightarrow> []) in
      if home = [] then (case HomeDir h of Some d \<Rightarrow> d | None \<Rightarrow> []) else home)"

text \<open>The first pair of candidate and denied directory that meet decides.\<close>

fun deny_scan :: "(string \<times> string) list \<Rightarrow> Refusal option" where
  "deny_scan [] = None"
| "deny_scan ((c, dform) # r) =
     (if within c dform then Some RefusedSensitive
      else if within dform c then Some RefusedCoversSensitive
      else deny_scan r)"

definition first_segment :: "string \<Rightarrow> string" where
  "first_segment rel = takeWhile (\<lambda>c. c \<noteq> sep) rel"

definition home_prefix_hit :: "string \<Rightarrow> string \<Rightarrow> bool" where
  "home_prefix_hit c hform = (within c hform \<and>
     (\<exists>pre\<in>set sensitiveHomePrefixes.
        HasPrefix (first_segment (TrimPrefix c (ensureTrailingSep hform))) pre))"

definition confined_inside :: "host \<Rightarrow> MentionPolicy \<Rightarrow> string \<Rightarrow> string \<Rightarrow> bool" where
  "confined_inside h pol home resolved =
     (\<exists>base\<in>set (Bases pol @ (if home \<noteq> [] then [home] else [])).
        base \<noteq> [] \<and> (\<exists>bform\<in>set (forms h base). within resolved bform))"

definition mentionRefusal :: "host \<Rightarrow> MentionPolicy option \<Rightarrow> string \<Rightarrow> Refusal option" where
  "mentionRefusal h pol apath =
     (let home = policy_home h pol;
          extra = (case pol of Some p \<Rightarrow> Denied p | None \<Rightarrow> []);
          cands = forms h apath;
          pairs = concat (map (\<lambda>d. concat (map (\<lambda>dform. map (\<lambda>c. (c, dform)) cands) (forms h d)))
            (sensitiveDirs h home extra))
      in case deny_scan pairs of
           Some r \<Rightarrow> Some r
         | None \<Rightarrow>
             if home \<noteq> [] \<and> (\<exists>hform\<in>set (forms h home). \<exists>c\<in>set cands. home_prefix_hit c hform)
             then Some RefusedSensitive
             else case pol of
               None \<Rightarrow> None
             | Some p \<Rightarrow>
                 if Confine p \<and> \<not> confined_inside h p home (last cands)
                 then Some RefusedOutsideAllowed else None)"

section \<open>Registering mentions\<close>

fun scan_paths :: "host \<Rightarrow> MentionPolicy option \<Rightarrow> string list \<Rightarrow> string list \<Rightarrow> string list \<times> string list"
where
  "scan_paths h pol seen [] = ([], [])"
| "scan_paths h pol seen (p # ps) =
     (if p = [] \<or> p = ''.'' then scan_paths h pol seen ps
      else if p \<in> set seen then scan_paths h pol seen ps
      else case scan_paths h pol (p # seen) ps of (cleaned, refused) \<Rightarrow>
        if mentionRefusal h pol p \<noteq> None then (cleaned, p # refused) else (p # cleaned, refused))"

definition mention_paths :: "host \<Rightarrow> string list \<Rightarrow> string list" where
  "mention_paths h ms = concat (map (\<lambda>m. case absolutize h m of
     None \<Rightarrow> [] | Some a \<Rightarrow> [a, Dir a]) ms)"

definition RegisterMentions ::
  "host \<Rightarrow> 'r PathGrants \<Rightarrow> session_id \<Rightarrow> string \<Rightarrow> 'r PathGrants \<times> string list \<times> string list" where
  "RegisterMentions h g sid msg =
     (if sid = [] \<or> msg = [] then (g, [], [])
      else let mentions = ExtractPathMentions msg in
        if mentions = [] then (g, [], [])
        else case scan_paths h (mention g) [] (mention_paths h mentions) of (cleaned, refused) \<Rightarrow>
          if cleaned = [] then (g, [], refused)
          else (g\<lparr>grants := (grants g)(sid \<mapsto> add_paths (bucket g sid) cleaned)\<rparr>, cleaned, refused))"

definition RegisterFromUserMessage ::
  "host \<Rightarrow> 'r PathGrants \<Rightarrow> session_id \<Rightarrow> string \<Rightarrow> 'r PathGrants \<times> string list" where
  "RegisterFromUserMessage h g sid msg =
     (case RegisterMentions h g sid msg of (g', granted, _) \<Rightarrow> (g', granted))"

section \<open>Lookups\<close>

definition lookupInBucket :: "string list \<Rightarrow> string \<Rightarrow> bool \<times> LookupKind" where
  "lookupInBucket bkt apath =
     (if bkt = [] then (False, LookupKindNone)
      else if apath \<in> set bkt then (True, LookupKindLiteral)
      else if (\<exists>granted\<in>set bkt. granted \<noteq> [] \<and> HasPrefix apath (ensureTrailingSep granted))
        then (True, LookupKindAncestor)
      else (False, LookupKindNone))"

text \<open>
  The result and whether the walk stopped at the depth cap, which the code logs.
\<close>

fun lookup_walk :: "nat \<Rightarrow> 'r PathGrants \<Rightarrow> string \<Rightarrow> session_id \<Rightarrow> session_id list
    \<Rightarrow> (bool \<times> LookupKind \<times> session_id) \<times> bool"
where
  "lookup_walk 0 g apath cursor visited = ((False, LookupKindNone, []), True)"
| "lookup_walk (Suc n) g apath cursor visited =
     (case lineage g cursor of
        None \<Rightarrow> ((False, LookupKindNone, []), False)
      | Some parent \<Rightarrow>
          if parent = [] then ((False, LookupKindNone, []), False)
          else if parent \<in> set visited then ((False, LookupKindNone, []), False)
          else if fst (lookupInBucket (bucket g parent) apath)
            then ((True, LookupKindAncestorSession, parent), False)
          else lookup_walk n g apath parent (parent # visited))"

definition LookupPath ::
  "host \<Rightarrow> 'r PathGrants \<Rightarrow> session_id \<Rightarrow> string \<Rightarrow> bool \<times> LookupKind \<times> session_id" where
  "LookupPath h g sid candidate =
     (if sid = [] \<or> candidate = [] then (False, LookupKindNone, [])
      else case absolutize h candidate of
        None \<Rightarrow> (False, LookupKindNone, [])
      | Some apath \<Rightarrow>
          (case lookupInBucket (bucket g sid) apath of (m, k) \<Rightarrow>
             if m then (True, k, []) else fst (lookup_walk lineageMaxHops g apath sid [sid])))"

definition IsPathAllowed :: "host \<Rightarrow> 'r PathGrants \<Rightarrow> session_id \<Rightarrow> string \<Rightarrow> bool" where
  "IsPathAllowed h g sid candidate = fst (LookupPath h g sid candidate)"

definition RegisterLineage :: "'r PathGrants \<Rightarrow> session_id \<Rightarrow> session_id \<Rightarrow> 'r PathGrants" where
  "RegisterLineage g child parent = (if child = [] \<or> parent = [] then g
     else g\<lparr>lineage := (lineage g)(child \<mapsto> parent)\<rparr>)"

definition ClearLineage :: "'r PathGrants \<Rightarrow> session_id \<Rightarrow> 'r PathGrants" where
  "ClearLineage g sid = (if sid = [] then g
     else g\<lparr>lineage := (lineage g)(sid := None), derivedRules := (derivedRules g)(sid := None)\<rparr>)"

definition RegisterDerivedRules :: "'r PathGrants \<Rightarrow> session_id \<Rightarrow> 'r option \<Rightarrow> 'r PathGrants" where
  "RegisterDerivedRules g sid rules = (case rules of
       None \<Rightarrow> g
     | Some r \<Rightarrow> if sid = [] then g else g\<lparr>derivedRules := (derivedRules g)(sid \<mapsto> r)\<rparr>)"

definition LookupDerivedRules :: "'r PathGrants \<Rightarrow> session_id \<Rightarrow> 'r option" where
  "LookupDerivedRules g sid = (if sid = [] then None else derivedRules g sid)"

definition BucketSize :: "'r PathGrants \<Rightarrow> session_id \<Rightarrow> nat" where
  "BucketSize g sid = (if sid = [] then 0 else length (bucket g sid))"

fun collect_walk :: "nat \<Rightarrow> 'r PathGrants \<Rightarrow> session_id \<Rightarrow> session_id list \<Rightarrow> string list" where
  "collect_walk 0 g cursor visited = []"
| "collect_walk (Suc n) g cursor visited =
     (case lineage g cursor of
        None \<Rightarrow> []
      | Some parent \<Rightarrow>
          if parent = [] then [] else if parent \<in> set visited then []
          else bucket g parent @ collect_walk n g parent (parent # visited))"

definition BestSessionDir :: "host \<Rightarrow> 'r PathGrants \<Rightarrow> session_id \<Rightarrow> string" where
  "BestSessionDir h g sid =
     (if sid = [] then []
      else let root = mget [] (roots g) sid in
        if root \<noteq> [] \<and> StatIsDir h root then root
        else let candidates = bucket g sid @ collect_walk lineageMaxHops g sid [sid];
                 sorted = sort_key (\<lambda>p. - int (length p)) candidates
          in case find (StatIsDir h) (dedup_onto [] sorted) of Some p \<Rightarrow> p | None \<Rightarrow> [])"

definition Clear :: "'r PathGrants \<Rightarrow> session_id \<Rightarrow> 'r PathGrants" where
  "Clear g sid = (if sid = [] then g
     else g\<lparr>grants := (grants g)(sid := None), roots := (roots g)(sid := None),
            protected := (protected g)(sid := None), shellRefusal := (shellRefusal g)(sid := None),
            derivedRules := (derivedRules g)(sid := None)\<rparr>)"

definition ListGrants :: "'r PathGrants \<Rightarrow> session_id \<Rightarrow> string list" where
  "ListGrants g sid = (if sid = [] then [] else bucket g sid)"

definition ListLineageGrants :: "'r PathGrants \<Rightarrow> session_id \<Rightarrow> string list" where
  "ListLineageGrants g sid = (if sid = [] then [] else collect_walk lineageMaxHops g sid [sid])"

section \<open>Containment of paths\<close>

lemma within_refl [simp]: "within p p"
  by (simp add: within_def)

lemma within_not_Nil: "d \<noteq> [] \<Longrightarrow> within p d \<Longrightarrow> p \<noteq> []"
  by (auto simp: within_def ensureTrailingSep_def HasPrefix_def split: if_splits)

text \<open>Two directories that contain a common path contain one another.\<close>

lemma within_comparable_strict:
  assumes "prefix (ensureTrailingSep g) (ensureTrailingSep d)"
  shows "within g d \<or> within d g"
proof (cases "d = [] \<or> HasSuffix d [sep]")
  case True
  with assms show ?thesis by (auto simp: within_def ensureTrailingSep_def HasPrefix_def split: if_splits)
next
  case False
  then have d: "ensureTrailingSep d = d @ [sep]" by (simp add: ensureTrailingSep_def)
  from assms have "ensureTrailingSep g = d @ [sep] \<or> prefix (ensureTrailingSep g) d"
    unfolding d by (rule prefix_snoc_cases)
  then show ?thesis
  proof
    assume "ensureTrailingSep g = d @ [sep]"
    then show ?thesis
      by (auto simp: within_def HasPrefix_def d ensureTrailingSep_def [of g] split: if_splits)
  qed (simp add: within_def HasPrefix_def)
qed

lemma within_comparable:
  assumes "within c g" and "within c d"
  shows "within g d \<or> within d g"
proof -
  consider "c = g" | "c = d"
    | "prefix (ensureTrailingSep g) c" "prefix (ensureTrailingSep d) c"
    using assms by (auto simp: within_def HasPrefix_def)
  then show ?thesis
  proof cases
    case 3
    then have "prefix (ensureTrailingSep g) (ensureTrailingSep d) \<or>
        prefix (ensureTrailingSep d) (ensureTrailingSep g)"
      by (rule prefix_comparable)
    then show ?thesis using within_comparable_strict by blast
  qed (use assms in auto)
qed

lemma lookupInBucket_iff:
  "fst (lookupInBucket bkt a) \<longleftrightarrow>
     a \<in> set bkt \<or> (\<exists>g\<in>set bkt. g \<noteq> [] \<and> HasPrefix a (ensureTrailingSep g))"
  by (auto simp: lookupInBucket_def)

lemma lookupInBucket_within:
  "fst (lookupInBucket bkt a) \<Longrightarrow> \<exists>g\<in>set bkt. within a g"
  by (auto simp: lookupInBucket_iff within_def)

section \<open>What the mention policy lets through\<close>

lemma deny_scan_None:
  "deny_scan ps = None \<longleftrightarrow> (\<forall>(c, d)\<in>set ps. \<not> within c d \<and> \<not> within d c)"
  by (induction ps rule: deny_scan.induct) auto

lemma forms_clean: "Clean p \<in> set (forms h p)"
  by (simp add: forms_def Let_def)

lemma mentionRefusal_None_apart:
  assumes "mentionRefusal h pol p = None"
    and "d \<in> set (sensitiveDirs h (policy_home h pol) (case pol of Some q \<Rightarrow> Denied q | None \<Rightarrow> []))"
    and "df \<in> set (forms h d)" and "c \<in> set (forms h p)"
  shows "\<not> within c df \<and> \<not> within df c"
proof -
  define pairs where "pairs = concat (map (\<lambda>d. concat (map (\<lambda>dform. map (\<lambda>c. (c, dform)) (forms h p))
      (forms h d))) (sensitiveDirs h (policy_home h pol) (case pol of Some q \<Rightarrow> Denied q | None \<Rightarrow> [])))"
  have "deny_scan pairs = None"
    using assms(1) unfolding mentionRefusal_def Let_def pairs_def
    by (auto split: option.splits)
  moreover have "(c, df) \<in> set pairs"
    using assms(2-4) by (auto simp: pairs_def)
  ultimately show ?thesis by (auto simp: deny_scan_None)
qed

lemma mentionRefusal_None_confined:
  assumes "mentionRefusal h (Some pol) p = None" and "Confine pol"
  shows "confined_inside h pol (policy_home h (Some pol)) (last (forms h p))"
  using assms unfolding mentionRefusal_def Let_def
  by (auto split: option.splits if_splits)

lemma scan_paths_split:
  "scan_paths h pol seen ps = (c, r) \<Longrightarrow>
     (q \<in> set c \<longleftrightarrow> q \<in> set ps \<and> q \<notin> set seen \<and> q \<noteq> [] \<and> q \<noteq> ''.'' \<and> mentionRefusal h pol q = None) \<and>
     (q \<in> set r \<longleftrightarrow> q \<in> set ps \<and> q \<notin> set seen \<and> q \<noteq> [] \<and> q \<noteq> ''.'' \<and> mentionRefusal h pol q \<noteq> None)"
proof (induction ps arbitrary: seen c r)
  case (Cons p ps)
  show ?case
  proof (cases "p = [] \<or> p = ''.'' \<or> p \<in> set seen")
    case True
    with Cons.prems have "scan_paths h pol seen ps = (c, r)" by (auto split: if_splits)
    from Cons.IH [OF this] True show ?thesis by auto
  next
    case False
    obtain c' r' where e: "scan_paths h pol (p # seen) ps = (c', r')" by fastforce
    with Cons.prems False have "(c, r) =
        (if mentionRefusal h pol p \<noteq> None then (c', p # r') else (p # c', r'))"
      by simp
    with Cons.IH [OF e] False show ?thesis by (cases "mentionRefusal h pol p") auto
  qed
qed simp

lemma set_add_paths [simp]: "set (add_paths bkt ps) = set bkt \<union> set ps"
  by (auto simp: add_paths_def set_dedup_onto)

lemma distinct_add_paths: "distinct bkt \<Longrightarrow> distinct (add_paths bkt ps)"
  by (auto simp: add_paths_def set_dedup_onto distinct_dedup_onto)

lemma mget_upd [simp]: "mget z (m(k \<mapsto> v)) k' = (if k' = k then v else mget z m k')"
  "mget z (m(k := None)) k' = (if k' = k then z else mget z m k')"
  by (auto simp: mget_def)

lemma mget_empty [simp]: "mget z Map.empty k = z"
  by (simp add: mget_def)

lemma RegisterMentions_bucket:
  "set (bucket (fst (RegisterMentions h g sid msg)) s) =
     set (bucket g s) \<union> (if s = sid then set (fst (snd (RegisterMentions h g sid msg))) else {})"
  by (auto simp: RegisterMentions_def Let_def split: prod.splits)

lemma RegisterMentions_granted:
  "p \<in> set (fst (snd (RegisterMentions h g sid msg))) \<Longrightarrow>
     mentionRefusal h (mention g) p = None \<and> p \<in> set (mention_paths h (ExtractPathMentions msg))"
  by (auto simp: RegisterMentions_def Let_def split: prod.splits if_splits dest: scan_paths_split)

lemma RegisterMentions_frame [frame]:
  "lineage (fst (RegisterMentions h g sid msg)) = lineage g"
  "mention (fst (RegisterMentions h g sid msg)) = mention g"
  "roots (fst (RegisterMentions h g sid msg)) = roots g"
  "protected (fst (RegisterMentions h g sid msg)) = protected g"
  "shellRefusal (fst (RegisterMentions h g sid msg)) = shellRefusal g"
  "derivedRules (fst (RegisterMentions h g sid msg)) = derivedRules g"
  by (auto simp: RegisterMentions_def Let_def split: prod.splits)

lemma absolutize_clean: "absolutize h p = Some a \<Longrightarrow> Clean a = a"
  by (auto simp: absolutize_def Let_def Clean_idem split: if_splits option.splits)

lemma absolutize_abs:
  "absolutize h p = Some a \<Longrightarrow> (\<And>w. Getwd h = Some w \<Longrightarrow> IsAbs w) \<Longrightarrow> IsAbs a"
  by (auto simp: absolutize_def Let_def split: if_splits option.splits dest: Abs_Some_abs)

lemma Dir_IsAbs: "IsAbs p \<Longrightarrow> IsAbs (Dir p)"
proof -
  assume "IsAbs p"
  then obtain r where p: "p = sep # r" by (cases p) (auto simp: IsAbs_def HasPrefix_def)
  have "length (last_elem p) \<le> length (takeWhile (\<lambda>c. c \<noteq> sep) (rev r))"
    unfolding last_elem_def p by (simp add: takeWhile_tail)
  also have "\<dots> \<le> length r" using length_takeWhile_le [of "\<lambda>c. c \<noteq> sep" "rev r"] by simp
  finally have "length (last_elem p) < length p" by (simp add: p)
  then have "IsAbs (take (length p - length (last_elem p)) p)"
    by (cases "length p - length (last_elem p)") (auto simp: p IsAbs_def HasPrefix_def)
  then show ?thesis by (simp add: Dir_def)
qed

lemma mention_paths_clean:
  "p \<in> set (mention_paths h ms) \<Longrightarrow> Clean p = p"
  by (auto simp: mention_paths_def Dir_def Clean_idem dest: absolutize_clean [OF sym] split: option.splits)

lemma mention_paths_abs:
  "p \<in> set (mention_paths h ms) \<Longrightarrow> (\<And>w. Getwd h = Some w \<Longrightarrow> IsAbs w) \<Longrightarrow> IsAbs p"
  by (auto simp: mention_paths_def intro!: Dir_IsAbs intro: absolutize_abs [OF sym] split: option.splits)

section \<open>The store as a machine\<close>

text \<open>One constructor per method that writes the store.\<close>

datatype 'r grant_op =
    Mentions session_id string
  | Roots session_id "string list"
  | Protect session_id "string list" string
  | Lineage session_id session_id
  | EndLineage session_id
  | Derive session_id "'r option"
  | EndSession session_id
  | Policy MentionPolicy

fun grants_step :: "host \<Rightarrow> 'r PathGrants \<Rightarrow> 'r grant_op \<Rightarrow> 'r PathGrants" where
  "grants_step h g (Mentions s msg) = fst (RegisterMentions h g s msg)"
| "grants_step h g (Roots s rs) = RegisterRoots g s rs"
| "grants_step h g (Protect s ds r) = RegisterProtected g s ds r"
| "grants_step h g (Lineage c p) = RegisterLineage g c p"
| "grants_step h g (EndLineage s) = ClearLineage g s"
| "grants_step h g (Derive s r) = RegisterDerivedRules g s r"
| "grants_step h g (EndSession s) = Clear g s"
| "grants_step h g (Policy p) = SetMentionPolicy g p"

definition clean_roots :: "string list \<Rightarrow> string list" where
  "clean_roots rs = map Clean (filter (\<lambda>r. \<not> (r = [] \<or> \<not> IsAbs r)) rs)"

fun op_roots :: "'r grant_op \<Rightarrow> string set" where
  "op_roots (Roots s rs) = set (clean_roots rs)"
| "op_roots x = {}"

fun is_policy :: "'r grant_op \<Rightarrow> bool" where
  "is_policy (Policy p) = True"
| "is_policy x = False"

lemmas grant_op_defs = RegisterProtected_def RegisterLineage_def ClearLineage_def
  RegisterDerivedRules_def SetMentionPolicy_def

lemma RegisterRoots_bucket:
  "bucket (RegisterRoots g s rs) t =
     (if t = s \<and> s \<noteq> [] \<and> clean_roots rs \<noteq> [] then add_paths (bucket g s) (clean_roots rs)
      else bucket g t)"
  by (simp add: RegisterRoots_def clean_roots_def Let_def)

lemma Clear_bucket: "bucket (Clear g s) t = (if t = s \<and> s \<noteq> [] then [] else bucket g t)"
  by (simp add: Clear_def)

lemma grants_same [frame]:
  "grants (RegisterProtected g s ds r) = grants g"
  "grants (RegisterLineage g c p) = grants g"
  "grants (ClearLineage g s) = grants g"
  "grants (RegisterDerivedRules g s rules) = grants g"
  "grants (SetMentionPolicy g pol) = grants g"
  by (auto simp: grant_op_defs Let_def split: option.splits)

lemma clean_roots_shape: "p \<in> set (clean_roots rs) \<Longrightarrow> IsAbs p \<and> Clean p = p"
  by (auto simp: clean_roots_def Clean_idem)

subsection \<open>Stored grants are clean, absolute and without repetition\<close>

definition grants_wf :: "'r PathGrants \<Rightarrow> bool" where
  "grants_wf g \<longleftrightarrow> (\<forall>s. distinct (bucket g s) \<and> (\<forall>p\<in>set (bucket g s). IsAbs p \<and> Clean p = p))"

lemma grants_wf_upd:
  assumes "grants_wf g" and "distinct (bucket g' s)"
    and "\<And>t. t \<noteq> s \<Longrightarrow> bucket g' t = bucket g t"
    and "\<And>p. p \<in> set (bucket g' s) \<Longrightarrow> p \<in> set (bucket g s) \<or> IsAbs p \<and> Clean p = p"
  shows "grants_wf g'"
  using assms unfolding grants_wf_def by metis

lemma grants_wf_Mentions:
  assumes wf: "grants_wf g" and wd: "\<And>w. Getwd h = Some w \<Longrightarrow> IsAbs w"
  shows "grants_wf (fst (RegisterMentions h g s msg))"
proof (rule grants_wf_upd [OF wf])
  show "distinct (bucket (fst (RegisterMentions h g s msg)) s)"
    using wf by (auto simp: RegisterMentions_def grants_wf_def Let_def distinct_add_paths split: prod.splits)
  show "bucket (fst (RegisterMentions h g s msg)) t = bucket g t" if "t \<noteq> s" for t
    using that by (auto simp: RegisterMentions_def Let_def split: prod.splits)
  show "p \<in> set (bucket g s) \<or> IsAbs p \<and> Clean p = p"
    if "p \<in> set (bucket (fst (RegisterMentions h g s msg)) s)" for p
    using that by (auto simp: RegisterMentions_bucket dest!: RegisterMentions_granted
      intro: mention_paths_clean mention_paths_abs [OF _ wd])
qed

lemma grants_wf_Roots:
  assumes wf: "grants_wf g"
  shows "grants_wf (RegisterRoots g s rs)"
  using wf
  by (intro grants_wf_upd [OF wf, of _ s])
     (auto simp: RegisterRoots_bucket grants_wf_def intro: distinct_add_paths dest: clean_roots_shape
       split: if_splits)

lemma grants_wf_same: "grants_wf g \<Longrightarrow> grants g' = grants g \<Longrightarrow> grants_wf g'"
  by (simp add: grants_wf_def)

lemma grants_wf_Clear: "grants_wf g \<Longrightarrow> grants_wf (Clear g s)"
  by (auto simp: grants_wf_def Clear_bucket)

lemma grants_wf_step:
  assumes wf: "grants_wf g" and wd: "\<And>w. Getwd h = Some w \<Longrightarrow> IsAbs w"
  shows "grants_wf (grants_step h g x)"
  by (cases x)
     (simp_all add: grants_wf_Mentions [OF wf wd] grants_wf_Roots [OF wf] grants_wf_Clear [OF wf]
       grants_wf_same [OF wf] frame)

section \<open>The lineage walk\<close>

lemma length_chain_from: "length (chain_from n m c seen) \<le> n"
  by (induction n m c seen rule: chain_from.induct) (auto simp: Let_def)

lemma chain_from_fresh: "x \<in> set (chain_from n m c seen) \<Longrightarrow> x \<notin> set seen \<and> x \<noteq> []"
  by (induction n m c seen rule: chain_from.induct) (auto simp: Let_def split: if_splits)

lemma distinct_chain_from: "distinct (chain_from n m c seen)"
  by (induction n m c seen rule: chain_from.induct) (auto simp: Let_def dest: chain_from_fresh)

lemma lookup_walk_iff:
  "fst (fst (lookup_walk n g a c vis)) \<longleftrightarrow>
     (\<exists>s\<in>set (chain_from n (lineage g) c vis). fst (lookupInBucket (bucket g s) a))"
  by (induction n g a c vis rule: lookup_walk.induct) (auto simp: Let_def mget_def split: option.splits)

lemma lookup_walk_via:
  "lookup_walk n g a c vis = ((True, k, v), b) \<Longrightarrow>
     k = LookupKindAncestorSession \<and> v \<in> set (chain_from n (lineage g) c vis) \<and>
     fst (lookupInBucket (bucket g v) a)"
  by (induction n g a c vis rule: lookup_walk.induct)
     (auto simp: Let_def mget_def split: option.splits if_splits)

lemma collect_walk_chain:
  "collect_walk n g c vis = concat (map (bucket g) (chain_from n (lineage g) c vis))"
  by (induction n g c vis rule: collect_walk.induct) (auto simp: Let_def mget_def split: option.splits)

lemma lookup_within:
  "a \<noteq> [] \<Longrightarrow> fst (lookupInBucket bkt a) \<longleftrightarrow> (\<exists>p\<in>set bkt. p \<noteq> [] \<and> within a p)"
  by (auto simp: lookupInBucket_iff within_def)

lemma absolutize_not_Nil: "absolutize h p = Some a \<Longrightarrow> a \<noteq> []"
  using absolutize_clean Clean_not_Nil by metis

lemma IsPathAllowed_chain:
  "IsPathAllowed h g sid c \<longleftrightarrow> sid \<noteq> [] \<and>
     (\<exists>a. absolutize h c = Some a \<and>
       (\<exists>s\<in>set (lineageChain g sid). \<exists>p\<in>set (bucket g s). p \<noteq> [] \<and> within a p))"
proof (cases "absolutize h c")
  case None
  then show ?thesis by (simp add: IsPathAllowed_def LookupPath_def)
next
  case (Some a)
  then have c: "c \<noteq> []" and a: "a \<noteq> []" by (auto simp: absolutize_def absolutize_not_Nil [OF Some])
  show ?thesis
    using Some c by (auto simp: IsPathAllowed_def LookupPath_def lineageChain_def lookup_walk_iff
      lookup_within [OF a] split: prod.splits) (metis a fst_conv lookup_within)+
qed

section \<open>Where a grant can come from\<close>

definition grant_origin :: "host \<Rightarrow> MentionPolicy option \<Rightarrow> string set \<Rightarrow> 'r PathGrants \<Rightarrow> bool" where
  "grant_origin h pol R g \<longleftrightarrow> mention g = pol \<and>
     (\<forall>s. \<forall>p\<in>set (bucket g s). p \<in> R \<or> mentionRefusal h pol p = None \<and> Clean p = p)"

lemma mention_same [frame]:
  "mention (RegisterRoots g s rs) = mention g"
  "mention (RegisterProtected g s ds r) = mention g"
  "mention (RegisterLineage g c p) = mention g"
  "mention (ClearLineage g s) = mention g"
  "mention (RegisterDerivedRules g s rules) = mention g"
  "mention (Clear g s) = mention g"
  by (auto simp: grant_op_defs RegisterRoots_def Clear_def Let_def split: option.splits)

lemma grant_origin_step:
  assumes "grant_origin h pol R g" and "\<not> is_policy x \<and> op_roots x \<subseteq> R"
  shows "grant_origin h pol R (grants_step h g x)"
proof (cases x)
  case (Mentions s msg)
  then show ?thesis
    using assms(1) by (auto simp: grant_origin_def frame RegisterMentions_bucket
      dest: RegisterMentions_granted mention_paths_clean split: if_splits)
next
  case (Roots s rs)
  with assms show ?thesis
    by (auto simp: grant_origin_def frame RegisterRoots_bucket split: if_splits)
next
  case (EndSession s)
  with assms show ?thesis by (auto simp: grant_origin_def frame Clear_bucket split: if_splits)
qed (use assms in \<open>auto simp: grant_origin_def frame\<close>)

lemma grant_origin_init: "grant_origin h pol R (NewPathGrants\<lparr>mention := pol\<rparr>)"
  by (simp add: grant_origin_def NewPathGrants_def mget_def)

interpretation grant_store: invariant_machine "NewPathGrants\<lparr>mention := pol\<rparr>" "grants_step h"
  "\<lambda>x. \<not> is_policy x \<and> op_roots x \<subseteq> R" "grant_origin h pol R"
  for h pol R
  by unfold_locales (simp add: grant_origin_init, rule grant_origin_step)

text \<open>What a session sees of its own entries.\<close>

definition session_view :: "session_id \<Rightarrow> 'r PathGrants \<Rightarrow> string list option \<times> string option
    \<times> string list option \<times> string option \<times> session_id option \<times> 'r option \<times> MentionPolicy option"
where
  "session_view k g = (grants g k, roots g k, protected g k, shellRefusal g k, lineage g k,
     derivedRules g k, mention g)"

fun op_touches :: "'r grant_op \<Rightarrow> session_id \<Rightarrow> bool" where
  "op_touches (Mentions s msg) k = (k = s)"
| "op_touches (Roots s rs) k = (k = s)"
| "op_touches (Protect s ds r) k = (k = s)"
| "op_touches (Lineage c p) k = (k = c)"
| "op_touches (EndLineage s) k = (k = s)"
| "op_touches (Derive s r) k = (k = s)"
| "op_touches (EndSession s) k = (k = s)"
| "op_touches (Policy p) k = True"

lemma session_view_untouched: "\<not> op_touches x k \<Longrightarrow> session_view k (grants_step h g x) = session_view k g"
  by (cases x)
     (auto simp: session_view_def grant_op_defs RegisterRoots_def Clear_def RegisterMentions_def Let_def
       split: option.splits prod.splits)

lemma session_view_local:
  "session_view k g = session_view k g' \<Longrightarrow>
   session_view k (grants_step h g x) = session_view k (grants_step h g' x)"
  by (cases x)
     (auto simp: session_view_def grant_op_defs RegisterRoots_def Clear_def RegisterMentions_def Let_def
       mget_def split: option.splits prod.splits)

interpretation grant_sessions: keyed_machine "grants_step h" op_touches session_view for h
  by unfold_locales (auto simp: session_view_untouched intro: session_view_local)

interpretation grant_shape: invariant_machine "NewPathGrants\<lparr>mention := pol\<rparr>" "grants_step h"
  "\<lambda>x. \<forall>w. Getwd h = Some w \<longrightarrow> IsAbs w" grants_wf
  for h pol
  by unfold_locales
     (simp add: grants_wf_def NewPathGrants_def, simp add: grants_wf_step)

lemma sorted_dedup_onto: "sorted (map f xs) \<Longrightarrow> sorted (map f (dedup_onto seen xs))"
  by (induction seen xs rule: dedup_onto.induct) (auto simp: set_dedup_onto)

lemma find_first_sorted:
  "sorted (map f xs) \<Longrightarrow> find P xs = Some d \<Longrightarrow> P d \<and> d \<in> set xs \<and> (\<forall>q\<in>set xs. P q \<longrightarrow> f d \<le> f q)"
  by (induction xs) (auto split: if_splits)

lemma find_longest:
  assumes "find P (dedup_onto [] (sort_key (\<lambda>p. - int (length p)) xs)) = Some d"
  shows "P d \<and> d \<in> set xs \<and> (\<forall>q\<in>set xs. P q \<longrightarrow> length q \<le> length d)"
  using find_first_sorted [OF sorted_dedup_onto assms, of "\<lambda>p. - int (length p)"]
  by (auto simp: set_dedup_onto)

section \<open>Properties\<close>

lemma lineageChain_bounded:
  "length (lineageChain g sid) \<le> Suc lineageMaxHops \<and> distinct (lineageChain g sid)"
  by (auto simp: lineageChain_def length_chain_from distinct_chain_from dest: chain_from_fresh)

abbreviation sensitive_for :: "host \<Rightarrow> MentionPolicy option \<Rightarrow> string list" where
  "sensitive_for h pol \<equiv>
     sensitiveDirs h (policy_home h pol) (case pol of Some q \<Rightarrow> Denied q | None \<Rightarrow> [])"

text \<open>
  C1. Whatever messages, lineage links and session endings a store sees under a fixed
  mention policy, a path it allows is either inside a root that was registered for some
  session, or outside every sensitive directory, in the directory's cleaned form and in
  its symlink-resolved form. In particular no chat message can open such a directory,
  neither by naming it nor by naming one of its ancestors.
\<close>

theorem allowed_avoids_sensitive:
  assumes ops: "\<forall>x\<in>set xs. \<not> is_policy x \<and> op_roots x \<subseteq> R"
    and allowed: "IsPathAllowed h (foldl (grants_step h) (NewPathGrants\<lparr>mention := pol\<rparr>) xs) sid c"
    and abs: "absolutize h c = Some a"
  shows "(\<exists>r\<in>R. within a r) \<or>
    (\<forall>d\<in>set (sensitive_for h pol). \<forall>df\<in>set (forms h d). \<not> within a df)"
proof -
  let ?g = "foldl (grants_step h) (NewPathGrants\<lparr>mention := pol\<rparr>) xs"
  have "grant_origin h pol R ?g" using ops by (rule grant_store.inv_run)
  moreover obtain s p where p: "p \<in> set (bucket ?g s)" "within a p"
    using allowed abs by (auto simp: IsPathAllowed_chain)
  ultimately consider "p \<in> R" | "mentionRefusal h pol p = None" "Clean p = p"
    unfolding grant_origin_def by metis
  then show ?thesis
  proof cases
    case 2
    then have "p \<in> set (forms h p)" using forms_clean [of p h] by simp
    then show ?thesis
      using 2 p(2) mentionRefusal_None_apart [of h pol p] within_comparable by blast
  qed (use p(2) in blast)
qed

text \<open>
  C2. A lookup reaches the session's own grants and those of at most four distinct
  ancestors along the lineage links, even if the links form a cycle, and allows a path
  exactly if one of these grants contains it.
\<close>

theorem lookup_covers_lineage:
  "(IsPathAllowed h g sid c \<longleftrightarrow> sid \<noteq> [] \<and>
     (\<exists>a. absolutize h c = Some a \<and>
       (\<exists>s\<in>set (lineageChain g sid). \<exists>p\<in>set (bucket g s). p \<noteq> [] \<and> within a p)))
   \<and> hd (lineageChain g sid) = sid \<and> length (lineageChain g sid) \<le> 5 \<and> distinct (lineageChain g sid)"
  using lineageChain_bounded [of g sid]
  by (simp add: IsPathAllowed_chain) (simp add: lineageChain_def lineageMaxHops_def)

text \<open>
  C3. Sessions do not interfere: what the store keeps for a session after any interleaving
  of operations is what it keeps after the operations on that session (and changes of the
  policy) alone.
\<close>

theorem sessions_isolated:
  "session_view k (foldl (grants_step h) g xs) =
   session_view k (foldl (grants_step h) g (filter (\<lambda>x. op_touches x k) xs))"
  by (rule grant_sessions.run_project)

text \<open>
  C6. When the working directory is absolute, every stored grant is an absolute path in
  cleaned form and no bucket holds a path twice, whatever the sequence of operations.
\<close>

theorem grants_always_clean:
  assumes "\<forall>w. Getwd h = Some w \<longrightarrow> IsAbs w"
  shows "distinct (bucket (foldl (grants_step h) (NewPathGrants\<lparr>mention := pol\<rparr>) xs) s) \<and>
    (\<forall>p\<in>set (bucket (foldl (grants_step h) (NewPathGrants\<lparr>mention := pol\<rparr>) xs) s). IsAbs p \<and> Clean p = p)"
  using grant_shape.inv_run [of xs h pol] assms by (simp add: grants_wf_def)

text \<open>
  C4. Registering a message splits the paths it mentions (each mention and its parent
  directory) into granted and refused: a path is granted exactly if the policy has no
  refusal for it, refused paths leave the session's bucket alone, and every granted path
  is allowed afterwards.
\<close>

theorem mentions_split:
  assumes "sid \<noteq> []" and "RegisterMentions h g sid msg = (g', granted, refused)"
  shows "set granted = {p \<in> set (mention_paths h (ExtractPathMentions msg)) - {''.''}. mentionRefusal h (mention g) p = None}
    \<and> set refused = {p \<in> set (mention_paths h (ExtractPathMentions msg)) - {''.''}. mentionRefusal h (mention g) p \<noteq> None}
    \<and> set (bucket g' sid) = set (bucket g sid) \<union> set granted
    \<and> (\<forall>s. s \<noteq> sid \<longrightarrow> bucket g' s = bucket g s)"
proof (cases "ExtractPathMentions msg = []")
  case True
  with assms show ?thesis by (auto simp: RegisterMentions_def mention_paths_def Let_def split: if_splits)
next
  case False
  then have msg: "msg \<noteq> []" by (auto simp: ExtractPathMentions_def)
  obtain c r where scan: "scan_paths h (mention g) [] (mention_paths h (ExtractPathMentions msg)) = (c, r)"
    by fastforce
  have "granted = c \<and> refused = r"
    using assms False msg scan by (auto simp: RegisterMentions_def Let_def split: if_splits)
  moreover have "p \<noteq> []" if "p \<in> set (mention_paths h (ExtractPathMentions msg))" for p
    using mention_paths_clean [OF that] Clean_not_Nil by metis
  ultimately show ?thesis
    using scan_paths_split [OF scan] RegisterMentions_bucket [of h g sid msg sid] assms
    by (auto simp: RegisterMentions_def Let_def split: if_splits prod.splits)
qed

text \<open>
  C5. A mention granted under a confining policy resolves, symlinks included, to a path
  inside the policy's home directory or one of its bases.
\<close>

theorem confined_mentions_inside:
  assumes "mention g = Some pol" and "Confine pol"
    and "p \<in> set (fst (snd (RegisterMentions h g sid msg)))"
  shows "\<exists>base\<in>set (Bases pol) \<union> {policy_home h (Some pol)}. base \<noteq> [] \<and>
    (\<exists>bform\<in>set (forms h base). within (realPath h (Clean p)) bform)"
proof -
  have "confined_inside h pol (policy_home h (Some pol)) (last (forms h p))"
    using RegisterMentions_granted [OF assms(3)] assms(1,2) mentionRefusal_None_confined by metis
  moreover have "last (forms h p) = realPath h (Clean p)" by (simp add: forms_def Let_def)
  ultimately show ?thesis by (auto simp: confined_inside_def split: if_splits)
qed

lemma Clear_mget:
  "t \<noteq> sid \<Longrightarrow> mget z (protected (Clear g sid)) t = mget z (protected g) t"
  "t \<noteq> sid \<Longrightarrow> mget y (shellRefusal (Clear g sid)) t = mget y (shellRefusal g) t"
  by (simp_all add: Clear_def)

lemma Clear_unrelated:
  assumes "sid \<notin> set (lineageChain g s)"
  shows "Protected (Clear g sid) s = Protected g s \<and> ShellRefusal (Clear g sid) s = ShellRefusal g s"
proof -
  have lin: "lineageChain (Clear g sid) s = lineageChain g s"
    by (simp add: lineageChain_def Clear_def)
  have "find (\<lambda>i. mget [] (shellRefusal (Clear g sid)) i \<noteq> []) (lineageChain g s) =
      find (\<lambda>i. mget [] (shellRefusal g) i \<noteq> []) (lineageChain g s)"
    by (rule find_cong) (use assms Clear_mget(2) in \<open>metis+\<close>)
  moreover have "mget [] (shellRefusal (Clear g sid)) i = mget [] (shellRefusal g) i"
    if "find (\<lambda>i. mget [] (shellRefusal g) i \<noteq> []) (lineageChain g s) = Some i" for i
    using that assms by (metis Clear_mget(2) find_Some_iff nth_mem)
  moreover have "concat (map (mget [] (protected (Clear g sid))) (lineageChain g s)) =
      concat (map (mget [] (protected g)) (lineageChain g s))"
    by (rule arg_cong [where f = concat], rule map_cong) (use assms Clear_mget(1) in \<open>metis+\<close>)
  ultimately show ?thesis
    by (simp add: Protected_def ShellRefusal_def lin split: option.splits)
qed

lemma IsPathAllowed_Clear:
  assumes "sid \<noteq> []"
  shows "IsPathAllowed h (Clear g sid) s c \<longleftrightarrow> s \<noteq> [] \<and> (\<exists>a. absolutize h c = Some a \<and>
     (\<exists>t\<in>set (lineageChain g s). t \<noteq> sid \<and> (\<exists>p\<in>set (bucket g t). p \<noteq> [] \<and> within a p)))"
proof -
  have "lineageChain (Clear g sid) s = lineageChain g s"
    by (simp add: lineageChain_def Clear_def)
  moreover have "(\<exists>p\<in>set (bucket (Clear g sid) t). P p) \<longleftrightarrow> t \<noteq> sid \<and> (\<exists>p\<in>set (bucket g t). P p)" for t P
    using assms by (simp add: Clear_bucket)
  ultimately show ?thesis by (simp add: IsPathAllowed_chain)
qed

text \<open>
  Ending a session takes its own grants, roots and protections away: afterwards it
  reaches exactly what its ancestors grant, and lookups of sessions that do not have it
  in their lineage are unchanged.
\<close>

lemma clear_revokes:
  assumes "sid \<noteq> []"
  shows "(IsPathAllowed h (Clear g sid) sid c \<longleftrightarrow>
      (\<exists>a. absolutize h c = Some a \<and> (\<exists>s\<in>set (tl (lineageChain g sid)). \<exists>p\<in>set (bucket g s). p \<noteq> [] \<and> within a p)))
    \<and> (sid \<notin> set (lineageChain g s) \<longrightarrow> IsPathAllowed h (Clear g sid) s c = IsPathAllowed h g s c
         \<and> Protected (Clear g sid) s = Protected g s \<and> ShellRefusal (Clear g sid) s = ShellRefusal g s)"
proof -
  have own: "sid \<notin> set (tl (lineageChain g sid))"
    and chain: "set (lineageChain g sid) = insert sid (set (tl (lineageChain g sid)))"
    using lineageChain_bounded [of g sid] by (simp_all add: lineageChain_def)
  have "(\<exists>t\<in>set (lineageChain g sid). t \<noteq> sid \<and> P t) \<longleftrightarrow> (\<exists>t\<in>set (tl (lineageChain g sid)). P t)" for P
    unfolding chain using own by auto
  moreover have "(\<exists>t\<in>set (lineageChain g s). t \<noteq> sid \<and> P t) \<longleftrightarrow> (\<exists>t\<in>set (lineageChain g s). P t)"
    if "sid \<notin> set (lineageChain g s)" for P
    using that by auto
  ultimately show ?thesis
    using assms Clear_unrelated [of sid g s]
    by (simp add: IsPathAllowed_Clear [OF assms] IsPathAllowed_chain [of h g s])
qed

text \<open>
  The working directory chosen for a session is an existing directory among the
  session's root and the grants it reaches; without a usable root it is a longest such
  directory, and it is empty only if there is none.
\<close>

lemma best_session_dir:
  assumes "sid \<noteq> []" and "mget [] (roots g) sid = [] \<or> \<not> StatIsDir h (mget [] (roots g) sid)"
    and "p \<in> set (lineageChain g sid)" and "q \<in> set (bucket g p)" and "StatIsDir h q"
  shows "StatIsDir h (BestSessionDir h g sid) \<and> length q \<le> length (BestSessionDir h g sid)
    \<and> (\<exists>s\<in>set (lineageChain g sid). BestSessionDir h g sid \<in> set (bucket g s))"
proof -
  define cands where "cands = bucket g sid @ collect_walk lineageMaxHops g sid [sid]"
  define srt where "srt = sort_key (\<lambda>p. - int (length p)) cands"
  have cands: "set cands = (\<Union>s\<in>set (lineageChain g sid). set (bucket g s))"
    by (auto simp: cands_def collect_walk_chain lineageChain_def)
  then have "q \<in> set cands" using assms by auto
  then have "find (StatIsDir h) (dedup_onto [] srt) \<noteq> None"
    using assms(5) by (auto simp: srt_def find_None_iff set_dedup_onto)
  then obtain d where d: "find (StatIsDir h) (dedup_onto [] srt) = Some d" by auto
  have best: "BestSessionDir h g sid = d"
    using assms(1,2) d by (auto simp: BestSessionDir_def Let_def cands_def srt_def)
  show ?thesis
    using find_longest [OF d [unfolded srt_def]] \<open>q \<in> set cands\<close> assms(5) cands best by auto
qed

section \<open>Instances\<close>

text \<open>
  A small host and a confining policy on which the hypotheses of the properties hold.
\<close>

definition sample_host :: host where
  "sample_host = \<lparr>Getwd = Some ''/w'', UserHomeDir = None, CurrentUserHome = None,
     Getenv = (\<lambda>_. []), EvalSymlinks = (\<lambda>p. Some p), StatIsDir = (\<lambda>p. p = ''/p'')\<rparr>"

definition sample_policy :: MentionPolicy where
  "sample_policy = \<lparr>Confine = True, Home = [], Bases = [''/p''], Denied = [''/d'']\<rparr>"

definition sample_ops :: "unit grant_op list" where
  "sample_ops = [Mentions ''s'' ''see /p/a'', Lineage ''c'' ''s'']"

abbreviation sample_store :: "unit PathGrants" where
  "sample_store \<equiv> foldl (grants_step sample_host) (NewPathGrants\<lparr>mention := Some sample_policy\<rparr>) sample_ops"

theorem allowed_avoids_sensitive_witness:
  "IsPathAllowed sample_host sample_store ''c'' ''/p/b'' \<and> \<not> within ''/p/b'' ''/d''"
proof -
  have ops: "\<forall>x\<in>set sample_ops. \<not> is_policy x \<and> op_roots x \<subseteq> {}"
    by (simp add: sample_ops_def)
  have allowed: "IsPathAllowed sample_host sample_store ''c'' ''/p/b''" by code_simp
  have abs: "absolutize sample_host ''/p/b'' = Some ''/p/b''" by code_simp
  have "''/d'' \<in> set (sensitive_for sample_host (Some sample_policy))" by code_simp
  moreover have "''/d'' \<in> set (forms sample_host ''/d'')" by code_simp
  ultimately show ?thesis using allowed_avoids_sensitive [OF ops allowed abs] allowed by blast
qed

theorem grants_always_clean_witness:
  "distinct (bucket (foldl (grants_step sample_host) (NewPathGrants\<lparr>mention := None\<rparr>) sample_ops) ''s'')"
proof -
  have "\<forall>w. Getwd sample_host = Some w \<longrightarrow> IsAbs w"
    by (simp add: sample_host_def IsAbs_def HasPrefix_def)
  from grants_always_clean [OF this, of None sample_ops "''s''"] show ?thesis by simp
qed

theorem mentions_split_witness:
  "\<exists>g'. RegisterMentions sample_host (NewPathGrants\<lparr>mention := Some sample_policy\<rparr> :: unit PathGrants) ''s'' ''/p'' =
      (g', [''/p''], [''/'']) \<and> set (bucket g' ''s'') = {''/p''}"
proof -
  let ?g = "NewPathGrants\<lparr>mention := Some sample_policy\<rparr> :: unit PathGrants"
  have "snd (RegisterMentions sample_host ?g ''s'' ''/p'') = ([''/p''], [''/''])" by code_simp
  then obtain g' where g: "RegisterMentions sample_host ?g ''s'' ''/p'' = (g', [''/p''], [''/''])"
    by (cases "RegisterMentions sample_host ?g ''s'' ''/p''") auto
  from mentions_split [OF _ g] g show ?thesis by (auto simp: NewPathGrants_def)
qed

theorem confined_mentions_inside_witness:
  "\<exists>base\<in>set (Bases sample_policy) \<union> {policy_home sample_host (Some sample_policy)}. base \<noteq> [] \<and>
    (\<exists>bform\<in>set (forms sample_host base). within (realPath sample_host (Clean ''/p'')) bform)"
proof -
  let ?g = "NewPathGrants\<lparr>mention := Some sample_policy\<rparr> :: unit PathGrants"
  have "''/p'' \<in> set (fst (snd (RegisterMentions sample_host ?g ''s'' ''/p'')))" by code_simp
  then show ?thesis
    by (rule confined_mentions_inside [rotated 2]) (simp_all add: sample_policy_def)
qed

end
