(* ===== verification/RecoveryBroker.thy ===== *)
theory RecoveryBroker
  imports Prelude
begin

text \<open>
  Package \<^verbatim>\<open>internal/recovery/broker\<close>: the broker that reacts to the terminal exit of an
  agent session (\<^verbatim>\<open>types.go\<close>, \<^verbatim>\<open>classifier.go\<close>, \<^verbatim>\<open>broker.go\<close>, \<^verbatim>\<open>remediator.go\<close>,
  \<^verbatim>\<open>envelope.go\<close>, \<^verbatim>\<open>orchestration.go\<close>, \<^verbatim>\<open>deps.go\<close>) and the part of
  \<^verbatim>\<open>internal/runtime/agent\<close> it consults (modes, boot directory layouts).

  Handling an exit calls out to the dependencies: envelope sink, remediation, store, boot.
  The calls are recorded as a list of \<open>call\<close> values, in order; what they answer, the
  clock and the random token are the record \<open>env\<close>. The broker's lock is free during
  such a call, so other goroutines may change the broker then: what they do is a function
  on the broker, one field of \<open>env\<close> per call, and the statements assume of it no more
  than they say. The names of the exit causes and the provider registry belong to a library
  and are the parameters \<open>K\<close> and \<open>lk\<close>. Log lines are not modelled.
\<close>

section \<open>Types\<close>

record ExitError =
  Cause :: string
  Code :: int
  Signal :: int

record causes =
  CauseIdleTimeout :: string
  CauseWatchdogKill :: string
  CauseOOMKill :: string
  CauseRestartExhausted :: string
  CauseResourceLimit :: string

record SandboxState =
  SPath :: string
  Missing :: bool
  PresentFiles :: "string list"

record MCPState =
  Down :: bool
  LastOK :: go_time
  DownReason :: string

record FailureEvent =
  SessionID :: session_id
  AgentProfile :: string
  Provider :: string
  EvMode :: string
  Attempt :: int
  Exit :: "ExitError option"
  LastTurnPos :: int
  StderrTail :: string
  SandboxDirState :: SandboxState
  MCPTransport :: MCPState
  EvPathGrants :: "string list"
  LineageOf :: session_id
  Workdir :: string
  OccurredAt :: go_time
  SessionAge :: duration

datatype Class = ClassUnknown | ClassTransient | ClassConfigPermissions | ClassPermanent

datatype Remediation = RemediationNone | RemediationRepopulateSandbox
  | RemediationRefreshMCPTransport | RemediationRefreshCredentials | RemediationRegenerateCLAUDEMD

fun Remediation_String :: "Remediation \<Rightarrow> string" where
  "Remediation_String RemediationRepopulateSandbox = ''repopulate_sandbox''"
| "Remediation_String RemediationRefreshMCPTransport = ''refresh_mcp_transport''"
| "Remediation_String RemediationRefreshCredentials = ''refresh_credentials''"
| "Remediation_String RemediationRegenerateCLAUDEMD = ''regenerate_claudemd''"
| "Remediation_String RemediationNone = ''none''"

fun Description :: "Remediation \<Rightarrow> string" where
  "Description RemediationRepopulateSandbox = ''rebuilt the agent'' @ [CHR 0x27] @ ''s sandbox directory''"
| "Description RemediationRefreshMCPTransport = ''restarted the agent'' @ [CHR 0x27] @ ''s MCP transport''"
| "Description RemediationRefreshCredentials = ''refreshed agent credentials''"
| "Description RemediationRegenerateCLAUDEMD = ''refreshed the agent'' @ [CHR 0x27] @ ''s instructions''"
| "Description RemediationNone = ''a configuration issue''"

record Classification =
  CClass :: Class
  Reason :: string
  CRemediation :: Remediation

datatype Action = ActionUnknown | ActionRetryTransient | ActionRetryConfigFixed | ActionPermanentFailure

datatype Outcome = OutcomeUnknown | OutcomeRemediated | OutcomeTransientRetrySucceeded
  | OutcomePermanent | OutcomeCanceled

record Breadcrumb =
  Timestamp :: go_time
  BSessionID :: session_id
  BClass :: Class
  BCause :: string
  BRemediation :: Remediation
  BAction :: Action
  BOutcome :: Outcome
  AttemptCount :: int
  DurationFromFailure :: duration
  BReason :: string

definition MaxBrokerRetries :: int where
  "MaxBrokerRetries = 3"

section \<open>Classification\<close>

definition CauseHTTPRequestRejected :: string where
  "CauseHTTPRequestRejected = ''http_request_rejected''"

abbreviation em_dash :: string where
  "em_dash \<equiv> [CHR 0xE2, CHR 0x80, CHR 0x94]"

abbreviation ellipsis :: string where
  "ellipsis \<equiv> [CHR 0xE2, CHR 0x80, CHR 0xA6]"

definition isAuthFailure :: "(string \<Rightarrow> string) \<Rightarrow> string \<Rightarrow> bool" where
  "isAuthFailure ul stderrTail =
     (if stderrTail = [] then False
      else let lower = ToLower ul stderrTail in
        Contains lower ''401'' \<or> Contains lower ''403'' \<or> Contains lower ''unauthorized'')"

definition verdict :: "Class \<Rightarrow> string \<Rightarrow> Remediation \<Rightarrow> Classification" where
  "verdict c r m = \<lparr>CClass = c, Reason = r, CRemediation = m\<rparr>"

definition youngSessionThreshold :: duration where
  "youngSessionThreshold = 5 * 10 ^ 9"

definition Classify :: "causes \<Rightarrow> (string \<Rightarrow> string) \<Rightarrow> FailureEvent option \<Rightarrow> Classification" where
  "Classify K ul evp =
     (case evp of
        None \<Rightarrow> verdict ClassPermanent ''nil failure event or exit info'' RemediationNone
      | Some ev \<Rightarrow>
     (case Exit ev of
        None \<Rightarrow> verdict ClassPermanent ''nil failure event or exit info'' RemediationNone
      | Some xe \<Rightarrow>
        if Cause xe = CauseHTTPRequestRejected then
          verdict ClassPermanent ''provider rejected the request; change its settings or model before retrying''
            RemediationNone
        else if Cause xe = CauseIdleTimeout K then
          verdict ClassTransient ''idle_timeout: session went idle past supervisor threshold'' RemediationNone
        else if Cause xe = CauseWatchdogKill K then
          verdict ClassConfigPermissions
            (''watchdog_kill: agent stuck '' @ em_dash @ '' refresh CLAUDE.md to nudge'')
            RemediationRegenerateCLAUDEMD
        else if Cause xe = CauseOOMKill K then
          verdict ClassTransient
            (''oom_kill: out-of-memory '' @ em_dash @ '' single retry (workload may differ)'') RemediationNone
        else if Cause xe = CauseRestartExhausted K then
          verdict ClassPermanent ''restart_exhausted: lib-level retries exhausted; broker escalates''
            RemediationNone
        else if Cause xe = CauseResourceLimit K then
          verdict ClassPermanent
            ''resource_limit: process exceeded configured cap; same workload will hit it again'' RemediationNone
        else if Code xe = 127 then
          verdict ClassPermanent ''exit code 127: agent binary not found on PATH'' RemediationNone
        else if Code xe \<noteq> 0 \<and> Missing (SandboxDirState ev) then
          verdict ClassConfigPermissions
            (''sandbox dir missing '' @ em_dash @ '' repopulate before retrying'') RemediationRepopulateSandbox
        else if Code xe \<noteq> 0 \<and> Down (MCPTransport ev) then
          verdict ClassConfigPermissions
            (''MCP transport down '' @ em_dash @ '' restart before retrying'') RemediationRefreshMCPTransport
        else if isAuthFailure ul (StderrTail ev) then
          verdict ClassConfigPermissions ''stderr indicates auth failure (401/403/unauthorized)''
            RemediationRefreshCredentials
        else if Signal xe = 11 then
          verdict ClassTransient ''SIGSEGV (signal 11): exotic crash, single retry'' RemediationNone
        else if Signal xe = 9 then
          (if SessionAge ev < youngSessionThreshold then
             verdict ClassPermanent
               (''SIGKILL within 5s of start: likely config error, retry won'' @ [CHR 0x27] @ ''t help'')
               RemediationNone
           else
             verdict ClassTransient ''SIGKILL after steady-state: external kill, single retry'' RemediationNone)
        else if Code xe \<noteq> 0 then
          (if Attempt ev \<ge> 2 then
             verdict ClassPermanent ''unclassified non-zero exit on retry: escalating'' RemediationNone
           else
             verdict ClassTransient ''unclassified non-zero exit, first occurrence: single retry''
               RemediationNone)
        else
          verdict ClassPermanent
            (''exit code 0 with no supervisor cause '' @ em_dash @ '' not a recovery candidate'')
            RemediationNone))"

section \<open>Envelopes\<close>

record Envelope =
  Kind :: string
  Title :: string
  Content :: string
  CancelToken :: string
  Severity :: string

text \<open>The random bytes in hexadecimal, \<^const>\<open>None\<close> when the generator failed.\<close>

definition newCancelToken :: "string option \<Rightarrow> string" where
  "newCancelToken rand = (case rand of None \<Rightarrow> ''cancel-degraded'' | Some t \<Rightarrow> t)"

definition exit_cause :: "FailureEvent \<Rightarrow> string" where
  "exit_cause ev = (case Exit ev of None \<Rightarrow> [] | Some xe \<Rightarrow> Cause xe)"

definition transientRetryMessage :: "causes \<Rightarrow> FailureEvent \<Rightarrow> Classification \<Rightarrow> string" where
  "transientRetryMessage K ev c =
     (if exit_cause ev = CauseIdleTimeout K then
        ''The agent went idle and was reset. Reconnecting now'' @ ellipsis
      else if exit_cause ev = CauseOOMKill K then
        ''The agent ran out of memory and was restarted. Reconnecting'' @ ellipsis
      else ''Agent ran into a temporary error. Retrying now'' @ ellipsis)"

definition configFixedMessage :: "Classification \<Rightarrow> string" where
  "configFixedMessage c = ''Resolved '' @ Description (CRemediation c) @ ''; reconnecting agent'' @ ellipsis"

text \<open>The first rune is a lower case ASCII letter, or the runes stay as they are.\<close>

definition ascii_upper :: "char \<Rightarrow> char" where
  "ascii_upper c = (if between c 97 122 then char_of (of_char c - 32 :: nat) else c)"

definition capitalize :: "string \<Rightarrow> string" where
  "capitalize s = (if s = [] then s
     else case runes s of [] \<Rightarrow> []
       | r # rs \<Rightarrow> concat ((case r of [c] \<Rightarrow> [ascii_upper c] | _ \<Rightarrow> r) # rs))"

definition permanentDetail :: "FailureEvent \<Rightarrow> Classification \<Rightarrow> string" where
  "permanentDetail ev c =
     (if Reason c = [] then ''The agent could not be recovered.''
      else let r = TrimSpace (Reason c);
               r' = (if \<not> HasSuffix r ''.'' then r @ ''.'' else r)
        in capitalize r')"

definition permanentSuggestedAction :: "FailureEvent \<Rightarrow> Classification \<Rightarrow> string" where
  "permanentSuggestedAction ev c = (case CRemediation c of
       RemediationRefreshCredentials \<Rightarrow> ''Check your API credentials and try again.''
     | RemediationRepopulateSandbox \<Rightarrow> ''Try restarting the chat session.''
     | RemediationRegenerateCLAUDEMD \<Rightarrow> ''Try restarting the chat session.''
     | _ \<Rightarrow> ''Try a different agent or restart the session.'')"

definition permanentEnvelope :: "causes \<Rightarrow> FailureEvent \<Rightarrow> Classification \<Rightarrow> Envelope" where
  "permanentEnvelope K ev c =
     (if exit_cause ev = CauseRestartExhausted K then
        \<lparr>Kind = ''chat-loop-terminated'', Title = ''Agent stopped'',
         Content = ''The agent kept failing after multiple restart attempts. '' @ permanentSuggestedAction ev c,
         CancelToken = [], Severity = ''error''\<rparr>
      else
        \<lparr>Kind = ''error-report'', Title = ''Agent unavailable'',
         Content = permanentDetail ev c @ '' '' @ permanentSuggestedAction ev c,
         CancelToken = [], Severity = ''error''\<rparr>)"

fun RenderUserMessage ::
  "causes \<Rightarrow> string option \<Rightarrow> FailureEvent \<Rightarrow> Classification \<Rightarrow> Action \<Rightarrow> Envelope" where
  "RenderUserMessage K rand ev c ActionRetryTransient =
     \<lparr>Kind = ''info-card'', Title = ''Reconnecting agent'', Content = transientRetryMessage K ev c,
      CancelToken = newCancelToken rand, Severity = ''info''\<rparr>"
| "RenderUserMessage K rand ev c ActionRetryConfigFixed =
     \<lparr>Kind = ''info-card'', Title = ''Fixed an agent issue'', Content = configFixedMessage c,
      CancelToken = newCancelToken rand, Severity = ''info''\<rparr>"
| "RenderUserMessage K rand ev c ActionPermanentFailure = permanentEnvelope K ev c"
| "RenderUserMessage K rand ev c ActionUnknown =
     \<lparr>Kind = ''error-report'', Title = ''Recovery error'',
      Content = ''Internal recovery state error '' @ em_dash @ '' broker reached an unknown action.'',
      CancelToken = [], Severity = ''error''\<rparr>"

section \<open>Modes and boot directory layouts\<close>

datatype Mode = ModeLongLived | ModeOneShot | ModeResume | ModeSubagent | ModeBackground

fun Mode_String :: "Mode \<Rightarrow> string" where
  "Mode_String ModeLongLived = ''long_lived''"
| "Mode_String ModeOneShot = ''one_shot''"
| "Mode_String ModeResume = ''resume''"
| "Mode_String ModeSubagent = ''subagent''"
| "Mode_String ModeBackground = ''background''"

definition parseMode :: "string \<Rightarrow> Mode" where
  "parseMode s =
     (if s = ''long_lived'' \<or> s = [] then ModeLongLived
      else if s = ''one_shot'' then ModeOneShot
      else if s = ''resume'' then ModeResume
      else if s = ''subagent'' then ModeSubagent
      else if s = ''background'' then ModeBackground
      else ModeLongLived)"

definition normalizeProviderName :: "(string \<Rightarrow> string option) \<Rightarrow> string \<Rightarrow> string" where
  "normalizeProviderName lk name =
     (let stripped =
        (if name = ''pty'' then ''claude''
         else if length name > 4 \<and> take 4 name = ''pty-'' then drop 4 name
         else if length name > 4 \<and> take 4 name = ''sub-'' then drop 4 name
         else name)
      in case lk stripped of Some i \<Rightarrow> i | None \<Rightarrow> stripped)"

definition HasBootdirLayout :: "(string \<Rightarrow> string option) \<Rightarrow> string \<Rightarrow> bool" where
  "HasBootdirLayout lk provider = (normalizeProviderName lk provider \<in>
     {''claude'', ''claude-code'', ''claudecode'', ''codex'', ''opencode'', ''antigravity''})"

section \<open>The broker\<close>

text \<open>Which dependencies are wired (not nil).\<close>

record Dependencies =
  AgentBoot :: bool
  BootDir :: bool
  MCP :: bool
  Credentials :: bool
  Store :: bool
  EnvelopeSink :: bool
  HTTPRetry :: bool

record classifierState =
  attemptCount :: int
  transientCountByCause :: "string \<rightharpoonup> int"

text \<open>A context is known by a number; \<open>done\<close> holds the contexts whose cancel function ran.\<close>

record activeRetryEntry =
  sessionID :: session_id
  cancel :: nat

record Broker =
  deps :: Dependencies
  maxRetries :: int
  remediationTimeout :: duration
  stateBySession :: "session_id \<rightharpoonup> classifierState"
  activeRetries :: "string \<rightharpoonup> activeRetryEntry"
  replacementHook :: bool
  done_ctx :: "nat set"

record Options =
  OMode :: Mode
  OSessionID :: session_id
  OAgentProfile :: string
  ParentSessionID :: session_id
  OWorkdir :: string
  OProvider :: string

text \<open>The calls the broker makes on its dependencies; a session is known by a number.\<close>

datatype call =
    Emit session_id Envelope
  | Repopulate session_id
  | RestartTransport session_id
  | Refresh string
  | RegenerateCLAUDEMD session_id
  | MarkRuntimeRelaunching session_id string
  | Boot Options
  | Retry FailureEvent
  | Replaced session_id nat
  | WriteBreadcrumb Breadcrumb

record env =
  rand :: "string option"
  ctx :: nat
  t_occurred :: go_time
  t_started :: go_time
  t_stamp :: go_time
  t_end :: go_time
  remediate_err :: "string option"
  mark_err :: "string option"
  timer_first :: bool
  boot_res :: "string + nat option"
  retry_err :: "string option"
  in_emit :: "Broker \<Rightarrow> Broker"
  in_remediate :: "Broker \<Rightarrow> Broker"
  in_backoff :: "Broker \<Rightarrow> Broker"
  in_dispatch :: "Broker \<Rightarrow> Broker"
  in_escalate :: "Broker \<Rightarrow> Broker"

datatype broker_option = WithMaxRetries int | WithRemediationTimeout duration
  | WithReplacementSessionHook bool

fun apply_option :: "Broker \<Rightarrow> broker_option \<Rightarrow> Broker" where
  "apply_option b (WithMaxRetries n) = b\<lparr>maxRetries := (if n < 0 then 0 else n)\<rparr>"
| "apply_option b (WithRemediationTimeout d) = (if d > 0 then b\<lparr>remediationTimeout := d\<rparr> else b)"
| "apply_option b (WithReplacementSessionHook h) = b\<lparr>replacementHook := h\<rparr>"

definition NewBroker :: "Dependencies \<Rightarrow> broker_option list \<Rightarrow> Broker" where
  "NewBroker d opts = foldl apply_option
     \<lparr>deps = d, maxRetries = MaxBrokerRetries, remediationTimeout = 10 * 10 ^ 9,
      stateBySession = Map.empty, activeRetries = Map.empty, replacementHook = False, done_ctx = {}\<rparr> opts"

definition SetReplacementSessionHook :: "Broker \<Rightarrow> bool \<Rightarrow> Broker" where
  "SetReplacementSessionHook b h = b\<lparr>replacementHook := h\<rparr>"

definition SetHTTPRetry :: "Broker \<Rightarrow> bool \<Rightarrow> Broker" where
  "SetHTTPRetry b r = b\<lparr>deps := (deps b)\<lparr>HTTPRetry := r\<rparr>\<rparr>"

definition writeBreadcrumb :: "Broker \<Rightarrow> Breadcrumb \<Rightarrow> call list" where
  "writeBreadcrumb b c = (if Store (deps b) then [WriteBreadcrumb c] else [])"

definition OnRestart :: "Broker \<Rightarrow> go_time \<Rightarrow> session_id \<Rightarrow> int \<Rightarrow> ExitError option \<Rightarrow> call list" where
  "OnRestart b now sid attempt prevExit = writeBreadcrumb b
     \<lparr>Timestamp = now, BSessionID = sid, BClass = ClassTransient,
      BCause = (case prevExit of None \<Rightarrow> [] | Some xe \<Rightarrow> Cause xe),
      BRemediation = RemediationNone, BAction = ActionRetryTransient, BOutcome = OutcomeUnknown,
      AttemptCount = attempt, DurationFromFailure = 0, BReason = ''lib-level restart attempt''\<rparr>"

definition run_cancel :: "nat \<Rightarrow> Broker \<Rightarrow> Broker" where
  "run_cancel c b = b\<lparr>done_ctx := insert c (done_ctx b)\<rparr>"

definition CancelRetry :: "Broker \<Rightarrow> string \<Rightarrow> Broker" where
  "CancelRetry b token = (if token = [] then b
     else case activeRetries b token of
       None \<Rightarrow> b
     | Some entry \<Rightarrow> run_cancel (cancel entry) (b\<lparr>activeRetries := (activeRetries b)(token := None)\<rparr>))"

definition Cancel :: "Broker \<Rightarrow> session_id \<Rightarrow> string \<Rightarrow> Broker \<times> bool" where
  "Cancel b sid token =
     (if sid = [] \<or> token = [] then (b, False)
      else case activeRetries b token of
        None \<Rightarrow> (b, False)
      | Some entry \<Rightarrow>
          if sessionID entry \<noteq> sid then (b, False)
          else (run_cancel (cancel entry) (b\<lparr>activeRetries := (activeRetries b)(token := None)\<rparr>), True))"

definition stateForLocked :: "Broker \<Rightarrow> session_id \<Rightarrow> Broker \<times> classifierState" where
  "stateForLocked b sid = (case stateBySession b sid of
       Some st \<Rightarrow> (b, st)
     | None \<Rightarrow> let st = \<lparr>attemptCount = 0, transientCountByCause = Map.empty\<rparr> in
         (b\<lparr>stateBySession := (stateBySession b)(sid \<mapsto> st)\<rparr>, st))"

definition clearState :: "Broker \<Rightarrow> session_id \<Rightarrow> Broker" where
  "clearState b sid = b\<lparr>stateBySession := (stateBySession b)(sid := None)\<rparr>"

definition ClearSession :: "Broker \<Rightarrow> session_id \<Rightarrow> Broker" where
  "ClearSession b sid = clearState b sid"

definition registerActiveRetry :: "Broker \<Rightarrow> session_id \<Rightarrow> string \<Rightarrow> nat \<Rightarrow> Broker" where
  "registerActiveRetry b sid token c = (if token = [] then b
     else b\<lparr>activeRetries := (activeRetries b)(token \<mapsto> \<lparr>sessionID = sid, cancel = c\<rparr>)\<rparr>)"

definition unregisterActiveRetry :: "Broker \<Rightarrow> string \<Rightarrow> Broker" where
  "unregisterActiveRetry b token = (if token = [] then b
     else b\<lparr>activeRetries := (activeRetries b)(token := None)\<rparr>)"

section \<open>Dispatching a retry\<close>

fun doubled :: "nat \<Rightarrow> duration \<Rightarrow> duration" where
  "doubled 0 d = d"
| "doubled (Suc n) d = doubled n (d * 2)"

definition httpRetryBackoff :: "int \<Rightarrow> duration \<Rightarrow> duration" where
  "httpRetryBackoff attempt ceiling =
     (let attempt' = (if attempt < 1 then 1 else attempt);
          doublings = attempt' - 1;
          doublings' = (if doublings > 10 then 10 else doublings);
          d = doubled (nat doublings') (10 ^ 9)
      in if ceiling > 0 \<and> d > ceiling then ceiling else d)"

text \<open>
  An \<^verbatim>\<open>int\<close> has 64 bits and negating the least one wraps. The loop fills the buffer from
  its end, one byte per digit.
\<close>

definition neg64 :: "int \<Rightarrow> int" where
  "neg64 n = (if n = - (2 ^ 63) then n else - n)"

function itoa_loop :: "int \<Rightarrow> string \<Rightarrow> string" where
  "itoa_loop n buf = (if n > 0
     then itoa_loop (n div 10) (char_of (48 + nat (n mod 10)) # buf) else buf)"
  by pat_completeness auto
termination
  by (relation "measure (\<lambda>(n, buf). nat n)") auto

declare itoa_loop.simps [simp del]

definition itoa :: "int \<Rightarrow> string" where
  "itoa n = (if n = 0 then ''0''
     else let neg = n < 0; n' = (if n < 0 then neg64 n else n); buf = itoa_loop n' [] in
       if neg then CHR ''-'' # buf else buf)"

text \<open>
  The wait ends when the timer fires or the context is done; when both have happened the
  runtime picks one.
\<close>

definition dispatchHTTPRetry ::
  "env \<Rightarrow> Broker \<Rightarrow> FailureEvent \<Rightarrow> Broker \<times> call list \<times> string option" where
  "dispatchHTTPRetry e b ev =
     (if \<not> HTTPRetry (deps b) then (b, [], Some ''recovery: HTTPRetry not wired in Dependencies'')
      else let wait = httpRetryBackoff (Attempt ev) (remediationTimeout b);
               b1 = (if wait > 0 then in_backoff e b else b)
        in if wait > 0 \<and> ctx e \<in> done_ctx b1 \<and> \<not> timer_first e
           then (b1, [], Some ''context canceled'')
           else (in_dispatch e b1, [Retry ev], retry_err e))"

definition DispatchRetry ::
  "(string \<Rightarrow> string option) \<Rightarrow> env \<Rightarrow> Broker \<Rightarrow> FailureEvent option
     \<Rightarrow> Broker \<times> call list \<times> (string + nat option)" where
  "DispatchRetry lk e b evp = (case evp of
       None \<Rightarrow> (b, [], Inl ''broker.DispatchRetry: nil failure event'')
     | Some ev \<Rightarrow>
        if \<not> HasBootdirLayout lk (Provider ev) then
          (case dispatchHTTPRetry e b ev of (b1, cs, err) \<Rightarrow>
             (b1, cs, case err of Some m \<Rightarrow> Inl m | None \<Rightarrow> Inr None))
        else if \<not> AgentBoot (deps b) then (b, [], Inl ''recovery: AgentBoot not wired in Dependencies'')
        else let mark = (if Store (deps b)
               then [MarkRuntimeRelaunching (SessionID ev) (''broker retry attempt '' @ itoa (Attempt ev))]
               else [])
          in if Store (deps b) \<and> mark_err e \<noteq> None then (b, mark, Inl (the (mark_err e)))
             else (in_dispatch e b, mark @ [Boot
               \<lparr>OMode = parseMode (EvMode ev), OSessionID = SessionID ev,
                OAgentProfile = AgentProfile ev, ParentSessionID = LineageOf ev,
                OWorkdir = Workdir ev, OProvider = Provider ev\<rparr>], boot_res e))"

definition notifyReplacement :: "Broker \<Rightarrow> session_id \<Rightarrow> nat option \<Rightarrow> call list" where
  "notifyReplacement b sid sess = (case sess of None \<Rightarrow> []
     | Some x \<Rightarrow> if replacementHook b then [Replaced sid x] else [])"

section \<open>Remediation\<close>

text \<open>The error, if any, after the calls made.\<close>

definition Remediate ::
  "env \<Rightarrow> Broker \<Rightarrow> FailureEvent option \<Rightarrow> Classification \<Rightarrow> call list \<times> string option" where
  "Remediate e b evp c =
     (if CRemediation c = RemediationNone then ([], None)
      else case evp of
        None \<Rightarrow> ([], Some ''broker.Remediate: nil failure event'')
      | Some ev \<Rightarrow>
         (case CRemediation c of
            RemediationRepopulateSandbox \<Rightarrow>
              if \<not> BootDir (deps b) then ([], Some ''broker.Remediate: BootDir not wired'')
              else ([Repopulate (SessionID ev)], remediate_err e)
          | RemediationRefreshMCPTransport \<Rightarrow>
              if \<not> MCP (deps b) then ([], Some ''broker.Remediate: MCP not wired'')
              else ([RestartTransport (SessionID ev)], remediate_err e)
          | RemediationRefreshCredentials \<Rightarrow>
              if \<not> Credentials (deps b) then ([], Some ''broker.Remediate: Credentials not wired'')
              else ([Refresh (AgentProfile ev)], remediate_err e)
          | RemediationRegenerateCLAUDEMD \<Rightarrow>
              if \<not> BootDir (deps b) then ([], Some ''broker.Remediate: BootDir not wired'')
              else ([RegenerateCLAUDEMD (SessionID ev)], remediate_err e)
          | RemediationNone \<Rightarrow> ([], Some ''broker.Remediate: unknown remediation none'')))"

section \<open>Handling an exit\<close>

datatype meta_value = MString string | MSandbox SandboxState | MMCP MCPState
  | MStrings "string list" | MDuration duration | MInt int | MOther

definition metaString :: "(string \<rightharpoonup> meta_value) \<Rightarrow> string \<Rightarrow> string option" where
  "metaString meta key = (case meta key of Some (MString s) \<Rightarrow> Some s | _ \<Rightarrow> None)"

definition or_zero :: "'a \<Rightarrow> 'a option \<Rightarrow> 'a" where
  "or_zero z v = (case v of None \<Rightarrow> z | Some x \<Rightarrow> x)"

definition buildFailureEvent ::
  "go_time \<Rightarrow> session_id \<Rightarrow> ExitError \<Rightarrow> (string \<rightharpoonup> meta_value) \<Rightarrow> int \<Rightarrow> FailureEvent" where
  "buildFailureEvent now sid exit meta attempt =
     \<lparr>SessionID = sid,
      AgentProfile = or_zero [] (metaString meta ''agent_profile''),
      Provider = or_zero [] (metaString meta ''provider''),
      EvMode = or_zero [] (metaString meta ''mode''),
      Attempt = attempt, Exit = Some exit,
      LastTurnPos = (case meta ''last_turn_pos'' of Some (MInt n) \<Rightarrow> n | _ \<Rightarrow> 0),
      StderrTail = or_zero [] (metaString meta ''stderr_tail''),
      SandboxDirState = (case meta ''sandbox_state'' of Some (MSandbox v) \<Rightarrow> v
        | _ \<Rightarrow> \<lparr>SPath = [], Missing = False, PresentFiles = []\<rparr>),
      MCPTransport = (case meta ''mcp_state'' of Some (MMCP v) \<Rightarrow> v
        | _ \<Rightarrow> \<lparr>Down = False, LastOK = 0, DownReason = []\<rparr>),
      EvPathGrants = (case meta ''path_grants'' of Some (MStrings v) \<Rightarrow> v | _ \<Rightarrow> []),
      LineageOf = or_zero [] (metaString meta ''lineage_of''),
      Workdir = or_zero [] (metaString meta ''workdir''),
      OccurredAt = now,
      SessionAge = (case meta ''session_age'' of Some (MDuration d) \<Rightarrow> d | _ \<Rightarrow> 0)\<rparr>"

definition emitEnvelope ::
  "Broker \<Rightarrow> session_id \<Rightarrow> Envelope \<Rightarrow> call list" where
  "emitEnvelope b sid env = (if EnvelopeSink (deps b) then [Emit sid env] else [])"

definition recordOutcome ::
  "env \<Rightarrow> Broker \<Rightarrow> FailureEvent \<Rightarrow> Classification \<Rightarrow> Action \<Rightarrow> Outcome \<Rightarrow> call list" where
  "recordOutcome e b ev c action outcome = writeBreadcrumb b
     \<lparr>Timestamp = t_stamp e, BSessionID = SessionID ev, BClass = CClass c, BCause = exit_cause ev,
      BRemediation = CRemediation c, BAction = action, BOutcome = outcome,
      AttemptCount = Attempt ev, DurationFromFailure = t_end e - t_started e, BReason = Reason c\<rparr>"

definition escalatePermanent ::
  "causes \<Rightarrow> env \<Rightarrow> Broker \<Rightarrow> FailureEvent \<Rightarrow> Classification \<Rightarrow> Broker \<times> call list" where
  "escalatePermanent K e b ev c =
     (let noisy = (Exit ev = None \<or> exit_cause ev \<noteq> CauseHTTPRequestRejected);
          cs = (if noisy then emitEnvelope b (SessionID ev)
            (RenderUserMessage K (rand e) ev c ActionPermanentFailure) else []);
          b1 = (if noisy then in_escalate e b else b)
      in (clearState b1 (SessionID ev),
          cs @ recordOutcome e b1 ev c ActionPermanentFailure OutcomePermanent))"

text \<open>The two deferred calls: the context's cancel function, then the token's removal.\<close>

definition leave_retry :: "env \<Rightarrow> string \<Rightarrow> Broker \<Rightarrow> Broker" where
  "leave_retry e token b = unregisterActiveRetry (run_cancel (ctx e) b) token"

definition runConfigFixedRetry ::
  "causes \<Rightarrow> (string \<Rightarrow> string option) \<Rightarrow> env \<Rightarrow> Broker \<Rightarrow> FailureEvent \<Rightarrow> Classification \<Rightarrow> Broker \<times> call list"
where
  "runConfigFixedRetry K lk e b ev c =
     (let card = RenderUserMessage K (rand e) ev c ActionRetryConfigFixed;
          b1 = registerActiveRetry b (SessionID ev) (CancelToken card) (ctx e);
          shown = emitEnvelope b1 (SessionID ev) card;
          b2 = in_emit e b1
      in case Remediate e b2 (Some ev) c of (rem, err) \<Rightarrow>
        (let b3 = in_remediate e b2 in
         case err of
           Some m \<Rightarrow>
             (case escalatePermanent K e b3 ev (verdict ClassPermanent
                (''remediation '' @ Remediation_String (CRemediation c) @ '' failed: '' @ m) (CRemediation c))
              of (b4, cs) \<Rightarrow> (leave_retry e (CancelToken card) b4, shown @ rem @ cs))
         | None \<Rightarrow>
             if ctx e \<in> done_ctx b3 then
               (leave_retry e (CancelToken card) b3,
                shown @ rem @ recordOutcome e b3 ev c ActionRetryConfigFixed OutcomeCanceled)
             else
               (case DispatchRetry lk e b3 (Some ev) of (b4, ds, res) \<Rightarrow>
                 (case res of
                    Inl m \<Rightarrow>
                      (case escalatePermanent K e b4 ev (verdict ClassPermanent
                         (''retry dispatch failed after remediation: '' @ m) (CRemediation c))
                       of (b5, cs) \<Rightarrow> (leave_retry e (CancelToken card) b5, shown @ rem @ ds @ cs))
                  | Inr sess \<Rightarrow>
                      (leave_retry e (CancelToken card) b4,
                       shown @ rem @ ds @ notifyReplacement b4 (SessionID ev) sess
                         @ recordOutcome e b4 ev c ActionRetryConfigFixed OutcomeRemediated)))))"

definition runTransientRetry ::
  "causes \<Rightarrow> (string \<Rightarrow> string option) \<Rightarrow> env \<Rightarrow> Broker \<Rightarrow> FailureEvent \<Rightarrow> Classification \<Rightarrow> Broker \<times> call list"
where
  "runTransientRetry K lk e b ev c =
     (let card = RenderUserMessage K (rand e) ev c ActionRetryTransient;
          b1 = registerActiveRetry b (SessionID ev) (CancelToken card) (ctx e);
          shown = emitEnvelope b1 (SessionID ev) card;
          b2 = in_emit e b1
      in if ctx e \<in> done_ctx b2 then
           (leave_retry e (CancelToken card) b2,
            shown @ recordOutcome e b2 ev c ActionRetryTransient OutcomeCanceled)
         else
           (case DispatchRetry lk e b2 (Some ev) of (b3, ds, res) \<Rightarrow>
             (case res of
                Inl m \<Rightarrow>
                  (case escalatePermanent K e b3 ev (verdict ClassPermanent
                     (''retry dispatch failed: '' @ m) RemediationNone)
                   of (b4, cs) \<Rightarrow> (leave_retry e (CancelToken card) b4, shown @ ds @ cs))
              | Inr sess \<Rightarrow>
                  (leave_retry e (CancelToken card) b3,
                   shown @ ds @ notifyReplacement b3 (SessionID ev) sess
                     @ recordOutcome e b3 ev c ActionRetryTransient OutcomeTransientRetrySucceeded))))"

definition OnSessionExit ::
  "causes \<Rightarrow> (string \<Rightarrow> string option) \<Rightarrow> (string \<Rightarrow> string) \<Rightarrow> env \<Rightarrow> Broker \<Rightarrow> session_id
     \<Rightarrow> ExitError option \<Rightarrow> (string \<rightharpoonup> meta_value) \<Rightarrow> Broker \<times> call list" where
  "OnSessionExit K lk ul e b sid exit meta = (case exit of
       None \<Rightarrow> (b, [])
     | Some xe \<Rightarrow>
        (case stateForLocked b sid of (b0, st) \<Rightarrow>
          (let attempt = attemptCount st + 1;
               b1 = b0\<lparr>stateBySession := (stateBySession b0)(sid \<mapsto> st\<lparr>attemptCount := attempt\<rparr>)\<rparr>;
               ev = buildFailureEvent (t_occurred e) sid xe meta attempt
           in if attempt > maxRetries b1 then
                escalatePermanent K e b1 ev (verdict ClassPermanent
                  (''broker hard cap ('' @ show_int (maxRetries b1) @ '' attempts) exhausted'') RemediationNone)
              else let c = Classify K ul (Some ev) in
                (case CClass c of
                   ClassPermanent \<Rightarrow> escalatePermanent K e b1 ev c
                 | ClassConfigPermissions \<Rightarrow> runConfigFixedRetry K lk e b1 ev c
                 | ClassTransient \<Rightarrow> runTransientRetry K lk e b1 ev c
                 | ClassUnknown \<Rightarrow> escalatePermanent K e b1 ev (verdict ClassPermanent
                     ''classifier returned unknown class'' RemediationNone)))))"

section \<open>What the flows share\<close>

fun crumbs :: "call list \<Rightarrow> Breadcrumb list" where
  "crumbs [] = []"
| "crumbs (WriteBreadcrumb c # cs) = c # crumbs cs"
| "crumbs (_ # cs) = crumbs cs"

fun is_dispatch :: "call \<Rightarrow> bool" where
  "is_dispatch (Boot opts) = True"
| "is_dispatch (Retry ev) = True"
| "is_dispatch _ = False"

fun is_remediation :: "call \<Rightarrow> bool" where
  "is_remediation (Repopulate s) = True"
| "is_remediation (RestartTransport s) = True"
| "is_remediation (Refresh p) = True"
| "is_remediation (RegenerateCLAUDEMD s) = True"
| "is_remediation _ = False"

lemma crumbs_append [simp]: "crumbs (xs @ ys) = crumbs xs @ crumbs ys"
  by (induction xs rule: crumbs.induct) auto

named_theorems calls_of \<open>which kinds of calls a helper makes\<close>

lemma calls_emit [calls_of]:
  "crumbs (emitEnvelope b s m) = []" "filter is_dispatch (emitEnvelope b s m) = []"
  "filter is_remediation (emitEnvelope b s m) = []"
  by (auto simp: emitEnvelope_def)

lemma calls_notify [calls_of]:
  "crumbs (notifyReplacement b s x) = []" "filter is_dispatch (notifyReplacement b s x) = []"
  "filter is_remediation (notifyReplacement b s x) = []"
  by (auto simp: notifyReplacement_def split: option.splits)

lemma calls_record [calls_of]:
  "filter is_dispatch (recordOutcome e b ev c a out) = []"
  "filter is_remediation (recordOutcome e b ev c a out) = []"
  by (auto simp: recordOutcome_def writeBreadcrumb_def)

lemma Remediate_calls:
  "Remediate e b evp c = (cs, err) \<Longrightarrow>
     crumbs cs = [] \<and> filter is_dispatch cs = [] \<and> length cs \<le> 1 \<and> filter is_remediation cs = cs"
  by (auto simp: Remediate_def split: if_splits option.splits Remediation.splits)

lemma DispatchRetry_calls:
  "DispatchRetry lk e b evp = (b', cs, res) \<Longrightarrow>
     crumbs cs = [] \<and> length (filter is_dispatch cs) \<le> 1 \<and> filter is_remediation cs = []"
  by (auto simp: DispatchRetry_def dispatchHTTPRetry_def Let_def split: if_splits option.splits prod.splits)

definition crumb :: "env \<Rightarrow> FailureEvent \<Rightarrow> Classification \<Rightarrow> Action \<Rightarrow> Outcome \<Rightarrow> Breadcrumb" where
  "crumb e ev c action outcome =
     \<lparr>Timestamp = t_stamp e, BSessionID = SessionID ev, BClass = CClass c, BCause = exit_cause ev,
      BRemediation = CRemediation c, BAction = action, BOutcome = outcome,
      AttemptCount = Attempt ev, DurationFromFailure = t_end e - t_started e, BReason = Reason c\<rparr>"

lemma crumbs_record [calls_of]:
  "crumbs (recordOutcome e b ev c a out) = (if Store (deps b) then [crumb e ev c a out] else [])"
  by (simp add: recordOutcome_def writeBreadcrumb_def crumb_def)

definition attempts :: "Broker \<Rightarrow> session_id \<Rightarrow> int" where
  "attempts b s = (case stateBySession b s of None \<Rightarrow> 0 | Some st \<Rightarrow> attemptCount st)"

text \<open>
  What the flow of one exit relies on, of the other goroutines, for session \<open>s\<close>: the
  configuration stays, and nobody takes the session's attempts back.
\<close>

definition grows :: "session_id \<Rightarrow> Broker \<Rightarrow> Broker \<Rightarrow> bool" where
  "grows s b b' \<longleftrightarrow> attempts b s \<le> attempts b' s \<and> maxRetries b' = maxRetries b
     \<and> Store (deps b') = Store (deps b)"

definition others_ok :: "session_id \<Rightarrow> env \<Rightarrow> bool" where
  "others_ok s e \<longleftrightarrow> (\<forall>b. grows s b (in_emit e b) \<and> grows s b (in_remediate e b) \<and>
     grows s b (in_backoff e b) \<and> grows s b (in_dispatch e b) \<and> grows s b (in_escalate e b))"

lemma grows_refl [simp]: "grows s b b"
  by (simp add: grows_def)

lemma grows_trans: "grows s a b \<Longrightarrow> grows s b c \<Longrightarrow> grows s a c"
  by (auto simp: grows_def)

lemma grows_upd [inv_intro]:
  "grows s b (registerActiveRetry b t tok c)"
  "grows s b (unregisterActiveRetry b tok)"
  "grows s b (run_cancel c b)"
  "t \<noteq> s \<Longrightarrow> grows s b (clearState b t)"
  by (auto simp: grows_def attempts_def registerActiveRetry_def unregisterActiveRetry_def
    run_cancel_def clearState_def)

lemma grows_leave [inv_intro]: "grows s b (leave_retry e tok b)"
  unfolding leave_retry_def by (meson grows_trans grows_upd(2,3))

lemma grows_env:
  assumes "others_ok s e"
  shows "grows s b (in_emit e b)" "grows s b (in_remediate e b)" "grows s b (in_backoff e b)"
    "grows s b (in_dispatch e b)" "grows s b (in_escalate e b)"
  using assms by (auto simp: others_ok_def)

lemma grows_dispatch:
  assumes "others_ok s e" and "DispatchRetry lk e b evp = (b', cs, res)"
  shows "grows s b b'"
  using assms(2) grows_env [OF assms(1)] grows_trans [OF grows_env(3,4) [OF assms(1)], of b]
  by (auto simp: DispatchRetry_def dispatchHTTPRetry_def Let_def
      split: if_splits option.splits prod.splits intro: grows_trans)

definition shape :: "Classification \<Rightarrow> Class \<times> Remediation" where
  "shape c = (CClass c, CRemediation c)"

lemma shape_verdict: "shape (verdict c r m) = (c, m)"
  by (simp add: shape_def verdict_def)

lemma shape_if: "shape (if g then x else y) = (if g then shape x else shape y)"
  by simp

definition known_shape :: "Class \<times> Remediation \<Rightarrow> bool" where
  "known_shape p \<longleftrightarrow> fst p \<noteq> ClassUnknown \<and> (snd p = RemediationNone \<longleftrightarrow> fst p \<noteq> ClassConfigPermissions)"

lemma known_if: "known_shape x \<Longrightarrow> known_shape y \<Longrightarrow> known_shape (if g then x else y)"
  by simp

lemma Classify_known:
  "CClass (Classify K ul evp) \<noteq> ClassUnknown \<and>
   (CRemediation (Classify K ul evp) = RemediationNone \<longleftrightarrow> CClass (Classify K ul evp) \<noteq> ClassConfigPermissions)"
proof -
  have "known_shape (shape (Classify K ul evp))"
  proof (cases "evp = None \<or> Exit (the evp) = None")
    case True
    then show ?thesis by (cases evp) (auto simp: Classify_def shape_verdict known_shape_def)
  next
    case False
    then obtain ev xe where "evp = Some ev" "Exit ev = Some xe" by auto
    then show ?thesis
      unfolding Classify_def by (simp only: option.case shape_if shape_verdict)
        (intro known_if; simp add: known_shape_def)
  qed
  then show ?thesis by (simp add: known_shape_def shape_def)
qed

text \<open>
  What every flow leaves behind: one breadcrumb, at most one dispatch, and the session's
  attempts kept unless the breadcrumb says the failure was escalated.
\<close>

definition flow_ok :: "session_id \<Rightarrow> env \<Rightarrow> Broker \<Rightarrow> FailureEvent \<Rightarrow> Broker \<times> call list \<Rightarrow> bool" where
  "flow_ok s e b ev r \<longleftrightarrow>
     (\<exists>c a out. crumbs (snd r) = (if Store (deps b) then [crumb e ev c a out] else [])
        \<and> (a = ActionPermanentFailure \<longleftrightarrow> out = OutcomePermanent) \<and> out \<noteq> OutcomeUnknown
        \<and> (out = OutcomePermanent \<and> SessionID ev = s \<or> grows s b (fst r)))
     \<and> length (filter is_dispatch (snd r)) \<le> 1"

lemma flow_okI:
  assumes "crumbs cs = (if Store (deps b) then [crumb e ev c a out] else [])"
    and "(a = ActionPermanentFailure) = (out = OutcomePermanent)" and "out \<noteq> OutcomeUnknown"
    and "out = OutcomePermanent \<and> SessionID ev = s \<or> grows s b b'"
    and "length (filter is_dispatch cs) \<le> 1"
  shows "flow_ok s e b ev (b', cs)"
  using assms unfolding flow_ok_def by auto

lemma flow_ok_extend:
  assumes "flow_ok s e b1 ev (b2, cs)" and "grows s b b1" and "grows s b2 b3"
    and "crumbs pre = []" and "length (filter is_dispatch (pre @ cs)) \<le> 1"
  shows "flow_ok s e b ev (b3, pre @ cs)"
proof -
  obtain c a out where f: "crumbs cs = (if Store (deps b1) then [crumb e ev c a out] else [])"
      "(a = ActionPermanentFailure) = (out = OutcomePermanent)" "out \<noteq> OutcomeUnknown"
      "out = OutcomePermanent \<and> SessionID ev = s \<or> grows s b1 b2"
    using assms(1) by (auto simp: flow_ok_def)
  have "out = OutcomePermanent \<and> SessionID ev = s \<or> grows s b b3"
    using f(4) grows_trans [OF assms(2)] grows_trans [OF _ assms(3)] by blast
  then show ?thesis
    by (intro flow_okI [OF _ f(2,3)]) (use f(1) assms in \<open>auto simp: grows_def\<close>)
qed

lemma escalate_flow:
  assumes ok: "others_ok s e"
  shows "flow_ok s e b ev (escalatePermanent K e b ev c)"
    and "filter is_dispatch (snd (escalatePermanent K e b ev c)) = []"
    and "filter is_remediation (snd (escalatePermanent K e b ev c)) = []"
proof -
  note g = grows_env(5) [OF ok, of b]
  have "grows s b (clearState (in_escalate e b) (SessionID ev))" "grows s b (clearState b (SessionID ev))"
    if "SessionID ev \<noteq> s"
    using that g grows_upd(4) grows_trans by metis+
  then show "flow_ok s e b ev (escalatePermanent K e b ev c)"
    using g unfolding escalatePermanent_def Let_def
    by (intro flow_okI [where c = c and a = ActionPermanentFailure and out = OutcomePermanent])
       (auto simp: calls_of grows_def)
qed (auto simp: escalatePermanent_def Let_def calls_of)

lemma escalate_tail:
  assumes ok: "others_ok s e" and g: "grows s b b3"
    and pre: "crumbs pre = [] \<and> length (filter is_dispatch pre) \<le> 1"
  shows "flow_ok s e b ev (case escalatePermanent K e b3 ev v of (b4, cs) \<Rightarrow> (leave_retry e tok b4, pre @ cs))"
proof -
  obtain b4 cs where e: "escalatePermanent K e b3 ev v = (b4, cs)" by fastforce
  have "flow_ok s e b ev (leave_retry e tok b4, pre @ cs)"
    by (rule flow_ok_extend [OF _ g grows_leave])
       (use escalate_flow [OF ok, where b = b3 and ev = ev and K = K and c = v] pre in \<open>simp_all add: e\<close>)
  then show ?thesis by (simp add: e)
qed

lemma transient_flow:
  assumes ok: "others_ok s e"
  shows "flow_ok s e b ev (runTransientRetry K lk e b ev c)"
proof -
  define card where "card = RenderUserMessage K (rand e) ev c ActionRetryTransient"
  define b2 where "b2 = in_emit e (registerActiveRetry b (SessionID ev) (CancelToken card) (ctx e))"
  obtain b3 ds res where d: "DispatchRetry lk e b2 (Some ev) = (b3, ds, res)" by (cases "DispatchRetry lk e b2 (Some ev)")
  have g2: "grows s b b2" unfolding b2_def by (meson grows_trans grows_upd(1) grows_env(1) [OF ok])
  have g3: "grows s b b3" using g2 grows_dispatch [OF ok d] by (rule grows_trans)
  have same: "Store (deps b2) = Store (deps b)" "Store (deps b3) = Store (deps b)"
    using g2 g3 by (simp_all add: grows_def)
  note l2 = grows_trans [OF g2 grows_leave] and l3 = grows_trans [OF g3 grows_leave]
  note dc = DispatchRetry_calls [OF d]
  show ?thesis
  proof (cases "ctx e \<in> done_ctx b2")
    case True
    then show ?thesis
      unfolding runTransientRetry_def card_def [symmetric] b2_def [symmetric] Let_def
      by (simp add: flow_okI [OF _ _ _ _, where c = c and a = ActionRetryTransient and out = OutcomeCanceled]
          calls_of same l2)
  next
    case False
    show ?thesis
    proof (cases res)
      case (Inr sess)
      with False d dc show ?thesis
        unfolding runTransientRetry_def card_def [symmetric] b2_def [symmetric] Let_def
        by (simp add: flow_okI [where c = c and a = ActionRetryTransient and out = OutcomeTransientRetrySucceeded]
            calls_of same l3)
    next
      case (Inl m)
      with False d dc show ?thesis
        unfolding runTransientRetry_def card_def [symmetric] b2_def [symmetric] Let_def
        by (simp add: escalate_tail [OF ok g3, where pre = "_ @ ds", simplified] calls_of)
    qed
  qed
qed

lemma config_flow:
  assumes ok: "others_ok s e"
  shows "flow_ok s e b ev (runConfigFixedRetry K lk e b ev c)"
proof -
  define card where "card = RenderUserMessage K (rand e) ev c ActionRetryConfigFixed"
  define b2 where "b2 = in_emit e (registerActiveRetry b (SessionID ev) (CancelToken card) (ctx e))"
  define b3 where "b3 = in_remediate e b2"
  obtain rem err where r: "Remediate e b2 (Some ev) c = (rem, err)" by fastforce
  obtain b4 ds res where d: "DispatchRetry lk e b3 (Some ev) = (b4, ds, res)" by (cases "DispatchRetry lk e b3 (Some ev)")
  have g3: "grows s b b3" unfolding b3_def b2_def
    by (meson grows_trans grows_upd(1) grows_env(1,2) [OF ok])
  have g4: "grows s b b4" using g3 grows_dispatch [OF ok d] by (rule grows_trans)
  have same: "Store (deps b3) = Store (deps b)" "Store (deps b4) = Store (deps b)"
    using g3 g4 by (simp_all add: grows_def)
  note l3 = grows_trans [OF g3 grows_leave] and l4 = grows_trans [OF g4 grows_leave]
  note dc = DispatchRetry_calls [OF d] and rc = Remediate_calls [OF r]
  note unf = runConfigFixedRetry_def card_def [symmetric] b2_def [symmetric] b3_def [symmetric] Let_def
  consider m where "err = Some m" | "err = None" "ctx e \<in> done_ctx b3"
    | m where "err = None" "ctx e \<notin> done_ctx b3" "res = Inl m"
    | sess where "err = None" "ctx e \<notin> done_ctx b3" "res = Inr sess"
    by (cases err; cases res) auto
  then show ?thesis
  proof cases
    case 1
    with r rc show ?thesis unfolding unf
      by (simp add: escalate_tail [OF ok g3, where pre = "_ @ rem", simplified] calls_of b3_def [symmetric])
  next
    case 2
    with r rc show ?thesis unfolding unf
      by (simp add: flow_okI [where c = c and a = ActionRetryConfigFixed and out = OutcomeCanceled]
          calls_of same l3 b3_def [symmetric])
  next
    case 3
    with r rc d dc show ?thesis unfolding unf
      by (simp add: escalate_tail [OF ok g4, where pre = "_ @ rem @ ds", simplified] calls_of b3_def [symmetric])
  next
    case 4
    with r rc d dc show ?thesis unfolding unf
      by (simp add: flow_okI [where c = c and a = ActionRetryConfigFixed and out = OutcomeRemediated]
          calls_of same l4 b3_def [symmetric])
  qed
qed

text \<open>The broker after the attempt has been counted, and the event the flows see.\<close>

definition counted :: "Broker \<Rightarrow> session_id \<Rightarrow> Broker" where
  "counted b sid = (case stateForLocked b sid of (b0, st) \<Rightarrow>
     b0\<lparr>stateBySession := (stateBySession b0)(sid \<mapsto> st\<lparr>attemptCount := attemptCount st + 1\<rparr>)\<rparr>)"

lemma counted_attempts:
  "attempts (counted b sid) s = (if s = sid then attempts b s + 1 else attempts b s)"
  "maxRetries (counted b sid) = maxRetries b" "deps (counted b sid) = deps b"
  by (auto simp: counted_def attempts_def stateForLocked_def Let_def split: option.splits)

lemma grows_counted: "grows s b (counted b sid)"
  by (simp add: grows_def counted_attempts)

lemma OnSessionExit_cases:
  obtains (capped) c where "attempts b sid + 1 > maxRetries b" and
      "OnSessionExit K lk ul e b sid (Some xe) meta = escalatePermanent K e (counted b sid)
         (buildFailureEvent (t_occurred e) sid xe meta (attempts b sid + 1)) c" and "CClass c = ClassPermanent"
  | (permanent) c where "OnSessionExit K lk ul e b sid (Some xe) meta = escalatePermanent K e (counted b sid)
         (buildFailureEvent (t_occurred e) sid xe meta (attempts b sid + 1)) c" and "CClass c = ClassPermanent"
  | (config) c where "attempts b sid + 1 \<le> maxRetries b" and "CClass c = ClassConfigPermissions" and
      "OnSessionExit K lk ul e b sid (Some xe) meta = runConfigFixedRetry K lk e (counted b sid)
         (buildFailureEvent (t_occurred e) sid xe meta (attempts b sid + 1)) c"
  | (transient) c where "attempts b sid + 1 \<le> maxRetries b" and "CClass c = ClassTransient" and
      "OnSessionExit K lk ul e b sid (Some xe) meta = runTransientRetry K lk e (counted b sid)
         (buildFailureEvent (t_occurred e) sid xe meta (attempts b sid + 1)) c"
proof -
  obtain b0 st where st: "stateForLocked b sid = (b0, st)" by fastforce
  then have att: "attemptCount st = attempts b sid" and b1: "maxRetries b0 = maxRetries b"
      "b0\<lparr>stateBySession := (stateBySession b0)(sid \<mapsto> st\<lparr>attemptCount := attempts b sid + 1\<rparr>)\<rparr> = counted b sid"
    by (auto simp: stateForLocked_def attempts_def counted_def Let_def split: option.splits)
  define ev where "ev = buildFailureEvent (t_occurred e) sid xe meta (attempts b sid + 1)"
  define c where "c = Classify K ul (Some ev)"
  have un: "OnSessionExit K lk ul e b sid (Some xe) meta =
      (if attempts b sid + 1 > maxRetries b then escalatePermanent K e (counted b sid) ev (verdict ClassPermanent
          (''broker hard cap ('' @ show_int (maxRetries b) @ '' attempts) exhausted'') RemediationNone)
       else case CClass c of
           ClassPermanent \<Rightarrow> escalatePermanent K e (counted b sid) ev c
         | ClassConfigPermissions \<Rightarrow> runConfigFixedRetry K lk e (counted b sid) ev c
         | ClassTransient \<Rightarrow> runTransientRetry K lk e (counted b sid) ev c
         | ClassUnknown \<Rightarrow> escalatePermanent K e (counted b sid) ev (verdict ClassPermanent
             ''classifier returned unknown class'' RemediationNone))"
    unfolding OnSessionExit_def option.case st prod.case att b1 Let_def ev_def c_def
    by (simp add: counted_attempts)
  show thesis
  proof (cases "attempts b sid + 1 > maxRetries b")
    case True
    then show ?thesis using capped un by (simp add: ev_def verdict_def)
  next
    case False
    have "CClass c \<noteq> ClassUnknown" unfolding c_def using Classify_known by blast
    then show ?thesis
      using False un permanent config transient by (cases "CClass c") (simp_all add: ev_def)
  qed
qed

lemma buildFailureEvent_sel [simp]:
  "SessionID (buildFailureEvent t sid xe meta n) = sid"
  "Attempt (buildFailureEvent t sid xe meta n) = n"
  "Exit (buildFailureEvent t sid xe meta n) = Some xe"
  by (simp_all add: buildFailureEvent_def)

lemma OnSessionExit_flow:
  assumes "others_ok s e"
  shows "flow_ok s e (counted b sid) (buildFailureEvent (t_occurred e) sid xe meta (attempts b sid + 1))
     (OnSessionExit K lk ul e b sid (Some xe) meta)"
  by (rule OnSessionExit_cases [of b sid K lk ul e xe meta])
     (simp_all add: escalate_flow(1) config_flow transient_flow assms)

lemma OnSessionExit_capped:
  assumes "maxRetries b \<le> attempts b sid" and "others_ok sid e" and "Store (deps b)"
  shows "\<exists>bc. crumbs (snd (OnSessionExit K lk ul e b sid (Some xe) meta)) = [bc] \<and>
    BSessionID bc = sid \<and> BOutcome bc = OutcomePermanent"
proof -
  have "Store (deps (counted b sid))" using assms(3) by (simp add: counted_attempts)
  moreover have "crumbs (snd (escalatePermanent K e (counted b sid) ev c)) =
      (if Store (deps (counted b sid)) then [crumb e ev c ActionPermanentFailure OutcomePermanent] else [])" for ev c
    using grows_env(5) [OF assms(2), of "counted b sid"]
    by (auto simp: escalatePermanent_def Let_def calls_of grows_def)
  ultimately show ?thesis
    using assms(1) by (rule_tac OnSessionExit_cases [of b sid K lk ul e xe meta]) (auto simp: crumb_def)
qed

text \<open>The calls of the two retry flows, by the way they end.\<close>

lemma transient_calls:
  fixes e b ev
  defines "b2 \<equiv> in_emit e (registerActiveRetry b (SessionID ev) (newCancelToken (rand e)) (ctx e))"
  obtains shown where "crumbs shown = []" "filter is_remediation shown = []" "filter is_dispatch shown = []"
      "snd (runTransientRetry K lk e b ev c) = shown @ recordOutcome e b2 ev c ActionRetryTransient OutcomeCanceled"
  | shown b3 ds m v where "crumbs shown = []" "filter is_remediation shown = []" "filter is_dispatch shown = []"
      "ctx e \<notin> done_ctx b2" "DispatchRetry lk e b2 (Some ev) = (b3, ds, Inl m)"
      "snd (runTransientRetry K lk e b ev c) = shown @ ds @ snd (escalatePermanent K e b3 ev v)"
  | shown b3 ds sess where "crumbs shown = []" "filter is_remediation shown = []" "filter is_dispatch shown = []"
      "ctx e \<notin> done_ctx b2" "DispatchRetry lk e b2 (Some ev) = (b3, ds, Inr sess)"
      "snd (runTransientRetry K lk e b ev c) = shown @ ds @ notifyReplacement b3 (SessionID ev) sess
         @ recordOutcome e b3 ev c ActionRetryTransient OutcomeTransientRetrySucceeded"
proof (cases "ctx e \<in> done_ctx b2")
  case True
  then show thesis by (intro that(1)) (auto simp: runTransientRetry_def Let_def b2_def calls_of)
next
  case False
  obtain b3 ds res where d: "DispatchRetry lk e b2 (Some ev) = (b3, ds, res)" by (cases "DispatchRetry lk e b2 (Some ev)")
  show thesis
  proof (cases res)
    case (Inl m)
    show thesis
      by (rule that(2) [OF _ _ _ False d [unfolded Inl], where v = "verdict ClassPermanent (''retry dispatch failed: '' @ m) RemediationNone"
            and shown = "emitEnvelope (registerActiveRetry b (SessionID ev) (newCancelToken (rand e)) (ctx e)) (SessionID ev)
              (RenderUserMessage K (rand e) ev c ActionRetryTransient)"])
         (use d False Inl in \<open>simp_all add: runTransientRetry_def Let_def b2_def [symmetric] calls_of split_beta\<close>)
  next
    case (Inr sess)
    show thesis
      by (rule that(3) [OF _ _ _ False d [unfolded Inr]])
         (use d False Inr in \<open>auto simp: runTransientRetry_def Let_def b2_def [symmetric] calls_of\<close>)
  qed
qed

lemma config_calls:
  fixes e b ev
  defines "b2 \<equiv> in_emit e (registerActiveRetry b (SessionID ev) (newCancelToken (rand e)) (ctx e))"
  obtains shown b3 v where "crumbs shown = []" "filter is_remediation shown = []" "filter is_dispatch shown = []"
      "snd (runConfigFixedRetry K lk e b ev c) =
         shown @ fst (Remediate e b2 (Some ev) c) @ snd (escalatePermanent K e b3 ev v)"
  | shown b3 where "crumbs shown = []" "filter is_remediation shown = []" "filter is_dispatch shown = []"
      "snd (runConfigFixedRetry K lk e b ev c) =
         shown @ fst (Remediate e b2 (Some ev) c) @ recordOutcome e b3 ev c ActionRetryConfigFixed OutcomeCanceled"
  | shown b3 b4 ds m v where "crumbs shown = []" "filter is_remediation shown = []" "filter is_dispatch shown = []"
      "snd (Remediate e b2 (Some ev) c) = None" "b3 = in_remediate e b2" "ctx e \<notin> done_ctx b3"
      "DispatchRetry lk e b3 (Some ev) = (b4, ds, Inl m)"
      "snd (runConfigFixedRetry K lk e b ev c) =
         shown @ fst (Remediate e b2 (Some ev) c) @ ds @ snd (escalatePermanent K e b4 ev v)"
  | shown b3 b4 ds sess where "crumbs shown = []" "filter is_remediation shown = []" "filter is_dispatch shown = []"
      "snd (Remediate e b2 (Some ev) c) = None" "b3 = in_remediate e b2" "ctx e \<notin> done_ctx b3"
      "DispatchRetry lk e b3 (Some ev) = (b4, ds, Inr sess)"
      "snd (runConfigFixedRetry K lk e b ev c) =
         shown @ fst (Remediate e b2 (Some ev) c) @ ds @ notifyReplacement b4 (SessionID ev) sess
         @ recordOutcome e b4 ev c ActionRetryConfigFixed OutcomeRemediated"
proof -
  obtain rem err where r: "Remediate e b2 (Some ev) c = (rem, err)" by fastforce
  define b3 where "b3 = in_remediate e b2"
  obtain b4 ds res where d: "DispatchRetry lk e b3 (Some ev) = (b4, ds, res)" by (cases "DispatchRetry lk e b3 (Some ev)")
  note unf = runConfigFixedRetry_def Let_def b2_def [symmetric] b3_def [symmetric] calls_of
  define shown where "shown = emitEnvelope (registerActiveRetry b (SessionID ev) (newCancelToken (rand e)) (ctx e))
    (SessionID ev) (RenderUserMessage K (rand e) ev c ActionRetryConfigFixed)"
  consider m where "err = Some m" | "err = None" "ctx e \<in> done_ctx b3"
    | m where "err = None" "ctx e \<notin> done_ctx b3" "res = Inl m"
    | sess where "err = None" "ctx e \<notin> done_ctx b3" "res = Inr sess"
    by (cases err; cases res) auto
  then show thesis
  proof cases
    case 1
    show thesis
      by (rule that(1) [where ?b3.0 = b3 and shown = shown and v = "verdict ClassPermanent
          (''remediation '' @ Remediation_String (CRemediation c) @ '' failed: '' @ m) (CRemediation c)"])
         (use r 1 in \<open>simp_all add: unf shown_def split_beta\<close>)
  next
    case 2
    show thesis by (rule that(2) [where shown = shown]) (use r 2 in \<open>simp_all add: unf shown_def\<close>)
  next
    case 3
    show thesis
      by (rule that(3) [OF _ _ _ _ b3_def 3(2) d [unfolded 3(3)], where shown = shown and v = "verdict ClassPermanent
          (''retry dispatch failed after remediation: '' @ m) (CRemediation c)"])
         (use r d 3 in \<open>simp_all add: unf shown_def split_beta\<close>)
  next
    case 4
    show thesis by (rule that(4) [OF _ _ _ _ b3_def 4(2) d [unfolded 4(3)], where shown = shown])
      (use r d 4 in \<open>simp_all add: unf shown_def\<close>)
  qed
qed

text \<open>Every dispatch of a flow comes from \<^const>\<open>DispatchRetry\<close>, within the cap.\<close>

lemma no_dispatch:
  "x \<in> set cs \<Longrightarrow> is_dispatch x \<Longrightarrow> filter is_dispatch cs \<noteq> []"
  by (induction cs) auto

lemma escalate_no_dispatch: "x \<in> set (snd (escalatePermanent K e b ev c)) \<Longrightarrow> \<not> is_dispatch x"
  by (auto simp: escalatePermanent_def Let_def emitEnvelope_def recordOutcome_def writeBreadcrumb_def split: if_splits)

lemma record_no_dispatch:
  "x \<in> set (recordOutcome e b ev c a out) \<Longrightarrow> \<not> is_dispatch x"
  "x \<in> set (notifyReplacement b s y) \<Longrightarrow> \<not> is_dispatch x"
  by (auto simp: recordOutcome_def writeBreadcrumb_def notifyReplacement_def split: if_splits option.splits)

lemma transient_dispatch:
  assumes "x \<in> set (snd (runTransientRetry K lk e b ev c))" and "is_dispatch x"
  shows "\<exists>b'. ctx e \<notin> done_ctx b' \<and> x \<in> set (fst (snd (DispatchRetry lk e b' (Some ev))))
    \<and> b' = in_emit e (registerActiveRetry b (SessionID ev) (newCancelToken (rand e)) (ctx e))"
  by (rule transient_calls [where e = e and b = b and ev = ev and K = K and lk = lk and c = c])
     (use assms in \<open>auto dest: record_no_dispatch escalate_no_dispatch no_dispatch\<close>)

lemma Remediate_no_dispatch: "x \<in> set (fst (Remediate e b evp c)) \<Longrightarrow> \<not> is_dispatch x"
  using Remediate_calls [of e b evp c] no_dispatch by (metis prod.collapse)

lemma config_dispatch:
  assumes "x \<in> set (snd (runConfigFixedRetry K lk e b ev c))" and "is_dispatch x"
  shows "\<exists>b2 b'. ctx e \<notin> done_ctx b' \<and> x \<in> set (fst (snd (DispatchRetry lk e b' (Some ev))))
    \<and> snd (Remediate e b2 (Some ev) c) = None \<and> b' = in_remediate e b2
    \<and> b2 = in_emit e (registerActiveRetry b (SessionID ev) (newCancelToken (rand e)) (ctx e))"
  by (rule config_calls [where e = e and b = b and ev = ev and K = K and lk = lk and c = c])
     (use assms in \<open>auto dest: record_no_dispatch escalate_no_dispatch no_dispatch Remediate_no_dispatch\<close>)

lemma DispatchRetry_target:
  assumes "x \<in> set (fst (snd (DispatchRetry lk e b (Some ev))))" and "is_dispatch x"
  shows "x = Retry ev \<and> \<not> HasBootdirLayout lk (Provider ev) \<or>
    HasBootdirLayout lk (Provider ev) \<and> x = Boot \<lparr>OMode = parseMode (EvMode ev), OSessionID = SessionID ev,
      OAgentProfile = AgentProfile ev, ParentSessionID = LineageOf ev, OWorkdir = Workdir ev, OProvider = Provider ev\<rparr>"
  using assms by (auto simp: DispatchRetry_def dispatchHTTPRetry_def Let_def split: if_splits prod.splits option.splits)

lemma OnSessionExit_dispatch:
  assumes "x \<in> set (snd (OnSessionExit K lk ul e b sid (Some xe) meta))" and "is_dispatch x"
  defines "ev \<equiv> buildFailureEvent (t_occurred e) sid xe meta (attempts b sid + 1)"
  shows "attempts b sid + 1 \<le> maxRetries b" and "\<exists>b'. x \<in> set (fst (snd (DispatchRetry lk e b' (Some ev))))"
proof -
  have "attempts b sid + 1 \<le> maxRetries b \<and> (\<exists>b'. x \<in> set (fst (snd (DispatchRetry lk e b' (Some ev)))))"
    by (rule OnSessionExit_cases [of b sid K lk ul e xe meta])
       (use assms in \<open>auto dest: escalate_no_dispatch transient_dispatch config_dispatch\<close>)
  then show "attempts b sid + 1 \<le> maxRetries b" "\<exists>b'. x \<in> set (fst (snd (DispatchRetry lk e b' (Some ev))))"
    by auto
qed

section \<open>Histories\<close>

datatype broker_op =
    Exits env session_id "ExitError option" "string \<rightharpoonup> meta_value"
  | Cancels session_id string
  | CancelRetries string
  | Clears session_id
  | Restarts go_time session_id int "ExitError option"
  | SetsHook bool
  | SetsRetry bool

fun broker_step :: "causes \<Rightarrow> (string \<Rightarrow> string option) \<Rightarrow> (string \<Rightarrow> string)
    \<Rightarrow> Broker \<times> call list \<Rightarrow> broker_op \<Rightarrow> Broker \<times> call list" where
  "broker_step K lk ul (b, tr) (Exits e sid exit meta) =
     (case OnSessionExit K lk ul e b sid exit meta of (b', cs) \<Rightarrow> (b', tr @ cs))"
| "broker_step K lk ul (b, tr) (Cancels sid tok) = (fst (Cancel b sid tok), tr)"
| "broker_step K lk ul (b, tr) (CancelRetries tok) = (CancelRetry b tok, tr)"
| "broker_step K lk ul (b, tr) (Clears sid) = (ClearSession b sid, tr)"
| "broker_step K lk ul (b, tr) (Restarts now sid n x) = (b, tr @ OnRestart b now sid n x)"
| "broker_step K lk ul (b, tr) (SetsHook h) = (SetReplacementSessionHook b h, tr)"
| "broker_step K lk ul (b, tr) (SetsRetry r) = (SetHTTPRetry b r, tr)"

fun exit_of :: "session_id \<Rightarrow> broker_op \<Rightarrow> bool" where
  "exit_of s (Exits e sid (Some xe) meta) = (sid = s)"
| "exit_of s _ = False"

fun op_ok :: "session_id \<Rightarrow> broker_op \<Rightarrow> bool" where
  "op_ok s (Exits e sid exit meta) = others_ok s e"
| "op_ok s (Clears sid) = (sid \<noteq> s)"
| "op_ok s _ = True"

fun dispatch_for :: "session_id \<Rightarrow> call \<Rightarrow> bool" where
  "dispatch_for s (Boot opts) = (OSessionID opts = s)"
| "dispatch_for s (Retry ev) = (SessionID ev = s)"
| "dispatch_for s _ = False"

definition escalated :: "session_id \<Rightarrow> call list \<Rightarrow> bool" where
  "escalated s cs = (\<exists>bc\<in>set (crumbs cs). BSessionID bc = s \<and> BOutcome bc = OutcomePermanent)"

lemma escalated_append [simp]: "escalated s (xs @ ys) \<longleftrightarrow> escalated s xs \<or> escalated s ys"
  by (auto simp: escalated_def)

lemma dispatch_for_is: "dispatch_for s x \<Longrightarrow> is_dispatch x"
  by (cases x) auto

lemma OnSessionExit_dispatch_for:
  assumes ok: "others_ok s e"
  shows "length (filter (dispatch_for s) (snd (OnSessionExit K lk ul e b sid (Some xe) meta)))
    \<le> (if sid = s then 1 else 0)"
proof -
  let ?cs = "snd (OnSessionExit K lk ul e b sid (Some xe) meta)"
  have "\<not> dispatch_for s x" if "sid \<noteq> s" "x \<in> set ?cs" for x
  proof
    assume x: "dispatch_for s x"
    note d = dispatch_for_is [OF x]
    from OnSessionExit_dispatch(2) [OF that(2) d] DispatchRetry_target [OF _ d] x that(1)
    show False by fastforce
  qed
  then have "filter (dispatch_for s) ?cs = []" if "sid \<noteq> s"
    using that by (simp add: filter_empty_conv)
  moreover have "length (filter (dispatch_for s) cs) \<le> length (filter is_dispatch cs)" for cs
    using dispatch_for_is by (induction cs) (auto intro: le_SucI)
  then have "length (filter (dispatch_for s) ?cs) \<le> 1"
    using OnSessionExit_flow [OF ok, of b sid xe meta K lk ul] unfolding flow_ok_def by (meson order_trans)
  ultimately show ?thesis by (cases "sid = s") auto
qed

lemma broker_step_ok:
  assumes ok: "op_ok s x" and st: "Store (deps b)"
    and step: "broker_step K lk ul (b, tr) x = (b', tr @ cs)" and calm: "\<not> escalated s cs"
  shows "grows s b b' \<and> (exit_of s x \<longrightarrow> attempts b s + 1 \<le> attempts b' s \<and> attempts b s + 1 \<le> maxRetries b)
    \<and> length (filter (dispatch_for s) cs) \<le> (if exit_of s x then 1 else 0)"
proof (cases x)
  case (Exits e sid ex meta)
  show ?thesis
  proof (cases ex)
    case (Some xe)
    let ?r = "OnSessionExit K lk ul e b sid (Some xe) meta"
    have ok: "others_ok s e" and r: "?r = (b', cs)"
      using ok step Exits Some by (auto split: prod.splits)
    let ?ev = "buildFailureEvent (t_occurred e) sid xe meta (attempts b sid + 1)"
    obtain c a out where f: "crumbs cs = [crumb e ?ev c a out]"
        "out = OutcomePermanent \<and> sid = s \<or> grows s (counted b sid) b'"
      using OnSessionExit_flow [OF ok, of b sid xe meta K lk ul] st r
      by (auto simp: flow_ok_def counted_attempts)
    have "\<not> (out = OutcomePermanent \<and> sid = s)"
      using calm f(1) by (auto simp: escalated_def crumb_def)
    then have g: "grows s (counted b sid) b'" using f(2) by blast
    have cap: "attempts b s + 1 \<le> maxRetries b" if sid: "sid = s"
    proof (rule ccontr)
      assume "\<not> ?thesis"
      then obtain bc where "crumbs cs = [bc]" "BSessionID bc = s" "BOutcome bc = OutcomePermanent"
        using OnSessionExit_capped [OF _ ok st, of K lk ul xe meta] r [unfolded sid] by auto
      then show False using calm by (simp add: escalated_def)
    qed
    have "attempts b s + 1 \<le> attempts b' s" if "sid = s"
      using g that by (simp add: grows_def counted_attempts)
    then show ?thesis
      using grows_trans [OF grows_counted g] cap OnSessionExit_dispatch_for [OF ok, of K lk ul b sid xe meta] r
      by (auto simp: Exits Some)
  qed (use step Exits in \<open>auto simp: OnSessionExit_def\<close>)
next
  case (Clears t)
  with ok step show ?thesis by (auto simp: ClearSession_def grows_upd(4))
qed (use step st in \<open>auto simp: grows_def attempts_def Cancel_def CancelRetry_def run_cancel_def OnRestart_def
  writeBreadcrumb_def SetReplacementSessionHook_def SetHTTPRetry_def split: option.splits if_splits\<close>)

lemma broker_step_extends: "\<exists>cs b'. broker_step K lk ul (b, tr) x = (b', tr @ cs)"
  by (cases x) (auto split: prod.splits)

lemma broker_run_ok:
  assumes "Store (deps b)" and "\<forall>x\<in>set xs. op_ok s x"
    and "foldl (broker_step K lk ul) (b, []) xs = (b', tr)" and "\<not> escalated s tr"
  shows "grows s b b' \<and> attempts b s + int (length (filter (exit_of s) xs)) \<le> attempts b' s
    \<and> (filter (exit_of s) xs \<noteq> [] \<longrightarrow> attempts b s + int (length (filter (exit_of s) xs)) \<le> maxRetries b)
    \<and> length (filter (dispatch_for s) tr) \<le> length (filter (exit_of s) xs)"
  using assms
proof (induction xs arbitrary: b' tr rule: rev_induct)
  case (snoc x xs)
  obtain b1 tr1 where run: "foldl (broker_step K lk ul) (b, []) xs = (b1, tr1)" by fastforce
  obtain cs where step: "broker_step K lk ul (b1, tr1) x = (b', tr1 @ cs)" and tr: "tr = tr1 @ cs"
    using snoc.prems(3) run broker_step_extends [of K lk ul b1 tr1 x] by auto
  have calm: "\<not> escalated s tr1" "\<not> escalated s cs" using snoc.prems(4) tr by auto
  note IH = snoc.IH [OF snoc.prems(1) _ run calm(1)]
  have ih: "grows s b b1" "attempts b s + int (length (filter (exit_of s) xs)) \<le> attempts b1 s"
      "length (filter (dispatch_for s) tr1) \<le> length (filter (exit_of s) xs)"
      "filter (exit_of s) xs \<noteq> [] \<longrightarrow> attempts b s + int (length (filter (exit_of s) xs)) \<le> maxRetries b"
    using IH snoc.prems(2) by auto
  have "Store (deps b1)" using ih(1) snoc.prems(1) by (simp add: grows_def)
  from broker_step_ok [OF _ this step calm(2)] snoc.prems(2)
  have "grows s b1 b'" "exit_of s x \<longrightarrow> attempts b1 s + 1 \<le> attempts b' s \<and> attempts b1 s + 1 \<le> maxRetries b1"
      "length (filter (dispatch_for s) cs) \<le> (if exit_of s x then 1 else 0)" by auto
  with ih show ?case
    by (auto simp: tr grows_def intro: order_trans)
qed simp

section \<open>Numbers\<close>

lemma doubled_pow: "doubled n d = d * 2 ^ n"
  by (induction n arbitrary: d) auto

lemma backoff_closed:
  "httpRetryBackoff attempt ceiling =
     (let d = 10 ^ 9 * 2 ^ nat (min 10 (max 0 (attempt - 1))) in if 0 < ceiling then min ceiling d else d)"
proof -
  have "(let k = (if attempt < 1 then 1 else attempt) - 1 in if k > 10 then 10 else k) =
      min 10 (max 0 (attempt - 1))"
    by (auto simp: Let_def)
  then show ?thesis unfolding httpRetryBackoff_def doubled_pow Let_def by (auto simp: min_def)
qed

lemma itoa_loop_show: "0 < n \<Longrightarrow> itoa_loop n buf = show_nat (nat n) @ buf"
proof (induction n buf rule: itoa_loop.induct)
  case (1 n buf)
  have dm: "nat (n mod 10) = nat n mod 10" "nat (n div 10) = nat n div 10"
    using 1(2) by (simp_all add: nat_mod_distrib nat_div_distrib)
  show ?case
  proof (cases "n < 10")
    case True
    with 1(2) show ?thesis
      by (subst itoa_loop.simps) (simp add: itoa_loop.simps [of 0] show_nat.simps [of "nat n"] nat_less_iff)
  next
    case False
    then have "0 < n div 10" by auto
    moreover have "\<not> nat n < 10" using False by simp
    ultimately show ?thesis
      using 1 by (subst itoa_loop.simps) (simp add: dm show_nat.simps [of "nat n"])
  qed
qed

section \<open>The rules of the classifier\<close>

text \<open>
  The rules of \<^const>\<open>Classify\<close> in order of precedence: the first whose guard holds decides. The
  guards are the code's. The comment on the function lists the same rules, but asks for no
  exit code other than 0 where the sandbox is missing or the MCP transport is down.
\<close>

definition classify_rules :: "causes \<Rightarrow> (string \<Rightarrow> string) \<Rightarrow> FailureEvent \<Rightarrow> ExitError
    \<Rightarrow> (bool \<times> Class \<times> Remediation) list" where
  "classify_rules K ul ev xe =
    [(Cause xe = CauseHTTPRequestRejected, ClassPermanent, RemediationNone),
     (Cause xe = CauseIdleTimeout K, ClassTransient, RemediationNone),
     (Cause xe = CauseWatchdogKill K, ClassConfigPermissions, RemediationRegenerateCLAUDEMD),
     (Cause xe = CauseOOMKill K, ClassTransient, RemediationNone),
     (Cause xe = CauseRestartExhausted K, ClassPermanent, RemediationNone),
     (Cause xe = CauseResourceLimit K, ClassPermanent, RemediationNone),
     (Code xe = 127, ClassPermanent, RemediationNone),
     (Code xe \<noteq> 0 \<and> Missing (SandboxDirState ev), ClassConfigPermissions, RemediationRepopulateSandbox),
     (Code xe \<noteq> 0 \<and> Down (MCPTransport ev), ClassConfigPermissions, RemediationRefreshMCPTransport),
     (isAuthFailure ul (StderrTail ev), ClassConfigPermissions, RemediationRefreshCredentials),
     (Signal xe = 11, ClassTransient, RemediationNone),
     (Signal xe = 9 \<and> SessionAge ev < 5 * 10 ^ 9, ClassPermanent, RemediationNone),
     (Signal xe = 9 \<and> SessionAge ev \<ge> 5 * 10 ^ 9, ClassTransient, RemediationNone),
     (Code xe \<noteq> 0 \<and> Attempt ev \<le> 1, ClassTransient, RemediationNone),
     (Code xe \<noteq> 0 \<and> Attempt ev \<ge> 2, ClassPermanent, RemediationNone)]"

fun first_rule :: "(bool \<times> 'a) list \<Rightarrow> 'a \<Rightarrow> 'a" where
  "first_rule [] d = d"
| "first_rule ((g, x) # r) d = (if g then x else first_rule r d)"

section \<open>How a flow ends\<close>

definition ends_recorded :: "env \<Rightarrow> FailureEvent \<Rightarrow> Broker \<times> call list \<Rightarrow> bool" where
  "ends_recorded e ev r \<longleftrightarrow> (\<exists>pre b c a out. snd r = pre @ recordOutcome e b ev c a out \<and> crumbs pre = [])"

lemma ends_base: "ends_recorded e ev (b', recordOutcome e b ev c a out)"
  unfolding ends_recorded_def by (rule exI [of _ "[]"]) auto

lemma ends_pre: "ends_recorded e ev (b, cs) \<Longrightarrow> crumbs pre = [] \<Longrightarrow> ends_recorded e ev (b', pre @ cs)"
  unfolding ends_recorded_def by (metis append.assoc append_Nil crumbs_append snd_conv)

lemma escalate_ends: "ends_recorded e ev (b', snd (escalatePermanent K e b ev c))"
  by (auto simp: escalatePermanent_def Let_def calls_of intro!: ends_pre ends_base)

lemma Remediate_fst:
  "crumbs (fst (Remediate e b evp c)) = []" "length (fst (Remediate e b evp c)) \<le> 1"
  "filter is_remediation (fst (Remediate e b evp c)) = fst (Remediate e b evp c)"
  using Remediate_calls [OF prod.collapse [symmetric]] by blast+

lemma ends_snd: "ends_recorded e ev r \<longleftrightarrow> ends_recorded e ev (b, snd r)"
  by (simp add: ends_recorded_def)

lemma escalate_ends': "ends_recorded e ev (escalatePermanent K e b ev c)"
  using escalate_ends ends_snd by blast

lemma flows_end:
  "ends_recorded e ev (runTransientRetry K lk e b ev c)"
  "ends_recorded e ev (runConfigFixedRetry K lk e b ev c)"
  by (subst ends_snd [where b = b], rule transient_calls [where e = e and b = b and ev = ev and K = K and lk = lk and c = c];
      auto simp: calls_of dest: DispatchRetry_calls intro!: ends_pre ends_base escalate_ends)
     (subst ends_snd [where b = b], rule config_calls [where e = e and b = b and ev = ev and K = K and lk = lk and c = c];
      auto simp: calls_of Remediate_fst dest: DispatchRetry_calls intro!: ends_pre ends_base escalate_ends)

lemma OnSessionExit_ends:
  "ends_recorded e (buildFailureEvent (t_occurred e) sid xe meta (attempts b sid + 1))
     (OnSessionExit K lk ul e b sid (Some xe) meta)"
  by (rule OnSessionExit_cases [of b sid K lk ul e xe meta])
     (simp_all add: flows_end escalate_ends')

lemma escalate_no_remediation: "filter is_remediation (snd (escalatePermanent K e b ev c)) = []"
  by (auto simp: escalatePermanent_def Let_def calls_of)

lemma transient_remediation: "filter is_remediation (snd (runTransientRetry K lk e b ev c)) = []"
  by (rule transient_calls [where e = e and b = b and ev = ev and K = K and lk = lk and c = c])
     (auto simp: calls_of escalate_no_remediation dest: DispatchRetry_calls)

lemma config_remediation:
  "filter is_remediation (snd (runConfigFixedRetry K lk e b ev c)) = fst (Remediate e
     (in_emit e (registerActiveRetry b (SessionID ev) (newCancelToken (rand e)) (ctx e))) (Some ev) c)"
  by (rule config_calls [where e = e and b = b and ev = ev and K = K and lk = lk and c = c])
     (auto simp: calls_of escalate_no_remediation Remediate_fst dest: DispatchRetry_calls)

lemma Remediate_err: "fst (Remediate e b evp c) \<noteq> [] \<Longrightarrow> snd (Remediate e b evp c) = remediate_err e"
  by (auto simp: Remediate_def split: option.splits Remediation.splits)

lemma Cancel_registered:
  assumes "sid \<noteq> []" and "tok \<noteq> []"
  shows "c \<in> done_ctx (fst (Cancel (registerActiveRetry b sid tok c) sid tok))"
  using assms by (simp add: Cancel_def registerActiveRetry_def run_cancel_def)

lemma parseMode_String: "parseMode (Mode_String m) = m"
  by (cases m) (simp_all add: parseMode_def)

section \<open>Properties\<close>

text \<open>
  C7. The retry cap. Take any history of exits, cancellations, restarts and configuration
  calls in which the session is neither cleared nor escalated to the user. Then it has had
  at most \<^verbatim>\<open>maxRetries\<close> terminal exits, and at most that many replacement sessions or HTTP
  retries were dispatched for it. Equivalently, one of any \<^verbatim>\<open>maxRetries + 1\<close> exits of a
  session in a row is escalated.
\<close>

theorem retry_cap:
  assumes "Store (deps b)" and "0 \<le> attempts b s" and "0 \<le> maxRetries b"
    and "\<forall>x\<in>set xs. op_ok s x"
    and "foldl (broker_step K lk ul) (b, []) xs = (b', tr)" and "\<not> escalated s tr"
  shows "int (length (filter (exit_of s) xs)) \<le> maxRetries b \<and>
    int (length (filter (dispatch_for s) tr)) \<le> maxRetries b"
  using broker_run_ok [OF assms(1,4,5,6)] assms(2,3) by (cases "filter (exit_of s) xs = []") auto

text \<open>
  C8. Every handled exit leaves exactly one breadcrumb, whichever way it ends (capped,
  permanent, remediated, retried, cancelled, failed remediation, failed dispatch). It is
  the last call made, names the session, the exit's cause and the attempt number, and its
  action and outcome agree on whether the failure was escalated. A nil exit leaves none.
\<close>

theorem one_breadcrumb:
  assumes "Store (deps b)" and "others_ok sid e"
  shows "(\<exists>bc pre. snd (OnSessionExit K lk ul e b sid (Some xe) meta) = pre @ [WriteBreadcrumb bc]
      \<and> crumbs pre = [] \<and> BSessionID bc = sid \<and> BCause bc = Cause xe \<and> AttemptCount bc = attempts b sid + 1
      \<and> (BAction bc = ActionPermanentFailure \<longleftrightarrow> BOutcome bc = OutcomePermanent) \<and> BOutcome bc \<noteq> OutcomeUnknown)
    \<and> snd (OnSessionExit K lk ul e b sid None meta) = []"
proof -
  let ?ev = "buildFailureEvent (t_occurred e) sid xe meta (attempts b sid + 1)"
  let ?cs = "snd (OnSessionExit K lk ul e b sid (Some xe) meta)"
  obtain c a out where one: "crumbs ?cs = [crumb e ?ev c a out]"
      "(a = ActionPermanentFailure) = (out = OutcomePermanent)" "out \<noteq> OutcomeUnknown"
    using OnSessionExit_flow [OF assms(2), of b sid xe meta K lk ul] assms(1)
    by (auto simp: flow_ok_def counted_attempts)
  obtain pre b' c' a' out' where r: "?cs = pre @ recordOutcome e b' ?ev c' a' out'" "crumbs pre = []"
    using OnSessionExit_ends [of e sid xe meta b K lk ul] by (auto simp: ends_recorded_def)
  then have "Store (deps b')" using one(1) by (auto simp: calls_of split: if_splits)
  then have "?cs = pre @ [WriteBreadcrumb (crumb e ?ev c a out)]"
    using one(1) r by (auto simp: calls_of recordOutcome_def writeBreadcrumb_def crumb_def)
  then show ?thesis
    using r(2) one(2,3) by (auto simp: crumb_def exit_cause_def OnSessionExit_def)
qed

text \<open>
  C9. Cancelling works. If, while the info card is being shown, the user cancels the retry
  with the token the card carries and the card's own session, then nothing is dispatched,
  whatever the other goroutines do later, unless they undo the cancellation of a context.
\<close>

theorem cancel_stops_retry:
  assumes "in_emit e = (\<lambda>b. fst (Cancel b sid (newCancelToken (rand e))))"
    and "sid \<noteq> []" and "newCancelToken (rand e) \<noteq> []"
    and "\<And>b. done_ctx b \<subseteq> done_ctx (in_remediate e b)"
  shows "filter is_dispatch (snd (OnSessionExit K lk ul e b sid exit meta)) = []"
proof (cases exit)
  case (Some xe)
  have reg: "ctx e \<in> done_ctx (in_emit e (registerActiveRetry b sid (newCancelToken (rand e)) (ctx e)))" for b
    unfolding assms(1) by (rule Cancel_registered [OF assms(2,3)])
  then have reg': "ctx e \<in> done_ctx (in_remediate e (in_emit e (registerActiveRetry b sid (newCancelToken (rand e)) (ctx e))))" for b
    using assms(4) by blast
  have "\<not> is_dispatch x" if "x \<in> set (snd (OnSessionExit K lk ul e b sid (Some xe) meta))" for x
    by (rule OnSessionExit_cases [of b sid K lk ul e xe meta])
       (use that reg reg' in \<open>auto dest: escalate_no_dispatch transient_dispatch config_dispatch\<close>)
  then show ?thesis by (simp add: Some filter_empty_conv)
qed (simp add: OnSessionExit_def)

text \<open>
  A replacement keeps the failed session's identity, and the way it is dispatched fits
  its provider: a boot goes to a provider with a boot directory layout and carries the
  session, agent profile, parent, working directory, provider and mode of the exit; an
  HTTP retry goes to a provider without a layout. Both stay within the cap.
\<close>

lemma dispatch_preserves_session:
  assumes "x \<in> set (snd (OnSessionExit K lk ul e b sid (Some xe) meta))" and "is_dispatch x"
  shows "attempts b sid < maxRetries b \<and>
    (case x of
       Boot opts \<Rightarrow> HasBootdirLayout lk (OProvider opts) \<and> OSessionID opts = sid
         \<and> OAgentProfile opts = or_zero [] (metaString meta ''agent_profile'')
         \<and> ParentSessionID opts = or_zero [] (metaString meta ''lineage_of'')
         \<and> OWorkdir opts = or_zero [] (metaString meta ''workdir'')
         \<and> OProvider opts = or_zero [] (metaString meta ''provider'')
         \<and> (\<forall>m. metaString meta ''mode'' = Some (Mode_String m) \<longrightarrow> OMode opts = m)
     | Retry ev \<Rightarrow> \<not> HasBootdirLayout lk (Provider ev) \<and> SessionID ev = sid
         \<and> Attempt ev = attempts b sid + 1
     | _ \<Rightarrow> False)"
proof -
  let ?ev = "buildFailureEvent (t_occurred e) sid xe meta (attempts b sid + 1)"
  obtain b' where d: "x \<in> set (fst (snd (DispatchRetry lk e b' (Some ?ev))))"
    using OnSessionExit_dispatch(2) [OF assms] by blast
  have cap: "attempts b sid < maxRetries b" using OnSessionExit_dispatch(1) [OF assms] by simp
  from DispatchRetry_target [OF d assms(2)] show ?thesis
  proof
    assume "x = Retry ?ev \<and> \<not> HasBootdirLayout lk (Provider ?ev)"
    then show ?thesis using cap by simp
  next
    assume "HasBootdirLayout lk (Provider ?ev) \<and> x = Boot \<lparr>OMode = parseMode (EvMode ?ev), OSessionID = SessionID ?ev,
      OAgentProfile = AgentProfile ?ev, ParentSessionID = LineageOf ?ev, OWorkdir = Workdir ?ev, OProvider = Provider ?ev\<rparr>"
    then show ?thesis using cap by (auto simp: buildFailureEvent_def or_zero_def parseMode_String)
  qed
qed

text \<open>
  A retry is never dispatched after a remediation that failed or is not wired, and such an
  exit makes no other remediation call.
\<close>

lemma failed_remediation_blocks:
  assumes "x \<in> set (snd (OnSessionExit K lk ul e b sid (Some xe) meta))" and "is_remediation x"
    and "remediate_err e = Some m"
  shows "filter is_dispatch (snd (OnSessionExit K lk ul e b sid (Some xe) meta)) = []
    \<and> filter is_remediation (snd (OnSessionExit K lk ul e b sid (Some xe) meta)) = [x]"
proof -
  let ?cs = "snd (OnSessionExit K lk ul e b sid (Some xe) meta)"
  let ?ev = "buildFailureEvent (t_occurred e) sid xe meta (attempts b sid + 1)"
  have x: "x \<in> set (filter is_remediation ?cs)" using assms(1,2) by simp
  show ?thesis
  proof (rule OnSessionExit_cases [of b sid K lk ul e xe meta])
    fix c
    assume r: "OnSessionExit K lk ul e b sid (Some xe) meta = runConfigFixedRetry K lk e (counted b sid) ?ev c"
    let ?b2 = "in_emit e (registerActiveRetry (counted b sid) (SessionID ?ev) (newCancelToken (rand e)) (ctx e))"
    have rem: "filter is_remediation ?cs = fst (Remediate e ?b2 (Some ?ev) c)"
      unfolding r by (rule config_remediation)
    have "fst (Remediate e ?b2 (Some ?ev) c) \<noteq> []" using x unfolding rem by auto
    then have "snd (Remediate e ?b2 (Some ?ev) c) = Some m" using Remediate_err assms(3) by simp
    then have "\<not> is_dispatch y" if "y \<in> set ?cs" for y
      using config_dispatch [of y K lk e "counted b sid" ?ev c] that r by auto
    moreover have "fst (Remediate e ?b2 (Some ?ev) c) = [x]"
      using x rem Remediate_fst(2) [of e ?b2 "Some ?ev" c]
      by (cases "fst (Remediate e ?b2 (Some ?ev) c)") auto
    ultimately show ?thesis by (simp add: rem filter_empty_conv)
  qed (use x in \<open>auto simp: escalate_no_remediation transient_remediation simp del: set_filter\<close>)
qed

text \<open>
  The classifier, with its early returns, is a list of guarded rules of which the first
  applicable one decides; anything left over is permanent; only remediable failures carry a
  remediation.
\<close>

lemma classify_by_rules:
  assumes "Exit ev = Some xe"
  shows "(CClass (Classify K ul (Some ev)), CRemediation (Classify K ul (Some ev))) =
      first_rule (classify_rules K ul ev xe) (ClassPermanent, RemediationNone)
    \<and> (CRemediation (Classify K ul (Some ev)) \<noteq> RemediationNone \<longleftrightarrow>
         CClass (Classify K ul (Some ev)) = ClassConfigPermissions)"
proof -
  have "shape (Classify K ul (Some ev)) =
      first_rule (classify_rules K ul ev xe) (ClassPermanent, RemediationNone)"
    unfolding Classify_def classify_rules_def option.case assms shape_if shape_verdict first_rule.simps
      youngSessionThreshold_def
    by simp
  then have "(CClass (Classify K ul (Some ev)), CRemediation (Classify K ul (Some ev))) =
      first_rule (classify_rules K ul ev xe) (ClassPermanent, RemediationNone)"
    by (simp add: shape_def)
  then show ?thesis using Classify_known by blast
qed

text \<open>
  The HTTP backoff is one second doubled once per earlier attempt, at most ten times,
  and capped at a positive ceiling; it is positive and never shrinks from one attempt to
  the next.
\<close>

lemma backoff_bounds:
  "httpRetryBackoff attempt ceiling =
     (let d = 10 ^ 9 * 2 ^ nat (min 10 (max 0 (attempt - 1))) in if 0 < ceiling then min ceiling d else d)
   \<and> 0 < httpRetryBackoff attempt ceiling
   \<and> httpRetryBackoff attempt ceiling \<le> httpRetryBackoff (attempt + 1) ceiling
   \<and> httpRetryBackoff attempt ceiling \<le> 1024 * 10 ^ 9"
proof -
  define p :: int where "p = 2 ^ nat (min 10 (max 0 (attempt - 1)))"
  define q :: int where "q = 2 ^ nat (min 10 (max 0 (attempt + 1 - 1)))"
  have "p \<le> q" unfolding p_def q_def by (rule power_increasing) auto
  moreover have "p \<le> 2 ^ 10" unfolding p_def by (rule power_increasing) auto
  moreover have "1 \<le> p" by (simp add: p_def)
  ultimately show ?thesis
    unfolding backoff_closed Let_def p_def [symmetric] q_def [symmetric] by (auto simp: min_def)
qed

text \<open>
  The number formatter prints every 64-bit integer but the least one as decimal, and
  always fits its buffer of twenty bytes.
\<close>

lemma itoa_decimal:
  assumes "- (2 ^ 63) < n" and "n < 2 ^ 63"
  shows "itoa n = show_int n \<and> length (itoa n) \<le> 20"
proof -
  have len: "length (show_nat (nat k)) \<le> 19" if "k < 2 ^ 63" for k :: int
    using that by (intro length_show_nat) auto
  have "CHR ''0'' = char_of (48 :: nat)" by code_simp
  then have "itoa n = show_int n"
    using assms by (auto simp: itoa_def show_int_def neg64_def itoa_loop_show Let_def show_nat.simps)
  then show ?thesis using len [of n] len [of "- n"] assms by (auto simp: show_int_def)
qed

section \<open>Instances\<close>

text \<open>A fully wired broker whose dependencies answer without errors.\<close>

definition sample_causes :: causes where
  "sample_causes = \<lparr>CauseIdleTimeout = ''idle_timeout'', CauseWatchdogKill = ''watchdog_kill'',
     CauseOOMKill = ''oom_kill'', CauseRestartExhausted = ''restart_exhausted'',
     CauseResourceLimit = ''resource_limit''\<rparr>"

definition sample_calls_env :: env where
  "sample_calls_env = \<lparr>rand = Some ''t'', ctx = 1, t_occurred = 10, t_started = 11, t_stamp = 12, t_end = 13,
     remediate_err = None, mark_err = None, timer_first = True, boot_res = Inr (Some 5), retry_err = None,
     in_emit = (\<lambda>b. b), in_remediate = (\<lambda>b. b), in_backoff = (\<lambda>b. b), in_dispatch = (\<lambda>b. b),
     in_escalate = (\<lambda>b. b)\<rparr>"

definition sample_broker :: Broker where
  "sample_broker = NewBroker \<lparr>AgentBoot = True, BootDir = True, MCP = True, Credentials = True,
     Store = True, EnvelopeSink = True, HTTPRetry = True\<rparr> []"

definition idle_exit :: ExitError where
  "idle_exit = \<lparr>Cause = ''idle_timeout'', Code = 1, Signal = 0\<rparr>"

definition stuck_exit :: ExitError where
  "stuck_exit = \<lparr>Cause = ''watchdog_kill'', Code = 1, Signal = 0\<rparr>"

lemma sample_others [simp]: "others_ok s sample_calls_env"
  by (simp add: others_ok_def sample_calls_env_def)

lemma sample_broker_start [simp]: "Store (deps sample_broker)" "attempts sample_broker s = 0" "maxRetries sample_broker = 3"
  by (simp_all add: sample_broker_def NewBroker_def attempts_def MaxBrokerRetries_def)

abbreviation sample_history :: "Broker \<times> call list" where
  "sample_history \<equiv> foldl (broker_step sample_causes Some (\<lambda>x. x)) (sample_broker, [])
     [Exits sample_calls_env ''s'' (Some idle_exit) [''provider'' \<mapsto> MString ''codex'']]"

theorem retry_cap_witness:
  "int (length (filter (dispatch_for ''s'') (snd sample_history))) \<le> 3 \<and> list_ex (dispatch_for ''s'') (snd sample_history)"
proof -
  have calm: "\<not> escalated ''s'' (snd sample_history)" by code_simp
  have "list_ex (dispatch_for ''s'') (snd sample_history)" by code_simp
  then show ?thesis
    using retry_cap [of sample_broker "''s''" _ sample_causes Some "\<lambda>x. x", OF _ _ _ _ prod.collapse [symmetric] calm] by simp
qed

theorem one_breadcrumb_witness:
  "\<exists>bc pre. snd (OnSessionExit sample_causes Some (\<lambda>x. x) sample_calls_env sample_broker ''s'' (Some idle_exit) Map.empty)
     = pre @ [WriteBreadcrumb bc] \<and> AttemptCount bc = 1"
  using one_breadcrumb [of sample_broker "''s''" sample_calls_env sample_causes Some "\<lambda>x. x" idle_exit Map.empty] by auto

theorem cancel_stops_retry_witness:
  "filter is_dispatch (snd (OnSessionExit sample_causes Some (\<lambda>x. x)
     (sample_calls_env\<lparr>in_emit := \<lambda>b. fst (Cancel b ''s'' ''t'')\<rparr>) sample_broker ''s'' (Some idle_exit) Map.empty)) = []"
  by (rule cancel_stops_retry) (simp_all add: sample_calls_env_def newCancelToken_def)

end
