(* ===== verification/Classify.thy ===== *)
theory Classify
  imports Prelude
begin

text \<open>
  Package \<^verbatim>\<open>internal/classify\<close>: the scope and pattern classifier (\<^verbatim>\<open>scope.go\<close>,
  \<^verbatim>\<open>classify.go\<close>) and the route classifier with its phrase matcher (\<^verbatim>\<open>route.go\<close>).
  The Unicode lower-case tables are the parameter \<open>ul\<close>, the installed provider of
  envelope types is an optional list.
\<close>

section \<open>Scope and pattern\<close>

datatype ScopeTier = TierInvalid | TierTrivial | TierSmall | TierMedium | TierLarge | TierOpen

datatype ExecutionPattern = PatternInvalid | PatternInline | PatternSubagent | PatternBackground

fun Pattern_String :: "ExecutionPattern \<Rightarrow> string" where
  "Pattern_String PatternInline = ''inline''"
| "Pattern_String PatternSubagent = ''subagent''"
| "Pattern_String PatternBackground = ''background''"
| "Pattern_String PatternInvalid = ''invalid''"

fun ScopeTier_IsValid :: "ScopeTier \<Rightarrow> bool" where
  "ScopeTier_IsValid TierInvalid = False"
| "ScopeTier_IsValid _ = True"

fun ExecutionPattern_IsValid :: "ExecutionPattern \<Rightarrow> bool" where
  "ExecutionPattern_IsValid PatternInvalid = False"
| "ExecutionPattern_IsValid _ = True"

record IntentSignals =
  Message :: string
  MessageTokenEst :: int
  HasAttachments :: bool
  ToolsAvailable :: int

definition ScopeTierOpenKeywords :: "string list" where
  "ScopeTierOpenKeywords = [''build'', ''scaffold'', ''create a complete'', ''make an app'',
     ''full implementation'', ''end-to-end'', ''research deeply'', ''exhaustive'',
     ''full migration'', ''full research'']"

definition ScopeTierLargeKeywords :: "string list" where
  "ScopeTierLargeKeywords = [''refactor'', ''migrate'', ''rewrite'', ''restructure'',
     ''port to'', ''convert all'', ''across the codebase'']"

definition ScopeTierMediumKeywords :: "string list" where
  "ScopeTierMediumKeywords = [''implement'', ''add feature'', ''wire up'', ''integrate'', ''fix and test'']"

definition ScopeTierSmallKeywords :: "string list" where
  "ScopeTierSmallKeywords = [''fix'', ''change'', ''update'', ''rename'', ''what does'', ''where is'']"

definition ExecutionPatternBackgroundKeywords :: "string list" where
  "ExecutionPatternBackgroundKeywords = [''in the background'', ''kick off'', ''let me know when'', ''poll'',
     ''run overnight'', ''detach'', ''send to inbox'']"

definition ExecutionPatternSubagentKeywords :: "string list" where
  "ExecutionPatternSubagentKeywords = [''research'', ''investigate'', ''audit'', ''survey'', ''dispatch to'']"

definition ExecutionPatternBackgroundFollowUpKeywords :: "string list" where
  "ExecutionPatternBackgroundFollowUpKeywords = [''while i'', ''i'' @ [CHR 0x27] @ ''ll check back'']"

definition containsAny :: "string \<Rightarrow> string list \<Rightarrow> bool" where
  "containsAny haystack needles = list_ex (Contains haystack) needles"

definition classifyTier :: "(string \<Rightarrow> string) \<Rightarrow> IntentSignals \<Rightarrow> ScopeTier" where
  "classifyTier ul intent =
     (let msg = ToLower ul (Message intent); est = MessageTokenEst intent in
      if est > 0 \<and> est \<le> 10 then TierTrivial
      else if containsAny msg ScopeTierOpenKeywords then TierOpen
      else if containsAny msg ScopeTierLargeKeywords then TierLarge
      else if containsAny msg ScopeTierMediumKeywords then TierMedium
      else if est > 2000 then TierOpen
      else if est > 800 then TierLarge
      else if est > 200 then TierMedium
      else if est \<le> 30 \<and> est > 0 \<and> \<not> containsAny msg ScopeTierSmallKeywords then TierTrivial
      else TierSmall)"

definition classifyPattern :: "(string \<Rightarrow> string) \<Rightarrow> IntentSignals \<Rightarrow> ScopeTier \<Rightarrow> ExecutionPattern" where
  "classifyPattern ul intent tier =
     (let msg = ToLower ul (Message intent) in
      if containsAny msg ExecutionPatternBackgroundKeywords then PatternBackground
      else if tier = TierOpen \<and> containsAny msg ExecutionPatternBackgroundFollowUpKeywords then PatternBackground
      else if tier = TierLarge \<or> tier = TierOpen then PatternSubagent
      else if containsAny msg ExecutionPatternSubagentKeywords then PatternSubagent
      else PatternInline)"

definition Classify_intent :: "(string \<Rightarrow> string) \<Rightarrow> IntentSignals \<Rightarrow> ScopeTier \<times> ExecutionPattern" where
  "Classify_intent ul intent =
     (let tier = classifyTier ul intent; pattern = classifyPattern ul intent tier in (tier, pattern))"

section \<open>Routes\<close>

datatype Route = RouteChatDirect | RouteExecutorEnvelopeRender

record RouteDecision =
  Route :: Route
  TargetEnvelopeType :: string
  SyntheticAllowed :: bool

definition RouteRenderVerbKeywords :: "string list" where
  "RouteRenderVerbKeywords = [''show me'', ''render'', ''display'', ''demo report'', ''demo card'',
     ''card for'', ''card showing'', ''preview a'', ''mock up'', ''make a card'']"

definition RouteSyntheticIntentKeywords :: "string list" where
  "RouteSyntheticIntentKeywords = [''let'' @ [CHR 0x27] @ ''s do some testing'', ''let me test'',
     ''let'' @ [CHR 0x27] @ ''s test'', ''give me an example'', ''synthetic'', ''placeholder'',
     ''synthesize'', ''for testing'', ''demo'']"

definition RouteMultiStepRenderKeywords :: "string list" where
  "RouteMultiStepRenderKeywords = [''look up'', ''fetch the'', ''pull the'', ''go grab'']"

definition v1EnvelopeTypeBaseline :: "string list" where
  "v1EnvelopeTypeBaseline = [''document-viewer'', ''report-card'', ''info-card'', ''list-card'', ''metric-card'',
     ''progress-card'', ''table-card'', ''timeline-card'', ''diff-card'', ''artifact-mini'']"

definition availableEnvelopeTypes :: "string list option \<Rightarrow> string list" where
  "availableEnvelopeTypes provider = (case provider of Some ts \<Rightarrow> ts | None \<Rightarrow> v1EnvelopeTypeBaseline)"

text \<open>
  The matcher reads single bytes as runes, so the letters are those of Latin-1. The digits
  of Latin-1 are the ASCII ones.
\<close>

definition isWordRune :: "char \<Rightarrow> bool" where
  "isWordRune c = (between c 48 57 \<or> between c 65 90 \<or> between c 97 122
     \<or> c = CHR 0xAA \<or> c = CHR 0xB5 \<or> c = CHR 0xBA
     \<or> between c 0xC0 0xD6 \<or> between c 0xD8 0xF6 \<or> between c 0xF8 0xFF)"

definition isWordBoundary :: "string \<Rightarrow> nat \<Rightarrow> bool" where
  "isWordBoundary s pos = (if pos \<le> 0 \<or> pos \<ge> length s then True
     else \<not> (isWordRune (s ! (pos - 1)) \<and> isWordRune (s ! pos)))"

text \<open>The search resumes one byte after a match whose ends are not both boundaries.\<close>

function phrase_from :: "string \<Rightarrow> string \<Rightarrow> nat \<Rightarrow> bool" where
  "phrase_from haystack phrase start =
     (case Index (drop start haystack) phrase of
        None \<Rightarrow> False
      | Some idx \<Rightarrow>
          let absIdx = start + idx in
          if isWordBoundary haystack absIdx \<and> isWordBoundary haystack (absIdx + length phrase) then True
          else if absIdx + 1 \<ge> length haystack then False
          else phrase_from haystack phrase (absIdx + 1))"
  by pat_completeness auto
termination
  by (relation "measure (\<lambda>(h, p, start). length h - start)") auto

declare phrase_from.simps [simp del]

definition phraseHit :: "string \<Rightarrow> string \<Rightarrow> bool" where
  "phraseHit haystack phrase =
     (if phrase = [] \<or> length haystack < length phrase then False else phrase_from haystack phrase 0)"

definition anyPhraseHit :: "string \<Rightarrow> string list \<Rightarrow> bool" where
  "anyPhraseHit haystack needles = list_ex (phraseHit haystack) needles"

fun match_types :: "string \<Rightarrow> string \<Rightarrow> string list \<Rightarrow> string" where
  "match_types haystack best [] = best"
| "match_types haystack best (t # ts) =
     (if t = [] then match_types haystack best ts
      else if Contains haystack t \<and> length t > length best then match_types haystack t ts
      else match_types haystack best ts)"

definition matchEnvelopeType :: "string \<Rightarrow> string list \<Rightarrow> string" where
  "matchEnvelopeType haystack types = match_types haystack [] types"

definition ClassifyRoute :: "(string \<Rightarrow> string) \<Rightarrow> string list option \<Rightarrow> IntentSignals \<Rightarrow> RouteDecision" where
  "ClassifyRoute ul provider intent =
     (let msg = TrimSpace (Message intent);
          chat = \<lparr>Route = RouteChatDirect, TargetEnvelopeType = [], SyntheticAllowed = False\<rparr>;
          render = \<lparr>Route = RouteExecutorEnvelopeRender, TargetEnvelopeType = [], SyntheticAllowed = False\<rparr>
      in if msg = [] then chat
      else let lower = ToLower ul msg; available = availableEnvelopeTypes provider in
        if available = [] then chat
        else let envType = matchEnvelopeType lower available in
          if envType \<noteq> [] then
            render\<lparr>TargetEnvelopeType := envType,
              SyntheticAllowed := containsAny lower RouteSyntheticIntentKeywords\<rparr>
          else let hasRenderVerb = anyPhraseHit lower RouteRenderVerbKeywords;
                   hasDemoCue = anyPhraseHit lower RouteSyntheticIntentKeywords
            in if hasRenderVerb \<and> hasDemoCue then render\<lparr>SyntheticAllowed := True\<rparr>
               else if hasRenderVerb then render
               else if anyPhraseHit lower RouteMultiStepRenderKeywords then render
               else chat)"

section \<open>The phrase matcher\<close>

lemma Index_least: "Index s p = Some i \<Longrightarrow> j < i \<Longrightarrow> \<not> prefix p (drop j s)"
proof (induction s arbitrary: i j)
  case Nil
  then show ?case by (subst (asm) Index.simps) (auto split: if_splits)
next
  case (Cons a s)
  from Cons.prems show ?case
    by (subst (asm) (1) Index.simps) (cases j; auto split: if_splits dest: Cons.IH)
qed

lemma Index_none_drop: "Index s p = None \<Longrightarrow> \<not> prefix p (drop j s)"
  using Index_None [of s p] by (metis prefix_imp_sublist sublist_order.order_trans suffix_drop suffix_imp_sublist)

definition anchored :: "string \<Rightarrow> string \<Rightarrow> nat \<Rightarrow> bool" where
  "anchored h p i \<longleftrightarrow> prefix p (drop i h) \<and> isWordBoundary h i \<and> isWordBoundary h (i + length p)"

lemma phrase_from_iff:
  "p \<noteq> [] \<Longrightarrow> phrase_from h p start \<longleftrightarrow> (\<exists>i\<ge>start. anchored h p i)"
proof (induction h p start rule: phrase_from.induct)
  case (1 h p start)
  show ?case
  proof (cases "Index (drop start h) p")
    case None
    then have "\<not> prefix p (drop i h)" if "start \<le> i" for i
      using Index_none_drop [OF None, of "i - start"] that by simp
    then show ?thesis by (subst phrase_from.simps) (auto simp: None anchored_def)
  next
    case (Some idx)
    let ?a = "start + idx"
    have hit: "prefix p (drop ?a h)" using Index_Some [OF Some] by (simp add: add.commute)
    have first: "\<not> prefix p (drop i h)" if "start \<le> i" "i < ?a" for i
      using Index_least [OF Some, of "i - start"] that by simp
    have beyond: "\<not> anchored h p i" if "length h \<le> i" for i
      using that 1(2) by (auto simp: anchored_def)
    show ?thesis
    proof (cases "isWordBoundary h ?a \<and> isWordBoundary h (?a + length p)")
      case True
      then have "anchored h p ?a" using hit by (simp add: anchored_def)
      then show ?thesis using True by (subst phrase_from.simps) (auto simp: Some Let_def intro: le_add1)
    next
      case False
      have "(\<exists>i\<ge>start. anchored h p i) \<longleftrightarrow> (\<exists>i\<ge>?a + 1. anchored h p i)"
        using first False by (metis add_leE anchored_def le_neq_implies_less less_eq_Suc_le not_less Suc_eq_plus1)
      then show ?thesis
        using 1(1) [OF Some _ False] 1(2) False beyond
        by (subst phrase_from.simps) (auto simp: Some Let_def)
    qed
  qed
qed

lemma match_types_spec:
  "(match_types h best ts = best \<or> match_types h best ts \<in> set ts \<and> Contains h (match_types h best ts))
   \<and> length best \<le> length (match_types h best ts)
   \<and> (\<forall>t\<in>set ts. Contains h t \<longrightarrow> length t \<le> length (match_types h best ts))"
  by (induction h best ts rule: match_types.induct) (auto intro: order_trans)

section \<open>Every reachable answer\<close>

fun sample_text :: "ExecutionPattern \<Rightarrow> string" where
  "sample_text PatternSubagent = ''audit''"
| "sample_text PatternBackground = ''poll''"
| "sample_text _ = []"

fun sample_est :: "ScopeTier \<Rightarrow> int" where
  "sample_est TierTrivial = 5"
| "sample_est TierSmall = 50"
| "sample_est TierMedium = 300"
| "sample_est TierLarge = 900"
| "sample_est TierOpen = 3000"
| "sample_est TierInvalid = 0"

definition sample_intent :: "ScopeTier \<Rightarrow> ExecutionPattern \<Rightarrow> IntentSignals" where
  "sample_intent t p = \<lparr>Message = sample_text p, MessageTokenEst = sample_est t,
     HasAttachments = False, ToolsAvailable = 0\<rparr>"

lemma sample_lower: "ToLower ul (sample_text p) = sample_text p"
proof -
  have "list_all ascii_byte (sample_text p) \<and> map ascii_lower (sample_text p) = sample_text p"
    by (cases p; simp; code_simp)
  then show ?thesis by (simp add: ToLower_def)
qed

lemma sample_keywords:
  "\<not> containsAny (sample_text p) ScopeTierOpenKeywords" "\<not> containsAny (sample_text p) ScopeTierLargeKeywords"
  "\<not> containsAny (sample_text p) ScopeTierMediumKeywords" "\<not> containsAny (sample_text p) ScopeTierSmallKeywords"
  "containsAny (sample_text p) ExecutionPatternBackgroundKeywords \<longleftrightarrow> p = PatternBackground"
  "containsAny (sample_text p) ExecutionPatternSubagentKeywords \<longleftrightarrow> p = PatternSubagent"
  "\<not> containsAny (sample_text p) ExecutionPatternBackgroundFollowUpKeywords"
  by (cases p; hypsubst; code_simp)+

lemma classify_sample:
  "ScopeTier_IsValid t \<Longrightarrow> ExecutionPattern_IsValid p \<Longrightarrow> \<not> (t \<in> {TierLarge, TierOpen} \<and> p = PatternInline) \<Longrightarrow>
   Classify_intent ul (sample_intent t p) = (t, p)"
  by (cases t; cases p)
     (simp_all add: Classify_intent_def classifyTier_def classifyPattern_def sample_intent_def sample_lower
       sample_keywords Let_def del: sample_text.simps)

section \<open>Properties\<close>

text \<open>
  Of the fifteen pairs of a valid scope tier and a valid execution pattern, exactly
  thirteen are answers of the classifier: large and open work is never run inline, and the
  classifier never answers with an invalid value.
\<close>

lemma classify_reachable:
  "range (Classify_intent ul) =
     {(t, p). ScopeTier_IsValid t \<and> ExecutionPattern_IsValid p} - {(TierLarge, PatternInline), (TierOpen, PatternInline)}"
proof
  show "range (Classify_intent ul) \<subseteq> {(t, p). ScopeTier_IsValid t \<and> ExecutionPattern_IsValid p}
      - {(TierLarge, PatternInline), (TierOpen, PatternInline)}"
    by (auto simp: Classify_intent_def classifyTier_def classifyPattern_def Let_def split: if_splits)
next
  have "(t, p) \<in> range (Classify_intent ul)"
    if "ScopeTier_IsValid t" "ExecutionPattern_IsValid p" "\<not> (t \<in> {TierLarge, TierOpen} \<and> p = PatternInline)" for t p
    using that classify_sample [where ul = ul and t = t and p = p] by (metis rangeI)
  then show "{(t, p). ScopeTier_IsValid t \<and> ExecutionPattern_IsValid p}
      - {(TierLarge, PatternInline), (TierOpen, PatternInline)} \<subseteq> range (Classify_intent ul)"
    by auto
qed

text \<open>In UTF-8 the letter e with an acute accent is the bytes C3 and A9, and A9, taken alone, is the
  copyright sign: the phrase is found behind it, inside a word.\<close>

lemma phrase_found_inside_word: "phraseHit [CHR 0xC3, CHR 0xA9, CHR ''p'', CHR ''l'', CHR ''a'', CHR ''n''] ''plan''"
  by code_simp

text \<open>
  C14. A phrase hits exactly if it occurs somewhere with a word boundary at both ends, as the code
  reads boundaries: an end of the text, or two neighbouring bytes that are not both, taken alone
  as a code point, a letter or a digit. The search does not stop at an occurrence inside a longer
  word. For ASCII text these are the boundaries the comments speak of; they speak of runes,
  though, and next to a letter of several bytes the code finds boundaries that are none.
\<close>

theorem phraseHit_anchored:
  "phraseHit h p \<longleftrightarrow> p \<noteq> [] \<and> (\<exists>i. prefix p (drop i h) \<and> isWordBoundary h i \<and> isWordBoundary h (i + length p))"
proof (cases "p = []")
  case False
  have "length p \<le> length h" if "prefix p (drop i h)" for i
    using prefix_length_le [OF that] by simp
  with False show ?thesis
    by (auto simp: phraseHit_def phrase_from_iff anchored_def) fastforce
qed (simp add: phraseHit_def)

text \<open>
  Routing. An explicitly named envelope type wins, and the longest one named is the
  target; whatever is routed to the executor without a named type has a render verb or a
  multi-step phrase; with no envelope type available everything goes to chat.
\<close>

lemma route_decision:
  assumes "ClassifyRoute ul provider intent = d" and "Route d = RouteExecutorEnvelopeRender"
  shows "availableEnvelopeTypes provider \<noteq> [] \<and>
    (let lower = ToLower ul (TrimSpace (Message intent)) in
     if TargetEnvelopeType d \<noteq> []
     then TargetEnvelopeType d \<in> set (availableEnvelopeTypes provider) \<and> Contains lower (TargetEnvelopeType d)
       \<and> (\<forall>t\<in>set (availableEnvelopeTypes provider). Contains lower t \<longrightarrow> length t \<le> length (TargetEnvelopeType d))
     else (\<forall>t\<in>set (availableEnvelopeTypes provider). t \<noteq> [] \<longrightarrow> \<not> Contains lower t)
       \<and> (anyPhraseHit lower RouteRenderVerbKeywords \<or> anyPhraseHit lower RouteMultiStepRenderKeywords))"
proof -
  let ?lower = "ToLower ul (TrimSpace (Message intent))"
  let ?ts = "availableEnvelopeTypes provider"
  have best: "matchEnvelopeType ?lower ?ts = [] \<or>
      matchEnvelopeType ?lower ?ts \<in> set ?ts \<and> Contains ?lower (matchEnvelopeType ?lower ?ts)"
    "\<forall>t\<in>set ?ts. Contains ?lower t \<longrightarrow> length t \<le> length (matchEnvelopeType ?lower ?ts)"
    using match_types_spec [of ?lower "[]" ?ts] by (auto simp: matchEnvelopeType_def)
  show ?thesis
  proof (cases "matchEnvelopeType ?lower ?ts = []")
    case True
    with best(2) have "\<forall>t\<in>set ?ts. t \<noteq> [] \<longrightarrow> \<not> Contains ?lower t" by auto
    with True show ?thesis
      using assms by (auto simp: ClassifyRoute_def Let_def split: if_splits)
  next
    case False
    then have "Route d = RouteExecutorEnvelopeRender \<Longrightarrow> TargetEnvelopeType d = matchEnvelopeType ?lower ?ts \<and> ?ts \<noteq> []"
      using assms(1) by (auto simp: ClassifyRoute_def Let_def split: if_splits)
    with False best assms(2) show ?thesis by (simp add: Let_def)
  qed
qed

end
