(* ===== verification/Background.thy ===== *)
theory Background
  imports Classify "HOL-Library.AList" "HOL-Library.Char_ord" "HOL-Library.List_Lexorder"
    "HOL-Library.Product_Lexorder"
begin

text \<open>
  Package \<^verbatim>\<open>internal/background\<close>: the service that tracks background jobs
  (\<^verbatim>\<open>types.go\<close>, \<^verbatim>\<open>service.go\<close>), the completion envelope (\<^verbatim>\<open>messaging.go\<close>) and the shell
  backend (\<^verbatim>\<open>shell_job.go\<close>).

  The registry of jobs, a Go map, is an association list without repeated keys. UUIDs, the
  keyed hash, the base64 coder and the JSON encoder are parameters, the first as a supply
  indexed by the number of ids drawn so far. The stretches of code that hold the
  service's lock are atomic steps, and any order of such steps is a history. Processes,
  pipes and signals are the operating system's: the backend model keeps what it records
  of them.
\<close>

section \<open>Types\<close>

datatype JobStatus = StatusPending | StatusRunning | StatusSucceeded | StatusFailed
  | StatusCanceled | StatusExpired

fun JobStatus_string :: "JobStatus \<Rightarrow> string" where
  "JobStatus_string StatusPending = ''pending''"
| "JobStatus_string StatusRunning = ''running''"
| "JobStatus_string StatusSucceeded = ''succeeded''"
| "JobStatus_string StatusFailed = ''failed''"
| "JobStatus_string StatusCanceled = ''canceled''"
| "JobStatus_string StatusExpired = ''expired''"

definition IsTerminal :: "JobStatus \<Rightarrow> bool" where
  "IsTerminal s = (s = StatusSucceeded \<or> s = StatusFailed \<or> s = StatusCanceled \<or> s = StatusExpired)"

record JobBudget =
  WallClockSeconds :: int
  MaxOutputBytes :: int

definition DefaultWallClockSeconds :: int where
  "DefaultWallClockSeconds = 30 * 60"

definition DefaultMaxOutputBytes :: int where
  "DefaultMaxOutputBytes = 2 ^ 20"

record JobRequest =
  Agent :: string
  Task :: string
  Budget :: JobBudget
  OriginatingSessionID :: session_id
  OriginatingAgentID :: string

record JobResult =
  JobID :: string
  Status :: JobStatus
  Output :: string
  Error :: string
  StartedAt :: go_time
  CompletedAt :: go_time
  OutputTruncated :: bool

record BackendCompletion =
  BStatus :: JobStatus
  BOutput :: string
  BOutputTruncated :: bool
  BErr :: "string option"
  BStartedAt :: go_time
  BCompletedAt :: go_time

datatype bg_error = ErrPatternNotBackground string | ErrNoBackend | ErrNoMessenger
  | ErrTaskRequired | ErrSessionRequired | ErrAgentRequired | ErrBackendStart string
  | ErrExpiredJob | ErrUnknownJob

record jobRecord =
  rid :: string
  req :: JobRequest
  status :: JobStatus
  startedAt :: go_time
  completedAt :: go_time
  joutput :: string
  truncated :: bool
  err :: "string option"

text \<open>
  The keyed hash with the service's secret, the strict base64 coder, and the canonical form
  of a parsed UUID.
\<close>

record tokens =
  sign :: "string \<Rightarrow> string"
  encode :: "string \<Rightarrow> string"
  decode :: "string \<Rightarrow> string option"
  encoded_len :: nat
  uuid_parse :: "string \<Rightarrow> string option"

record JobService =
  backend :: bool
  messenger :: bool
  jobs :: "(string \<times> jobRecord) list"
  tok :: tokens
  ttl :: duration
  maxCompleted :: int

definition NewService :: "bool \<Rightarrow> bool \<Rightarrow> tokens \<Rightarrow> JobService" where
  "NewService be me k = \<lparr>backend = be, messenger = me, jobs = [], tok = k,
     ttl = 24 * 3600 * 10 ^ 9, maxCompleted = 100\<rparr>"

section \<open>Job identifiers\<close>

definition jobIDTokenVersion :: string where
  "jobIDTokenVersion = ''bg1''"

definition newJobID :: "JobService \<Rightarrow> string \<Rightarrow> string" where
  "newJobID svc uuid = (let payload = jobIDTokenVersion @ '':'' @ uuid in
     payload @ '':'' @ encode (tok svc) (sign (tok svc) payload))"

definition isIssuedJobIDLocked :: "JobService \<Rightarrow> string \<Rightarrow> bool" where
  "isIssuedJobIDLocked svc jobID =
     (case Cut jobID CHR '':'' of None \<Rightarrow> False
      | Some (version, remainder) \<Rightarrow>
         if version \<noteq> jobIDTokenVersion then False
         else case Cut remainder CHR '':'' of None \<Rightarrow> False
         | Some (nonceText, tagText) \<Rightarrow>
            if Contains tagText '':'' then False
            else if uuid_parse (tok svc) nonceText \<noteq> Some nonceText then False
            else if length tagText \<noteq> encoded_len (tok svc) then False
            else case decode (tok svc) tagText of None \<Rightarrow> False
            | Some tag \<Rightarrow>
               if length tag \<noteq> 32 then False
               else if encode (tok svc) tag \<noteq> tagText then False
               else tag = sign (tok svc) (version @ '':'' @ nonceText))"

definition missingJobResultLocked :: "JobService \<Rightarrow> string \<Rightarrow> bg_error" where
  "missingJobResultLocked svc jobID =
     (if isIssuedJobIDLocked svc jobID then ErrExpiredJob else ErrUnknownJob)"

section \<open>Retention\<close>

definition expired :: "JobService \<Rightarrow> go_time \<Rightarrow> jobRecord \<Rightarrow> bool" where
  "expired svc now r = (ttl svc > 0 \<and> completedAt r \<noteq> 0 \<and> \<not> now < completedAt r + ttl svc)"

definition pruneCompletedLocked :: "JobService \<Rightarrow> go_time \<Rightarrow> JobService" where
  "pruneCompletedLocked svc now =
     (let kept = filter (\<lambda>(i, r). \<not> IsTerminal (status r) \<or> \<not> expired svc now r) (jobs svc);
          completed = map (\<lambda>(i, r). (completedAt r, i)) (filter (\<lambda>(i, r). IsTerminal (status r)) kept)
      in if maxCompleted svc < 0 \<or> int (length completed) \<le> maxCompleted svc then svc\<lparr>jobs := kept\<rparr>
         else let evict = map snd (take (length completed - nat (maxCompleted svc)) (sort completed))
           in svc\<lparr>jobs := filter (\<lambda>(i, r). i \<notin> set evict) kept\<rparr>)"

section \<open>Submitting, asking, completing\<close>

definition fill_budget :: "JobRequest \<Rightarrow> JobRequest" where
  "fill_budget r = r\<lparr>Budget := \<lparr>
     WallClockSeconds = (if WallClockSeconds (Budget r) \<le> 0 then DefaultWallClockSeconds else WallClockSeconds (Budget r)),
     MaxOutputBytes = (if MaxOutputBytes (Budget r) \<le> 0 then DefaultMaxOutputBytes else MaxOutputBytes (Budget r))\<rparr>\<rparr>"

definition submit_check :: "JobService \<Rightarrow> ExecutionPattern \<Rightarrow> JobRequest \<Rightarrow> bg_error option" where
  "submit_check svc pattern r =
     (if pattern \<noteq> PatternBackground then Some (ErrPatternNotBackground (Pattern_String pattern))
      else if \<not> backend svc then Some ErrNoBackend
      else if \<not> messenger svc then Some ErrNoMessenger
      else if TrimSpace (Task r) = [] then Some ErrTaskRequired
      else if OriginatingSessionID r = [] then Some ErrSessionRequired
      else if OriginatingAgentID r = [] then Some ErrAgentRequired
      else None)"

text \<open>The first locked stretch of \<^verbatim>\<open>Submit\<close>: the job is registered as pending.\<close>

definition submit_register :: "JobService \<Rightarrow> go_time \<Rightarrow> string \<Rightarrow> JobRequest \<Rightarrow> JobService \<times> string" where
  "submit_register svc now uuid r =
     (let svc1 = pruneCompletedLocked svc now; jobID = newJobID svc1 uuid;
          rec = \<lparr>rid = jobID, req = fill_budget r, status = StatusPending, startedAt = 0, completedAt = 0,
            joutput = [], truncated = False, err = None\<rparr>
      in (svc1\<lparr>jobs := AList.update jobID rec (jobs svc1)\<rparr>, jobID))"

text \<open>The stretch after a failed start, and the one after a clean start.\<close>

definition submit_failed :: "JobService \<Rightarrow> string \<Rightarrow> JobService" where
  "submit_failed svc jobID = svc\<lparr>jobs := AList.delete jobID (jobs svc)\<rparr>"

definition submit_started :: "JobService \<Rightarrow> go_time \<Rightarrow> string \<Rightarrow> JobService" where
  "submit_started svc now jobID = (case map_of (jobs svc) jobID of
       Some r \<Rightarrow> if status r = StatusPending
         then svc\<lparr>jobs := AList.update jobID (r\<lparr>status := StatusRunning, startedAt := now\<rparr>) (jobs svc)\<rparr> else svc
     | None \<Rightarrow> svc)"

text \<open>
  \<^verbatim>\<open>Submit\<close> as a whole. \<open>others\<close> is what happens to the service while the backend starts
  the job, \<open>start_err\<close> the backend's answer.
\<close>

definition Submit :: "(JobService \<Rightarrow> JobService) \<Rightarrow> string option \<Rightarrow> go_time \<Rightarrow> string \<Rightarrow> JobService
    \<Rightarrow> ExecutionPattern \<Rightarrow> JobRequest \<Rightarrow> JobService \<times> (bg_error + string)" where
  "Submit others start_err now uuid svc pattern r = (case submit_check svc pattern r of
       Some e \<Rightarrow> (svc, Inl e)
     | None \<Rightarrow> (case submit_register svc now uuid r of (svc1, jobID) \<Rightarrow>
         (case start_err of
            Some m \<Rightarrow> (submit_failed (others svc1) jobID, Inl (ErrBackendStart m))
          | None \<Rightarrow> (submit_started (others svc1) now jobID, Inr jobID))))"

definition Status_of :: "JobService \<Rightarrow> go_time \<Rightarrow> string \<Rightarrow> JobService \<times> (bg_error + JobStatus)" where
  "Status_of svc now jobID = (let svc1 = pruneCompletedLocked svc now in
     (svc1, case map_of (jobs svc1) jobID of
        None \<Rightarrow> Inl (missingJobResultLocked svc1 jobID) | Some r \<Rightarrow> Inr (status r)))"

definition result_of :: "jobRecord \<Rightarrow> JobResult" where
  "result_of r = \<lparr>JobID = rid r, Status = status r, Output = joutput r,
     Error = (case err r of None \<Rightarrow> [] | Some m \<Rightarrow> m),
     StartedAt = startedAt r, CompletedAt = completedAt r, OutputTruncated = truncated r\<rparr>"

definition Result :: "JobService \<Rightarrow> go_time \<Rightarrow> string \<Rightarrow> JobService \<times> (bg_error + JobResult)" where
  "Result svc now jobID = (let svc1 = pruneCompletedLocked svc now in
     (svc1, case map_of (jobs svc1) jobID of
        None \<Rightarrow> Inl (if isIssuedJobIDLocked svc1 jobID then ErrExpiredJob else ErrUnknownJob)
      | Some r \<Rightarrow> Inr (result_of r)))"

record SendInput =
  FromSessionID :: session_id
  FromAgentID :: string
  ToSessionID :: session_id
  ToAgentID :: string
  Subject :: string
  Body :: string
  Payload :: JobResult
  RegisterAs :: string

definition completionSubject :: "JobStatus \<Rightarrow> string" where
  "completionSubject s = ''background_job '' @ JobStatus_string s"

definition completionBody :: "JobResult \<Rightarrow> string" where
  "completionBody r = (case Status r of
       StatusSucceeded \<Rightarrow> ''Background job '' @ JobID r @ '' completed successfully.''
     | StatusFailed \<Rightarrow> if Error r \<noteq> [] then ''Background job '' @ JobID r @ '' failed: '' @ Error r
         else ''Background job '' @ JobID r @ '' failed.''
     | StatusCanceled \<Rightarrow> ''Background job '' @ JobID r @ '' was canceled.''
     | s \<Rightarrow> ''Background job '' @ JobID r @ '' reached status '' @ JobStatus_string s @ ''.'')"

text \<open>The result goes out encoded as JSON; a result always encodes.\<close>

definition postCompletionEnvelope :: "JobService \<Rightarrow> JobRequest \<Rightarrow> JobResult \<Rightarrow> SendInput list" where
  "postCompletionEnvelope svc r result = (if \<not> messenger svc then []
     else [\<lparr>FromSessionID = OriginatingSessionID r, FromAgentID = ''background-job'',
       ToSessionID = OriginatingSessionID r, ToAgentID = OriginatingAgentID r,
       Subject = completionSubject (Status result), Body = completionBody result,
       Payload = result, RegisterAs = ''external''\<rparr>])"

definition onBackendComplete ::
  "JobService \<Rightarrow> go_time \<Rightarrow> string \<Rightarrow> BackendCompletion \<Rightarrow> JobService \<times> SendInput list" where
  "onBackendComplete svc now jobID c = (case map_of (jobs svc) jobID of
       None \<Rightarrow> (svc, [])
     | Some r \<Rightarrow>
         if IsTerminal (status r) then (svc, [])
         else let r' = r\<lparr>status := BStatus c, joutput := BOutput c, truncated := BOutputTruncated c,
                 err := BErr c,
                 startedAt := (if BStartedAt c \<noteq> 0 then BStartedAt c else startedAt r),
                 completedAt := (if BCompletedAt c = 0 then now else BCompletedAt c)\<rparr>;
               svc1 = svc\<lparr>jobs := AList.update jobID r' (jobs svc)\<rparr>
           in (pruneCompletedLocked svc1 now, postCompletionEnvelope svc1 (req r) (result_of r')))"

section \<open>The shell backend\<close>

record shellJob =
  pgid :: int
  jstatus :: JobStatus
  canceled :: bool
  run_done :: bool

type_synonym ShellJobBackend = "string \<rightharpoonup> shellJob"

text \<open>
  One chunk of captured output. The two reader goroutines write under a mutex, so the
  chunks arrive in some order.
\<close>

definition writeChunk :: "int \<Rightarrow> string \<times> bool \<Rightarrow> string \<Rightarrow> string \<times> bool" where
  "writeChunk maxBytes st data = (case st of (buf, trunc) \<Rightarrow>
     if int (length buf) \<ge> maxBytes then (buf, True)
     else let room = maxBytes - int (length buf) in
       if int (length data) > room then (buf @ take (nat room) data, True)
       else (buf @ data, trunc))"

definition drainPipes :: "string list \<Rightarrow> int \<Rightarrow> string \<times> bool" where
  "drainPipes chunks maxBytes =
     (let cap = (if maxBytes \<le> 0 then DefaultMaxOutputBytes else maxBytes) in
      case foldl (writeChunk cap) ([], False) chunks of (buf, trunc) \<Rightarrow>
        (if trunc then buf @ [CHR 0x0A] @ ''[output truncated at '' @ show_int cap @ '' bytes]'' @ [CHR 0x0A] else buf,
         trunc))"

datatype wait_error = ExitFailure string | WaitFailure string

definition classifyExit :: "wait_error option \<Rightarrow> bool \<Rightarrow> bool \<Rightarrow> JobStatus \<times> string option" where
  "classifyExit waitErr ctxErr cancelled =
     (if cancelled \<or> ctxErr then (StatusCanceled, None)
      else case waitErr of
        None \<Rightarrow> (StatusSucceeded, None)
      | Some (ExitFailure m) \<Rightarrow> (StatusFailed, Some (''child exited: '' @ m))
      | Some (WaitFailure m) \<Rightarrow> (StatusFailed, Some (''wait: '' @ m)))"

definition shell_Start :: "ShellJobBackend \<Rightarrow> string \<Rightarrow> string option \<Rightarrow> int \<Rightarrow> ShellJobBackend \<times> string option" where
  "shell_Start b jobID spawn_err pid = (case spawn_err of
       Some m \<Rightarrow> (b, Some m)
     | None \<Rightarrow> (b(jobID \<mapsto> \<lparr>pgid = pid, jstatus = StatusRunning, canceled = False, run_done = False\<rparr>), None))"

definition shell_Status :: "ShellJobBackend \<Rightarrow> string \<Rightarrow> bg_error + JobStatus" where
  "shell_Status b jobID = (case b jobID of None \<Rightarrow> Inl ErrUnknownJob | Some j \<Rightarrow> Inr (jstatus j))"

definition shell_Cancel :: "ShellJobBackend \<Rightarrow> string \<Rightarrow> ShellJobBackend" where
  "shell_Cancel b jobID = (case b jobID of
       None \<Rightarrow> b
     | Some j \<Rightarrow> if IsTerminal (jstatus j) then b
         else b(jobID \<mapsto> j\<lparr>canceled := True\<rparr>))"

text \<open>The service's cancellation, over this backend.\<close>

definition Cancel_job :: "JobService \<Rightarrow> ShellJobBackend \<Rightarrow> string \<Rightarrow> bg_error + ShellJobBackend" where
  "Cancel_job svc b jobID = (if \<not> backend svc then Inl ErrNoBackend else Inr (shell_Cancel b jobID))"

text \<open>The reaper goroutine after the child's exit: the record goes, the completion is reported.\<close>

definition shell_reap :: "ShellJobBackend \<Rightarrow> string \<Rightarrow> int \<Rightarrow> string list \<Rightarrow> wait_error option \<Rightarrow> go_time \<Rightarrow> go_time
    \<Rightarrow> ShellJobBackend \<times> BackendCompletion option" where
  "shell_reap b jobID maxBytes chunks waitErr t0 t1 = (case b jobID of
       None \<Rightarrow> (b, None)
     | Some j \<Rightarrow>
         (case drainPipes chunks maxBytes of (out, trunc) \<Rightarrow>
          (case classifyExit waitErr (run_done j) (canceled j) of (st, e) \<Rightarrow>
            (b(jobID := None),
             Some \<lparr>BStatus = st, BOutput = out, BOutputTruncated = trunc, BErr = e,
               BStartedAt = t0, BCompletedAt = t1\<rparr>))))"

section \<open>Identifiers are recognised, and only those\<close>

definition tokens_ok :: "tokens \<Rightarrow> bool" where
  "tokens_ok k \<longleftrightarrow> (\<forall>p. length (sign k p) = 32) \<and>
     (\<forall>t. length t = 32 \<longrightarrow> decode k (encode k t) = Some t \<and> length (encode k t) = encoded_len k
        \<and> CHR '':'' \<notin> set (encode k t))"

lemma Cut_app: "c \<notin> set a \<Longrightarrow> Cut (a @ c # b) c = Some (a, b)"
  by (simp add: Cut_def takeWhile_append dropWhile_append)

lemma Cut_Some: "Cut s c = Some (a, b) \<Longrightarrow> s = a @ c # b \<and> c \<notin> set a"
proof -
  assume e: "Cut s c = Some (a, b)"
  then have a: "a = takeWhile (\<lambda>x. x \<noteq> c) s" and b: "b = tl (dropWhile (\<lambda>x. x \<noteq> c) s)" and c: "c \<in> set s"
    by (auto simp: Cut_def split: if_splits)
  have "dropWhile (\<lambda>x. x \<noteq> c) s = c # b"
    using c unfolding b by (induction s) auto
  then show ?thesis using a by (metis takeWhile_dropWhile_id set_takeWhileD)
qed

lemma Contains_char: "Contains s [c] \<longleftrightarrow> c \<in> set s"
  by (auto simp: Contains_iff_sublist sublist_def in_set_conv_decomp)

lemma isIssued_iff:
  assumes "tokens_ok (tok svc)"
  shows "isIssuedJobIDLocked svc i \<longleftrightarrow>
    (\<exists>n. uuid_parse (tok svc) n = Some n \<and> CHR '':'' \<notin> set n \<and> i = newJobID svc n)"
proof
  assume "isIssuedJobIDLocked svc i"
  note iss = this [unfolded isIssuedJobIDLocked_def]
  obtain v r where c1: "Cut i CHR '':'' = Some (v, r)"
    using iss by (cases "Cut i CHR '':''") auto
  then have v: "v = jobIDTokenVersion" using iss by (simp split: if_splits)
  obtain n t where c2: "Cut r CHR '':'' = Some (n, t)"
    using iss c1 v by (cases "Cut r CHR '':''") auto
  have "uuid_parse (tok svc) n = Some n"
      "encode (tok svc) (sign (tok svc) (jobIDTokenVersion @ '':'' @ n)) = t"
    using iss c1 c2 v by (auto split: if_splits option.splits)
  then show "\<exists>n. uuid_parse (tok svc) n = Some n \<and> CHR '':'' \<notin> set n \<and> i = newJobID svc n"
    using Cut_Some [OF c1] Cut_Some [OF c2] v by (auto simp: newJobID_def Let_def)
next
  assume "\<exists>n. uuid_parse (tok svc) n = Some n \<and> CHR '':'' \<notin> set n \<and> i = newJobID svc n"
  then obtain n where n: "uuid_parse (tok svc) n = Some n" "CHR '':'' \<notin> set n" "i = newJobID svc n" by blast
  let ?t = "encode (tok svc) (sign (tok svc) (jobIDTokenVersion @ '':'' @ n))"
  have "CHR '':'' \<notin> set jobIDTokenVersion" by (simp add: jobIDTokenVersion_def)
  then have "Cut i CHR '':'' = Some (jobIDTokenVersion, n @ CHR '':'' # ?t)"
    by (simp add: n(3) newJobID_def Let_def Cut_app)
  then show "isIssuedJobIDLocked svc i"
    using assms n(1,2) by (simp add: isIssuedJobIDLocked_def Cut_app Contains_char tokens_ok_def)
qed

lemma newJobID_inj:
  assumes "CHR '':'' \<notin> set a" and "CHR '':'' \<notin> set b" and "newJobID svc a = newJobID svc b"
  shows "a = b"
proof -
  have "Cut (drop 4 (newJobID svc n)) CHR '':'' = Some (n, encode (tok svc) (sign (tok svc) (jobIDTokenVersion @ '':'' @ n)))"
    if "CHR '':'' \<notin> set n" for n
    using that by (simp add: newJobID_def Let_def jobIDTokenVersion_def Cut_app)
  then show ?thesis using assms by (metis option.inject prod.inject)
qed

section \<open>Retention\<close>

definition keys_ok :: "JobService \<Rightarrow> bool" where
  "keys_ok svc \<longleftrightarrow> distinct (map fst (jobs svc))"

lemma prune_frame [frame]:
  "tok (pruneCompletedLocked svc now) = tok svc" "messenger (pruneCompletedLocked svc now) = messenger svc"
  "backend (pruneCompletedLocked svc now) = backend svc" "maxCompleted (pruneCompletedLocked svc now) = maxCompleted svc"
  "ttl (pruneCompletedLocked svc now) = ttl svc"
  by (simp_all add: pruneCompletedLocked_def Let_def)

lemma map_of_filter:
  "distinct (map fst xs) \<Longrightarrow> map_of (filter P xs) i = Some r \<longleftrightarrow> map_of xs i = Some r \<and> P (i, r)"
  by (simp add: distinct_map_filter map_of_eq_Some_iff)

definition alive :: "JobService \<Rightarrow> go_time \<Rightarrow> (string \<times> jobRecord) list" where
  "alive svc now = filter (\<lambda>(i, r). \<not> IsTerminal (status r) \<or> \<not> expired svc now r) (jobs svc)"

definition finished :: "(string \<times> jobRecord) list \<Rightarrow> (go_time \<times> string) list" where
  "finished js = map (\<lambda>(i, r). (completedAt r, i)) (filter (\<lambda>(i, r). IsTerminal (status r)) js)"

definition evicted :: "JobService \<Rightarrow> go_time \<Rightarrow> (go_time \<times> string) list" where
  "evicted svc now = (let c = finished (alive svc now) in
     if maxCompleted svc < 0 then [] else take (length c - nat (maxCompleted svc)) (sort c))"

lemma prune_jobs:
  "jobs (pruneCompletedLocked svc now) = filter (\<lambda>(i, r). i \<notin> snd ` set (evicted svc now)) (alive svc now)"
  unfolding pruneCompletedLocked_def evicted_def alive_def [symmetric] finished_def [symmetric] Let_def
  by (auto simp: filter_True)

lemma keys_ok_prune: "keys_ok svc \<Longrightarrow> keys_ok (pruneCompletedLocked svc now)"
  by (simp add: keys_ok_def prune_jobs alive_def distinct_map_filter)

lemma evicted_terminal:
  assumes "keys_ok svc" and "(t, i) \<in> set (evicted svc now)"
  shows "\<exists>r. map_of (jobs svc) i = Some r \<and> IsTerminal (status r) \<and> completedAt r = t"
proof -
  have "(t, i) \<in> set (finished (alive svc now))"
    using assms(2) by (auto simp: evicted_def Let_def split: if_splits dest: in_set_takeD)
  then show ?thesis using assms(1) by (auto simp: finished_def alive_def keys_ok_def)
qed

lemma prune_lookup:
  assumes "keys_ok svc"
  shows "map_of (jobs (pruneCompletedLocked svc now)) i = Some r \<longleftrightarrow>
    map_of (jobs svc) i = Some r \<and> (\<not> IsTerminal (status r) \<or> \<not> expired svc now r)
    \<and> i \<notin> snd ` set (evicted svc now)"
  using assms by (auto simp: prune_jobs alive_def map_of_filter keys_ok_def distinct_map_filter)

lemma prune_keeps_active:
  assumes "keys_ok svc" and "\<not> IsTerminal (status r)"
  shows "map_of (jobs (pruneCompletedLocked svc now)) i = Some r \<longleftrightarrow> map_of (jobs svc) i = Some r"
  using assms evicted_terminal [OF assms(1)] by (fastforce simp: prune_lookup)

lemma distinct_finished: "distinct (map fst js) \<Longrightarrow> distinct (map snd (finished js))"
  by (induction js) (auto simp: finished_def image_iff split: prod.splits)

lemma length_filter_notin:
  assumes "distinct xs" and "distinct ys" and "set ys \<subseteq> set xs"
  shows "length (filter (\<lambda>x. x \<notin> set ys) xs) = length xs - length ys"
proof -
  have "length (filter (\<lambda>x. x \<notin> set ys) xs) = card (set xs - set ys)"
    using assms(1) by (metis distinct_card distinct_filter set_diff_eq set_filter)
  then show ?thesis using assms by (simp add: card_Diff_subset distinct_card)
qed

lemma finished_filter:
  "map snd (finished (filter (\<lambda>(i, r). i \<notin> E) js)) = filter (\<lambda>i. i \<notin> E) (map snd (finished js))"
  by (induction js) (auto simp: finished_def)

text \<open>Of the finished jobs, at most the permitted number stays, and the newest of them.\<close>

lemma retained_bound:
  assumes "keys_ok svc" and "0 \<le> maxCompleted svc"
  shows "int (length (finished (jobs (pruneCompletedLocked svc now)))) \<le> maxCompleted svc"
proof -
  let ?c = "finished (alive svc now)" and ?e = "evicted svc now"
  have d: "distinct (map snd ?c)"
    using assms(1) by (intro distinct_finished) (simp add: alive_def keys_ok_def distinct_map_filter)
  then have ds: "distinct (map snd (sort ?c))"
    by (simp add: distinct_map)
  have e: "?e = take (length ?c - nat (maxCompleted svc)) (sort ?c)"
    using assms(2) by (simp add: evicted_def Let_def)
  have "length (filter (\<lambda>i. i \<notin> set (map snd ?e)) (map snd ?c)) = length (map snd ?c) - length (map snd ?e)"
  proof (rule length_filter_notin [OF d])
    show "distinct (map snd ?e)" using ds by (simp add: e take_map [symmetric])
    show "set (map snd ?e) \<subseteq> set (map snd ?c)" by (auto simp: e image_iff dest!: in_set_takeD intro: bexI [rotated])
  qed
  then have "length (map snd (finished (jobs (pruneCompletedLocked svc now)))) = length ?c - length ?e"
    by (simp add: prune_jobs finished_filter)
  then show ?thesis using assms(2) by (simp add: e)
qed

lemma evicted_oldest:
  assumes "keys_ok svc" and "x \<in> set (evicted svc now)"
    and "y \<in> set (finished (jobs (pruneCompletedLocked svc now)))"
  shows "x \<le> y"
proof -
  let ?c = "finished (alive svc now)"
  define n where "n = length ?c - nat (maxCompleted svc)"
  have e: "evicted svc now = take n (sort ?c)"
    using assms(2) by (auto simp: evicted_def Let_def n_def split: if_splits)
  have "y \<in> set ?c" "snd y \<notin> snd ` set (evicted svc now)"
    using assms(3) by (auto simp: prune_jobs finished_def image_iff)
  then have "y \<in> set (drop n (sort ?c))"
    using e by (metis Un_iff append_take_drop_id image_eqI set_append set_sort)
  moreover have "sorted (take n (sort ?c) @ drop n (sort ?c))" by simp
  ultimately show ?thesis using assms(2) e unfolding sorted_append by auto
qed

section \<open>Histories of the service\<close>

record bg_sys =
  serv :: JobService
  drawn :: nat
  sent :: "SendInput list"

datatype bg_op =
    Register go_time ExecutionPattern JobRequest
  | StartFailed string
  | Started go_time string
  | Complete go_time string BackendCompletion
  | Ask go_time

fun bg_step :: "(nat \<Rightarrow> string) \<Rightarrow> bg_sys \<Rightarrow> bg_op \<Rightarrow> bg_sys" where
  "bg_step u s (Register now pattern r) = (case submit_check (serv s) pattern r of
       Some e \<Rightarrow> s
     | None \<Rightarrow> s\<lparr>serv := fst (submit_register (serv s) now (u (drawn s)) r), drawn := Suc (drawn s)\<rparr>)"
| "bg_step u s (StartFailed i) = s\<lparr>serv := submit_failed (serv s) i\<rparr>"
| "bg_step u s (Started now i) = s\<lparr>serv := submit_started (serv s) now i\<rparr>"
| "bg_step u s (Complete now i c) = (case onBackendComplete (serv s) now i c of (svc', ms) \<Rightarrow>
     s\<lparr>serv := svc', sent := sent s @ ms\<rparr>)"
| "bg_step u s (Ask now) = s\<lparr>serv := pruneCompletedLocked (serv s) now\<rparr>"

fun bg_ok :: "bg_op \<Rightarrow> bool" where
  "bg_ok (Complete now i c) = IsTerminal (BStatus c)"
| "bg_ok _ = True"

definition bg_init :: "JobService \<Rightarrow> bg_sys" where
  "bg_init v = \<lparr>serv = v, drawn = 0, sent = []\<rparr>"

abbreviation sent_ids :: "bg_sys \<Rightarrow> string list" where
  "sent_ids s \<equiv> map (\<lambda>m. JobID (Payload m)) (sent s)"

definition issued :: "(nat \<Rightarrow> string) \<Rightarrow> bg_sys \<Rightarrow> string set" where
  "issued u s = {newJobID (serv s) (u n) | n. n < drawn s}"

definition bg_inv :: "tokens \<Rightarrow> (nat \<Rightarrow> string) \<Rightarrow> bg_sys \<Rightarrow> bool" where
  "bg_inv k u s \<longleftrightarrow> keys_ok (serv s) \<and> tok (serv s) = k \<and>
     (\<forall>i r. map_of (jobs (serv s)) i = Some r \<longrightarrow> rid r = i \<and> i \<in> issued u s) \<and>
     set (sent_ids s) \<subseteq> issued u s \<and> distinct (sent_ids s) \<and>
     (\<forall>i r. map_of (jobs (serv s)) i = Some r \<longrightarrow> \<not> IsTerminal (status r) \<longrightarrow> i \<notin> set (sent_ids s))"

definition supply_ok :: "(nat \<Rightarrow> string) \<Rightarrow> bool" where
  "supply_ok u \<longleftrightarrow> inj u \<and> (\<forall>n. CHR '':'' \<notin> set (u n))"

lemma newJobID_tok: "tok a = tok b \<Longrightarrow> newJobID a n = newJobID b n"
  by (simp add: newJobID_def)

lemma issued_step:
  "tok (serv s') = tok (serv s) \<Longrightarrow> drawn s \<le> drawn s' \<Longrightarrow> issued u s \<subseteq> issued u s'"
  by (simp add: issued_def newJobID_def) (use less_le_trans in blast)

lemma bg_inv_narrow:
  assumes "bg_inv k u s" and "keys_ok v" and "tok v = k" and "set (jobs v) \<subseteq> set (jobs (serv s))"
  shows "bg_inv k u (s\<lparr>serv := v\<rparr>)"
proof -
  have "map_of (jobs (serv s)) i = Some r" if "map_of (jobs v) i = Some r" for i r
    using that assms(1,2,4) by (auto simp: bg_inv_def keys_ok_def map_of_eq_Some_iff)
  moreover have "issued u (s\<lparr>serv := v\<rparr>) = issued u s"
    using assms(1,3) by (simp add: issued_def newJobID_def bg_inv_def)
  ultimately show ?thesis using assms unfolding bg_inv_def by auto
qed

lemma prune_subset: "set (jobs (pruneCompletedLocked v now)) \<subseteq> set (jobs v)"
  by (auto simp: prune_jobs alive_def)

lemma bg_inv_prune: "bg_inv k u s \<Longrightarrow> bg_inv k u (s\<lparr>serv := pruneCompletedLocked (serv s) now\<rparr>)"
  by (rule bg_inv_narrow) (auto simp: keys_ok_prune bg_inv_def frame prune_subset [THEN subsetD])

text \<open>A record written for an id that is known: the job stays open, or its envelope is the news.\<close>

lemma bg_inv_update:
  assumes inv: "bg_inv k u s" and r: "rid r = i" and d: "drawn s \<le> n"
    and i: "i \<in> issued u (s\<lparr>drawn := n\<rparr>)"
    and ms: "map (\<lambda>m. JobID (Payload m)) ms = [] \<or> map (\<lambda>m. JobID (Payload m)) ms = [i]"
    and new: "i \<notin> set (sent_ids s)" and fin: "\<not> IsTerminal (status r) \<longrightarrow> ms = []"
  shows "bg_inv k u (s\<lparr>serv := (serv s)\<lparr>jobs := AList.update i r (jobs (serv s))\<rparr>, drawn := n, sent := sent s @ ms\<rparr>)"
    (is "bg_inv k u ?t")
proof -
  have iss: "issued u ?t = issued u (s\<lparr>drawn := n\<rparr>)"
    by (simp add: issued_def newJobID_def)
  have mono: "issued u s \<subseteq> issued u ?t" using d by (intro issued_step) auto
  have look: "map_of (jobs (serv ?t)) = (map_of (jobs (serv s)))(i \<mapsto> r)" by (simp add: update_conv')
  have keys: "keys_ok (serv ?t)" using inv by (simp add: bg_inv_def keys_ok_def distinct_update)
  have "distinct (sent_ids s)" using inv by (simp add: bg_inv_def)
  then have ids: "set (sent_ids ?t) \<subseteq> insert i (set (sent_ids s))" "distinct (sent_ids ?t)"
    using ms new by (auto simp del: set_map)
  have known: "rid q = j \<and> j \<in> issued u s \<and> (\<not> IsTerminal (status q) \<longrightarrow> j \<notin> set (sent_ids s))"
    if "map_of (jobs (serv s)) j = Some q" for j q
    using inv that unfolding bg_inv_def by blast
  have i': "i \<in> issued u ?t" using i iss by simp
  have "rid q = j \<and> j \<in> issued u ?t" "\<not> IsTerminal (status q) \<longrightarrow> j \<notin> set (sent_ids ?t)"
    if "map_of (jobs (serv ?t)) j = Some q" for j q
  proof -
    have *: "j = i \<and> q = r \<or> j \<noteq> i \<and> map_of (jobs (serv s)) j = Some q"
      using that unfolding look by (simp split: if_splits)
    then show "rid q = j \<and> j \<in> issued u ?t" using known [of j q] r i' mono by blast
    have "set (sent_ids ?t) = set (sent_ids s)" if "\<not> IsTerminal (status r)" using fin that by simp
    with * show "\<not> IsTerminal (status q) \<longrightarrow> j \<notin> set (sent_ids ?t)" using known [of j q] new ids(1) by blast
  qed
  moreover have "tok (serv ?t) = k" "set (sent_ids ?t) \<subseteq> issued u ?t"
    using inv ids(1) mono i' unfolding bg_inv_def by (simp, blast)
  ultimately show ?thesis unfolding bg_inv_def using keys ids(2) by blast
qed

lemma bg_inv_register:
  assumes inv: "bg_inv k u s" and u: "supply_ok u"
  shows "bg_inv k u (s\<lparr>serv := fst (submit_register (serv s) now (u (drawn s)) r), drawn := Suc (drawn s)\<rparr>)"
proof -
  let ?p = "s\<lparr>serv := pruneCompletedLocked (serv s) now\<rparr>"
  let ?i = "newJobID (serv ?p) (u (drawn s))"
  have p: "bg_inv k u ?p" using inv by (rule bg_inv_prune)
  have "?i \<notin> issued u ?p"
    using u newJobID_inj [of "u (drawn s)" _ "serv ?p"] by (auto simp: issued_def supply_ok_def inj_def)
  then have "?i \<notin> set (sent_ids ?p)" using p by (auto simp: bg_inv_def)
  moreover have "?i \<in> issued u (?p\<lparr>drawn := Suc (drawn s)\<rparr>)" by (auto simp: issued_def)
  ultimately show ?thesis
    using bg_inv_update [OF p, of "\<lparr>rid = ?i, req = fill_budget r, status = StatusPending, startedAt = 0,
      completedAt = 0, joutput = [], truncated = False, err = None\<rparr>" ?i "Suc (drawn s)" "[]"]
    by (simp add: submit_register_def Let_def)
qed

lemma bg_inv_complete:
  assumes inv: "bg_inv k u s" and c: "IsTerminal (BStatus c)"
  shows "bg_inv k u (bg_step u s (Complete now i c))"
proof (cases "map_of (jobs (serv s)) i")
  case None
  with inv show ?thesis by (simp add: onBackendComplete_def)
next
  case (Some r)
  show ?thesis
  proof (cases "IsTerminal (status r)")
    case True
    with inv Some show ?thesis by (simp add: onBackendComplete_def)
  next
    case False
    define r' where "r' = r\<lparr>status := BStatus c, joutput := BOutput c, truncated := BOutputTruncated c,
      err := BErr c, startedAt := (if BStartedAt c \<noteq> 0 then BStartedAt c else startedAt r),
      completedAt := (if BCompletedAt c = 0 then now else BCompletedAt c)\<rparr>"
    define ms where "ms = postCompletionEnvelope ((serv s)\<lparr>jobs := AList.update i r' (jobs (serv s))\<rparr>) (req r) (result_of r')"
    have i: "rid r = i" "i \<in> issued u s" "i \<notin> set (sent_ids s)"
      using inv Some False by (auto simp: bg_inv_def)
    have "bg_inv k u (s\<lparr>serv := (serv s)\<lparr>jobs := AList.update i r' (jobs (serv s))\<rparr>, drawn := drawn s, sent := sent s @ ms\<rparr>)"
      by (rule bg_inv_update [OF inv])
         (use i c in \<open>auto simp: r'_def ms_def postCompletionEnvelope_def result_of_def issued_def\<close>)
    from bg_inv_prune [OF this, of now]
    have "bg_inv k u (s\<lparr>serv := pruneCompletedLocked ((serv s)\<lparr>jobs := AList.update i r' (jobs (serv s))\<rparr>) now,
        sent := sent s @ ms\<rparr>)"
      by (cases s) simp
    then show ?thesis
      using Some False by (simp add: onBackendComplete_def r'_def [symmetric] ms_def [symmetric] Let_def)
  qed
qed

lemma bg_inv_step:
  assumes u: "supply_ok u" and inv: "bg_inv k u s" and ok: "bg_ok x"
  shows "bg_inv k u (bg_step u s x)"
proof (cases x)
  case (Register now p r)
  then show ?thesis using bg_inv_register [OF inv u] inv by (auto split: option.splits)
next
  case (StartFailed i)
  have "bg_inv k u (s\<lparr>serv := submit_failed (serv s) i\<rparr>)"
    using inv by (intro bg_inv_narrow [OF inv])
      (auto simp: submit_failed_def keys_ok_def bg_inv_def distinct_delete AList.delete_eq distinct_map_filter)
  then show ?thesis by (simp add: StartFailed)
next
  case (Started now i)
  show ?thesis
  proof (cases "\<exists>r. map_of (jobs (serv s)) i = Some r \<and> status r = StatusPending")
    case True
    then obtain r where r: "map_of (jobs (serv s)) i = Some r" "status r = StatusPending" by blast
    then have i: "rid r = i" "i \<in> issued u s" "i \<notin> set (sent_ids s)"
      using inv by (auto simp: bg_inv_def IsTerminal_def)
    from bg_inv_update [OF inv, of "r\<lparr>status := StatusRunning, startedAt := now\<rparr>" i "drawn s" "[]"] i r
    show ?thesis by (simp add: Started submit_started_def issued_def)
  next
    case False
    then have "submit_started (serv s) now i = serv s"
      by (auto simp: submit_started_def split: option.splits)
    then show ?thesis using inv by (simp add: Started)
  qed
next
  case (Complete now i c)
  then show ?thesis using bg_inv_complete [OF inv] ok by simp
qed (use inv bg_inv_prune in auto)

lemma bg_inv_init: "jobs v = [] \<Longrightarrow> bg_inv (tok v) u (bg_init v)"
  by (simp add: bg_inv_def bg_init_def keys_ok_def issued_def)

interpretation bg_machine: invariant_machine "bg_init (NewService be me k)" "bg_step u" bg_ok
  "\<lambda>s. supply_ok u \<longrightarrow> bg_inv k u s" for be me k u
proof
  show "supply_ok u \<longrightarrow> bg_inv k u (bg_init (NewService be me k))"
    using bg_inv_init [of "NewService be me k" u] by (simp add: NewService_def)
qed (use bg_inv_step in blast)

lemma terminal_step:
  assumes inv: "bg_inv k u s" and u: "supply_ok u" and i: "i \<in> issued u s"
    and gone: "map_of (jobs (serv s)) i = None \<or> map_of (jobs (serv s)) i = Some r"
    and r: "IsTerminal (status r)"
  shows "map_of (jobs (serv (bg_step u s x))) i = None \<or> map_of (jobs (serv (bg_step u s x))) i = Some r"
proof -
  have prune: "map_of (jobs (pruneCompletedLocked v now)) i \<in> {None, map_of (jobs v) i}" if "keys_ok v" for v now
    using prune_lookup [OF that] by (metis insertCI option.exhaust)
  have keys: "keys_ok (serv s)" using inv by (simp add: bg_inv_def)
  show ?thesis
  proof (cases x)
    case (Register now p q)
    have "newJobID (pruneCompletedLocked (serv s) now) (u (drawn s)) \<noteq> i"
    proof
      assume e: "newJobID (pruneCompletedLocked (serv s) now) (u (drawn s)) = i"
      obtain n where "n < drawn s" "newJobID (serv s) (u n) = i" using i by (auto simp: issued_def)
      then show False
        using e u newJobID_inj [of "u n" "u (drawn s)" "serv s"] newJobID_tok [OF prune_frame(1)]
        by (auto simp: supply_ok_def inj_def)
    qed
    then show ?thesis using gone prune [OF keys, of now]
      by (auto simp: Register submit_register_def Let_def update_conv' split: option.splits)
  next
    case (Complete now j c)
    have "keys_ok ((serv s)\<lparr>jobs := AList.update j q (jobs (serv s))\<rparr>)" for q
      using keys by (simp add: keys_ok_def distinct_update)
    from prune [OF this, of _ now] show ?thesis
      using gone r by (auto simp: Complete onBackendComplete_def Let_def update_conv'
        split: option.splits if_splits) (fastforce split: if_splits)+
  next
    case (Ask now)
    then show ?thesis using gone prune [OF keys, of now] by auto
  qed (use gone r in \<open>auto simp: submit_failed_def submit_started_def delete_conv' update_conv'
      IsTerminal_def split: option.splits\<close>)
qed

lemma terminal_run:
  assumes u: "supply_ok u" and inv: "bg_inv k u s" and r: "map_of (jobs (serv s)) i = Some r" "IsTerminal (status r)"
    and ok: "\<forall>x\<in>set xs. bg_ok x"
  shows "map_of (jobs (serv (foldl (bg_step u) s xs))) i \<in> {None, Some r}"
proof -
  have "(map_of (jobs (serv t)) i = None \<or> map_of (jobs (serv t)) i = Some r) \<Longrightarrow> bg_inv k u t \<Longrightarrow> i \<in> issued u t
      \<Longrightarrow> \<forall>x\<in>set xs. bg_ok x \<Longrightarrow> map_of (jobs (serv (foldl (bg_step u) t xs))) i \<in> {None, Some r}" for t
  proof (induction xs arbitrary: t)
    case (Cons x xs)
    have inv': "bg_inv k u (bg_step u t x)" using bg_inv_step [OF u Cons.prems(2)] Cons.prems(4) by simp
    have "drawn t \<le> drawn (bg_step u t x)" by (cases x) (auto split: option.splits prod.splits)
    then have "i \<in> issued u (bg_step u t x)"
      using issued_step [of "bg_step u t x" t u] inv' Cons.prems(2,3) by (auto simp: bg_inv_def)
    then show ?case
      using Cons.IH terminal_step [OF Cons.prems(2) u Cons.prems(3,1) r(2)] inv' Cons.prems(4) by simp
  qed auto
  then show ?thesis using r(1) inv ok by (auto simp: bg_inv_def)
qed

lemma writeChunk_fold:
  assumes "0 \<le> cap" and "int (length buf) \<le> cap" and "[] \<notin> set chunks"
    and "trunc \<longrightarrow> int (length buf) = cap"
  shows "foldl (writeChunk cap) (buf, trunc) chunks =
    (take (nat cap) (buf @ concat chunks), trunc \<or> int (length (buf @ concat chunks)) > cap)"
  using assms
proof (induction chunks arbitrary: buf trunc)
  case (Cons d ds)
  consider "int (length buf) = cap" | "int (length buf) < cap" "int (length d) > cap - int (length buf)"
    | "int (length buf) < cap" "int (length d) \<le> cap - int (length buf)"
    using Cons.prems(2) by linarith
  then show ?case
  proof cases
    case 1
    then have "foldl (writeChunk cap) (buf, True) ds =
        (take (nat cap) (buf @ concat ds), True)"
      using Cons.IH [of buf True] Cons.prems by simp
    moreover have "writeChunk cap (buf, trunc) d = (buf, True)" using 1 by (simp add: writeChunk_def)
    moreover have "0 < int (length d) + int (length (concat ds))" using Cons.prems(3) by (cases d) auto
    ultimately show ?thesis using 1 by auto
  next
    case 2
    let ?b = "buf @ take (nat (cap - int (length buf))) d"
    have len: "int (length ?b) = cap" using 2 by simp
    then have "foldl (writeChunk cap) (?b, True) ds = (take (nat cap) (?b @ concat ds), True)"
      using Cons.IH [of ?b True] Cons.prems by simp
    moreover have "nat (cap - int (length buf)) = nat cap - length buf" using 2 by linarith
    moreover have "writeChunk cap (buf, trunc) d = (?b, True)" using 2 by (simp add: writeChunk_def Let_def)
    ultimately show ?thesis using 2 len by auto
  next
    case 3
    then have "foldl (writeChunk cap) (buf @ d, trunc) ds =
        (take (nat cap) ((buf @ d) @ concat ds), trunc \<or> int (length ((buf @ d) @ concat ds)) > cap)"
      using Cons.prems by (intro Cons.IH) auto
    moreover have "writeChunk cap (buf, trunc) d = (buf @ d, trunc)" using 3 by (simp add: writeChunk_def Let_def)
    ultimately show ?thesis by simp
  qed
qed auto

section \<open>Properties\<close>

text \<open>
  C10. A job is reported at most once. Whatever sequence of submissions, failed starts,
  queries and backend callbacks happens, duplicate and late callbacks included, no two
  completion envelopes carry the same job id, provided the ids drawn are fresh and a
  backend reports a terminal status.
\<close>

theorem one_envelope_per_job:
  assumes "supply_ok u" and "\<forall>x\<in>set xs. bg_ok x"
  shows "distinct (sent_ids (foldl (bg_step u) (bg_init (NewService be me k)) xs))"
  using bg_machine.inv_run [of xs u k be me] assms by (simp add: bg_inv_def)

text \<open>
  A finished job never changes: once a job has a terminal status, at every later moment its
  record is the same or it is gone.
\<close>

lemma finished_job_stable:
  assumes "supply_ok u" and "\<forall>x\<in>set xs. bg_ok x" and "\<forall>x\<in>set ys. bg_ok x"
    and "map_of (jobs (serv (foldl (bg_step u) (bg_init (NewService be me k)) xs))) i = Some r"
    and "IsTerminal (status r)"
  shows "map_of (jobs (serv (foldl (bg_step u) (bg_init (NewService be me k)) (xs @ ys)))) i \<in> {None, Some r}"
  using terminal_run [OF assms(1) _ assms(4,5,3)] bg_machine.inv_run [of xs u k be me] assms(1,2) by simp

text \<open>
  The callback of an open job delivers: it records the backend's answer and sends one
  notification to the session and agent that submitted the job, with the result in it.
\<close>

lemma completion_delivered:
  assumes "map_of (jobs v) i = Some r" and "\<not> IsTerminal (status r)" and "messenger v"
    and "BCompletedAt c \<noteq> 0" and "rid r = i"
  shows "\<exists>m. snd (onBackendComplete v now i c) = [m] \<and> ToSessionID m = OriginatingSessionID (req r)
    \<and> ToAgentID m = OriginatingAgentID (req r) \<and> JobID (Payload m) = i \<and> Status (Payload m) = BStatus c
    \<and> Output (Payload m) = BOutput c \<and> CompletedAt (Payload m) = BCompletedAt c
    \<and> Subject m = ''background_job '' @ JobStatus_string (BStatus c)"
  using assms by (simp add: onBackendComplete_def postCompletionEnvelope_def result_of_def
    completionSubject_def Let_def)

text \<open>
  C11. Retention. Pruning keeps every pending and running job, keeps no finished job past
  its time to live, keeps at most the permitted number of finished jobs, and what it
  evicts for space is older than everything finished that stays.
\<close>

theorem retention:
  assumes "keys_ok v" and "0 \<le> maxCompleted v"
  shows "(\<forall>i r. \<not> IsTerminal (status r) \<longrightarrow>
      (map_of (jobs (pruneCompletedLocked v now)) i = Some r \<longleftrightarrow> map_of (jobs v) i = Some r))
    \<and> (\<forall>i r. map_of (jobs (pruneCompletedLocked v now)) i = Some r \<and> IsTerminal (status r) \<longrightarrow> \<not> expired v now r)
    \<and> int (length (finished (jobs (pruneCompletedLocked v now)))) \<le> maxCompleted v
    \<and> (\<forall>i r j q. map_of (jobs v) i = Some r \<and> map_of (jobs (pruneCompletedLocked v now)) i = None \<and> \<not> expired v now r
         \<and> map_of (jobs (pruneCompletedLocked v now)) j = Some q \<and> IsTerminal (status q)
         \<longrightarrow> completedAt r \<le> completedAt q)"
proof (intro conjI allI impI)
  fix i r j q
  assume a: "map_of (jobs v) i = Some r \<and> map_of (jobs (pruneCompletedLocked v now)) i = None \<and> \<not> expired v now r
      \<and> map_of (jobs (pruneCompletedLocked v now)) j = Some q \<and> IsTerminal (status q)"
  then obtain t where t: "(t, i) \<in> set (evicted v now)"
    using prune_lookup [OF assms(1), of now i r] by fastforce
  then have "t = completedAt r" using evicted_terminal [OF assms(1) t] a by simp
  moreover have "(completedAt q, j) \<in> set (finished (jobs (pruneCompletedLocked v now)))"
    using a by (auto simp: finished_def image_iff dest!: map_of_SomeD intro!: bexI [rotated])
  ultimately show "completedAt r \<le> completedAt q"
    using evicted_oldest [OF assms(1) t, of "(completedAt q, j)"] by (auto simp: less_eq_prod_def)
qed (use assms prune_keeps_active prune_lookup retained_bound in auto)

text \<open>
  Expired and unknown are told apart without keeping tombstones: with documented
  behaviour of the hash and the coder, an id not in the registry is answered with
  \<^const>\<open>ErrExpiredJob\<close> exactly if it is the id this service would issue for some UUID, and with
  \<^const>\<open>ErrUnknownJob\<close> otherwise.
\<close>

lemma expired_iff_issued:
  assumes "tokens_ok (tok v)" and "map_of (jobs (pruneCompletedLocked v now)) i = None"
  shows "let e = (if \<exists>n. uuid_parse (tok v) n = Some n \<and> CHR '':'' \<notin> set n \<and> i = newJobID v n
      then ErrExpiredJob else ErrUnknownJob)
    in snd (Status_of v now i) = Inl e \<and> snd (Result v now i) = Inl e"
proof -
  have "isIssuedJobIDLocked (pruneCompletedLocked v now) i = isIssuedJobIDLocked v i"
    unfolding isIssuedJobIDLocked_def prune_frame(1) ..
  with assms show ?thesis
    by (simp add: Status_of_def Result_def missingJobResultLocked_def isIssued_iff Let_def)
qed

text \<open>
  C12. The gate of \<^verbatim>\<open>Submit\<close>. A job is accepted only for the background pattern, with a
  backend and a messenger wired, a task and an originator, and it is registered with
  positive budgets; a rejected request changes nothing, and after a failed start the job is
  gone.
\<close>

theorem submit_gate:
  assumes "Submit others start_err now uuid v pattern r = (v', res)"
  shows "case res of
      Inr i \<Rightarrow> pattern = PatternBackground \<and> backend v \<and> messenger v \<and> TrimSpace (Task r) \<noteq> []
        \<and> OriginatingSessionID r \<noteq> [] \<and> OriginatingAgentID r \<noteq> [] \<and> i = newJobID v uuid
        \<and> (\<exists>q. map_of (jobs (fst (submit_register v now uuid r))) i = Some q \<and> status q = StatusPending
             \<and> rid q = i \<and> 0 < WallClockSeconds (Budget (req q)) \<and> 0 < MaxOutputBytes (Budget (req q)))
    | Inl (ErrBackendStart m) \<Rightarrow> map_of (jobs v') (newJobID v uuid) = None
    | Inl e \<Rightarrow> v' = v"
proof -
  have i: "newJobID (pruneCompletedLocked v now) uuid = newJobID v uuid"
    by (rule newJobID_tok) (simp add: frame)
  show ?thesis
  proof (cases "submit_check v pattern r")
    case None
    with assms i show ?thesis
      by (auto simp: Submit_def submit_check_def submit_register_def submit_failed_def Let_def update_conv' delete_conv'
          fill_budget_def DefaultWallClockSeconds_def DefaultMaxOutputBytes_def split: option.splits if_splits)
  next
    case (Some e)
    with assms show ?thesis
      by (auto simp: Submit_def submit_check_def split: if_splits)
  qed
qed

text \<open>
  C13. Captured output. However the two streams interleave, the backend keeps exactly the
  first bytes up to the cap, reports truncation exactly if there was more, and then ends
  the output with a marker that names the cap.
\<close>

theorem output_capped:
  assumes "[] \<notin> set chunks" and "0 < maxBytes"
  shows "drainPipes chunks maxBytes =
    (take (nat maxBytes) (concat chunks) @
       (if int (length (concat chunks)) > maxBytes
        then [CHR 0x0A] @ ''[output truncated at '' @ show_int maxBytes @ '' bytes]'' @ [CHR 0x0A] else []),
     int (length (concat chunks)) > maxBytes)"
  using writeChunk_fold [of maxBytes "[]" chunks False] assms by (simp add: drainPipes_def Let_def)

text \<open>
  A cancelled shell job is reported as cancelled, without an error and exactly once,
  whatever the child's exit status was; the backend then no longer knows it.
\<close>

lemma cancel_reported:
  assumes "b i = Some j" and "\<not> IsTerminal (jstatus j)"
  shows "\<exists>c. shell_reap (shell_Cancel b i) i maxBytes chunks waitErr t0 t1 = ((shell_Cancel b i)(i := None), Some c)
    \<and> BStatus c = StatusCanceled \<and> BErr c = None
    \<and> snd (shell_reap (fst (shell_reap (shell_Cancel b i) i maxBytes chunks waitErr t0 t1)) i m' ch' w' t2 t3) = None
    \<and> shell_Status (fst (shell_reap (shell_Cancel b i) i maxBytes chunks waitErr t0 t1)) i = Inl ErrUnknownJob"
  using assms by (simp add: shell_reap_def shell_Cancel_def classifyExit_def shell_Status_def split: prod.splits)

section \<open>Instances\<close>

text \<open>Numbered ids, a hash of fixed length and a coder that pads, for concrete histories.\<close>

definition pair_encode :: "string \<Rightarrow> string" where
  "pair_encode t = concat (map (\<lambda>c. if c = CHR '':'' then ''.y'' else [c, CHR ''x'']) t)"

fun pair_decode :: "string \<Rightarrow> string" where
  "pair_decode (a # b # r) = (if b = CHR ''y'' then CHR '':'' else a) # pair_decode r"
| "pair_decode _ = []"

definition job_sample_tokens :: tokens where
  "job_sample_tokens = \<lparr>sign = (\<lambda>p. replicate 32 CHR ''h''), encode = pair_encode,
     decode = (\<lambda>t. Some (pair_decode t)), encoded_len = 64, uuid_parse = (\<lambda>n. Some n)\<rparr>"

definition job_sample_supply :: "nat \<Rightarrow> string" where
  "job_sample_supply n = replicate n CHR ''a''"

definition job_sample_request :: JobRequest where
  "job_sample_request = \<lparr>Agent = [], Task = ''ls'', Budget = \<lparr>WallClockSeconds = 0, MaxOutputBytes = 9\<rparr>,
     OriginatingSessionID = ''s'', OriginatingAgentID = ''a''\<rparr>"

definition job_sample_completion :: BackendCompletion where
  "job_sample_completion = \<lparr>BStatus = StatusSucceeded, BOutput = ''ok'', BOutputTruncated = False, BErr = None,
     BStartedAt = 5, BCompletedAt = 6\<rparr>"

definition job_sample_job :: string where
  "job_sample_job = newJobID (NewService True True job_sample_tokens) (job_sample_supply 0)"

definition job_sample_history :: "bg_op list" where
  "job_sample_history = [Register 1 PatternBackground job_sample_request, Started 2 job_sample_job,
     Complete 6 job_sample_job job_sample_completion, Complete 7 job_sample_job job_sample_completion]"

lemma job_sample_supply_ok: "supply_ok job_sample_supply"
proof -
  have "inj job_sample_supply" by (rule injI) (metis length_replicate job_sample_supply_def)
  then show ?thesis by (simp add: supply_ok_def job_sample_supply_def)
qed

lemma pair_decode_encode: "pair_decode (pair_encode t) = t" "length (pair_encode t) = 2 * length t"
    "CHR '':'' \<notin> set (pair_encode t)"
  by (induction t) (auto simp: pair_encode_def)

lemma job_sample_tokens_ok: "tokens_ok job_sample_tokens"
  by (auto simp: tokens_ok_def job_sample_tokens_def pair_decode_encode)

lemma job_sample_history_ok: "\<forall>x\<in>set job_sample_history. bg_ok x" "\<forall>x\<in>set (take 3 job_sample_history). bg_ok x"
  "\<forall>x\<in>set (drop 3 job_sample_history). bg_ok x"
  by (simp_all add: job_sample_history_def job_sample_completion_def IsTerminal_def)

abbreviation job_sample_state :: "nat \<Rightarrow> bg_sys" where
  "job_sample_state n \<equiv> foldl (bg_step job_sample_supply) (bg_init (NewService True True job_sample_tokens)) (take n job_sample_history)"

theorem one_envelope_per_job_witness:
  "distinct (sent_ids (foldl (bg_step job_sample_supply) (bg_init (NewService True True job_sample_tokens)) job_sample_history))
   \<and> length (sent_ids (foldl (bg_step job_sample_supply) (bg_init (NewService True True job_sample_tokens)) job_sample_history)) = 1"
proof
  show "length (sent_ids (foldl (bg_step job_sample_supply) (bg_init (NewService True True job_sample_tokens)) job_sample_history)) = 1"
    by code_simp
qed (rule one_envelope_per_job [OF job_sample_supply_ok job_sample_history_ok(1)])

theorem retention_witness:
  "int (length (finished (jobs (pruneCompletedLocked ((serv (job_sample_state 3))\<lparr>maxCompleted := 0\<rparr>) 8)))) \<le> 0"
proof -
  have "keys_ok ((serv (job_sample_state 3))\<lparr>maxCompleted := 0\<rparr>)" unfolding keys_ok_def by code_simp
  then show ?thesis using retention [of "(serv (job_sample_state 3))\<lparr>maxCompleted := 0\<rparr>" 8] by simp
qed

theorem submit_gate_witness:
  "\<exists>v' i. Submit (\<lambda>v. v) None 1 (job_sample_supply 0) (NewService True True job_sample_tokens) PatternBackground job_sample_request
     = (v', Inr i) \<and> i = job_sample_job"
proof -
  have "case snd (Submit (\<lambda>v. v) None 1 (job_sample_supply 0) (NewService True True job_sample_tokens) PatternBackground
      job_sample_request) of Inr i \<Rightarrow> True | Inl e \<Rightarrow> False" by code_simp
  then obtain v' i where s: "Submit (\<lambda>v. v) None 1 (job_sample_supply 0) (NewService True True job_sample_tokens)
      PatternBackground job_sample_request = (v', Inr i)"
    by (metis (no_types, lifting) prod.collapse sum.case_eq_if sum.collapse(2))
  from submit_gate [OF s] show ?thesis using s by (simp add: job_sample_job_def)
qed

theorem output_capped_witness: "snd (drainPipes [''abc'', ''de''] 4) \<and> take 4 (fst (drainPipes [''abc'', ''de''] 4)) = ''abcd''"
  using output_capped [of "[''abc'', ''de'']" 4] by simp

end
