(* ===== verification/LoopStore.thy ===== *)
theory LoopStore
  imports Prelude Complex_Main
begin

text \<open>
  The tables behind iteration loops: \<^verbatim>\<open>goals\<close>, \<^verbatim>\<open>goal_evidence\<close>, \<^verbatim>\<open>loop_runs\<close> and
  \<^verbatim>\<open>loop_run_iterations\<close>, with the functions of \<^verbatim>\<open>internal/store\<close> that read and write them.

  A table is the list of its rows in the order of insertion, which is the order of the time
  stamps the queries sort by. An \<^verbatim>\<open>UPDATE ... WHERE id = ?\<close> maps over the list; an \<^verbatim>\<open>INSERT\<close>
  fails if it breaks the primary key, the unique index on an iteration's number or a foreign
  key. Whether the database itself fails is an argument of every statement. JSON columns are
  held decoded: \<^const>\<open>Inl\<close> is text that does not decode, and the empty text and the empty
  object are the zero value. Encoding these records cannot fail. A \<^verbatim>\<open>float64\<close> is the rational
  it stands for.
\<close>

section \<open>Vocabularies\<close>

datatype DecisionKind = DecisionContinue | DecisionRetry | DecisionReplan | DecisionRearchitect
  | DecisionWait | DecisionEscalate | DecisionComplete | DecisionFail

fun kind_string :: "DecisionKind \<Rightarrow> string" where
  "kind_string DecisionContinue = ''continue''"
| "kind_string DecisionRetry = ''retry''"
| "kind_string DecisionReplan = ''replan''"
| "kind_string DecisionRearchitect = ''rearchitect''"
| "kind_string DecisionWait = ''wait''"
| "kind_string DecisionEscalate = ''escalate''"
| "kind_string DecisionComplete = ''complete''"
| "kind_string DecisionFail = ''fail''"

definition all_kinds :: "DecisionKind list" where
  "all_kinds = [DecisionContinue, DecisionRetry, DecisionReplan, DecisionRearchitect, DecisionWait,
     DecisionEscalate, DecisionComplete, DecisionFail]"

definition validateLoopRunIterationDecision :: "string \<Rightarrow> bool" where
  "validateLoopRunIterationDecision d = (d \<in> set (map kind_string all_kinds))"

definition validateLoopRunIterationProgressState :: "string \<Rightarrow> bool" where
  "validateLoopRunIterationProgressState p =
     (p \<in> {''progress'', ''no_progress'', ''regression'', ''blocked'', ''goal_met''})"

definition LoopRunActiveStatuses :: "string list" where
  "LoopRunActiveStatuses = [''running'', ''waiting_on_gate'', ''waiting_on_escalation'']"

definition validateLoopRunStatus :: "string \<Rightarrow> bool" where
  "validateLoopRunStatus s = (s \<in> {''running'', ''completed'', ''failed'', ''canceled'', ''waiting_on_gate'',
     ''waiting_on_escalation''})"

definition validateGoalStatus :: "string \<Rightarrow> bool" where
  "validateGoalStatus s = (s \<in> {''draft'', ''defined'', ''active'', ''blocked'', ''satisfied'', ''failed'',
     ''canceled'', ''superseded''})"

section \<open>Rows\<close>

record Evaluation =
  RemainingDelta :: string
  Confidence :: rat
  Regressions :: "string list"

record IterationResult =
  IID :: string
  ILoopRunID :: string
  IterationNumber :: int
  WorkflowRunID :: string
  IDecision :: string
  ProgressState :: string
  EvaluationJSON :: "string + Evaluation"
  IStartedAt :: string
  ICompletedAt :: string

record Budget =
  MaxIterations :: int
  MaxFailures :: int
  MaxRuntimeSeconds :: int
  MaxNoProgressIterations :: int
  OnExhausted :: string

definition validateBudget :: "Budget \<Rightarrow> bool" where
  "validateBudget b = (if OnExhausted b \<noteq> ''escalate'' \<and> OnExhausted b \<noteq> ''fail'' then False
     else if MaxIterations b < 0 \<or> MaxFailures b < 0 \<or> MaxRuntimeSeconds b < 0
       \<or> MaxNoProgressIterations b < 0 then False
     else True)"

record Goal =
  GID :: string
  ParentGoalID :: string
  Intent :: string
  DesiredState :: "string + string list"
  Constraints :: "string + string list"
  AcceptanceCriteria :: "string + string list"
  Invariants :: "string + string list"
  Priority :: string
  Scope :: string
  GStatus :: string
  Owner :: string
  Source :: string

record GoalEvidence =
  EID :: string
  EGoalID :: string
  ELoopRunID :: string
  EIterationNumber :: "int option"
  EvidenceType :: string
  RefTable :: string
  RefID :: string
  EResult :: string
  Summary :: string

text \<open>The type of the continuation policy column is the business of the engine.\<close>

record 'c LoopRun =
  LRID :: string
  LRGoalID :: string
  DefinitionName :: string
  LStatus :: string
  CurrentIteration :: int
  BudgetJSON :: "string + Budget"
  ContinuationPolicyJSON :: "string + 'c"
  NoProgressStreak :: int
  LStartedAt :: string
  LUpdatedAt :: string
  LCompletedAt :: string

text \<open>Of a workflow run only its link to a loop, of a schedule only its id and its agent.\<close>

record WorkflowRunRow =
  WRID :: string
  WLoopRunID :: string
  WLoopIteration :: int

record AgentSchedule =
  SID :: string
  SAgentID :: string
  SBody :: string

record 'c DB =
  goals :: "Goal list"
  evidence :: "GoalEvidence list"
  loop_runs :: "'c LoopRun list"
  loop_run_iterations :: "IterationResult list"
  workflow_runs :: "WorkflowRunRow list"
  agent_schedules :: "AgentSchedule list"

section \<open>Statements\<close>

text \<open>How a statement ends: normally, with an error of the database, or with an error when the
  number of affected rows is asked for, after the change.\<close>

datatype exec_outcome = ExecOk | ExecError string | RowsError string

definition ErrLoopRunNotFound :: go_error where
  "ErrLoopRunNotFound = Sentinel ''loop run not found''"

definition ErrGoalNotFound :: go_error where
  "ErrGoalNotFound = Sentinel ''goal not found''"

definition ErrLoopRunIterationNotFound :: go_error where
  "ErrLoopRunIterationNotFound = Sentinel ''loop run iteration not found''"

definition ErrWorkflowRunNotFound :: go_error where
  "ErrWorkflowRunNotFound = Sentinel ''workflow run not found''"

definition exec_update ::
  "exec_outcome \<Rightarrow> string \<Rightarrow> go_error \<Rightarrow> ('r \<Rightarrow> bool) \<Rightarrow> ('r \<Rightarrow> 'r) \<Rightarrow> 'r list \<Rightarrow> 'r list \<times> go_error option" where
  "exec_update x what notfound p f rows =
     (let rows' = map (\<lambda>r. if p r then f r else r) rows in
      case x of ExecError e \<Rightarrow> (rows, Some (Wrapf what (Errorf e)))
      | RowsError e \<Rightarrow> (rows', Some (Wrapf (what @ '' rows affected'') (Errorf e)))
      | ExecOk \<Rightarrow> (rows', if list_ex p rows then None else Some notfound))"

definition exec_insert :: "exec_outcome \<Rightarrow> string \<Rightarrow> bool \<Rightarrow> 'r \<Rightarrow> 'r list \<Rightarrow> 'r list \<times> go_error option" where
  "exec_insert x what legal r rows = (case x of
       ExecError e \<Rightarrow> (rows, Some (Wrapf what (Errorf e)))
     | _ \<Rightarrow> if legal then (rows @ [r], None) else (rows, Some (Wrapf what (Errorf ''constraint failed''))))"

section \<open>Goals\<close>

definition CreateGoal :: "exec_outcome \<Rightarrow> string \<Rightarrow> 'c DB \<Rightarrow> Goal \<Rightarrow> 'c DB \<times> (go_error + Goal)" where
  "CreateGoal x fresh db g =
     (if Intent g = [] then (db, Inl (Errorf ''create goal: intent is required''))
      else let g1 = g\<lparr>GID := if GID g = [] then fresh else GID g,
                 GStatus := if GStatus g = [] then ''draft'' else GStatus g\<rparr>
        in if \<not> validateGoalStatus (GStatus g1) then (db, Inl (Wrapf ''create goal'' (Errorf ''status invalid'')))
           else case exec_insert x ''create goal'' (GID g1 \<notin> set (map GID (goals db))
                  \<and> (ParentGoalID g1 = [] \<or> ParentGoalID g1 \<in> set (map GID (goals db)))) g1 (goals db) of
             (rows, None) \<Rightarrow> (db\<lparr>goals := rows\<rparr>, Inr g1)
           | (rows, Some e) \<Rightarrow> (db\<lparr>goals := rows\<rparr>, Inl e))"

definition GetGoal :: "exec_outcome \<Rightarrow> 'c DB \<Rightarrow> string \<Rightarrow> go_error + Goal" where
  "GetGoal x db gid = (case x of ExecError e \<Rightarrow> Inl (Wrapf ''get goal'' (Errorf e))
     | _ \<Rightarrow> (case find (\<lambda>g. GID g = gid) (goals db) of None \<Rightarrow> Inl ErrGoalNotFound | Some g \<Rightarrow> Inr g))"

definition UpdateGoal :: "exec_outcome \<Rightarrow> 'c DB \<Rightarrow> Goal \<Rightarrow> 'c DB \<times> go_error option" where
  "UpdateGoal x db g =
     (if GID g = [] then (db, Some (Errorf ''update goal: id is required''))
      else if Intent g = [] then (db, Some (Errorf ''update goal: intent is required''))
      else case exec_update x ''update goal'' ErrGoalNotFound (\<lambda>r. GID r = GID g)
             (\<lambda>r. g\<lparr>GStatus := GStatus r\<rparr>) (goals db) of
        (rows, e) \<Rightarrow> (db\<lparr>goals := rows\<rparr>, e))"

section \<open>Goal evidence\<close>

record GoalEvidenceEvaluation =
  GoalMet :: bool
  AcceptanceCriteriaSatisfied :: bool
  ConstraintsSatisfied :: bool
  InvariantsPreserved :: bool
  RequiredEvidencePresent :: bool
  MissingAcceptanceCriteria :: "string list"
  MissingConstraints :: "string list"
  MissingInvariants :: "string list"

definition ListGoalEvidence :: "exec_outcome \<Rightarrow> 'c DB \<Rightarrow> string \<Rightarrow> go_error + GoalEvidence list" where
  "ListGoalEvidence x db gid = (case x of ExecError e \<Rightarrow> Inl (Wrapf ''list goal evidence'' (Errorf e))
     | _ \<Rightarrow> Inr (filter (\<lambda>e. EGoalID e = gid) (evidence db)))"

definition missingFromCoverage :: "string list \<Rightarrow> string list \<Rightarrow> string list" where
  "missingFromCoverage items covered = filter (\<lambda>item. item \<notin> set covered) items"

definition EvaluateGoalEvidence ::
  "exec_outcome \<Rightarrow> exec_outcome \<Rightarrow> 'c DB \<Rightarrow> string \<Rightarrow> go_error + GoalEvidenceEvaluation \<times> GoalEvidence list" where
  "EvaluateGoalEvidence x y db goalID =
     (case GetGoal x db goalID of Inl e \<Rightarrow> Inl e | Inr goal \<Rightarrow>
      case ListGoalEvidence y db goalID of Inl e \<Rightarrow> Inl (Wrapf ''evaluate goal evidence'' e) | Inr evs \<Rightarrow>
     (let covered = map Summary (filter (\<lambda>e. Summary e \<noteq> []) evs) in
      case AcceptanceCriteria goal of Inl e \<Rightarrow> Inl (Wrapf ''evaluate goal evidence'' (Errorf e)) | Inr acceptance \<Rightarrow>
      case Constraints goal of Inl e \<Rightarrow> Inl (Wrapf ''evaluate goal evidence'' (Errorf e)) | Inr constraints \<Rightarrow>
      case Invariants goal of Inl e \<Rightarrow> Inl (Wrapf ''evaluate goal evidence'' (Errorf e)) | Inr invariants \<Rightarrow>
        (let ma = missingFromCoverage acceptance covered; mc = missingFromCoverage constraints covered;
             mi = missingFromCoverage invariants covered
         in Inr (\<lparr>GoalMet = (ma = [] \<and> mc = [] \<and> mi = [] \<and> evs \<noteq> []),
           AcceptanceCriteriaSatisfied = (ma = []), ConstraintsSatisfied = (mc = []), InvariantsPreserved = (mi = []),
           RequiredEvidencePresent = (evs \<noteq> []),
           MissingAcceptanceCriteria = ma, MissingConstraints = mc, MissingInvariants = mi\<rparr>, evs))))"

definition EvidenceSatisfiesGoal ::
  "exec_outcome \<Rightarrow> exec_outcome \<Rightarrow> 'c DB \<Rightarrow> string \<Rightarrow> go_error + bool \<times> GoalEvidence list" where
  "EvidenceSatisfiesGoal x y db goalID = (case EvaluateGoalEvidence x y db goalID of
       Inl e \<Rightarrow> Inl e
     | Inr (eval, evs) \<Rightarrow> Inr (GoalMet eval, evs))"

section \<open>Loop runs\<close>

definition SetBudget :: "'c LoopRun \<Rightarrow> Budget \<Rightarrow> go_error + 'c LoopRun" where
  "SetBudget lr b =
     (let b1 = b\<lparr>OnExhausted := if OnExhausted b = [] then ''escalate'' else OnExhausted b\<rparr> in
      if validateBudget b1 then Inr (lr\<lparr>BudgetJSON := Inr b1\<rparr>) else Inl (Errorf ''budget invalid''))"

definition CreateLoopRun ::
  "exec_outcome \<Rightarrow> string \<Rightarrow> string \<Rightarrow> 'c DB \<Rightarrow> 'c LoopRun \<Rightarrow> 'c DB \<times> (go_error + 'c LoopRun)" where
  "CreateLoopRun x fresh nowt db lr =
     (if LRGoalID lr = [] then (db, Inl (Errorf ''create loop_run: goal_id is required''))
      else if DefinitionName lr = [] then (db, Inl (Errorf ''create loop_run: definition_name is required''))
      else let lr1 = lr\<lparr>LRID := if LRID lr = [] then fresh else LRID lr,
                 LStatus := if LStatus lr = [] then ''running'' else LStatus lr\<rparr>
        in if \<not> validateLoopRunStatus (LStatus lr1)
           then (db, Inl (Wrapf ''create loop_run'' (Errorf ''status invalid'')))
           else let lr2 = lr1\<lparr>LStartedAt := nowt, LUpdatedAt := nowt\<rparr> in
             case exec_insert x ''create loop_run'' (LRID lr2 \<notin> set (map LRID (loop_runs db))
                  \<and> LRGoalID lr2 \<in> set (map GID (goals db))) lr2 (loop_runs db) of
               (rows, None) \<Rightarrow> (db\<lparr>loop_runs := rows\<rparr>, Inr lr2)
             | (rows, Some e) \<Rightarrow> (db\<lparr>loop_runs := rows\<rparr>, Inl e))"

definition GetLoopRun :: "exec_outcome \<Rightarrow> 'c DB \<Rightarrow> string \<Rightarrow> go_error + 'c LoopRun" where
  "GetLoopRun x db lid = (case x of ExecError e \<Rightarrow> Inl (Wrapf ''get loop_run'' (Errorf e))
     | _ \<Rightarrow> (case find (\<lambda>r. LRID r = lid) (loop_runs db) of None \<Rightarrow> Inl ErrLoopRunNotFound | Some r \<Rightarrow> Inr r))"

definition ListLoopRuns :: "exec_outcome \<Rightarrow> 'c DB \<Rightarrow> string \<Rightarrow> string list \<Rightarrow> go_error + 'c LoopRun list" where
  "ListLoopRuns x db goalID statuses = (case x of ExecError e \<Rightarrow> Inl (Wrapf ''list loop_runs'' (Errorf e))
     | _ \<Rightarrow> Inr (filter (\<lambda>r. (goalID = [] \<or> LRGoalID r = goalID)
              \<and> (statuses = [] \<or> LStatus r \<in> set statuses)) (loop_runs db)))"

definition update_loop_run ::
  "exec_outcome \<Rightarrow> string \<Rightarrow> string \<Rightarrow> 'c DB \<Rightarrow> string \<Rightarrow> ('c LoopRun \<Rightarrow> 'c LoopRun) \<Rightarrow> 'c DB \<times> go_error option" where
  "update_loop_run x what nowt db lid f =
     (case exec_update x what ErrLoopRunNotFound (\<lambda>r. LRID r = lid) (\<lambda>r. (f r)\<lparr>LUpdatedAt := nowt\<rparr>) (loop_runs db) of
        (rows, e) \<Rightarrow> (db\<lparr>loop_runs := rows\<rparr>, e))"

definition UpdateLoopRunStatus ::
  "exec_outcome \<Rightarrow> string \<Rightarrow> 'c DB \<Rightarrow> string \<Rightarrow> string \<Rightarrow> string option \<Rightarrow> 'c DB \<times> go_error option" where
  "UpdateLoopRunStatus x nowt db lid st completedAt =
     (if \<not> validateLoopRunStatus st then (db, Some (Wrapf ''update loop_run status'' (Errorf ''status invalid'')))
      else update_loop_run x ''update loop_run status'' nowt db lid
        (\<lambda>r. r\<lparr>LStatus := st, LCompletedAt := (case completedAt of Some t \<Rightarrow> t | None \<Rightarrow> LCompletedAt r)\<rparr>))"

definition BumpLoopRunIteration :: "exec_outcome \<Rightarrow> string \<Rightarrow> 'c DB \<Rightarrow> string \<Rightarrow> 'c DB \<times> go_error option" where
  "BumpLoopRunIteration x nowt db lid =
     update_loop_run x ''bump loop_run iteration'' nowt db lid (\<lambda>r. r\<lparr>CurrentIteration := CurrentIteration r + 1\<rparr>)"

definition UpdateLoopRunNoProgressStreak ::
  "exec_outcome \<Rightarrow> string \<Rightarrow> 'c DB \<Rightarrow> string \<Rightarrow> int \<Rightarrow> 'c DB \<times> go_error option" where
  "UpdateLoopRunNoProgressStreak x nowt db lid streak =
     (if streak < 0 then (db, Some (Errorf ''update loop_run no_progress_streak: streak must be non-negative''))
      else update_loop_run x ''update loop_run no_progress_streak'' nowt db lid (\<lambda>r. r\<lparr>NoProgressStreak := streak\<rparr>))"

definition UpdateLoopRunDefinitionName ::
  "exec_outcome \<Rightarrow> string \<Rightarrow> 'c DB \<Rightarrow> string \<Rightarrow> string \<Rightarrow> 'c DB \<times> go_error option" where
  "UpdateLoopRunDefinitionName x nowt db lid name =
     (if name = [] then (db, Some (Errorf ''update loop_run definition_name: definition_name is required''))
      else update_loop_run x ''update loop_run definition_name'' nowt db lid (\<lambda>r. r\<lparr>DefinitionName := name\<rparr>))"

definition UpdateWorkflowRunLoopScope ::
  "exec_outcome \<Rightarrow> 'c DB \<Rightarrow> string \<Rightarrow> string \<Rightarrow> int \<Rightarrow> 'c DB \<times> go_error option" where
  "UpdateWorkflowRunLoopScope x db wid lid n =
     (if wid = [] then (db, Some (Errorf ''UpdateWorkflowRunLoopScope: empty id''))
      else if lid = [] then (db, Some (Errorf ''UpdateWorkflowRunLoopScope: empty loop_run_id''))
      else case exec_update x (''update workflow_runs loop scope '' @ wid) ErrWorkflowRunNotFound
             (\<lambda>r. WRID r = wid) (\<lambda>r. r\<lparr>WLoopRunID := lid, WLoopIteration := n\<rparr>) (workflow_runs db) of
        (rows, e) \<Rightarrow> (db\<lparr>workflow_runs := rows\<rparr>, e))"

section \<open>Iterations\<close>

definition CreateLoopRunIteration ::
  "exec_outcome \<Rightarrow> string \<Rightarrow> string \<Rightarrow> 'c DB \<Rightarrow> IterationResult \<Rightarrow> 'c DB \<times> (go_error + IterationResult)" where
  "CreateLoopRunIteration x fresh nowt db li =
     (if ILoopRunID li = [] then (db, Inl (Errorf ''create loop_run_iteration: loop_run_id is required''))
      else if IDecision li \<noteq> [] \<and> \<not> validateLoopRunIterationDecision (IDecision li)
        then (db, Inl (Wrapf ''create loop_run_iteration'' (Errorf ''decision invalid'')))
      else if ProgressState li \<noteq> [] \<and> \<not> validateLoopRunIterationProgressState (ProgressState li)
        then (db, Inl (Wrapf ''create loop_run_iteration'' (Errorf ''progress_state invalid'')))
      else let li1 = li\<lparr>IID := if IID li = [] then fresh else IID li, IStartedAt := nowt\<rparr> in
        case exec_insert x ''create loop_run_iteration'' (IID li1 \<notin> set (map IID (loop_run_iterations db))
               \<and> (\<forall>r\<in>set (loop_run_iterations db). ILoopRunID r = ILoopRunID li1 \<longrightarrow> IterationNumber r \<noteq> IterationNumber li1)
               \<and> ILoopRunID li1 \<in> set (map LRID (loop_runs db))
               \<and> (WorkflowRunID li1 = [] \<or> WorkflowRunID li1 \<in> set (map WRID (workflow_runs db))))
             li1 (loop_run_iterations db) of
          (rows, None) \<Rightarrow> (db\<lparr>loop_run_iterations := rows\<rparr>, Inr li1)
        | (rows, Some e) \<Rightarrow> (db\<lparr>loop_run_iterations := rows\<rparr>, Inl e))"

definition ListLoopRunIterations :: "exec_outcome \<Rightarrow> 'c DB \<Rightarrow> string \<Rightarrow> go_error + IterationResult list" where
  "ListLoopRunIterations x db lid = (case x of ExecError e \<Rightarrow> Inl (Wrapf ''list loop_run_iterations'' (Errorf e))
     | _ \<Rightarrow> Inr (sort_key IterationNumber (filter (\<lambda>r. ILoopRunID r = lid) (loop_run_iterations db))))"

definition CompleteLoopRunIteration ::
  "exec_outcome \<Rightarrow> string \<Rightarrow> 'c DB \<Rightarrow> string \<Rightarrow> string \<Rightarrow> string \<Rightarrow> string \<Rightarrow> Evaluation \<Rightarrow> 'c DB \<times> go_error option" where
  "CompleteLoopRunIteration x nowt db iid wid dec pstate ev =
     (if wid = [] then (db, Some (Errorf ''complete loop_run_iteration: workflow_run_id is required''))
      else if \<not> validateLoopRunIterationDecision dec
        then (db, Some (Wrapf ''complete loop_run_iteration'' (Errorf ''decision invalid'')))
      else if \<not> validateLoopRunIterationProgressState pstate
        then (db, Some (Wrapf ''complete loop_run_iteration'' (Errorf ''progress_state invalid'')))
      else case exec_update x ''complete loop_run_iteration'' ErrLoopRunIterationNotFound (\<lambda>r. IID r = iid)
             (\<lambda>r. r\<lparr>WorkflowRunID := wid, IDecision := dec, ProgressState := pstate, EvaluationJSON := Inr ev,
                ICompletedAt := nowt\<rparr>) (loop_run_iterations db) of
        (rows, e) \<Rightarrow> (db\<lparr>loop_run_iterations := rows\<rparr>, e))"

text \<open>\<^verbatim>\<open>INSERT OR REPLACE\<close>: a row with the same id goes.\<close>

definition InsertAgentSchedule :: "exec_outcome \<Rightarrow> 'c DB \<Rightarrow> AgentSchedule \<Rightarrow> 'c DB \<times> go_error option" where
  "InsertAgentSchedule x db row = (case x of
       ExecError e \<Rightarrow> (db, Some (Wrapf ''insert agent_schedules'' (Errorf e)))
     | _ \<Rightarrow> (db\<lparr>agent_schedules := filter (\<lambda>r. SID r \<noteq> SID row) (agent_schedules db) @ [row]\<rparr>, None))"

section \<open>Properties\<close>

text \<open>
  A goal is met exactly if there is evidence at all and every acceptance criterion,
  constraint and invariant is named by the summary of some evidence of that goal; the missing
  lists name exactly the rest, in order.
\<close>

lemma goal_met_iff:
  assumes "GetGoal ExecOk db gid = Inr g" and "es = filter (\<lambda>e. EGoalID e = gid) (evidence db)"
    and "AcceptanceCriteria g = Inr a" and "Constraints g = Inr c" and "Invariants g = Inr i"
  shows "EvidenceSatisfiesGoal ExecOk ExecOk db gid =
      Inr (es \<noteq> [] \<and> (\<forall>x\<in>set a \<union> set c \<union> set i. x \<noteq> [] \<and> (\<exists>e\<in>set es. Summary e = x)), es)
    \<and> (\<exists>v. EvaluateGoalEvidence ExecOk ExecOk db gid = Inr (v, es)
         \<and> MissingAcceptanceCriteria v = filter (\<lambda>x. x = [] \<or> (\<forall>e\<in>set es. Summary e \<noteq> x)) a
         \<and> MissingConstraints v = filter (\<lambda>x. x = [] \<or> (\<forall>e\<in>set es. Summary e \<noteq> x)) c
         \<and> MissingInvariants v = filter (\<lambda>x. x = [] \<or> (\<forall>e\<in>set es. Summary e \<noteq> x)) i)"
proof -
  have missing: "missingFromCoverage xs (map Summary (filter (\<lambda>e. Summary e \<noteq> []) es))
      = filter (\<lambda>x. x = [] \<or> (\<forall>e\<in>set es. Summary e \<noteq> x)) xs" for xs
    unfolding missingFromCoverage_def by (rule filter_cong) (auto simp: image_iff)
  have "ListGoalEvidence ExecOk db gid = Inr es" by (simp add: ListGoalEvidence_def assms(2))
  moreover have "EvaluateGoalEvidence ExecOk ExecOk db gid =
      Inr (\<lparr>GoalMet = (missingFromCoverage a (map Summary (filter (\<lambda>e. Summary e \<noteq> []) es)) = []
          \<and> missingFromCoverage c (map Summary (filter (\<lambda>e. Summary e \<noteq> []) es)) = []
          \<and> missingFromCoverage i (map Summary (filter (\<lambda>e. Summary e \<noteq> []) es)) = [] \<and> es \<noteq> []),
        AcceptanceCriteriaSatisfied = (missingFromCoverage a (map Summary (filter (\<lambda>e. Summary e \<noteq> []) es)) = []),
        ConstraintsSatisfied = (missingFromCoverage c (map Summary (filter (\<lambda>e. Summary e \<noteq> []) es)) = []),
        InvariantsPreserved = (missingFromCoverage i (map Summary (filter (\<lambda>e. Summary e \<noteq> []) es)) = []),
        RequiredEvidencePresent = (es \<noteq> []),
        MissingAcceptanceCriteria = missingFromCoverage a (map Summary (filter (\<lambda>e. Summary e \<noteq> []) es)),
        MissingConstraints = missingFromCoverage c (map Summary (filter (\<lambda>e. Summary e \<noteq> []) es)),
        MissingInvariants = missingFromCoverage i (map Summary (filter (\<lambda>e. Summary e \<noteq> []) es))\<rparr>, es)"
    using assms(1,3-5) calculation by (simp add: EvaluateGoalEvidence_def Let_def)
  ultimately show ?thesis
    by (auto simp: EvidenceSatisfiesGoal_def missing filter_empty_conv)
qed

section \<open>Witnesses\<close>

definition sample_goal :: Goal where
  "sample_goal = \<lparr>GID = ''g'', ParentGoalID = [], Intent = ''ship'', DesiredState = Inr [], Constraints = Inr [''c''],
     AcceptanceCriteria = Inr [''a''], Invariants = Inr [], Priority = [], Scope = [], GStatus = ''active'',
     Owner = [], Source = []\<rparr>"

definition sample_evidence :: GoalEvidence where
  "sample_evidence = \<lparr>EID = ''e'', EGoalID = ''g'', ELoopRunID = [], EIterationNumber = None, EvidenceType = ''test'',
     RefTable = [], RefID = [], EResult = [], Summary = ''a''\<rparr>"

definition sample_db :: "'c DB" where
  "sample_db = \<lparr>goals = [sample_goal], evidence = [sample_evidence], loop_runs = [], loop_run_iterations = [],
     workflow_runs = [\<lparr>WRID = ''w'', WLoopRunID = [], WLoopIteration = 0\<rparr>], agent_schedules = []\<rparr>"

end
