(* ===== verification/LoopEngine.thy ===== *)
theory LoopEngine
  imports LoopPolicy "HOL-Library.Multiset" "HOL-Library.Char_ord" "HOL-Library.List_Lexorder"
begin

text \<open>
  The loop engine and its launcher: \<^verbatim>\<open>internal/loop/engine.go\<close>, \<^verbatim>\<open>launcher.go\<close>, \<^verbatim>\<open>presets.go\<close>,
  \<^verbatim>\<open>types.go\<close>, \<^verbatim>\<open>outer_resume.go\<close> and \<^verbatim>\<open>tick_schedule.go\<close>, over the tables of \<open>LoopStore\<close> and
  the policy of \<open>LoopPolicy\<close>.

  A call of the engine talks to the outside world: the database may fail, a workflow run
  returns a result, the clock and the random ids give values, a context may be dead, and
  other parties may change the database (\<open>meanwhile\<close>). The record \<open>world\<close> holds these
  answers for one pass of the iteration loop; an engine call takes one world for what it does
  itself and a list of worlds, one per pass. The other parties act where the code waits
  longest, while a workflow runs, and where they matter most, between the check of \<^verbatim>\<open>Run\<close> that a
  goal has no active run and the insertion of the new one, which are two statements and no
  transaction. At other points, such as during the model call of a decision, they do nothing in
  the model: the engine does not read the row of its run again before it writes the status, so
  what they do to the runs there has the same effect as during the workflow before. Calls that leave the engine (launching and
  resuming workflow runs, notifying an outer run) are recorded in order. Log lines are not
  modelled.
\<close>

section \<open>Workflow results\<close>

datatype RunStatus = RunStatusRunning | RunStatusCompleted | RunStatusFailed | RunStatusCanceled
  | RunStatusWaiting | RunStatusWaitingOnFlex | RunStatusWaitingOnLoop

fun RunStatus_string :: "RunStatus \<Rightarrow> string" where
  "RunStatus_string RunStatusRunning = ''running''"
| "RunStatus_string RunStatusCompleted = ''completed''"
| "RunStatus_string RunStatusFailed = ''failed''"
| "RunStatus_string RunStatusCanceled = ''canceled''"
| "RunStatus_string RunStatusWaiting = ''waiting_on_gate''"
| "RunStatus_string RunStatusWaitingOnFlex = ''waiting_on_flex''"
| "RunStatus_string RunStatusWaitingOnLoop = ''waiting_on_loop''"

record VerifyResult =
  Passed :: bool
  VReason :: string

text \<open>Of a step's result what the engine reads.\<close>

record StepResult =
  IsError :: bool
  VerifyResult :: "VerifyResult option"

text \<open>The map of step results is the list of its entries in the order a \<^verbatim>\<open>range\<close> visits them.\<close>

record WorkflowLaunchResult =
  InstanceID :: string
  RunID :: string
  WorkflowName :: string
  WStatus :: RunStatus
  StepResults :: "(string \<times> StepResult) list"
  WError :: string

record WorkflowResult =
  WRRunID :: string
  WRStatus :: RunStatus
  WRStepResults :: "(string \<times> StepResult) list"
  WRError :: string

record WorkflowLaunchRequest =
  QWorkflowName :: string
  QParams :: "(string \<times> string) list"
  QProjectID :: string
  QAgentProfileID :: string
  QParentSessionID :: string
  QTimeoutSeconds :: int

definition isPausedRunStatus :: "RunStatus \<Rightarrow> bool" where
  "isPausedRunStatus st = (st \<in> {RunStatusRunning, RunStatusWaiting, RunStatusWaitingOnFlex, RunStatusWaitingOnLoop})"

definition roll_step :: "int \<times> int \<times> string list \<Rightarrow> string \<times> StepResult \<Rightarrow> int \<times> int \<times> string list" where
  "roll_step acc step = (case acc of (passed, failed, regressions) \<Rightarrow> case step of (stepID, sr) \<Rightarrow>
     if IsError sr then (passed, failed + 1, regressions @ [stepID @ '': step errored''])
     else case VerifyResult sr of
       None \<Rightarrow> (passed, failed, regressions)
     | Some v \<Rightarrow> if Passed v then (passed + 1, failed, regressions)
                 else (passed, failed + 1, regressions @ [stepID @ '': '' @ VReason v]))"

definition classifyIterationProgress :: "WorkflowLaunchResult option \<Rightarrow> Evaluation \<times> string" where
  "classifyIterationProgress res = (case res of
       None \<Rightarrow> (\<lparr>RemainingDelta = ''no workflow launch result'', Confidence = 0, Regressions = []\<rparr>, ''blocked'')
     | Some r \<Rightarrow>
        if isPausedRunStatus (WStatus r) then
          (\<lparr>RemainingDelta = ''iteration workflow run is itself waiting ('' @ RunStatus_string (WStatus r) @ '')'',
            Confidence = 0, Regressions = []\<rparr>, ''blocked'')
        else if WStatus r = RunStatusCanceled then
          (\<lparr>RemainingDelta = ''iteration workflow run was canceled'', Confidence = 0, Regressions = []\<rparr>, ''blocked'')
        else case foldl roll_step (0, 0, []) (StepResults r) of (passed, failed, regressions) \<Rightarrow>
          let conf = (if passed + failed > 0 then of_int passed / of_int (passed + failed) else 1);
              eval = \<lparr>RemainingDelta = [], Confidence = conf, Regressions = sort regressions\<rparr>
          in if WStatus r = RunStatusFailed then
               (eval\<lparr>RemainingDelta := ''iteration workflow run failed: '' @ WError r\<rparr>, ''regression'')
             else if failed > 0 \<and> passed = 0 then
               (eval\<lparr>RemainingDelta := show_int failed @ '' of '' @ show_int (failed + passed)
                  @ '' verified steps failed, none passed''\<rparr>, ''regression'')
             else if failed > 0 then
               (eval\<lparr>RemainingDelta := show_int failed @ '' of '' @ show_int (failed + passed)
                  @ '' verified steps failed''\<rparr>, ''no_progress'')
             else (eval\<lparr>RemainingDelta := ''iteration completed with no unresolved verify failures''\<rparr>, ''progress''))"

section \<open>The engine's types\<close>

record loopRunPersistentConfig =
  CContinuationPolicy :: ContinuationPolicy
  CAgentProfileID :: string
  CProjectID :: string
  CParentSessionID :: string
  CTimeoutSeconds :: int
  CWorkflowParams :: "(string \<times> string) list"

type_synonym loop_db = "loopRunPersistentConfig DB"
type_synonym loop_run = "loopRunPersistentConfig LoopRun"

record LoopGoalSpec =
  SpecParentGoalID :: string
  SpecIntent :: string
  SpecDesiredState :: "string list"
  SpecConstraints :: "string list"
  SpecAcceptanceCriteria :: "string list"
  SpecInvariants :: "string list"
  SpecPriority :: string
  SpecScope :: string
  SpecOwner :: string
  SpecSource :: string

record LoopInput =
  IdempotencyKey :: string
  InGoalID :: string
  InGoal :: "LoopGoalSpec option"
  InBudget :: Budget
  InContinuationPolicy :: ContinuationPolicy
  InWorkflowParams :: "(string \<times> string) list"
  InAgentProfileID :: string
  InProjectID :: string
  InParentSessionID :: string
  InTimeoutSeconds :: int

record LoopResult =
  RLoopRunID :: string
  RStatus :: string
  RCurrentIteration :: int
  LastDecision :: "Decision option"

text \<open>Which collaborators are set, and the name-based UUID of package \<^verbatim>\<open>uuid\<close>.\<close>

record LoopEngine =
  store_set :: bool
  registry_set :: bool
  launcher_set :: bool
  outerResume :: bool
  uuid_sha1 :: "string \<Rightarrow> string"

datatype event = Launched WorkflowLaunchRequest | ResumedRun string | NotifyLoopRunTerminal string

record StepDefinition =
  StepID :: string
  StepKind :: string
  StepConfig :: "(string \<times> string) list"

record WorkflowDefinition =
  WDName :: string
  Steps :: "StepDefinition list"

record sys =
  db :: loop_db
  events :: "event list"
  registry :: "WorkflowDefinition list"

datatype store_op = OpGetGoal | OpListEvidence | OpCreateGoal | OpUpdateGoal | OpGetRun | OpListRuns | OpCreateRun
  | OpStatus | OpBump | OpStreak | OpScope | OpCreateIteration | OpListIterations | OpComplete | OpSchedule
  | OpDefinition

record world =
  ctx_err :: "string option"
  deadline :: bool
  db_out :: "store_op \<Rightarrow> exec_outcome"
  launch :: "WorkflowLaunchRequest \<Rightarrow> go_error + WorkflowLaunchResult option"
  resume_run :: "string \<Rightarrow> go_error + WorkflowResult"
  meanwhile :: "loop_db \<Rightarrow> loop_db"
  step_tools :: tools
  now_text :: string
  fresh :: string
  CheckInstanceCreation :: "string \<Rightarrow> go_error option"
  GetAgentForActor :: "string \<Rightarrow> go_error option"
  Register :: "WorkflowDefinition \<Rightarrow> go_error option"

type_synonym 'a eff = "sys \<times> (go_error + 'a)"

text \<open>A store call whose error is wrapped and returned, and otherwise the rest of the function.\<close>

definition call :: "sys \<Rightarrow> loop_db \<times> go_error option \<Rightarrow> string \<Rightarrow> (sys \<Rightarrow> 'a eff) \<Rightarrow> 'a eff" where
  "call s r what k = (case r of (d, None) \<Rightarrow> k (s\<lparr>db := d\<rparr>)
     | (d, Some e) \<Rightarrow> (s\<lparr>db := d\<rparr>, Inl (Wrapf what e)))"

definition configured :: "LoopEngine \<Rightarrow> bool" where
  "configured E = (store_set E \<and> registry_set E \<and> launcher_set E)"

definition notifyOuterOnTerminal :: "LoopEngine \<Rightarrow> sys \<Rightarrow> string \<Rightarrow> string \<Rightarrow> sys" where
  "notifyOuterOnTerminal E s lid st =
     (if \<not> outerResume E then s
      else if st \<in> {''completed'', ''failed'', ''canceled''} then s\<lparr>events := events s @ [NotifyLoopRunTerminal lid]\<rparr>
      else s)"

definition loopRunTickScheduleID :: "string \<Rightarrow> string" where
  "loopRunTickScheduleID lid = ''loop_run_tick:'' @ lid"

definition scheduleLoopRunTick :: "world \<Rightarrow> loop_db \<Rightarrow> string \<Rightarrow> string \<Rightarrow> loop_db \<times> go_error option" where
  "scheduleLoopRunTick W d lid agent =
     (if agent = [] then (d, Some (Errorf (''loop: schedule loop_run_tick for '' @ lid @ '': agent_profile_id is required'')))
      else case InsertAgentSchedule (db_out W OpSchedule) d \<lparr>SID = loopRunTickScheduleID lid, SAgentID = agent,
             SBody = ''loop_run_tick poll for loop_run '' @ lid\<rparr> of
        (d', None) \<Rightarrow> (d', None)
      | (d', Some e) \<Rightarrow> (d', Some (Wrapf (''loop: schedule loop_run_tick for '' @ lid) e)))"

section \<open>One iteration\<close>

definition escalateOnBoundedContextExceeded :: "LoopEngine \<Rightarrow> world \<Rightarrow> sys \<Rightarrow> loop_run \<Rightarrow> Budget \<Rightarrow> LoopResult eff" where
  "escalateOnBoundedContextExceeded E W s lr budget =
     (let failing = (OnExhausted budget = ''fail'');
          st = (if failing then ''failed'' else ''waiting_on_escalation'')
      in call s (UpdateLoopRunStatus (db_out W OpStatus) (now_text W) (db s) (LRID lr) st
             (if failing then Some (now_text W) else None))
           ''loop: run: max_runtime_seconds exceeded, and updating loop_run status failed''
         (\<lambda>s1. (notifyOuterOnTerminal E s1 (LRID lr) st,
            Inr \<lparr>RLoopRunID = LRID lr, RStatus = st, RCurrentIteration = CurrentIteration lr, LastDecision = None\<rparr>)))"

definition launchIteration :: "world \<Rightarrow> sys \<Rightarrow> loop_run \<Rightarrow> string \<Rightarrow> loopRunPersistentConfig \<Rightarrow> int
    \<Rightarrow> (loop_run \<times> IterationResult \<times> WorkflowLaunchResult) eff" where
  "launchIteration W s lr defName cfg n =
     call s (BumpLoopRunIteration (db_out W OpBump) (now_text W) (db s) (LRID lr)) ''loop: bump loop_run iteration''
     (\<lambda>s1. let lr1 = lr\<lparr>CurrentIteration := CurrentIteration lr + 1\<rparr>;
              rq = \<lparr>QWorkflowName = defName, QParams = CWorkflowParams cfg, QProjectID = CProjectID cfg,
                QAgentProfileID = CAgentProfileID cfg, QParentSessionID = CParentSessionID cfg,
                QTimeoutSeconds = CTimeoutSeconds cfg\<rparr>;
              s2 = s1\<lparr>db := meanwhile W (db s1), events := events s1 @ [Launched rq]\<rparr>;
              what = ''loop: launch iteration '' @ show_int n
          in case launch W rq of
            Inl e \<Rightarrow> (s2, Inl (Wrapf what e))
          | Inr None \<Rightarrow> (s2, Inl (Errorf (what @ '': launcher returned no run id'')))
          | Inr (Some res) \<Rightarrow>
              if RunID res = [] then (s2, Inl (Errorf (what @ '': launcher returned no run id'')))
              else call s2 (UpdateWorkflowRunLoopScope (db_out W OpScope) (db s2) (RunID res) (LRID lr) n)
                (''loop: scope workflow run '' @ RunID res @ '' to loop_run '' @ LRID lr)
                (\<lambda>s3. case CreateLoopRunIteration (db_out W OpCreateIteration) (fresh W) (now_text W) (db s3)
                   \<lparr>IID = [], ILoopRunID = LRID lr, IterationNumber = n, WorkflowRunID = RunID res, IDecision = [],
                    ProgressState = [], EvaluationJSON = Inr \<lparr>RemainingDelta = [], Confidence = 0, Regressions = []\<rparr>,
                    IStartedAt = [], ICompletedAt = []\<rparr> of
                   (d, Inl e) \<Rightarrow> (s3\<lparr>db := d\<rparr>, Inl (Wrapf (''loop: create loop_run_iteration '' @ show_int n) e))
                 | (d, Inr row) \<Rightarrow> (s3\<lparr>db := d\<rparr>, Inr (lr1, row, res))))"

definition applyRearchitect :: "world \<Rightarrow> sys \<Rightarrow> Goal \<Rightarrow> GoalRevision option \<Rightarrow> Goal eff" where
  "applyRearchitect W s goal revision = (case revision of
       None \<Rightarrow> (s, Inl (Errorf ''loop: rearchitect: decision carried no revision payload''))
     | Some r \<Rightarrow>
        let g1 = (if RDesiredState r \<noteq> [] then goal\<lparr>DesiredState := Inr (RDesiredState r)\<rparr> else goal);
            g2 = (if RAcceptanceCriteria r \<noteq> [] then g1\<lparr>AcceptanceCriteria := Inr (RAcceptanceCriteria r)\<rparr> else g1)
        in call s (UpdateGoal (db_out W OpUpdateGoal) (db s) g2) ''update goal'' (\<lambda>s1. (s1, Inr g2)))"

text \<open>The engine's loop state, and what an evaluated iteration leads to.\<close>

datatype act = GoOn loop_run Goal "IterationResult list" | Stop LoopResult

definition act_on :: "LoopEngine \<Rightarrow> world \<Rightarrow> sys \<Rightarrow> loop_run \<Rightarrow> Goal \<Rightarrow> int \<Rightarrow> Decision \<Rightarrow> IterationResult list
    \<Rightarrow> act eff" where
  "act_on E W s lr goal n dcn full =
     (let res = (\<lambda>st. \<lparr>RLoopRunID = LRID lr, RStatus = st, RCurrentIteration = CurrentIteration lr,
                LastDecision = Some dcn\<rparr>);
          finish = (\<lambda>st. call s (UpdateLoopRunStatus (db_out W OpStatus) (now_text W) (db s) (LRID lr) st
                (Some (now_text W))) ''loop: update loop_run status''
              (\<lambda>s1. (notifyOuterOnTerminal E s1 (LRID lr) st, Inr (Stop (res st)))))
      in case Kind dcn of
        DecisionContinue \<Rightarrow> (s, Inr (GoOn lr goal full))
      | DecisionRetry \<Rightarrow> (s, Inr (GoOn lr goal full))
      | DecisionReplan \<Rightarrow> (s, Inr (GoOn lr goal full))
      | DecisionRearchitect \<Rightarrow>
         (case applyRearchitect W s goal (Revision dcn) of
            (s1, Inl e) \<Rightarrow> (s1, Inl (Wrapf (''loop: apply rearchitect revision (iteration '' @ show_int n @ '')'') e))
          | (s1, Inr g) \<Rightarrow> (s1, Inr (GoOn lr g full)))
      | DecisionWait \<Rightarrow>
          call s (UpdateLoopRunStatus (db_out W OpStatus) (now_text W) (db s) (LRID lr) ''waiting_on_escalation'' None)
            ''loop: update loop_run status''
            (\<lambda>s1. case ContinuationPolicyJSON lr of
               Inl e \<Rightarrow> (s1, Inl (Wrapf (''loop: schedule loop_run_tick: decode continuation policy for '' @ LRID lr) (Errorf e)))
             | Inr cfg \<Rightarrow> (case scheduleLoopRunTick W (db s1) (LRID lr) (CAgentProfileID cfg) of
                  (d, Some e) \<Rightarrow> (s1\<lparr>db := d\<rparr>, Inl e)
                | (d, None) \<Rightarrow> (s1\<lparr>db := d\<rparr>, Inr (Stop (res ''waiting_on_escalation'')))))
      | DecisionEscalate \<Rightarrow>
          call s (UpdateLoopRunStatus (db_out W OpStatus) (now_text W) (db s) (LRID lr) ''waiting_on_escalation'' None)
            ''loop: update loop_run status'' (\<lambda>s1. (s1, Inr (Stop (res ''waiting_on_escalation''))))
      | DecisionComplete \<Rightarrow> finish ''completed''
      | DecisionFail \<Rightarrow> finish ''failed'')"

definition evaluateDecideAndAct :: "LoopEngine \<Rightarrow> world \<Rightarrow> sys \<Rightarrow> loop_run \<Rightarrow> Goal \<Rightarrow> IterationResult
    \<Rightarrow> WorkflowLaunchResult \<Rightarrow> ContinuationPolicy \<Rightarrow> Budget \<Rightarrow> IterationResult list \<Rightarrow> act eff" where
  "evaluateDecideAndAct E W s lr goal iterRow res policy budget prior =
     (case classifyIterationProgress (Some res) of (evaluation, ps0) \<Rightarrow>
      case EvidenceSatisfiesGoal (db_out W OpGetGoal) (db_out W OpListEvidence) (db s) (GID goal) of
        Inl e \<Rightarrow> (s, Inl (Wrapf (''loop: evaluate goal evidence for '' @ GID goal) e))
      | Inr (met, evs) \<Rightarrow>
         let ps = (if met then ''goal_met'' else ps0);
             this = iterRow\<lparr>ProgressState := ps, ICompletedAt := now_text W, EvaluationJSON := Inr evaluation\<rparr>;
             n = IterationNumber iterRow
         in case Decide (step_tools W) goal met evaluation (prior @ [this]) budget policy of
           Inl e \<Rightarrow> (s, Inl (Wrapf (''loop: decide iteration '' @ show_int n) (Errorf e)))
         | Inr dcn \<Rightarrow>
             call s (CompleteLoopRunIteration (db_out W OpComplete) (now_text W) (db s) (IID iterRow) (RunID res)
                 (kind_string (Kind dcn)) ps evaluation)
               (''loop: complete loop_run_iteration '' @ show_int n)
             (\<lambda>s1. let full = prior @ [this\<lparr>IDecision := kind_string (Kind dcn)\<rparr>];
                      streak = noProgressStreak full
                  in call s1 (UpdateLoopRunNoProgressStreak (db_out W OpStreak) (now_text W) (db s1) (LRID lr) streak)
                       ''loop: update no_progress_streak''
                     (\<lambda>s2. act_on E W s2 (lr\<lparr>NoProgressStreak := streak\<rparr>) goal n dcn full)))"

section \<open>The iteration loop\<close>

type_synonym loop_state = "sys \<times> loop_run \<times> Goal \<times> IterationResult list"

definition iterate :: "LoopEngine \<Rightarrow> string \<Rightarrow> loopRunPersistentConfig \<Rightarrow> Budget \<Rightarrow> world \<Rightarrow> loop_state
    \<Rightarrow> loop_state + LoopResult eff" where
  "iterate E defName cfg budget W st = (case st of (s, lr, goal, history) \<Rightarrow>
     case ctx_err W of
       Some e \<Rightarrow> Inr (s, Inl (Wrapf (''loop: run '' @ LRID lr @ '': caller context canceled'') (Errorf e)))
     | None \<Rightarrow>
       if MaxRuntimeSeconds budget > 0 \<and> deadline W then Inr (escalateOnBoundedContextExceeded E W s lr budget)
       else case launchIteration W s lr defName cfg (int (length history) + 1) of
         (s1, Inl e) \<Rightarrow> Inr (s1, Inl e)
       | (s1, Inr (lr1, row, res)) \<Rightarrow>
           if isPausedRunStatus (WStatus res) then
             Inr (call s1 (UpdateLoopRunStatus (db_out W OpStatus) (now_text W) (db s1) (LRID lr1) ''waiting_on_gate'' None)
                 ''loop: update loop_run status''
               (\<lambda>s2. (s2, Inr \<lparr>RLoopRunID = LRID lr1, RStatus = ''waiting_on_gate'',
                  RCurrentIteration = CurrentIteration lr1, LastDecision = None\<rparr>)))
           else case evaluateDecideAndAct E W s1 lr1 goal row res (CContinuationPolicy cfg) budget history of
             (s2, Inl e) \<Rightarrow> Inr (s2, Inl e)
           | (s2, Inr (Stop r)) \<Rightarrow> Inr (s2, Inr r)
           | (s2, Inr (GoOn lr2 g h)) \<Rightarrow> Inl (s2, lr2, g, h))"

definition driveIterations :: "LoopEngine \<Rightarrow> world list \<Rightarrow> sys \<Rightarrow> loop_run \<Rightarrow> Goal \<Rightarrow> string
    \<Rightarrow> loopRunPersistentConfig \<Rightarrow> IterationResult list \<Rightarrow> LoopResult eff option" where
  "driveIterations E Ws s lr goal defName cfg history = (case BudgetJSON lr of
       Inl e \<Rightarrow> Some (s, Inl (Wrapf ''loop: decode budget'' (Errorf e)))
     | Inr budget \<Rightarrow> drive (iterate E defName cfg budget) Ws (s, lr, goal, history))"

definition resumeBlockedIteration :: "LoopEngine \<Rightarrow> world \<Rightarrow> world list \<Rightarrow> sys \<Rightarrow> loop_run \<Rightarrow> Goal
    \<Rightarrow> loopRunPersistentConfig \<Rightarrow> IterationResult list \<Rightarrow> LoopResult eff option" where
  "resumeBlockedIteration E W Ws s lr goal cfg history =
     (if history = [] then Some (s, Inl (Errorf (''loop: resume '' @ LRID lr @ '': no iterations exist'')))
      else let it = last history; what = ''loop: resume '' @ LRID lr in
        if IDecision it \<noteq> [] \<or> WorkflowRunID it = [] then
          Some (s, Inl (Errorf (what @ '': the most recent iteration is not a genuinely in-flight workflow run'')))
        else let s1 = s\<lparr>db := meanwhile W (db s), events := events s @ [ResumedRun (WorkflowRunID it)]\<rparr> in
          case resume_run W (WorkflowRunID it) of
            Inl e \<Rightarrow> Some (s1, Inl (Wrapf (what @ '': resume workflow run '' @ WorkflowRunID it) e))
          | Inr result \<Rightarrow>
             let res = \<lparr>InstanceID = [], RunID = WRRunID result, WorkflowName = DefinitionName lr,
                   WStatus = WRStatus result, StepResults = WRStepResults result, WError = WRError result\<rparr>
             in if isPausedRunStatus (WStatus res) then
                  Some (s1, Inr \<lparr>RLoopRunID = LRID lr, RStatus = LStatus lr, RCurrentIteration = CurrentIteration lr,
                    LastDecision = None\<rparr>)
                else case BudgetJSON lr of
                  Inl e \<Rightarrow> Some (s1, Inl (Wrapf (what @ '': decode budget'') (Errorf e)))
                | Inr budget \<Rightarrow>
                   (case evaluateDecideAndAct E W s1 lr goal it res (CContinuationPolicy cfg) budget (butlast history) of
                      (s2, Inl e) \<Rightarrow> Some (s2, Inl e)
                    | (s2, Inr (Stop r)) \<Rightarrow> Some (s2, Inr r)
                    | (s2, Inr (GoOn lr2 g h)) \<Rightarrow> driveIterations E Ws s2 lr2 g (DefinitionName lr) cfg h))"

section \<open>Run and Resume\<close>

definition deterministicLoopIdentity :: "LoopEngine \<Rightarrow> string \<Rightarrow> string" where
  "deterministicLoopIdentity E key = uuid_sha1 E (''nanite-workflow-loop:'' @ key)"

definition resolveGoal :: "LoopEngine \<Rightarrow> world \<Rightarrow> sys \<Rightarrow> LoopInput \<Rightarrow> Goal eff" where
  "resolveGoal E W s input =
     (if InGoalID input \<noteq> [] \<and> InGoal input \<noteq> None then
        (s, Inl (Errorf ''loop: run: exactly one of GoalID or Goal must be set, not both''))
      else if InGoalID input \<noteq> [] then
        (case GetGoal (db_out W OpGetGoal) (db s) (InGoalID input) of
           Inl e \<Rightarrow> (s, Inl (Wrapf (''loop: run: load goal '' @ InGoalID input) e))
         | Inr g \<Rightarrow> (s, Inr g))
      else case InGoal input of
        None \<Rightarrow> (s, Inl (Errorf ''loop: run: exactly one of GoalID or Goal must be set''))
      | Some sp \<Rightarrow>
         let gid = (if IdempotencyKey input \<noteq> [] then deterministicLoopIdentity E (IdempotencyKey input @ '':goal'') else []);
             found = (if IdempotencyKey input \<noteq> [] then GetGoal (db_out W OpGetGoal) (db s) gid else Inl ErrGoalNotFound);
             g = \<lparr>GID = gid, ParentGoalID = SpecParentGoalID sp, Intent = SpecIntent sp,
               DesiredState = Inr (SpecDesiredState sp), Constraints = Inr (SpecConstraints sp),
               AcceptanceCriteria = Inr (SpecAcceptanceCriteria sp), Invariants = Inr (SpecInvariants sp),
               Priority = SpecPriority sp, Scope = SpecScope sp, GStatus = [], Owner = SpecOwner sp, Source = SpecSource sp\<rparr>
         in case found of
           Inr existing \<Rightarrow> (s, Inr existing)
         | Inl e \<Rightarrow>
             if \<not> Is e ErrGoalNotFound then (s, Inl (Wrapf ''loop: run: recover idempotent inline goal'' e))
             else case CreateGoal (db_out W OpCreateGoal) (fresh W) (db s) g of
               (d, Inl e) \<Rightarrow> (s\<lparr>db := d\<rparr>, Inl (Wrapf ''loop: run: create inline goal'' e))
             | (d, Inr g1) \<Rightarrow> (s\<lparr>db := d\<rparr>, Inr g1))"

definition ErrLoopRunAlreadyActive :: go_error where
  "ErrLoopRunAlreadyActive = Sentinel ''loop: goal already has an active loop run''"

definition start_run :: "LoopEngine \<Rightarrow> world \<Rightarrow> sys \<Rightarrow> string \<Rightarrow> string \<Rightarrow> LoopInput
    \<Rightarrow> (loop_run \<times> Goal \<times> loopRunPersistentConfig) eff" where
  "start_run E W s workflow loopRunID input =
     (case resolveGoal E W s input of (s1, Inl e) \<Rightarrow> (s1, Inl e) | (s1, Inr goal) \<Rightarrow>
      case ListLoopRuns (db_out W OpListRuns) (db s1) (GID goal) LoopRunActiveStatuses of
        Inl e \<Rightarrow> (s1, Inl (Wrapf (''loop: run: check active loop runs for goal '' @ GID goal) e))
      | Inr (a # as) \<Rightarrow> (s1, Inl (Wrapf (''goal '' @ GID goal @ '' already has an active loop run '' @ LRID a)
            ErrLoopRunAlreadyActive))
      | Inr [] \<Rightarrow>
         let cfg = \<lparr>CContinuationPolicy = InContinuationPolicy input, CAgentProfileID = InAgentProfileID input,
               CProjectID = InProjectID input, CParentSessionID = InParentSessionID input,
               CTimeoutSeconds = InTimeoutSeconds input, CWorkflowParams = InWorkflowParams input\<rparr>;
             lr = \<lparr>LRID = loopRunID, LRGoalID = GID goal, DefinitionName = workflow, LStatus = [], CurrentIteration = 0,
               BudgetJSON = Inr \<lparr>MaxIterations = 0, MaxFailures = 0, MaxRuntimeSeconds = 0, MaxNoProgressIterations = 0,
                 OnExhausted = []\<rparr>, ContinuationPolicyJSON = Inr cfg, NoProgressStreak = 0, LStartedAt = [],
               LUpdatedAt = [], LCompletedAt = []\<rparr>
         in case SetBudget lr (InBudget input) of
              Inl e \<Rightarrow> (s1, Inl (Wrapf ''loop: run: set budget'' e))
            | Inr lr1 \<Rightarrow>
               (case CreateLoopRun (db_out W OpCreateRun) (fresh W) (now_text W) (meanwhile W (db s1)) lr1 of
                  (d, Inl e) \<Rightarrow> (s1\<lparr>db := d\<rparr>, Inl (Wrapf ''loop: run: create loop_run'' e))
                | (d, Inr lr2) \<Rightarrow> (s1\<lparr>db := d\<rparr>, Inr (lr2, goal, cfg))))"

definition Run :: "LoopEngine \<Rightarrow> world \<Rightarrow> world list \<Rightarrow> sys \<Rightarrow> string \<Rightarrow> LoopInput \<Rightarrow> LoopResult eff option" where
  "Run E W Ws s workflow input =
     (if \<not> configured E then Some (s, Inl (Errorf ''loop: engine not fully configured''))
      else if workflow = [] then Some (s, Inl (Errorf ''loop: run: workflow name is required''))
      else if InAgentProfileID input = [] then Some (s, Inl (Errorf ''loop: run: agent_profile_id is required''))
      else case CheckInstanceCreation W (InAgentProfileID input) of Some e \<Rightarrow> Some (s, Inl e) | None \<Rightarrow>
       (let loopRunID = (if IdempotencyKey input \<noteq> [] then deterministicLoopIdentity E (IdempotencyKey input) else []);
            fresh_start = (case start_run E W s workflow loopRunID input of
                (s1, Inl e) \<Rightarrow> Some (s1, Inl e)
              | (s1, Inr (lr, goal, cfg)) \<Rightarrow> driveIterations E Ws s1 lr goal workflow cfg [])
        in if IdempotencyKey input = [] then fresh_start
           else case GetLoopRun (db_out W OpGetRun) (db s) loopRunID of
             Inr existing \<Rightarrow>
               if DefinitionName existing \<noteq> workflow \<or> (InGoalID input \<noteq> [] \<and> LRGoalID existing \<noteq> InGoalID input)
               then Some (s, Inl (Errorf ''loop: run: idempotency key already belongs to a different launch''))
               else Some (s, Inr \<lparr>RLoopRunID = LRID existing, RStatus = LStatus existing,
                 RCurrentIteration = CurrentIteration existing, LastDecision = None\<rparr>)
           | Inl e \<Rightarrow> if Is e ErrLoopRunNotFound then fresh_start
               else Some (s, Inl (Wrapf ''loop: run: recover idempotent loop run'' e))))"

definition Resume :: "LoopEngine \<Rightarrow> world \<Rightarrow> world list \<Rightarrow> sys \<Rightarrow> string \<Rightarrow> LoopResult eff option" where
  "Resume E W Ws s lid =
     (if \<not> configured E then Some (s, Inl (Errorf ''loop: engine not fully configured''))
      else if lid = [] then Some (s, Inl (Errorf ''loop: resume: loop_run_id is required''))
      else let what = ''loop: resume '' @ lid in
       case GetLoopRun (db_out W OpGetRun) (db s) lid of Inl e \<Rightarrow> Some (s, Inl (Wrapf what e)) | Inr lr \<Rightarrow>
       case GetGoal (db_out W OpGetGoal) (db s) (LRGoalID lr) of
         Inl e \<Rightarrow> Some (s, Inl (Wrapf (what @ '': load goal '' @ LRGoalID lr) e)) | Inr goal \<Rightarrow>
       case ContinuationPolicyJSON lr of Inl e \<Rightarrow> Some (s, Inl (Wrapf what (Errorf e))) | Inr cfg \<Rightarrow>
       case GetAgentForActor W (CAgentProfileID cfg) of Some e \<Rightarrow> Some (s, Inl e) | None \<Rightarrow>
       case (if LStatus lr = ''waiting_on_escalation'' then CheckInstanceCreation W (CAgentProfileID cfg) else None) of
         Some e \<Rightarrow> Some (s, Inl e) | None \<Rightarrow>
       case ListLoopRunIterations (db_out W OpListIterations) (db s) lid of
         Inl e \<Rightarrow> Some (s, Inl (Wrapf (what @ '': list iterations'') e)) | Inr history \<Rightarrow>
       if LStatus lr = ''waiting_on_gate'' then resumeBlockedIteration E W Ws s lr goal cfg history
       else if LStatus lr = ''waiting_on_escalation'' then driveIterations E Ws s lr goal (DefinitionName lr) cfg history
       else Some (s, Inl (Errorf (what @ '': loop run status is not resumable''))))"

section \<open>Presets\<close>

record LoopPreset =
  PName :: string
  PBudget :: Budget
  PContinuationPolicy :: ContinuationPolicy
  DefinitionTemplate :: WorkflowDefinition

definition implemented :: "LoopPreset \<Rightarrow> bool" where
  "implemented p = (Steps (DefinitionTemplate p) \<noteq> [])"

definition ralphDefaultMaxIterations :: int where
  "ralphDefaultMaxIterations = 20"

definition ralphDefinitionTemplate :: WorkflowDefinition where
  "ralphDefinitionTemplate = \<lparr>WDName = ''ralph'', Steps = [\<lparr>StepID = ''work'', StepKind = ''llm'',
     StepConfig = [(''provider'', ''{{input.provider}}''), (''model'', ''{{input.model}}''),
       (''agent_id'', ''{{input.agent_id}}''), (''prompt'', ''{{input.task}}'')]\<rparr>]\<rparr>"

definition zero_policy :: ContinuationPolicy where
  "zero_policy = \<lparr>Provider = [], Model = [], AgentID = [], SessionID = [], Tools = []\<rparr>"

definition ralphPreset :: LoopPreset where
  "ralphPreset = \<lparr>PName = ''ralph'', PBudget = \<lparr>MaxIterations = ralphDefaultMaxIterations, MaxFailures = 0,
     MaxRuntimeSeconds = 0, MaxNoProgressIterations = 0, OnExhausted = ''escalate''\<rparr>,
     PContinuationPolicy = zero_policy, DefinitionTemplate = ralphDefinitionTemplate\<rparr>"

definition stubPreset :: "string \<Rightarrow> LoopPreset" where
  "stubPreset name = \<lparr>PName = name, PBudget = \<lparr>MaxIterations = 20, MaxFailures = 0,
     MaxRuntimeSeconds = 0, MaxNoProgressIterations = 3, OnExhausted = ''escalate''\<rparr>,
     PContinuationPolicy = zero_policy, DefinitionTemplate = \<lparr>WDName = name, Steps = []\<rparr>\<rparr>"

definition presets :: "(string \<times> LoopPreset) list" where
  "presets = (''ralph'', ralphPreset) # map (\<lambda>n. (n, stubPreset n))
     [''test-fix'', ''review-fix'', ''plan-execute'', ''queue-drain'', ''durable'', ''self-improve'']"

definition GetPreset :: "string \<Rightarrow> LoopPreset option" where
  "GetPreset name = map_of presets name"

section \<open>The launcher\<close>

record LoopLaunchRequest =
  LQGoalID :: "string option"
  InlineGoal :: "LoopGoalSpec option"
  LQDefinitionName :: string
  BudgetOverrides :: "Budget option"
  LQContinuationPolicy :: ContinuationPolicy
  LQWorkflowParams :: "(string \<times> string) list"
  LQAgentProfileID :: string
  LQProjectID :: string
  LQParentSessionID :: string
  LQTimeoutSeconds :: int

record ReplanOverride =
  OvDefinitionName :: string
  OvDesiredState :: "string list"
  OvAcceptanceCriteria :: "string list"

record EscalationOverride =
  ForceComplete :: bool
  ForceCancel :: bool
  Replan :: "ReplanOverride option"

record LoopLauncher =
  l_engine :: "LoopEngine option"
  l_store :: bool

definition ErrLoopRunNotWaitingOnEscalation :: go_error where
  "ErrLoopRunNotWaitingOnEscalation = Sentinel ''loop: loop run is not waiting_on_escalation''"

definition ErrPresetNotImplemented :: go_error where
  "ErrPresetNotImplemented = Sentinel ''loop: preset is not yet implemented''"

definition not_configured :: "go_error" where
  "not_configured = Errorf ''loop: launcher not fully configured''"

text \<open>The engine of a configured launcher.\<close>

definition launcher_engine :: "LoopLauncher \<Rightarrow> LoopEngine option" where
  "launcher_engine L = (if l_store L then l_engine L else None)"

definition isZeroContinuationPolicy :: "ContinuationPolicy \<Rightarrow> bool" where
  "isZeroContinuationPolicy p = (Provider p = [] \<and> Model p = [] \<and> AgentID p = [] \<and> SessionID p = [] \<and> Tools p = [])"

definition stringFromPtr :: "string option \<Rightarrow> string" where
  "stringFromPtr p = (case p of None \<Rightarrow> [] | Some x \<Rightarrow> x)"

definition resolvePresetDefaults :: "world \<Rightarrow> sys \<Rightarrow> LoopLaunchRequest
    \<Rightarrow> (string \<times> Budget \<times> ContinuationPolicy) eff" where
  "resolvePresetDefaults W s rq =
     (let budget = (case BudgetOverrides rq of Some b \<Rightarrow> b
            | None \<Rightarrow> \<lparr>MaxIterations = 0, MaxFailures = 0, MaxRuntimeSeconds = 0, MaxNoProgressIterations = 0, OnExhausted = []\<rparr>);
          policy = LQContinuationPolicy rq
      in case GetPreset (LQDefinitionName rq) of
        None \<Rightarrow> (s, Inr (LQDefinitionName rq, budget, policy))
      | Some preset \<Rightarrow>
         if \<not> implemented preset then (s, Inl (Wrapf (LQDefinitionName rq) ErrPresetNotImplemented))
         else
          (let answer = (PName preset, (if BudgetOverrides rq = None then PBudget preset else budget),
                 (if isZeroContinuationPolicy policy then PContinuationPolicy preset else policy))
           in if PName preset \<in> set (map WDName (registry s)) then (s, Inr answer)
              else case Register W (DefinitionTemplate preset) of
                Some e \<Rightarrow> (s, Inl (Wrapf (''loop: launch: register preset '' @ LQDefinitionName rq) e))
              | None \<Rightarrow> (s\<lparr>registry := registry s @ [DefinitionTemplate preset]\<rparr>, Inr answer)))"

definition Launch :: "LoopLauncher \<Rightarrow> world \<Rightarrow> world list \<Rightarrow> sys \<Rightarrow> LoopLaunchRequest \<Rightarrow> LoopResult eff option" where
  "Launch L W Ws s rq = (case launcher_engine L of
       None \<Rightarrow> Some (s, Inl not_configured)
     | Some E \<Rightarrow>
        if LQDefinitionName rq = [] then Some (s, Inl (Errorf ''loop: launch: definition_name is required''))
        else case resolvePresetDefaults W s rq of
          (s1, Inl e) \<Rightarrow> Some (s1, Inl e)
        | (s1, Inr (defName, budget, policy)) \<Rightarrow>
            Run E W Ws s1 defName \<lparr>IdempotencyKey = [], InGoalID = stringFromPtr (LQGoalID rq), InGoal = InlineGoal rq,
              InBudget = budget, InContinuationPolicy = policy, InWorkflowParams = LQWorkflowParams rq,
              InAgentProfileID = LQAgentProfileID rq, InProjectID = LQProjectID rq,
              InParentSessionID = LQParentSessionID rq, InTimeoutSeconds = LQTimeoutSeconds rq\<rparr>)"

definition Cancel_loop :: "LoopLauncher \<Rightarrow> world \<Rightarrow> sys \<Rightarrow> string \<Rightarrow> unit eff" where
  "Cancel_loop L W s lid = (case launcher_engine L of
       None \<Rightarrow> (s, Inl not_configured)
     | Some E \<Rightarrow>
        if lid = [] then (s, Inl (Errorf ''loop: cancel: loop_run_id is required''))
        else call s (UpdateLoopRunStatus (db_out W OpStatus) (now_text W) (db s) lid ''canceled'' (Some (now_text W)))
          (''loop: cancel '' @ lid) (\<lambda>s1. (notifyOuterOnTerminal E s1 lid ''canceled'', Inr ())))"

definition applyReplan :: "world \<Rightarrow> sys \<Rightarrow> loop_run \<Rightarrow> ReplanOverride \<Rightarrow> unit eff" where
  "applyReplan W s lr rp =
     (let revise = (\<lambda>s1. if OvDesiredState rp \<noteq> [] \<or> OvAcceptanceCriteria rp \<noteq> [] then
            (case GetGoal (db_out W OpGetGoal) (db s1) (LRGoalID lr) of
               Inl e \<Rightarrow> (s1, Inl (Wrapf (''load goal '' @ LRGoalID lr) e))
             | Inr goal \<Rightarrow>
                (case applyRearchitect W s1 goal (Some \<lparr>RDesiredState = OvDesiredState rp,
                     RAcceptanceCriteria = OvAcceptanceCriteria rp\<rparr>) of
                   (s2, Inl e) \<Rightarrow> (s2, Inl (Wrapf ''apply goal revision'' e))
                 | (s2, Inr g) \<Rightarrow> (s2, Inr ())))
          else (s1, Inr ()))
      in if OvDefinitionName rp \<noteq> [] then
           call s (UpdateLoopRunDefinitionName (db_out W OpDefinition) (now_text W) (db s) (LRID lr) (OvDefinitionName rp))
             ''update definition_name'' revise
         else revise s)"

definition ResolveEscalation :: "LoopLauncher \<Rightarrow> world \<Rightarrow> world list \<Rightarrow> sys \<Rightarrow> string \<Rightarrow> EscalationOverride option
    \<Rightarrow> LoopResult eff option" where
  "ResolveEscalation L W Ws s lid override = (case launcher_engine L of
       None \<Rightarrow> Some (s, Inl not_configured)
     | Some E \<Rightarrow>
        if lid = [] then Some (s, Inl (Errorf ''loop: resolve escalation: loop_run_id is required''))
        else let what = ''loop: resolve escalation '' @ lid in
         case GetLoopRun (db_out W OpGetRun) (db s) lid of
           Inl e \<Rightarrow> Some (s, Inl (Wrapf what e))
         | Inr lr \<Rightarrow>
            if LStatus lr \<noteq> ''waiting_on_escalation'' then Some (s, Inl (Wrapf lid ErrLoopRunNotWaitingOnEscalation))
            else let res = (\<lambda>st. \<lparr>RLoopRunID = lid, RStatus = st, RCurrentIteration = CurrentIteration lr,
                     LastDecision = None\<rparr>) in
             case override of
               None \<Rightarrow> Resume E W Ws s lid
             | Some ov \<Rightarrow>
                if ForceComplete ov then
                  Some (call s (UpdateLoopRunStatus (db_out W OpStatus) (now_text W) (db s) lid ''completed'' (Some (now_text W)))
                    (what @ '': force complete'')
                    (\<lambda>s1. (notifyOuterOnTerminal E s1 lid ''completed'', Inr (res ''completed''))))
                else if ForceCancel ov then
                  (case Cancel_loop L W s lid of
                     (s1, Inl e) \<Rightarrow> Some (s1, Inl e)
                   | (s1, Inr _) \<Rightarrow> Some (s1, Inr (res ''canceled'')))
                else case Replan ov of
                  None \<Rightarrow> Resume E W Ws s lid
                | Some rp \<Rightarrow>
                   (case applyReplan W s lr rp of
                      (s1, Inl e) \<Rightarrow> Some (s1, Inl (Wrapf (what @ '': apply replan'') e))
                    | (s1, Inr _) \<Rightarrow> Resume E W Ws s1 lid))"

end
