(* ===== verification/LoopLifecycle.thy ===== *)
theory LoopLifecycle
  imports LoopEngine
begin

text \<open>
  What the loop engine promises. The first part is an abstract machine over the loop runs'
  ids, goals and statuses, and the proof that every call of the engine and of the launcher is
  a sequence of its steps; the second part the bound on the iterations; the third part the
  record a call leaves behind.
\<close>

section \<open>The abstract machine\<close>

type_synonym run_view = "(string \<times> string \<times> string) list"

definition view :: "'c DB \<Rightarrow> run_view" where
  "view d = map (\<lambda>r. (LRID r, LRGoalID r, LStatus r)) (loop_runs d)"

definition set_status :: "string \<Rightarrow> string \<Rightarrow> run_view \<Rightarrow> run_view" where
  "set_status lid st V = map (\<lambda>(i, g, s). if i = lid then (i, g, st) else (i, g, s)) V"

definition active :: "string \<Rightarrow> bool" where
  "active st \<longleftrightarrow> st \<in> set LoopRunActiveStatuses"

definition alive :: "string \<Rightarrow> run_view \<Rightarrow> bool" where
  "alive lid V \<longleftrightarrow> (\<exists>g s. (lid, g, s) \<in> set V \<and> active s)"

text \<open>
  A run starts on a goal without an active run; the engine moves an active run; an operator
  cancels any run. The exceptions are the runs of \<open>P\<close>, which another party got in the way of: a
  run that was started while another start on its goal was between its check and its insertion,
  and a run that was canceled, or moved, while a call was still driving it. Such a run may start
  beside an active one, and the engine may move it when it is no longer active.
\<close>

inductive lifecycle :: "string set \<Rightarrow> run_view \<Rightarrow> run_view \<Rightarrow> bool" for P where
  start: "lid \<notin> fst ` set V \<Longrightarrow> lid \<in> P \<or> (\<forall>(i, g', s)\<in>set V. g' = g \<longrightarrow> \<not> active s) \<Longrightarrow>
    lifecycle P V (V @ [(lid, g, ''running'')])"
| move: "lid \<in> P \<or> alive lid V \<Longrightarrow> st \<in> {''waiting_on_gate'', ''waiting_on_escalation'', ''completed'', ''failed''} \<Longrightarrow>
    lifecycle P V (set_status lid st V)"
| cancel: "lifecycle P V (set_status lid ''canceled'' V)"

definition one_active :: "string set \<Rightarrow> run_view \<Rightarrow> bool" where
  "one_active P V \<longleftrightarrow> distinct (map fst V) \<and>
     (\<forall>i j g s t. (i, g, s) \<in> set V \<longrightarrow> (j, g, t) \<in> set V \<longrightarrow> active s \<longrightarrow> active t \<longrightarrow> i = j \<or> i \<in> P \<or> j \<in> P)"

lemma active_simps [simp]:
  "active ''running''" "active ''waiting_on_gate''" "active ''waiting_on_escalation''"
  "\<not> active ''completed''" "\<not> active ''failed''" "\<not> active ''canceled''"
  by (simp_all add: active_def LoopRunActiveStatuses_def)

lemma in_set_status: "(i, g, s) \<in> set (set_status lid st V) \<longleftrightarrow>
    (if i = lid then s = st \<and> (\<exists>s'. (i, g, s') \<in> set V) else (i, g, s) \<in> set V)"
  by (induction V) (auto simp: set_status_def split: if_splits)

lemma fst_set_status [simp]: "map fst (set_status lid st V) = map fst V"
  by (auto simp: set_status_def)

lemma lifecycle_mono: "lifecycle P V V' \<Longrightarrow> P \<subseteq> Q \<Longrightarrow> lifecycle Q V V'"
  by (induction rule: lifecycle.induct) (auto intro: lifecycle.intros)

lemma lifecycle_run_mono: "(lifecycle P)\<^sup>*\<^sup>* V V' \<Longrightarrow> P \<subseteq> Q \<Longrightarrow> (lifecycle Q)\<^sup>*\<^sup>* V V'"
  by (induction rule: rtranclp_induct) (auto intro: rtranclp.rtrancl_into_rtrancl lifecycle_mono)

text \<open>No step removes a run or gives it another goal.\<close>

lemma run_persists:
  assumes "(lifecycle P)\<^sup>*\<^sup>* V V'" and "(i, g, s) \<in> set V"
  shows "\<exists>s'. (i, g, s') \<in> set V'"
  using assms
proof (induction rule: rtranclp_induct)
  case (step V1 V2)
  from step(2) show ?case using step.IH [OF step.prems] by cases (auto simp: in_set_status)
qed blast

lemma one_activeI:
  assumes "distinct (map fst V)"
    and "\<And>i j g s t. (i, g, s) \<in> set V \<Longrightarrow> (j, g, t) \<in> set V \<Longrightarrow> active s \<Longrightarrow> active t \<Longrightarrow> i \<notin> P \<Longrightarrow> j \<notin> P \<Longrightarrow> i = j"
  shows "one_active P V"
  using assms unfolding one_active_def by blast

lemma one_activeD:
  assumes "one_active P V" and "(i, g, s) \<in> set V" and "active s"
  shows "(j, g, t) \<in> set V \<Longrightarrow> active t \<Longrightarrow> i = j \<or> i \<in> P \<or> j \<in> P" and "(i, h, u) \<in> set V \<Longrightarrow> h = g \<and> u = s"
proof -
  show "(j, g, t) \<in> set V \<Longrightarrow> active t \<Longrightarrow> i = j \<or> i \<in> P \<or> j \<in> P" using assms unfolding one_active_def by blast
  show "h = g \<and> u = s" if "(i, h, u) \<in> set V"
    using assms(1) eq_key_imp_eq_value [OF _ that assms(2)] unfolding one_active_def by simp
qed

lemma one_active_mono: "one_active P V \<Longrightarrow> P \<subseteq> Q \<Longrightarrow> one_active Q V"
  unfolding one_active_def by blast

lemma one_active_step:
  assumes "lifecycle P V V'" and inv: "one_active P V"
  shows "one_active P V'"
  using assms(1)
proof cases
  case (start lid g)
  have "distinct (map fst V')" using inv start by (simp add: one_active_def)
  moreover have "i = j" if "(i, g', s) \<in> set V'" "(j, g', t) \<in> set V'" "active s" "active t" "i \<notin> P" "j \<notin> P" for i j g' s t
  proof (cases "(i, g', s) \<in> set V \<and> (j, g', t) \<in> set V")
    case True
    with one_activeD(1) [OF inv] that show ?thesis by blast
  next
    case False
    with that start show ?thesis by auto
  qed
  ultimately show ?thesis by (rule one_activeI)
next
  case (move lid st)
  have "distinct (map fst V')" using inv move by (simp add: one_active_def)
  moreover have "i = j" if a: "(i, g, s) \<in> set V'" "(j, g, t) \<in> set V'" "active s" "active t" "i \<notin> P" "j \<notin> P" for i j g s t
  proof -
    have old: "\<exists>s'. (k, g, s') \<in> set V \<and> active s'" if k: "(k, g, u) \<in> set V'" "active u" "k \<notin> P" for k u
    proof (cases "k = lid")
      case True
      obtain g0 s0 where r: "(lid, g0, s0) \<in> set V" "active s0" using move(2) k(3) True by (auto simp: alive_def)
      obtain s' where "(lid, g, s') \<in> set V" using k(1) move(1) True by (auto simp: in_set_status)
      then have "g = g0" using one_activeD(2) [OF inv r] by blast
      with r True show ?thesis by blast
    qed (use k move(1) in \<open>auto simp: in_set_status\<close>)
    show ?thesis using old [OF a(1,3,5)] old [OF a(2,4,6)] one_activeD(1) [OF inv] a(5,6) by blast
  qed
  ultimately show ?thesis by (rule one_activeI)
next
  case (cancel lid)
  have "distinct (map fst V')" using inv cancel by (simp add: one_active_def)
  moreover have "i = j" if "(i, g, s) \<in> set V'" "(j, g, t) \<in> set V'" "active s" "active t" "i \<notin> P" "j \<notin> P" for i j g s t
    using that one_activeD(1) [OF inv, of i g s j t] unfolding cancel by (auto simp: in_set_status split: if_splits)
  ultimately show ?thesis by (rule one_activeI)
qed

lemma one_active_run: "(lifecycle P)\<^sup>*\<^sup>* V V' \<Longrightarrow> one_active P V \<Longrightarrow> one_active P V'"
  by (induction rule: rtranclp_induct) (auto intro: one_active_step)

section \<open>What the statements do to the view\<close>

lemma view_rows [simp]:
  "view (d\<lparr>goals := a\<rparr>) = view d" "view (d\<lparr>evidence := b\<rparr>) = view d" "view (d\<lparr>loop_run_iterations := c\<rparr>) = view d"
  "view (d\<lparr>workflow_runs := e\<rparr>) = view d" "view (d\<lparr>agent_schedules := f\<rparr>) = view d"
  by (simp_all add: view_def)

lemma view_update:
  assumes "\<And>r. LRID (f r) = LRID r" and "\<And>r. LRGoalID (f r) = LRGoalID r" and "\<And>r. LStatus (f r) = LStatus r"
  shows "view (fst (update_loop_run x what nowt d lid f)) = view d"
  using assms by (auto simp: update_loop_run_def exec_update_def view_def Let_def split: exec_outcome.splits)

lemma view_bump [frame]: "view (fst (BumpLoopRunIteration x nowt d lid)) = view d"
  unfolding BumpLoopRunIteration_def by (rule view_update) simp_all

lemma view_streak [frame]: "view (fst (UpdateLoopRunNoProgressStreak x nowt d lid n)) = view d"
  unfolding UpdateLoopRunNoProgressStreak_def by (simp add: view_update)

lemma view_definition [frame]: "view (fst (UpdateLoopRunDefinitionName x nowt d lid n)) = view d"
  unfolding UpdateLoopRunDefinitionName_def by (simp add: view_update)

lemma view_scope [frame]: "view (fst (UpdateWorkflowRunLoopScope x d w lid n)) = view d"
  by (auto simp: UpdateWorkflowRunLoopScope_def split: prod.splits)

lemma view_create_iteration [frame]: "view (fst (CreateLoopRunIteration x f nowt d li)) = view d"
  by (auto simp: CreateLoopRunIteration_def Let_def split: prod.splits option.splits)

lemma view_complete [frame]: "view (fst (CompleteLoopRunIteration x nowt d i w dc p e)) = view d"
  by (auto simp: CompleteLoopRunIteration_def split: prod.splits)

lemma view_goal [frame]: "view (fst (UpdateGoal x d g)) = view d"
  by (auto simp: UpdateGoal_def split: prod.splits)

lemma view_create_goal [frame]: "view (fst (CreateGoal x f d g)) = view d"
  by (auto simp: CreateGoal_def Let_def split: prod.splits option.splits)

lemma view_schedule [frame]: "view (fst (scheduleLoopRunTick W d lid a)) = view d"
  by (auto simp: scheduleLoopRunTick_def InsertAgentSchedule_def split: prod.splits option.splits exec_outcome.splits)

lemma view_status:
  "view (fst (UpdateLoopRunStatus x nowt d lid st c)) \<in> {view d, set_status lid st (view d)}"
  by (auto simp: UpdateLoopRunStatus_def update_loop_run_def exec_update_def view_def set_status_def Let_def
      split: exec_outcome.splits)

text \<open>A store call that keeps the view, then the rest.\<close>

lemma call_cases:
  assumes "call s r what k = out"
  obtains (failed) d e where "r = (d, Some e)" "out = (s\<lparr>db := d\<rparr>, Inl (Wrapf what e))"
    | (ok) d where "r = (d, None)" "out = k (s\<lparr>db := d\<rparr>)"
  using assms by (auto simp: call_def split: prod.splits option.splits)

lemma view_pair: "view (fst p) = v \<Longrightarrow> p = (d, e) \<Longrightarrow> view d = v"
  by simp

lemmas viewD = view_bump [THEN view_pair] view_streak [THEN view_pair] view_definition [THEN view_pair]
  view_scope [THEN view_pair] view_create_iteration [THEN view_pair] view_complete [THEN view_pair]
  view_goal [THEN view_pair] view_create_goal [THEN view_pair] view_schedule [THEN view_pair]

lemma view_statusD:
  "UpdateLoopRunStatus x nowt d lid st c = (d', e) \<Longrightarrow> view d' = view d \<or> view d' = set_status lid st (view d)"
  using view_status [of x nowt d lid st c] by auto

lemma view_notify [simp]: "db (notifyOuterOnTerminal E s lid st) = db s"
  by (simp add: notifyOuterOnTerminal_def)

section \<open>The engine refines the machine\<close>

text \<open>
  What other parties do while a workflow runs, or between the check and the insertion of a
  start: steps of the machine. They do not disturb a run if they leave its row alone and start
  nothing on its goal while that has no active run.
\<close>

definition others :: "string set \<Rightarrow> world \<Rightarrow> bool" where
  "others P W \<longleftrightarrow> (\<forall>d. (lifecycle P)\<^sup>*\<^sup>* (view d) (view (meanwhile W d)))"

definition idle :: "string \<Rightarrow> run_view \<Rightarrow> bool" where
  "idle g V \<longleftrightarrow> (\<forall>(i, g', s)\<in>set V. g' = g \<longrightarrow> \<not> active s)"

definition goals_of :: "string \<Rightarrow> run_view \<Rightarrow> string set" where
  "goals_of lid V = {g. \<exists>s. (lid, g, s) \<in> set V}"

definition undisturbed :: "string \<Rightarrow> string set \<Rightarrow> world \<Rightarrow> bool" where
  "undisturbed lid G W \<longleftrightarrow> (\<forall>d. (\<forall>g s. (lid, g, s) \<in> set (view d) \<longrightarrow> (lid, g, s) \<in> set (view (meanwhile W d)))
     \<and> (\<forall>g\<in>G. idle g (view d) \<longrightarrow> idle g (view (meanwhile W d))))"

definition polite :: "string set \<Rightarrow> string \<Rightarrow> string set \<Rightarrow> world \<Rightarrow> bool" where
  "polite P lid G W \<longleftrightarrow> others P W \<and> (lid \<in> P \<or> undisturbed lid G W)"

definition movable :: "string set \<Rightarrow> string \<Rightarrow> run_view \<Rightarrow> bool" where
  "movable P lid V \<longleftrightarrow> lid \<in> P \<or> alive lid V"

lemma polite_movable: "polite P lid G W \<Longrightarrow> movable P lid (view d) \<Longrightarrow> movable P lid (view (meanwhile W d))"
  unfolding polite_def undisturbed_def movable_def alive_def by blast

lemma polite_steps: "polite P lid G W \<Longrightarrow> (lifecycle P)\<^sup>*\<^sup>* (view d) (view (meanwhile W d))"
  unfolding polite_def others_def by blast

lemma polite_idle: "polite P lid G W \<Longrightarrow> g \<in> G \<Longrightarrow> idle g (view d) \<Longrightarrow> lid \<in> P \<or> idle g (view (meanwhile W d))"
  unfolding polite_def undisturbed_def by blast

definition moves :: "string \<Rightarrow> run_view \<Rightarrow> run_view \<Rightarrow> bool" where
  "moves lid V V' \<longleftrightarrow> (V' = V \<or>
     (\<exists>st\<in>{''waiting_on_gate'', ''waiting_on_escalation'', ''completed'', ''failed''}. V' = set_status lid st V))"

lemma moves_steps: "moves lid V V' \<Longrightarrow> movable P lid V \<Longrightarrow> (lifecycle P)\<^sup>*\<^sup>* V V'"
  unfolding moves_def movable_def by (auto intro: lifecycle.move)

lemma moves_refl [simp]: "moves lid V V"
  by (simp add: moves_def)

lemma call_status_moves:
  assumes "call s (UpdateLoopRunStatus x nowt (db s) lid st c) what k = (s', out)"
    and "st \<in> {''waiting_on_gate'', ''waiting_on_escalation'', ''completed'', ''failed''}"
    and "\<And>s1 s2 out2. k s1 = (s2, out2) \<Longrightarrow> view (db s2) = view (db s1)"
  shows "moves lid (view (db s)) (view (db s'))"
  using assms(1)
proof (cases rule: call_cases)
  case (failed d e)
  then show ?thesis using view_statusD [OF failed(1)] assms(2) by (auto simp: moves_def)
next
  case (ok d)
  have "view (db s') = view d" using assms(3) [of "s\<lparr>db := d\<rparr>" s' out] ok(2) by simp
  then show ?thesis using view_statusD [OF ok(1)] assms(2) by (auto simp: moves_def)
qed

lemma launch_view:
  assumes "launchIteration W s lr dn cfg n = (s', out)"
  shows "view (db s') = view (db s) \<or> (\<exists>d. view d = view (db s) \<and> view (db s') = view (meanwhile W d))"
    and "out = Inr (lr1, row, res) \<Longrightarrow> lr1 = lr\<lparr>CurrentIteration := CurrentIteration lr + 1\<rparr>"
  using assms
  by (auto simp: launchIteration_def call_def Let_def dest!: viewD
      split: prod.splits option.splits sum.splits if_splits)

lemma act_moves:
  assumes "act_on E W s lr goal n dcn full = (s', out)"
  shows "moves (LRID lr) (view (db s)) (view (db s'))"
    and "out = Inr (GoOn lr2 g h) \<Longrightarrow> view (db s') = view (db s) \<and> lr2 = lr \<and> h = full"
proof -
  show "moves (LRID lr) (view (db s)) (view (db s'))"
  proof (cases "Kind dcn")
    case DecisionRearchitect
    then show ?thesis using assms
      by (auto simp: act_on_def applyRearchitect_def call_def Let_def moves_def dest!: viewD
          split: prod.splits option.splits sum.splits)
  next
    case DecisionWait
    then show ?thesis using assms
      by (auto simp: act_on_def Let_def elim!: call_status_moves dest!: viewD
          split: prod.splits option.splits sum.splits)
  qed (use assms in \<open>auto simp: act_on_def Let_def elim!: call_status_moves\<close>)
  show "view (db s') = view (db s) \<and> lr2 = lr \<and> h = full" if "out = Inr (GoOn lr2 g h)"
    using assms that
    by (auto simp: act_on_def applyRearchitect_def call_def Let_def dest!: viewD
        split: prod.splits option.splits sum.splits DecisionKind.splits)
qed

lemma evaluate_moves:
  assumes "evaluateDecideAndAct E W s lr goal row res policy b prior = (s', out)"
  shows "moves (LRID lr) (view (db s)) (view (db s'))"
    and "out = Inr (GoOn lr2 g h) \<Longrightarrow> view (db s') = view (db s) \<and> LRID lr2 = LRID lr \<and> BudgetJSON lr2 = BudgetJSON lr
      \<and> length h = Suc (length prior)"
proof -
  show "moves (LRID lr) (view (db s)) (view (db s'))"
    using assms
    by (auto simp: evaluateDecideAndAct_def call_def Let_def dest!: act_moves(1) viewD
        split: prod.splits option.splits sum.splits)
  show "view (db s') = view (db s) \<and> LRID lr2 = LRID lr \<and> BudgetJSON lr2 = BudgetJSON lr \<and> length h = Suc (length prior)"
    if "out = Inr (GoOn lr2 g h)"
    using assms that
    by (auto simp: evaluateDecideAndAct_def call_def Let_def dest!: act_moves(2) viewD
        split: prod.splits option.splits sum.splits)
qed

text \<open>The five ways a pass of the loop ends.\<close>

abbreviation bumped :: "loop_run \<Rightarrow> loop_run" where
  "bumped lr \<equiv> lr\<lparr>CurrentIteration := CurrentIteration lr + 1\<rparr>"

fun verdict_of :: "sys \<times> (go_error + act) \<Rightarrow> loop_state + LoopResult eff" where
  "verdict_of (s, Inl e) = Inr (s, Inl e)"
| "verdict_of (s, Inr (Stop r)) = Inr (s, Inr r)"
| "verdict_of (s, Inr (GoOn lr g h)) = Inl (s, lr, g, h)"

lemma iterate_cases:
  assumes "iterate E dn cfg b W (s, lr, goal, h) = out"
  obtains (dead) e where "out = Inr (s, Inl e)"
    | (late) "MaxRuntimeSeconds b > 0" "out = Inr (escalateOnBoundedContextExceeded E W s lr b)"
    | (unlaunched) s1 e where "launchIteration W s lr dn cfg (int (length h) + 1) = (s1, Inl e)" "out = Inr (s1, Inl e)"
    | (paused) s1 row res where "launchIteration W s lr dn cfg (int (length h) + 1) = (s1, Inr (bumped lr, row, res))"
        "out = Inr (call s1 (UpdateLoopRunStatus (db_out W OpStatus) (now_text W) (db s1) (LRID lr) ''waiting_on_gate'' None)
                 ''loop: update loop_run status''
               (\<lambda>s2. (s2, Inr \<lparr>RLoopRunID = LRID lr, RStatus = ''waiting_on_gate'',
                  RCurrentIteration = CurrentIteration lr + 1, LastDecision = None\<rparr>)))"
    | (decided) s1 row res where "launchIteration W s lr dn cfg (int (length h) + 1) = (s1, Inr (bumped lr, row, res))"
        "out = verdict_of (evaluateDecideAndAct E W s1 (bumped lr) goal row res (CContinuationPolicy cfg) b h)"
proof (cases "ctx_err W")
  case (Some e)
  with assms dead show ?thesis by (auto simp: iterate_def)
next
  case None
  show ?thesis
  proof (cases "MaxRuntimeSeconds b > 0 \<and> deadline W")
    case True
    with None assms late show ?thesis by (auto simp: iterate_def)
  next
    case False
    obtain s1 o1 where l: "launchIteration W s lr dn cfg (int (length h) + 1) = (s1, o1)" by fastforce
    show ?thesis
    proof (cases o1)
      case (Inl e)
      with None False l assms unlaunched show ?thesis by (auto simp: iterate_def)
    next
      case (Inr t)
      then obtain row res where o1: "o1 = Inr (bumped lr, row, res)"
        using launch_view(2) [OF l] by (cases t) auto
      show ?thesis
      proof (cases "isPausedRunStatus (WStatus res)")
        case True
        with None False l o1 assms paused [of s1 row res] show ?thesis by (auto simp: iterate_def)
      next
        case np: False
        have "out = verdict_of (evaluateDecideAndAct E W s1 (bumped lr) goal row res (CContinuationPolicy cfg) b h)"
          using None False l o1 np assms
          by (auto simp: iterate_def split: prod.splits sum.splits act.splits)
        with l o1 decided show ?thesis by blast
      qed
    qed
  qed
qed

lemma launch_steps:
  assumes "launchIteration W s lr dn cfg n = (s', out)" and "polite P (LRID lr) G W" and "movable P (LRID lr) (view (db s))"
  shows "(lifecycle P)\<^sup>*\<^sup>* (view (db s)) (view (db s')) \<and> movable P (LRID lr) (view (db s'))"
  using launch_view(1) [OF assms(1)] polite_movable [OF assms(2)] polite_steps [OF assms(2)] assms(3) by auto metis+

lemma escalate_moves:
  "escalateOnBoundedContextExceeded E W s lr b = (s', out) \<Longrightarrow> moves (LRID lr) (view (db s)) (view (db s'))"
  by (auto simp: escalateOnBoundedContextExceeded_def Let_def elim!: call_status_moves split: if_splits)

lemma verdict_Inr: "verdict_of x = Inr (s', out) \<Longrightarrow> fst x = s'"
  by (cases x rule: verdict_of.cases) auto

lemma verdict_Inl: "verdict_of x = Inl (s', lr, g, h) \<Longrightarrow> x = (s', Inr (GoOn lr g h))"
  by (cases x rule: verdict_of.cases) auto

lemma iterate_steps:
  assumes p: "polite P (LRID lr) G W" and a: "movable P (LRID lr) (view (db s))"
  shows "iterate E dn cfg b W (s, lr, goal, h) = Inr (s', out) \<Longrightarrow> (lifecycle P)\<^sup>*\<^sup>* (view (db s)) (view (db s'))"
proof (erule iterate_cases, goal_cases)
  case 1 then show ?case by simp
next
  case 2
  then show ?case using escalate_moves [of E W s lr b s' out] moves_steps [OF _ a] by simp
next
  case (3 s1 e)
  then show ?case using launch_steps [OF 3(1) p a] by simp
next
  case (4 s1 row res)
  have "moves (LRID lr) (view (db s1)) (view (db s'))" using 4(2) by (auto elim!: call_status_moves [OF sym])
  then show ?case using launch_steps [OF 4(1) p a] moves_steps by (metis rtranclp_trans)
next
  case (5 s1 row res)
  have "moves (LRID (bumped lr)) (view (db s1)) (view (db s'))"
    using 5(2) verdict_Inr evaluate_moves(1) by (metis prod.collapse)
  then have "moves (LRID lr) (view (db s1)) (view (db s'))" by simp
  then show ?case using launch_steps [OF 5(1) p a] moves_steps by (metis rtranclp_trans)
qed

lemma iterate_goes_on:
  assumes "iterate E dn cfg b W (s, lr, goal, h) = Inl (s2, lr2, g2, h2)"
  shows "LRID lr2 = LRID lr \<and> BudgetJSON lr2 = BudgetJSON lr \<and> length h2 = Suc (length h)"
    and "polite P (LRID lr) G W \<Longrightarrow> movable P (LRID lr) (view (db s)) \<Longrightarrow>
      (lifecycle P)\<^sup>*\<^sup>* (view (db s)) (view (db s2)) \<and> movable P (LRID lr) (view (db s2))"
  using assms
proof (atomize (full), cases rule: iterate_cases)
  case (decided s1 row res)
  have ev: "evaluateDecideAndAct E W s1 (bumped lr) goal row res (CContinuationPolicy cfg) b h = (s2, Inr (GoOn lr2 g2 h2))"
    using verdict_Inl [OF decided(2) [symmetric]] .
  have "view (db s2) = view (db s1)" "LRID lr2 = LRID lr" "BudgetJSON lr2 = BudgetJSON lr" "length h2 = Suc (length h)"
    using evaluate_moves(2) [OF ev refl] by auto
  then show "(LRID lr2 = LRID lr \<and> BudgetJSON lr2 = BudgetJSON lr \<and> length h2 = Suc (length h)) \<and>
    (polite P (LRID lr) G W \<longrightarrow> movable P (LRID lr) (view (db s)) \<longrightarrow>
      (lifecycle P)\<^sup>*\<^sup>* (view (db s)) (view (db s2)) \<and> movable P (LRID lr) (view (db s2)))"
    using launch_steps [OF decided(1)] by auto
qed auto

lemma drive_steps:
  assumes "drive (iterate E dn cfg b) Ws (s, lr, goal, h) = Some (s', out)"
    and "\<forall>W\<in>set Ws. polite P (LRID lr) G W" and "movable P (LRID lr) (view (db s))"
  shows "(lifecycle P)\<^sup>*\<^sup>* (view (db s)) (view (db s'))"
  using assms
proof (induction Ws arbitrary: s lr goal h)
  case (Cons W Ws)
  show ?case
  proof (cases "iterate E dn cfg b W (s, lr, goal, h)")
    case (Inl t)
    then obtain s2 lr2 g2 h2 where t: "iterate E dn cfg b W (s, lr, goal, h) = Inl (s2, lr2, g2, h2)" by (cases t) auto
    have "(lifecycle P)\<^sup>*\<^sup>* (view (db s)) (view (db s2))" "movable P (LRID lr2) (view (db s2))" "LRID lr2 = LRID lr"
      using iterate_goes_on [OF t] Cons.prems by auto
    moreover have "(lifecycle P)\<^sup>*\<^sup>* (view (db s2)) (view (db s'))"
      using Cons.IH [of s2 lr2 g2 h2] Cons.prems(1,2) t calculation by simp
    ultimately show ?thesis by auto
  next
    case (Inr r)
    then show ?thesis using Cons.prems iterate_steps [of P lr G W s E dn cfg b goal h s' out] by auto
  qed
qed simp

lemma driveIterations_steps:
  assumes "driveIterations E Ws s lr goal dn cfg h = Some (s', out)"
    and "\<forall>W\<in>set Ws. polite P (LRID lr) G W" and "movable P (LRID lr) (view (db s))"
  shows "(lifecycle P)\<^sup>*\<^sup>* (view (db s)) (view (db s'))"
  using assms drive_steps by (auto simp: driveIterations_def split: sum.splits)

lemma resume_blocked_steps:
  assumes "resumeBlockedIteration E W Ws s lr goal cfg h = Some (s', out)"
    and p: "\<forall>W'\<in>set (W # Ws). polite P (LRID lr) G W'" and a: "movable P (LRID lr) (view (db s))"
  shows "(lifecycle P)\<^sup>*\<^sup>* (view (db s)) (view (db s'))"
proof -
  let ?s1 = "s\<lparr>db := meanwhile W (db s), events := events s @ [ResumedRun (WorkflowRunID (last h))]\<rparr>"
  have s1: "(lifecycle P)\<^sup>*\<^sup>* (view (db s)) (view (db ?s1))" "movable P (LRID lr) (view (db ?s1))"
    using p a polite_steps polite_movable by auto
  have ev: "(lifecycle P)\<^sup>*\<^sup>* (view (db s)) (view (db s2))"
    if "evaluateDecideAndAct E W ?s1 lr goal row res pol b prior = (s2, o2)" for row res pol b prior s2 o2
    using evaluate_moves(1) [OF that] s1 moves_steps by (metis rtranclp_trans)
  have on: "(lifecycle P)\<^sup>*\<^sup>* (view (db s)) (view (db s'))"
    if "evaluateDecideAndAct E W ?s1 lr goal row res pol b prior = (s2, Inr (GoOn lr2 g2 h2))"
      "driveIterations E Ws s2 lr2 g2 dn cfg h2 = Some (s', out)" for row res pol b prior s2 lr2 g2 h2 dn
  proof -
    have "view (db s2) = view (db ?s1)" "LRID lr2 = LRID lr" using evaluate_moves(2) [OF that(1) refl] by auto
    then show ?thesis using driveIterations_steps [OF that(2)] p s1 by (auto intro: rtranclp_trans)
  qed
  show ?thesis
    using assms(1) s1(1) unfolding resumeBlockedIteration_def
    by (auto simp: Let_def split: if_splits sum.splits prod.splits act.splits dest: ev on)
qed

section \<open>Calls\<close>

lemma getLoopRun_view: "GetLoopRun x d lid = Inr lr \<Longrightarrow> (lid, LRGoalID lr, LStatus lr) \<in> set (view d) \<and> LRID lr = lid"
  by (auto simp: GetLoopRun_def view_def image_iff find_Some_iff split: exec_outcome.splits option.splits)

lemma getLoopRun_movable: "GetLoopRun x d lid = Inr lr \<Longrightarrow> active (LStatus lr) \<Longrightarrow> movable P lid (view d)"
  using getLoopRun_view unfolding movable_def alive_def by blast

lemma movable_new [simp]: "movable P lid (V @ [(lid, g, ''running'')])"
  unfolding movable_def alive_def by (metis active_simps(1) in_set_conv_decomp)

lemma cancel_step [intro]: "(lifecycle P)\<^sup>*\<^sup>* V (set_status lid ''canceled'' V)"
  by (rule r_into_rtranclp) (rule lifecycle.cancel)

lemma resolve_view: "resolveGoal E W s input = (s1, out) \<Longrightarrow> view (db s1) = view (db s)"
  by (auto simp: resolveGoal_def Let_def dest!: viewD split: if_splits sum.splits option.splits prod.splits)

lemma create_run_view:
  assumes "CreateLoopRun x f nowt d lr = (d', out)" and "LStatus lr = []"
  shows "out = Inr lr2 \<Longrightarrow> LRID lr2 = (if LRID lr = [] then f else LRID lr) \<and> LRID lr2 \<notin> fst ` set (view d)
      \<and> view d' = view d @ [(LRID lr2, LRGoalID lr, ''running'')] \<and> BudgetJSON lr2 = BudgetJSON lr"
  using assms
  by (auto simp: CreateLoopRun_def exec_insert_def view_def image_iff Let_def
      split: if_splits exec_outcome.splits prod.splits option.splits)

lemma create_run_failed: "CreateLoopRun x f nowt d lr = (d', Inl e) \<Longrightarrow> view d' = view d"
  by (auto simp: CreateLoopRun_def exec_insert_def Let_def view_def
      split: if_splits exec_outcome.splits prod.splits option.splits)

definition run_id :: "LoopEngine \<Rightarrow> world \<Rightarrow> LoopInput \<Rightarrow> string" where
  "run_id E W input = (let k = (if IdempotencyKey input \<noteq> [] then deterministicLoopIdentity E (IdempotencyKey input) else [])
     in if k = [] then fresh W else k)"

lemma start_run_steps:
  assumes "start_run E W s workflow k input = (s1, out)"
  shows "out = Inl e \<Longrightarrow> view (db s1) = view (db s) \<or> (\<exists>d. view d = view (db s) \<and> view (db s1) = view (meanwhile W d))"
    and "out = Inr (lr, goal, cfg) \<Longrightarrow> LRID lr = (if k = [] then fresh W else k)
      \<and> (\<exists>d. view d = view (db s) \<and> idle (GID goal) (view d) \<and> LRID lr \<notin> fst ` set (view (meanwhile W d))
          \<and> view (db s1) = view (meanwhile W d) @ [(LRID lr, GID goal, ''running'')])"
proof -
  obtain s0 o0 where g: "resolveGoal E W s input = (s0, o0)" by fastforce
  note v0 = resolve_view [OF g]
  show "view (db s1) = view (db s) \<or> (\<exists>d. view d = view (db s) \<and> view (db s1) = view (meanwhile W d))" if "out = Inl e"
    using assms that g v0 unfolding start_run_def
    by (auto simp: SetBudget_def Let_def dest!: create_run_failed split: sum.splits list.splits prod.splits if_splits)
  assume "out = Inr (lr, goal, cfg)"
  then obtain d lr1 where l: "ListLoopRuns (db_out W OpListRuns) (db s0) (GID goal) LoopRunActiveStatuses = Inr []"
    and c: "CreateLoopRun (db_out W OpCreateRun) (fresh W) (now_text W) (meanwhile W (db s0)) lr1 = (d, Inr lr)"
    and lr1: "LStatus lr1 = []" "LRID lr1 = k" "LRGoalID lr1 = GID goal" and s1: "s1 = s0\<lparr>db := d\<rparr>"
    using assms g unfolding start_run_def
    by (auto simp: SetBudget_def Let_def split: sum.splits list.splits prod.splits if_splits)
  have free: "idle (GID goal) (view (db s0))"
    using l by (auto simp: idle_def ListLoopRuns_def view_def active_def LoopRunActiveStatuses_def filter_empty_conv
      split: exec_outcome.splits)
  have new: "LRID lr = (if k = [] then fresh W else k)" "LRID lr \<notin> fst ` set (view (meanwhile W (db s0)))"
    using create_run_view [OF c lr1(1) refl] unfolding lr1(2) by blast+
  have grown: "view (db s1) = view (meanwhile W (db s0)) @ [(LRID lr, GID goal, ''running'')]"
    using create_run_view [OF c lr1(1) refl] lr1 s1 by simp
  show "LRID lr = (if k = [] then fresh W else k)
      \<and> (\<exists>d. view d = view (db s) \<and> idle (GID goal) (view d) \<and> LRID lr \<notin> fst ` set (view (meanwhile W d))
          \<and> view (db s1) = view (meanwhile W d) @ [(LRID lr, GID goal, ''running'')])"
    using new free grown v0 by blast
qed

lemma start_polite:
  assumes "polite P lid G W" "g \<in> G" "view d = V" "idle g V" "lid \<notin> fst ` set (view (meanwhile W d))"
  shows "(lifecycle P)\<^sup>*\<^sup>* V (view (meanwhile W d) @ [(lid, g, ''running'')])"
proof -
  have "lid \<in> P \<or> idle g (view (meanwhile W d))" using polite_idle [OF assms(1,2)] assms(3,4) by blast
  then have "lifecycle P (view (meanwhile W d)) (view (meanwhile W d) @ [(lid, g, ''running'')])"
    using lifecycle.start [OF assms(5), of P g] by (auto simp: idle_def)
  then show ?thesis using polite_steps [OF assms(1), of d] assms(3) by (auto intro: rtranclp.rtrancl_into_rtrancl)
qed

lemma run_steps:
  assumes "Run E W Ws s workflow input = Some (s', out)"
    and p: "\<forall>W'\<in>set (W # Ws). polite P (run_id E W input) G W'" and G: "goals_of (run_id E W input) (view (db s')) \<subseteq> G"
  shows "(lifecycle P)\<^sup>*\<^sup>* (view (db s)) (view (db s'))"
proof -
  let ?k = "if IdempotencyKey input \<noteq> [] then deterministicLoopIdentity E (IdempotencyKey input) else []"
  obtain s1 o1 where st: "start_run E W s workflow ?k input = (s1, o1)" by fastforce
  consider "view (db s') = view (db s)" | d where "view d = view (db s)" "view (db s') = view (meanwhile W d)"
    | lr goal cfg where "o1 = Inr (lr, goal, cfg)" "driveIterations E Ws s1 lr goal workflow cfg [] = Some (s', out)"
    using assms(1) st start_run_steps(1) [OF st] unfolding Run_def
    by (auto simp: Let_def split: if_splits option.splits sum.splits prod.splits)
  then show ?thesis
  proof cases
    case (2 d)
    then show ?thesis using polite_steps [of P "run_id E W input" G W d] p by simp
  next
    case (3 lr goal cfg)
    obtain d where lid: "LRID lr = run_id E W input" and d: "view d = view (db s)" "idle (GID goal) (view d)"
      "LRID lr \<notin> fst ` set (view (meanwhile W d))" "view (db s1) = view (meanwhile W d) @ [(LRID lr, GID goal, ''running'')]"
      using start_run_steps(2) [OF st 3(1)] by (auto simp: run_id_def Let_def)
    have on: "(lifecycle P)\<^sup>*\<^sup>* (view (db s1)) (view (db s'))"
      using driveIterations_steps [OF 3(2)] p lid d(4) by auto
    then obtain st where "(LRID lr, GID goal, st) \<in> set (view (db s'))" using run_persists [OF on] d(4) by fastforce
    then have "GID goal \<in> G" using G lid by (auto simp: goals_of_def)
    then have "(lifecycle P)\<^sup>*\<^sup>* (view (db s)) (view (db s1))" using start_polite [of P "LRID lr" G W] p lid d by auto
    then show ?thesis using on by auto
  qed simp
qed

lemma resume_steps:
  assumes "Resume E W Ws s lid = Some (s', out)" and "\<forall>W'\<in>set (W # Ws). polite P lid G W'"
  shows "(lifecycle P)\<^sup>*\<^sup>* (view (db s)) (view (db s'))"
proof -
  consider "view (db s') = view (db s)"
    | lr goal cfg h where "GetLoopRun (db_out W OpGetRun) (db s) lid = Inr lr" "active (LStatus lr)"
        "resumeBlockedIteration E W Ws s lr goal cfg h = Some (s', out) \<or>
         driveIterations E Ws s lr goal (DefinitionName lr) cfg h = Some (s', out)"
    using assms(1) unfolding Resume_def
    by (auto simp: Let_def split: if_splits option.splits sum.splits) (metis active_simps(2,3))+
  then show ?thesis
  proof cases
    case (2 lr goal cfg h)
    have "LRID lr = lid" "movable P (LRID lr) (view (db s))" using getLoopRun_view [OF 2(1)] getLoopRun_movable [OF 2(1,2)] by auto
    then show ?thesis using 2(3) resume_blocked_steps [of E W Ws s lr goal cfg h s' out P G]
      driveIterations_steps [of E Ws s lr goal "DefinitionName lr" cfg h s' out P G] assms(2) by auto
  qed simp
qed

lemma cancel_steps: "Cancel_loop L W s lid = (s', out) \<Longrightarrow> (lifecycle P)\<^sup>*\<^sup>* (view (db s)) (view (db s'))"
  by (auto simp: Cancel_loop_def call_def dest!: view_statusD
      split: option.splits if_splits prod.splits)

lemma replan_view: "applyReplan W s lr rp = (s', out) \<Longrightarrow> view (db s') = view (db s)"
  by (auto simp: applyReplan_def applyRearchitect_def call_def Let_def dest!: viewD
      split: if_splits prod.splits option.splits sum.splits)

lemma launch_registry_view: "resolvePresetDefaults W s rq = (s', out) \<Longrightarrow> db s' = db s"
  by (auto simp: resolvePresetDefaults_def Let_def split: option.splits if_splits)

text \<open>The calls of the launcher and the engine, with the run each is about.\<close>

datatype loop_call = CallRun string LoopInput | CallLaunch LoopLaunchRequest | CallResume string
  | CallCancel string | CallResolve string "EscalationOverride option"

fun perform :: "LoopLauncher \<Rightarrow> world \<Rightarrow> world list \<Rightarrow> sys \<Rightarrow> loop_call \<Rightarrow> sys option" where
  "perform L W Ws s (CallRun name input) =
     (case l_engine L of None \<Rightarrow> Some s | Some E \<Rightarrow> map_option fst (Run E W Ws s name input))"
| "perform L W Ws s (CallLaunch rq) = map_option fst (Launch L W Ws s rq)"
| "perform L W Ws s (CallResume lid) =
     (case l_engine L of None \<Rightarrow> Some s | Some E \<Rightarrow> map_option fst (Resume E W Ws s lid))"
| "perform L W Ws s (CallCancel lid) = Some (fst (Cancel_loop L W s lid))"
| "perform L W Ws s (CallResolve lid ov) = map_option fst (ResolveEscalation L W Ws s lid ov)"

fun subject :: "LoopLauncher \<Rightarrow> world \<Rightarrow> loop_call \<Rightarrow> string" where
  "subject L W (CallRun name input) = (case l_engine L of None \<Rightarrow> [] | Some E \<Rightarrow> run_id E W input)"
| "subject L W (CallLaunch rq) = fresh W"
| "subject L W (CallResume lid) = lid"
| "subject L W (CallCancel lid) = lid"
| "subject L W (CallResolve lid ov) = lid"

lemma launch_call_steps:
  assumes "Launch L W Ws s rq = Some (s', out)" and p: "\<forall>W'\<in>set (W # Ws). polite P (fresh W) G W'"
    and G: "goals_of (fresh W) (view (db s')) \<subseteq> G"
  shows "(lifecycle P)\<^sup>*\<^sup>* (view (db s)) (view (db s'))"
proof -
  obtain s1 o1 where r: "resolvePresetDefaults W s rq = (s1, o1)" by fastforce
  note v = launch_registry_view [OF r]
  have run: "(lifecycle P)\<^sup>*\<^sup>* (view (db s1)) (view (db s'))"
    if "Run E W Ws s1 name input = Some (s', out)" "IdempotencyKey input = []" for E name input
    using run_steps [OF that(1)] p G that(2) by (simp add: run_id_def)
  show ?thesis
  proof (cases o1)
    case (Inl e)
    then show ?thesis using assms(1) r v unfolding Launch_def by (auto split: option.splits if_splits)
  next
    case (Inr t)
    then show ?thesis using assms(1) r run unfolding Launch_def v [symmetric]
      by (auto split: option.splits if_splits prod.splits) (use v in auto)
  qed
qed

lemma resolve_call_steps:
  assumes "ResolveEscalation L W Ws s lid ov = Some (s', out)" and p: "\<forall>W'\<in>set (W # Ws). polite P lid G W'"
  shows "(lifecycle P)\<^sup>*\<^sup>* (view (db s)) (view (db s'))"
proof -
  have waiting: "movable P lid (view (db s))"
    if "GetLoopRun (db_out W OpGetRun) (db s) lid = Inr lr" "LStatus lr = ''waiting_on_escalation''" for lr
    using getLoopRun_movable that by fastforce
  have forced: "(lifecycle P)\<^sup>*\<^sup>* (view (db s)) (view (db s'))"
    if "call s (UpdateLoopRunStatus x n (db s) lid ''completed'' c) what
         (\<lambda>s1. (notifyOuterOnTerminal E s1 lid ''completed'', Inr r)) = (s', out)" "movable P lid (view (db s))" for x n c what E r
    using call_status_moves [OF that(1)] moves_steps [OF _ that(2)] by auto
  have cancelled: "(lifecycle P)\<^sup>*\<^sup>* (view (db s)) (view (db s'))"
    if "(case Cancel_loop L W s lid of (s1, Inl e) \<Rightarrow> Some (s1, Inl e) | (s1, Inr _) \<Rightarrow> Some (s1, Inr r)) = Some (s', out)" for r
    using that cancel_steps [of L W s lid] by (auto split: prod.splits sum.splits)
  have replanned: "(lifecycle P)\<^sup>*\<^sup>* (view (db s)) (view (db s'))"
    if "(case applyReplan W s lr rp of (s1, Inl e) \<Rightarrow> Some (s1, Inl (Wrapf what e)) | (s1, Inr _) \<Rightarrow> Resume E W Ws s1 lid)
      = Some (s', out)" for lr rp what E
    using that replan_view [of W s lr rp] resume_steps [of E W Ws _ lid s' out] p
    by (auto split: prod.splits sum.splits) metis+
  show ?thesis
    using assms(1) resume_steps [OF _ p] forced cancelled replanned waiting unfolding ResolveEscalation_def
    by (auto simp: Let_def split: option.splits if_splits sum.splits)
qed

lemma perform_steps:
  assumes "perform L W Ws s c = Some s'" and "\<forall>W'\<in>set (W # Ws). polite P (subject L W c) G W'"
    and "goals_of (subject L W c) (view (db s')) \<subseteq> G"
  shows "(lifecycle P)\<^sup>*\<^sup>* (view (db s)) (view (db s'))"
proof (cases c)
  case (CallRun name input)
  then show ?thesis using assms run_steps by (auto split: option.splits)
next
  case (CallLaunch rq)
  then show ?thesis using assms launch_call_steps by auto
next
  case (CallResume lid)
  then show ?thesis using assms resume_steps by (auto split: option.splits)
next
  case (CallCancel lid)
  then show ?thesis using assms(1) cancel_steps by (metis option.inject perform.simps(4) prod.collapse)
next
  case (CallResolve lid ov)
  then show ?thesis using assms resolve_call_steps by auto
qed

lemma perform_disturbed:
  assumes "perform L W Ws s c = Some s'" and o: "\<forall>W'\<in>set (W # Ws). others P W'"
  shows "(lifecycle (insert (subject L W c) P))\<^sup>*\<^sup>* (view (db s)) (view (db s'))"
proof (rule perform_steps [OF assms(1) _ subset_refl], intro ballI)
  fix W' assume "W' \<in> set (W # Ws)"
  then show "polite (insert (subject L W c) P) (subject L W c) (goals_of (subject L W c) (view (db s'))) W'"
    using o lifecycle_run_mono [OF _ subset_insertI] unfolding polite_def others_def by blast
qed

lemma perform_undisturbed:
  assumes "perform L W Ws s c = Some s'" and "\<forall>W'\<in>set (W # Ws). others P W'"
    and "\<forall>W'\<in>set (W # Ws). undisturbed (subject L W c) (goals_of (subject L W c) (view (db s'))) W'"
  shows "(lifecycle P)\<^sup>*\<^sup>* (view (db s)) (view (db s'))"
  by (rule perform_steps [OF assms(1) _ subset_refl]) (use assms(2,3) in \<open>auto simp: polite_def\<close>)

section \<open>The bound on the iterations\<close>

lemma evaluate_goes_on:
  assumes "evaluateDecideAndAct E W s lr goal row res policy b prior = (s2, Inr (GoOn lr2 g h))"
  shows "\<exists>met ev this d. Decide (step_tools W) goal met ev (prior @ [this]) b policy = Inr d
    \<and> Kind d \<in> {DecisionContinue, DecisionRetry, DecisionReplan, DecisionRearchitect}"
  using assms
  by (fastforce simp: evaluateDecideAndAct_def act_on_def call_def Let_def
      split: prod.splits sum.splits option.splits DecisionKind.splits)

definition passes_left :: "Budget \<Rightarrow> loop_state \<Rightarrow> nat" where
  "passes_left b st = nat (MaxIterations b) - length (snd (snd (snd st)))"

lemma iterate_stops:
  assumes "0 < MaxIterations b" and "passes_left b st \<le> 1"
  shows "\<exists>r. iterate E dn cfg b W st = Inr r"
proof -
  obtain s lr goal h where st: "st = (s, lr, goal, h)" by (cases st) auto
  have "iterate E dn cfg b W st \<noteq> Inl (s2, lr2, g2, h2)" for s2 lr2 g2 h2
  proof
    assume "iterate E dn cfg b W st = Inl (s2, lr2, g2, h2)"
    then have "iterate E dn cfg b W (s, lr, goal, h) = Inl (s2, lr2, g2, h2)" using st by simp
    then show False
    proof (cases rule: iterate_cases)
      case (decided s1 row res)
      obtain met ev this d where d: "Decide (step_tools W) goal met ev (h @ [this]) b (CContinuationPolicy cfg) = Inr d"
        "Kind d \<in> {DecisionContinue, DecisionRetry, DecisionReplan, DecisionRearchitect}"
        using evaluate_goes_on [OF verdict_Inl [OF decided(2) [symmetric]]] by blast
      have "0 < MaxIterations b \<and> MaxIterations b \<le> int (length (h @ [this]))"
        using assms st by (auto simp: passes_left_def)
      then show False using budget_ends_loop [OF d(1)] d(2) by auto
    qed auto
  qed
  then show ?thesis by (cases "iterate E dn cfg b W st") (metis prod_cases4)+
qed

interpretation engine_loop: bounded_loop "iterate E dn cfg b" "passes_left b" "\<lambda>st. 0 < MaxIterations b"
  for E dn cfg b
proof unfold_locales
  fix s s' :: loop_state and W
  assume b: "0 < MaxIterations b" and i: "iterate E dn cfg b W s = Inl s'"
  have "\<not> passes_left b s \<le> 1" using iterate_stops [OF b, of s E dn cfg W] i by auto
  moreover have "length (snd (snd (snd s'))) = Suc (length (snd (snd (snd s))))"
    using iterate_goes_on(1) [of E dn cfg b W "fst s" "fst (snd s)" "fst (snd (snd s))" "snd (snd (snd s))"] i
    by (metis prod.collapse)
  ultimately show "passes_left b s' < passes_left b s" by (simp add: passes_left_def)
qed (use iterate_stops in auto)

fun is_launch :: "event \<Rightarrow> bool" where
  "is_launch (Launched rq) = True"
| "is_launch _ = False"

definition launches :: "sys \<Rightarrow> nat" where
  "launches s = length (filter is_launch (events s))"

lemma launches_db [simp]: "launches (s\<lparr>db := d\<rparr>) = launches s"
  by (simp add: launches_def)

lemma launches_notify [simp]: "launches (notifyOuterOnTerminal E s lid st) = launches s"
  by (simp add: launches_def notifyOuterOnTerminal_def)

lemma launch_launches: "launchIteration W s lr dn cfg n = (s', out) \<Longrightarrow> launches s' \<le> Suc (launches s)"
  by (auto simp: launchIteration_def call_def Let_def launches_def
      split: prod.splits option.splits sum.splits if_splits)

lemma act_launches: "act_on E W s lr goal n dcn full = (s', out) \<Longrightarrow> launches s' = launches s"
  by (auto simp: act_on_def applyRearchitect_def call_def Let_def
      split: prod.splits option.splits sum.splits DecisionKind.splits)

lemma evaluate_launches:
  "evaluateDecideAndAct E W s lr goal row res policy b prior = (s', out) \<Longrightarrow> launches s' = launches s"
  by (auto simp: evaluateDecideAndAct_def call_def Let_def dest!: act_launches
      split: prod.splits option.splits sum.splits)

lemma iterate_launches:
  assumes "iterate E dn cfg b W (s, lr, goal, h) = out"
  shows "out = Inr (s', r) \<Longrightarrow> launches s' \<le> Suc (launches s)"
    and "out = Inl (s', lr', g', h') \<Longrightarrow> launches s' \<le> Suc (launches s)"
proof -
  have "launches (case out of Inr (s', r) \<Rightarrow> s' | Inl (s', _) \<Rightarrow> s') \<le> Suc (launches s)"
    using assms
  proof (cases rule: iterate_cases)
    case late
    then show ?thesis by (auto simp: escalateOnBoundedContextExceeded_def call_def Let_def split: prod.splits option.splits)
  next
    case (paused s1 row res)
    then show ?thesis using launch_launches [OF paused(1)] by (auto simp: call_def split: prod.splits option.splits)
  next
    case (decided s1 row res)
    obtain s2 o2 where ev: "evaluateDecideAndAct E W s1 (bumped lr) goal row res (CContinuationPolicy cfg) b h = (s2, o2)"
      by fastforce
    then show ?thesis using launch_launches [OF decided(1)] evaluate_launches [OF ev] decided(2)
      by (cases "(s2, o2)" rule: verdict_of.cases) auto
  qed (auto dest: launch_launches)
  then show "out = Inr (s', r) \<Longrightarrow> launches s' \<le> Suc (launches s)"
    "out = Inl (s', lr', g', h') \<Longrightarrow> launches s' \<le> Suc (launches s)" by auto
qed

lemma drive_launches:
  assumes "0 < MaxIterations b"
  shows "drive (iterate E dn cfg b) Ws st = Some (s', out) \<Longrightarrow>
    launches s' \<le> launches (fst st) + max 1 (passes_left b st)"
proof (induction Ws arbitrary: st)
  case (Cons W Ws)
  obtain s lr goal h where st: "st = (s, lr, goal, h)" by (cases st) auto
  show ?case
  proof (cases "iterate E dn cfg b W st")
    case (Inl t)
    then obtain s2 lr2 g2 h2 where t: "iterate E dn cfg b W (s, lr, goal, h) = Inl (s2, lr2, g2, h2)"
      using st by (cases t) auto
    have "\<not> passes_left b st \<le> 1" using iterate_stops [OF assms, of st E dn cfg W] st t by auto
    then have "2 \<le> passes_left b st" by linarith
    moreover have "passes_left b (s2, lr2, g2, h2) = passes_left b st - 1"
      using iterate_goes_on(1) [OF t] st by (simp add: passes_left_def)
    moreover have "launches s' \<le> launches s2 + max 1 (passes_left b (s2, lr2, g2, h2))"
      using Cons.IH [of "(s2, lr2, g2, h2)"] Cons.prems st t by simp
    ultimately show ?thesis using iterate_launches(2) [OF t refl] st by auto
  next
    case (Inr r)
    then show ?thesis using Cons.prems iterate_launches(1) [of E dn cfg b W s lr goal h "Inr r"] st by auto
  qed
qed simp

lemma start_run_budget:
  assumes "start_run E W s workflow k input = (s1, Inr (lr, goal, cfg))"
  shows "\<exists>b. BudgetJSON lr = Inr b \<and> MaxIterations b = MaxIterations (InBudget input)"
  using assms create_run_view unfolding start_run_def
  by (auto simp: SetBudget_def Let_def split: sum.splits list.splits prod.splits if_splits dest!: create_run_view)

lemma start_run_launches: "start_run E W s workflow k input = (s1, out) \<Longrightarrow> launches s1 = launches s"
  by (auto simp: start_run_def resolveGoal_def SetBudget_def Let_def
      split: sum.splits list.splits prod.splits if_splits option.splits)

lemma run_returns:
  assumes m: "0 < MaxIterations (InBudget input)" and l: "MaxIterations (InBudget input) \<le> int (length Ws)"
  shows "\<exists>s' out. Run E W Ws s workflow input = Some (s', out)
    \<and> launches s' \<le> launches s + nat (MaxIterations (InBudget input))"
proof -
  have driven: "\<exists>s' out. driveIterations E Ws s1 lr goal workflow cfg [] = Some (s', out)
      \<and> launches s' \<le> launches s + nat (MaxIterations (InBudget input))"
    if st: "start_run E W s workflow k input = (s1, Inr (lr, goal, cfg))" for k s1 lr goal cfg
  proof -
    obtain b where b: "BudgetJSON lr = Inr b" "MaxIterations b = MaxIterations (InBudget input)"
      using start_run_budget [OF st] by blast
    have p: "passes_left b (s1, lr, goal, []) = nat (MaxIterations b)" by (simp add: passes_left_def)
    have "\<exists>r. drive (iterate E workflow cfg b) Ws (s1, lr, goal, []) = Some r"
      by (rule engine_loop.returns) (use m l b p in auto)
    then obtain s' out where d: "drive (iterate E workflow cfg b) Ws (s1, lr, goal, []) = Some (s', out)" by auto
    moreover have "launches s' \<le> launches s + nat (MaxIterations (InBudget input))"
      using drive_launches [OF _ d] start_run_launches [OF st] m b p by auto
    ultimately show ?thesis using b(1) by (auto simp: driveIterations_def)
  qed
  show ?thesis unfolding Run_def using driven start_run_launches
    by (fastforce simp: Let_def split: option.splits sum.splits prod.splits)
qed

section \<open>Properties\<close>

text \<open>
  C16. The engine and its launcher implement the lifecycle machine. Suppose that other parties,
  while a workflow of the call runs or between its check for an active run and its insertion,
  move the table by steps of the machine with exceptions \<open>P\<close>; they may cancel the run of this
  call and start others. Then, whatever the database, the workflows, the model and the clock
  answer, a call that returns has moved the table by steps of the machine with at most one
  exception more, its own run: it has started a run on a goal that had no active one, moved an
  active run, or canceled a run, and only its own run may have been moved after another party
  canceled it, or started beside another party's. If nobody disturbed that run, there is no
  exception more.
\<close>

theorem calls_refine_lifecycle:
  assumes "perform L W Ws s c = Some s'" and "\<forall>W'\<in>set (W # Ws). others P W'"
  shows "(lifecycle (insert (subject L W c) P))\<^sup>*\<^sup>* (view (db s)) (view (db s'))
    \<and> ((\<forall>W'\<in>set (W # Ws). undisturbed (subject L W c) (goals_of (subject L W c) (view (db s'))) W') \<longrightarrow>
         (lifecycle P)\<^sup>*\<^sup>* (view (db s)) (view (db s')))"
  using perform_disturbed [OF assms] perform_undisturbed [OF assms] by blast

text \<open>
  The states that calls reach from an empty table, with the runs that were disturbed on the
  way; the other parties' own calls may have been disturbed, too.
\<close>

inductive loop_reach :: "LoopLauncher \<Rightarrow> string set \<Rightarrow> sys \<Rightarrow> bool" for L where
  init: "loop_runs (db s) = [] \<Longrightarrow> loop_reach L {} s"
| quiet: "loop_reach L P s \<Longrightarrow> P \<subseteq> Q \<Longrightarrow> perform L W Ws s c = Some s' \<Longrightarrow> \<forall>W'\<in>set (W # Ws). others Q W' \<Longrightarrow>
    \<forall>W'\<in>set (W # Ws). undisturbed (subject L W c) (goals_of (subject L W c) (view (db s'))) W' \<Longrightarrow> loop_reach L Q s'"
| disturbed: "loop_reach L P s \<Longrightarrow> P \<subseteq> Q \<Longrightarrow> perform L W Ws s c = Some s' \<Longrightarrow> \<forall>W'\<in>set (W # Ws). others Q W' \<Longrightarrow>
    loop_reach L (insert (subject L W c) Q) s'"

text \<open>
  C17. From an empty table, a sequence of calls gives a goal two active loop runs only through a
  run that was disturbed: ids are unique, and of two different runs of one goal that are running
  or waiting, one is a run that another party canceled or moved while a call was driving it, or
  whose start overlapped another start on its goal. Without such an interference every goal has
  at most one active run.
\<close>

theorem one_active_per_goal:
  assumes "loop_reach L P s"
  shows "distinct (map LRID (loop_runs (db s))) \<and>
    (\<forall>r r'. r \<in> set (loop_runs (db s)) \<longrightarrow> r' \<in> set (loop_runs (db s)) \<longrightarrow> LRGoalID r = LRGoalID r' \<longrightarrow>
       LStatus r \<in> set LoopRunActiveStatuses \<longrightarrow> LStatus r' \<in> set LoopRunActiveStatuses \<longrightarrow>
       LRID r = LRID r' \<or> LRID r \<in> P \<or> LRID r' \<in> P)"
proof -
  have inv: "one_active P (view (db s))"
    using assms
  proof induction
    case (init s)
    then show ?case by (simp add: one_active_def view_def)
  next
    case (quiet P s Q W Ws c s')
    then show ?case using one_active_run [OF perform_undisturbed one_active_mono] by blast
  next
    case (disturbed P s Q W Ws c s')
    then show ?case using one_active_run [OF perform_disturbed one_active_mono] by blast
  qed
  have row: "(LRID r, LRGoalID r, LStatus r) \<in> set (view (db s))" if "r \<in> set (loop_runs (db s))" for r
    using that by (simp add: view_def)
  have "distinct (map LRID (loop_runs (db s)))" using inv by (simp add: one_active_def view_def o_def)
  moreover have "LRID r = LRID r' \<or> LRID r \<in> P \<or> LRID r' \<in> P"
    if "r \<in> set (loop_runs (db s))" "r' \<in> set (loop_runs (db s))" "LRGoalID r = LRGoalID r'"
      "LStatus r \<in> set LoopRunActiveStatuses" "LStatus r' \<in> set LoopRunActiveStatuses" for r r'
    using one_activeD(1) [OF inv row [OF that(1)], of "LRID r'" "LStatus r'"] row [OF that(2)] that(3-5)
    by (simp add: active_def)
  ultimately show ?thesis by blast
qed

text \<open>
  C18. A loop with an iteration budget ends: \<^verbatim>\<open>Run\<close> returns after at most as many passes as
  the budget allows and has launched at most that many workflow runs, whatever the workflows,
  the model and the database answer.
\<close>

theorem loop_returns:
  assumes "0 < MaxIterations (InBudget input)" and "MaxIterations (InBudget input) \<le> int (length Ws)"
  shows "\<exists>s' out. Run E W Ws s workflow input = Some (s', out)
    \<and> launches s' \<le> launches s + nat (MaxIterations (InBudget input))"
  by (rule run_returns [OF assms])

section \<open>Witnesses\<close>

definition sample_world :: "string \<Rightarrow> world" where
  "sample_world i = \<lparr>ctx_err = None, deadline = False, db_out = (\<lambda>_. ExecOk),
     launch = (\<lambda>rq. Inr (Some \<lparr>InstanceID = [], RunID = ''w'', WorkflowName = QWorkflowName rq,
       WStatus = RunStatusCompleted, StepResults = [], WError = []\<rparr>)),
     resume_run = (\<lambda>r. Inl (Errorf ''no'')), meanwhile = (\<lambda>d. d), step_tools = sample_tools, now_text = ''t'', fresh = i,
     CheckInstanceCreation = (\<lambda>_. None), GetAgentForActor = (\<lambda>_. None), Register = (\<lambda>_. None)\<rparr>"

definition sample_engine :: LoopEngine where
  "sample_engine = \<lparr>store_set = True, registry_set = True, launcher_set = True, outerResume = True,
     uuid_sha1 = (\<lambda>k. k)\<rparr>"

definition sample_launcher :: LoopLauncher where
  "sample_launcher = \<lparr>l_engine = Some sample_engine, l_store = True\<rparr>"

definition sample_input :: LoopInput where
  "sample_input = \<lparr>IdempotencyKey = ''k'', InGoalID = ''g'', InGoal = None,
     InBudget = \<lparr>MaxIterations = 2, MaxFailures = 0, MaxRuntimeSeconds = 0, MaxNoProgressIterations = 0, OnExhausted = []\<rparr>,
     InContinuationPolicy = zero_policy, InWorkflowParams = [], InAgentProfileID = ''a'', InProjectID = [],
     InParentSessionID = [], InTimeoutSeconds = 0\<rparr>"

definition sample_sys :: sys where
  "sample_sys = \<lparr>db = sample_db, events = [], registry = []\<rparr>"

abbreviation sample_worlds :: "world list" where
  "sample_worlds \<equiv> [sample_world ''i1'', sample_world ''i2'']"

lemma sample_quiet [simp]: "others P (sample_world i)" "undisturbed lid G (sample_world i)"
  by (simp_all add: others_def undisturbed_def sample_world_def)

lemma sample_performed:
  "\<exists>s'. perform sample_launcher (sample_world ''l'') sample_worlds sample_sys (CallRun ''wf'' sample_input) = Some s'"
  using run_returns [of sample_input sample_worlds sample_engine "sample_world ''l''" sample_sys "''wf''"]
  by (auto simp: sample_launcher_def sample_input_def)

theorem calls_refine_lifecycle_witness:
  "\<exists>s'. perform sample_launcher (sample_world ''l'') sample_worlds sample_sys (CallRun ''wf'' sample_input) = Some s'
    \<and> (lifecycle {})\<^sup>*\<^sup>* [] (view (db s'))"
proof -
  obtain s' where s': "perform sample_launcher (sample_world ''l'') sample_worlds sample_sys (CallRun ''wf'' sample_input) = Some s'"
    using sample_performed by blast
  have "(lifecycle {})\<^sup>*\<^sup>* (view (db sample_sys)) (view (db s'))" using calls_refine_lifecycle [OF s', of "{}"] by simp
  with s' show ?thesis by (auto simp: sample_sys_def sample_db_def view_def)
qed

text \<open>
  A cancellation in flight, followed by a launch on the same goal: while the first pass of the
  run \<open>k\<close> is under way, an operator cancels \<open>k\<close> and somebody launches \<open>b\<close>, which comes to wait for
  an escalation. Then \<open>k\<close> goes on and comes to wait for an escalation, too: the goal has two
  active runs.
\<close>

definition cancel_and_launch :: "loop_db \<Rightarrow> loop_db" where
  "cancel_and_launch d = (
     let s1 = fst (Cancel_loop sample_launcher (sample_world ''x'') (sample_sys\<lparr>db := d\<rparr>) ''nanite-workflow-loop:k'')
     in case perform sample_launcher (sample_world ''b'') [sample_world ''j1'', sample_world ''j2''] s1
          (CallRun ''wf'' (sample_input\<lparr>IdempotencyKey := ''b''\<rparr>)) of Some s2 \<Rightarrow> db s2 | None \<Rightarrow> db s1)"

definition sample_meddled :: "world list" where
  "sample_meddled = [(sample_world ''i1'')\<lparr>meanwhile := cancel_and_launch\<rparr>, sample_world ''i2'']"

lemma meddled_others: "\<forall>W'\<in>set (sample_world ''l'' # sample_meddled). others {} W'"
proof -
  have "(lifecycle {})\<^sup>*\<^sup>* (view d) (view (cancel_and_launch d))" for d
  proof -
    obtain s1 o1 where c: "Cancel_loop sample_launcher (sample_world ''x'') (sample_sys\<lparr>db := d\<rparr>) ''nanite-workflow-loop:k'' = (s1, o1)" by fastforce
    have "(lifecycle {})\<^sup>*\<^sup>* (view d) (view (db s1))" using cancel_steps [OF c] by simp
    moreover have "(lifecycle {})\<^sup>*\<^sup>* (view (db s1)) (view (db s2))"
      if "perform sample_launcher (sample_world ''b'') [sample_world ''j1'', sample_world ''j2''] s1
          (CallRun ''wf'' (sample_input\<lparr>IdempotencyKey := ''b''\<rparr>)) = Some s2" for s2
      by (rule perform_undisturbed [OF that]) simp_all
    ultimately show ?thesis using c by (auto simp: cancel_and_launch_def Let_def split: option.splits)
  qed
  then show ?thesis by (simp add: sample_meddled_def others_def sample_world_def)
qed

lemma canceled_run_returns:
  "map_option (view \<circ> db) (perform sample_launcher (sample_world ''l'') sample_meddled sample_sys (CallRun ''wf'' sample_input))
   = Some [(''nanite-workflow-loop:k'', ''g'', ''waiting_on_escalation''),
     (''nanite-workflow-loop:b'', ''g'', ''waiting_on_escalation'')]"
  by code_simp

theorem one_active_per_goal_witness:
  "\<exists>s'. perform sample_launcher (sample_world ''l'') sample_meddled sample_sys (CallRun ''wf'' sample_input) = Some s'
    \<and> loop_reach sample_launcher {subject sample_launcher (sample_world ''l'') (CallRun ''wf'' sample_input)} s'
    \<and> distinct (map LRID (loop_runs (db s'))) \<and> length (loop_runs (db s')) = 2"
proof -
  obtain s' where s': "perform sample_launcher (sample_world ''l'') sample_meddled sample_sys (CallRun ''wf'' sample_input) = Some s'"
    and two: "length (view (db s')) = 2"
    using canceled_run_returns by auto
  have "loop_reach sample_launcher {} sample_sys" by (rule loop_reach.init) (simp add: sample_sys_def sample_db_def)
  then have r: "loop_reach sample_launcher {subject sample_launcher (sample_world ''l'') (CallRun ''wf'' sample_input)} s'"
    by (rule loop_reach.disturbed [OF _ subset_refl s' meddled_others])
  from one_active_per_goal [OF r] r s' two show ?thesis by (simp add: view_def)
qed

theorem loop_returns_witness:
  "\<exists>s' out. Run sample_engine (sample_world ''l'') sample_worlds sample_sys ''wf'' sample_input = Some (s', out)
    \<and> launches s' \<le> 2"
  using loop_returns [of sample_input sample_worlds sample_engine "sample_world ''l''" sample_sys "''wf''"]
  by (simp add: sample_input_def sample_sys_def launches_def numeral_2_eq_2)

end
