(* ===== verification/LoopHistory.thy ===== *)
theory LoopHistory
  imports LoopLifecycle
begin

text \<open>
  What a loop leaves behind: the status that a returned call reports is the one in the table,
  the iterations of a run are numbered without gaps, a launch with an idempotency key happens
  once, and the rollup of an iteration's steps does not depend on the order of a map.
\<close>

section \<open>The reported status\<close>

definition has_status :: "'c DB \<Rightarrow> string \<Rightarrow> string \<Rightarrow> bool" where
  "has_status d lid st \<longleftrightarrow> (\<exists>r\<in>set (loop_runs d). LRID r = lid) \<and>
     (\<forall>r\<in>set (loop_runs d). LRID r = lid \<longrightarrow> LStatus r = st)"

definition settled :: "LoopEngine \<Rightarrow> sys \<Rightarrow> LoopResult \<Rightarrow> bool" where
  "settled E s res \<longleftrightarrow> has_status (db s) (RLoopRunID res) (RStatus res)
     \<and> RStatus res \<in> {''waiting_on_gate'', ''waiting_on_escalation'', ''completed'', ''failed''}
     \<and> (outerResume E \<and> RStatus res \<in> {''completed'', ''failed''} \<longrightarrow>
          (\<exists>evs. events s = evs @ [NotifyLoopRunTerminal (RLoopRunID res)]))"

lemma exec_update_ok:
  "exec_update x what nf p f rows = (rows', None) \<Longrightarrow>
     rows' = map (\<lambda>r. if p r then f r else r) rows \<and> (\<exists>r\<in>set rows. p r)"
  by (auto simp: exec_update_def list_ex_iff Let_def split: exec_outcome.splits if_splits)

lemma status_set: "UpdateLoopRunStatus x nowt d lid st c = (d', None) \<Longrightarrow> has_status d' lid st"
  by (auto simp: UpdateLoopRunStatus_def update_loop_run_def has_status_def dest!: exec_update_ok
      split: if_splits prod.splits) (auto simp: bex_Un)

lemma call_status_set:
  assumes "call s (UpdateLoopRunStatus x nowt (db s) lid st c) what k = (s', Inr v)"
  obtains d where "has_status d lid st" "k (s\<lparr>db := d\<rparr>) = (s', Inr v)"
  using assms by (cases rule: call_cases) (auto dest: status_set)

lemma settled_notify:
  "has_status (db s) lid st \<Longrightarrow> st \<in> {''waiting_on_gate'', ''waiting_on_escalation'', ''completed'', ''failed''} \<Longrightarrow>
     settled E (notifyOuterOnTerminal E s lid st) \<lparr>RLoopRunID = lid, RStatus = st, RCurrentIteration = n, LastDecision = dc\<rparr>"
  by (auto simp: settled_def notifyOuterOnTerminal_def)

lemma settled_waiting:
  "has_status (db s) lid st \<Longrightarrow> st \<in> {''waiting_on_gate'', ''waiting_on_escalation''} \<Longrightarrow>
     settled E s \<lparr>RLoopRunID = lid, RStatus = st, RCurrentIteration = n, LastDecision = dc\<rparr>"
  by (auto simp: settled_def)

lemma schedule_runs: "scheduleLoopRunTick W d lid a = (d', e) \<Longrightarrow> loop_runs d' = loop_runs d"
  by (auto simp: scheduleLoopRunTick_def InsertAgentSchedule_def split: if_splits prod.splits option.splits exec_outcome.splits)

lemma escalate_settled:
  "escalateOnBoundedContextExceeded E W s lr b = (s', Inr res) \<Longrightarrow> settled E s' res \<and> RLoopRunID res = LRID lr"
  by (auto simp: escalateOnBoundedContextExceeded_def Let_def elim!: call_status_set intro!: settled_notify
      split: if_splits)

lemma act_settled:
  assumes "act_on E W s lr goal n dcn full = (s', Inr (Stop res))"
  shows "settled E s' res \<and> RLoopRunID res = LRID lr"
proof (cases "Kind dcn")
  case DecisionWait
  from assms [unfolded act_on_def Let_def DecisionWait DecisionKind.case] show ?thesis
    by (rule call_status_set)
      (auto simp: has_status_def schedule_runs intro!: settled_waiting split: sum.splits prod.splits option.splits)
next
  case DecisionEscalate
  from assms [unfolded act_on_def Let_def DecisionEscalate DecisionKind.case] show ?thesis
    by (rule call_status_set) (auto intro!: settled_waiting)
next
  case DecisionComplete
  from assms [unfolded act_on_def Let_def DecisionComplete DecisionKind.case] show ?thesis
    by (rule call_status_set) (auto intro!: settled_notify)
next
  case DecisionFail
  from assms [unfolded act_on_def Let_def DecisionFail DecisionKind.case] show ?thesis
    by (rule call_status_set) (auto intro!: settled_notify)
qed (use assms in \<open>auto simp: act_on_def Let_def split: prod.splits sum.splits\<close>)

lemma evaluate_settled:
  "evaluateDecideAndAct E W s lr goal row res policy b prior = (s', Inr (Stop r)) \<Longrightarrow>
     settled E s' r \<and> RLoopRunID r = LRID lr"
  by (auto simp: evaluateDecideAndAct_def call_def Let_def dest!: act_settled
      split: prod.splits option.splits sum.splits)

lemma iterate_settled:
  assumes "iterate E dn cfg b W (s, lr, goal, h) = Inr (s', Inr res)"
  shows "settled E s' res \<and> RLoopRunID res = LRID lr"
  using assms
proof (cases rule: iterate_cases)
  case late
  then show ?thesis using escalate_settled [of E W s lr b s' res] by simp
next
  case (paused s1 row r)
  then show ?thesis by (auto elim!: call_status_set [OF sym] intro!: settled_waiting)
next
  case (decided s1 row r)
  obtain o2 where "evaluateDecideAndAct E W s1 (bumped lr) goal row r (CContinuationPolicy cfg) b h = o2" by simp
  then show ?thesis using decided(2) evaluate_settled [of E W s1 "bumped lr" goal row r "CContinuationPolicy cfg" b h]
    by (cases o2 rule: verdict_of.cases) auto
qed auto

lemma drive_settled:
  "drive (iterate E dn cfg b) Ws (s, lr, goal, h) = Some (s', Inr res) \<Longrightarrow> settled E s' res \<and> RLoopRunID res = LRID lr"
proof (induction Ws arbitrary: s lr goal h)
  case (Cons W Ws)
  show ?case
  proof (cases "iterate E dn cfg b W (s, lr, goal, h)")
    case (Inl t)
    then obtain s2 lr2 g2 h2 where t: "iterate E dn cfg b W (s, lr, goal, h) = Inl (s2, lr2, g2, h2)" by (cases t) auto
    then show ?thesis using Cons.IH [of s2 lr2 g2 h2] Cons.prems iterate_goes_on(1) [OF t] by simp
  next
    case (Inr r)
    then show ?thesis using Cons.prems iterate_settled by auto
  qed
qed simp

section \<open>The numbers of the iterations\<close>

text \<open>The runs' ids, goals and definitions, and the iterations' runs and numbers.\<close>

definition idents :: "'c DB \<Rightarrow> (string \<times> string \<times> string) list" where
  "idents d = map (\<lambda>r. (LRID r, LRGoalID r, DefinitionName r)) (loop_runs d)"

definition keys :: "'c DB \<Rightarrow> (string \<times> int) list" where
  "keys d = map (\<lambda>r. (ILoopRunID r, IterationNumber r)) (loop_run_iterations d)"

definition hist :: "'c DB \<Rightarrow> (string \<times> string \<times> string) list \<times> (string \<times> int) list" where
  "hist d = (idents d, keys d)"

definition numbers :: "'c DB \<Rightarrow> string \<Rightarrow> int list" where
  "numbers d lid = map IterationNumber (filter (\<lambda>r. ILoopRunID r = lid) (loop_run_iterations d))"

text \<open>Every iteration belongs to a run, and those of a run are numbered from one.\<close>

definition numbered :: "'c DB \<Rightarrow> bool" where
  "numbered d \<longleftrightarrow> (\<forall>r\<in>set (loop_run_iterations d). ILoopRunID r \<in> set (map LRID (loop_runs d)))
     \<and> (\<forall>lid. numbers d lid = map int [1..<Suc (length (numbers d lid))])"

lemma numbers_keys: "numbers d lid = map snd (filter (\<lambda>k. fst k = lid) (keys d))"
  by (induction "loop_run_iterations d" arbitrary: d) (auto simp: numbers_def keys_def filter_map o_def)

lemma numbered_hist: "numbered d \<longleftrightarrow> (\<forall>k\<in>set (keys d). fst k \<in> fst ` set (idents d))
     \<and> (\<forall>lid. numbers d lid = map int [1..<Suc (length (numbers d lid))])"
  by (simp add: numbered_def keys_def idents_def image_image)

lemma hist_numbers: "hist d' = hist d \<Longrightarrow> numbers d' = numbers d"
  by (rule ext) (simp add: hist_def numbers_keys)

lemma hist_numbered: "hist d' = hist d \<Longrightarrow> numbered d' = numbered d"
  using hist_numbers [of d' d] by (simp add: numbered_hist hist_def)

lemma hist_rows [simp]:
  "hist (d\<lparr>goals := a\<rparr>) = hist d" "hist (d\<lparr>evidence := b\<rparr>) = hist d"
  "hist (d\<lparr>workflow_runs := e\<rparr>) = hist d" "hist (d\<lparr>agent_schedules := f\<rparr>) = hist d"
  by (simp_all add: hist_def idents_def keys_def)

lemma hist_update:
  assumes "\<And>r. LRID (f r) = LRID r" and "\<And>r. LRGoalID (f r) = LRGoalID r" and "\<And>r. DefinitionName (f r) = DefinitionName r"
  shows "hist (fst (update_loop_run x what nowt d lid f)) = hist d"
  using assms by (auto simp: update_loop_run_def exec_update_def hist_def idents_def keys_def Let_def split: exec_outcome.splits)

lemma hist_bump: "hist (fst (BumpLoopRunIteration x nowt d lid)) = hist d"
  unfolding BumpLoopRunIteration_def by (rule hist_update) simp_all

lemma hist_streak: "hist (fst (UpdateLoopRunNoProgressStreak x nowt d lid n)) = hist d"
  unfolding UpdateLoopRunNoProgressStreak_def by (simp add: hist_update)

lemma hist_status: "hist (fst (UpdateLoopRunStatus x nowt d lid st c)) = hist d"
  unfolding UpdateLoopRunStatus_def by (simp add: hist_update)

lemma hist_scope: "hist (fst (UpdateWorkflowRunLoopScope x d w lid n)) = hist d"
  by (auto simp: UpdateWorkflowRunLoopScope_def split: prod.splits)

lemma hist_complete: "hist (fst (CompleteLoopRunIteration x nowt d i w dc p e)) = hist d"
  by (auto simp: CompleteLoopRunIteration_def exec_update_def hist_def idents_def keys_def Let_def
      split: prod.splits exec_outcome.splits)

lemma hist_goal: "hist (fst (UpdateGoal x d g)) = hist d"
  by (auto simp: UpdateGoal_def split: prod.splits)

lemma hist_create_goal: "hist (fst (CreateGoal x f d g)) = hist d"
  by (auto simp: CreateGoal_def Let_def split: prod.splits option.splits)

lemma hist_schedule: "hist (fst (scheduleLoopRunTick W d lid a)) = hist d"
  by (auto simp: scheduleLoopRunTick_def InsertAgentSchedule_def split: prod.splits option.splits exec_outcome.splits)

lemma hist_pair: "hist (fst p) = v \<Longrightarrow> p = (d, e) \<Longrightarrow> hist d = v"
  by simp

lemmas histD = hist_bump [THEN hist_pair] hist_streak [THEN hist_pair] hist_status [THEN hist_pair]
  hist_scope [THEN hist_pair] hist_complete [THEN hist_pair] hist_goal [THEN hist_pair]
  hist_create_goal [THEN hist_pair] hist_schedule [THEN hist_pair]

lemma exec_insert_ok: "exec_insert x what legal r rows = (rows', None) \<Longrightarrow> legal \<and> rows' = rows @ [r]"
  by (auto simp: exec_insert_def split: exec_outcome.splits if_splits)

lemma exec_insert_failed: "exec_insert x what legal r rows = (rows', Some e) \<Longrightarrow> rows' = rows"
  by (auto simp: exec_insert_def split: exec_outcome.splits if_splits)

lemma hist_no_iteration: "CreateLoopRunIteration x f nowt d li = (d', Inl e) \<Longrightarrow> hist d' = hist d"
  by (auto simp: CreateLoopRunIteration_def hist_def idents_def keys_def Let_def dest!: exec_insert_failed
      split: if_splits prod.splits option.splits)

lemma hist_new_iteration:
  assumes "CreateLoopRunIteration x f nowt d li = (d', Inr row)"
  shows "idents d' = idents d \<and> keys d' = keys d @ [(ILoopRunID li, IterationNumber li)]
      \<and> ILoopRunID li \<in> fst ` set (idents d)"
proof -
  obtain rows legal li1 where i: "exec_insert x ''create loop_run_iteration'' legal li1 (loop_run_iterations d) = (rows, None)"
    and d': "d' = d\<lparr>loop_run_iterations := rows\<rparr>" and "legal \<Longrightarrow> ILoopRunID li \<in> set (map LRID (loop_runs d))"
    and "ILoopRunID li1 = ILoopRunID li" "IterationNumber li1 = IterationNumber li"
    using assms unfolding CreateLoopRunIteration_def Let_def by (auto split: if_splits prod.splits option.splits)
  then show ?thesis using exec_insert_ok [OF i] by (simp add: idents_def keys_def image_image)
qed

lemma escalate_hist: "escalateOnBoundedContextExceeded E W s lr b = (s', out) \<Longrightarrow> hist (db s') = hist (db s)"
  by (auto simp: escalateOnBoundedContextExceeded_def call_def Let_def dest!: histD split: prod.splits option.splits)

lemma act_hist: "act_on E W s lr goal n dcn full = (s', out) \<Longrightarrow> hist (db s') = hist (db s)"
  by (auto simp: act_on_def applyRearchitect_def call_def Let_def dest!: histD
      split: prod.splits option.splits sum.splits DecisionKind.splits)

lemma evaluate_hist:
  "evaluateDecideAndAct E W s lr goal row res policy b prior = (s', out) \<Longrightarrow> hist (db s') = hist (db s)"
  by (auto simp: evaluateDecideAndAct_def call_def Let_def dest!: act_hist histD
      split: prod.splits option.splits sum.splits)

definition own :: "string \<Rightarrow> 'c DB \<Rightarrow> (string \<times> string \<times> string) list" where
  "own lid d = filter (\<lambda>x. fst x = lid) (idents d)"

text \<open>Other parties keep the numbering, add no iteration to this run and do not rename it.\<close>

definition mindful :: "string \<Rightarrow> world \<Rightarrow> bool" where
  "mindful lid W \<longleftrightarrow> (\<forall>d. (numbered d \<longrightarrow> numbered (meanwhile W d)) \<and> numbers (meanwhile W d) lid = numbers d lid
     \<and> own lid (meanwhile W d) = own lid d)"

definition counted :: "string \<Rightarrow> nat \<Rightarrow> 'c DB \<Rightarrow> bool" where
  "counted lid n d \<longleftrightarrow> numbered d \<and> length (numbers d lid) = n"

lemma hist_counted: "hist d' = hist d \<Longrightarrow> counted lid n d' = counted lid n d"
  using hist_numbered [of d' d] hist_numbers [of d' d] by (simp add: counted_def)

lemma hist_own: "hist d' = hist d \<Longrightarrow> own lid d' = own lid d"
  by (simp add: hist_def own_def)

lemma mindful_counted: "mindful lid W \<Longrightarrow> counted lid n d \<Longrightarrow> counted lid n (meanwhile W d)"
  by (simp add: mindful_def counted_def)

lemma mindful_own: "mindful lid W \<Longrightarrow> own lid (meanwhile W d) = own lid d"
  by (simp add: mindful_def)

lemma counted_new:
  assumes "counted lid n d" and "idents d' = idents d" and "keys d' = keys d @ [(lid, int n + 1)]"
    and "lid \<in> fst ` set (idents d)"
  shows "counted lid (Suc n) d'"
proof -
  have new: "numbers d' l = (if l = lid then numbers d lid @ [int n + 1] else numbers d l)" for l
    using assms(3) by (simp add: numbers_keys)
  have old: "numbers d l = map int [1..<Suc (length (numbers d l))]" "length (numbers d lid) = n" for l
    using assms(1) unfolding counted_def numbered_def by blast+
  have "numbers d lid @ [int n + 1] = map int [1..<Suc (Suc n)]"
    using old(1) [of lid] unfolding old(2) by (metis One_nat_def Suc_eq_plus1_left le_add1 list.simps(8,9) map_append
      of_nat_Suc upt_Suc_append add.commute)
  then have "numbers d' l = map int [1..<Suc (length (numbers d' l))]" for l
    using new [of l] old by (cases "l = lid") (simp_all del: upt_Suc)
  moreover have "\<forall>k\<in>set (keys d'). fst k \<in> fst ` set (idents d')"
    using assms by (auto simp: counted_def numbered_hist)
  ultimately show ?thesis using new [of lid] assms(1) by (simp add: counted_def numbered_hist)
qed

lemma launch_counted:
  assumes l: "launchIteration W s lr dn cfg (int n + 1) = (s', out)" and m: "mindful (LRID lr) W"
    and c: "counted (LRID lr) n (db s)"
  shows "case out of Inl e \<Rightarrow> counted (LRID lr) n (db s') | Inr t \<Rightarrow> counted (LRID lr) (Suc n) (db s')"
proof -
  have same: "counted (LRID lr) n d" if "hist d = hist (db s)" for d
    using hist_counted [OF that] c by blast
  have bump: "counted (LRID lr) n (meanwhile W d)" if "hist d = hist (db s)" for d
    using mindful_counted [OF m] hist_counted [OF that] c by blast
  have scope: "counted (LRID lr) n d2" if "hist d = hist (db s)" "hist d2 = hist (meanwhile W d)" for d d2
    using bump [OF that(1)] hist_counted [OF that(2)] by blast
  have create: "counted (LRID lr) n d3"
    if "hist d = hist (db s)" "hist d2 = hist (meanwhile W d)" "hist d3 = hist d2" for d d2 d3
    using scope [OF that(1,2)] hist_counted [OF that(3)] by blast
  have new: "counted (LRID lr) (Suc n) d3"
    if "hist d = hist (db s)" "hist d2 = hist (meanwhile W d)"
      "CreateLoopRunIteration x f nowt d2 \<lparr>IID = i, ILoopRunID = LRID lr, IterationNumber = int n + 1, WorkflowRunID = w,
         IDecision = dc, ProgressState = p, EvaluationJSON = ev, IStartedAt = a, ICompletedAt = b\<rparr> = (d3, Inr row)"
    for d d2 d3 x f nowt i w dc p ev a b row
    using counted_new [OF scope [OF that(1,2)], of d3] hist_new_iteration [OF that(3)] by simp
  show ?thesis
    using l c unfolding launchIteration_def
    by (auto simp: call_def Let_def intro: same bump scope create new
        dest!: histD hist_no_iteration split: prod.splits option.splits sum.splits if_splits)
qed

lemma launch_own:
  assumes l: "launchIteration W s lr dn cfg n = (s', out)" and m: "mindful (LRID lr) W"
  shows "own (LRID lr) (db s') = own (LRID lr) (db s)"
proof -
  have o: "own (LRID lr) (meanwhile W d) = own (LRID lr) (db s)" if "hist d = hist (db s)" for d
    using mindful_own [OF m] hist_own [OF that] by simp
  have o2: "own (LRID lr) d2 = own (LRID lr) (db s)" if "hist d = hist (db s)" "hist d2 = hist (meanwhile W d)" for d d2
    using o [OF that(1)] hist_own [OF that(2)] by simp
  have o3: "own (LRID lr) d3 = own (LRID lr) (db s)"
    if "hist d = hist (db s)" "hist d2 = hist (meanwhile W d)" "CreateLoopRunIteration x f nowt d2 li = (d3, r)"
    for d d2 d3 x f nowt li r
    using o2 [OF that(1,2)] hist_no_iteration [of x f nowt d2 li d3] hist_new_iteration [of x f nowt d2 li d3] that(3)
    by (cases r) (auto simp: own_def hist_def)
  show ?thesis
    using l unfolding launchIteration_def
    by (auto simp: call_def Let_def intro: o o2 o3 dest!: histD dest: hist_own
        split: prod.splits option.splits sum.splits if_splits)
qed

lemma counted_numbered: "counted lid n d \<Longrightarrow> numbered d"
  by (simp add: counted_def)

lemma numbered_owner: "numbered d \<Longrightarrow> k \<in> set (keys d) \<Longrightarrow> fst k \<in> fst ` set (idents d)"
  unfolding numbered_hist by blast

lemma numbered_more: "numbered d \<Longrightarrow> keys d' = keys d \<Longrightarrow> set (idents d) \<subseteq> set (idents d') \<Longrightarrow> numbered d'"
  unfolding numbered_hist numbers_keys by (metis image_mono subsetD)

lemma iterate_counted:
  assumes "iterate E dn cfg b W (s, lr, goal, h) = out" and m: "mindful (LRID lr) W"
    and c: "counted (LRID lr) (length h) (db s)"
  shows "case out of Inl (s2, lr2, g2, h2) \<Rightarrow> counted (LRID lr) (length h2) (db s2) | Inr (s', r) \<Rightarrow> numbered (db s')"
  using assms(1)
proof (cases rule: iterate_cases)
  case (dead e)
  then show ?thesis using c by (simp add: counted_def)
next
  case late
  obtain s' r where e: "escalateOnBoundedContextExceeded E W s lr b = (s', r)" by fastforce
  then show ?thesis using late(2) hist_numbered [OF escalate_hist [OF e]] c by (simp add: counted_def)
next
  case (unlaunched s1 e)
  then show ?thesis using launch_counted [OF unlaunched(1) m c] by (simp add: counted_def)
next
  case (paused s1 row res)
  have "numbered (db s1)" using launch_counted [OF paused(1) m c] by (simp add: counted_def)
  then have "numbered d" if "hist d = hist (db s1)" for d using hist_numbered [OF that] by blast
  then show ?thesis using paused(2) by (auto simp: call_def dest!: histD split: prod.splits option.splits)
next
  case (decided s1 row res)
  obtain s2 o2 where e: "evaluateDecideAndAct E W s1 (bumped lr) goal row res (CContinuationPolicy cfg) b h = (s2, o2)"
    by fastforce
  have "counted (LRID lr) (Suc (length h)) (db s2)"
    using launch_counted [OF decided(1) m c] hist_counted [OF evaluate_hist [OF e]] by simp
  note c2 = this
  show ?thesis
  proof (cases o2)
    case (Inl x)
    then show ?thesis using decided(2) e counted_numbered [OF c2] by simp
  next
    case (Inr x)
    show ?thesis
    proof (cases x)
      case (GoOn lr2 g2 h2)
      then show ?thesis using decided(2) e Inr c2 evaluate_moves(2) [of E W s1 "bumped lr" goal row res _ b h s2 o2 lr2 g2 h2] by auto
    next
      case (Stop r)
      then show ?thesis using decided(2) e Inr counted_numbered [OF c2] by simp
    qed
  qed
qed

lemma drive_numbered:
  "drive (iterate E dn cfg b) Ws (s, lr, goal, h) = Some (s', out) \<Longrightarrow> \<forall>W\<in>set Ws. mindful (LRID lr) W \<Longrightarrow>
     counted (LRID lr) (length h) (db s) \<Longrightarrow> numbered (db s')"
proof (induction Ws arbitrary: s lr goal h)
  case (Cons W Ws)
  show ?case
  proof (cases "iterate E dn cfg b W (s, lr, goal, h)")
    case (Inl t)
    then obtain s2 lr2 g2 h2 where t: "iterate E dn cfg b W (s, lr, goal, h) = Inl (s2, lr2, g2, h2)" by (cases t) auto
    show ?thesis
      by (rule Cons.IH [of s2 lr2 g2 h2])
        (use Cons.prems t iterate_goes_on(1) [OF t] iterate_counted [OF t] in auto)
  next
    case (Inr r)
    then show ?thesis using Cons.prems iterate_counted [OF Inr] by auto
  qed
qed simp

lemma driveIterations_numbered:
  "driveIterations E Ws s lr goal dn cfg h = Some (s', out) \<Longrightarrow> \<forall>W\<in>set Ws. mindful (LRID lr) W \<Longrightarrow>
     counted (LRID lr) (length h) (db s) \<Longrightarrow> numbered (db s')"
  using drive_numbered by (auto simp: driveIterations_def dest: counted_numbered split: sum.splits)

lemma hist_no_run: "CreateLoopRun x f nowt d lr = (d', Inl e) \<Longrightarrow> hist d' = hist d"
  by (auto simp: CreateLoopRun_def hist_def idents_def keys_def Let_def dest!: exec_insert_failed
      split: if_splits prod.splits option.splits)

lemma hist_new_run:
  assumes "CreateLoopRun x f nowt d lr = (d', Inr lr2)"
  shows "keys d' = keys d \<and> idents d' = idents d @ [(LRID lr2, LRGoalID lr2, DefinitionName lr2)]
    \<and> LRID lr2 \<notin> fst ` set (idents d) \<and> LRGoalID lr2 = LRGoalID lr \<and> DefinitionName lr2 = DefinitionName lr"
  using assms
  by (auto simp: CreateLoopRun_def keys_def idents_def image_image Let_def dest!: exec_insert_ok
      split: if_splits prod.splits option.splits)

lemma resolve_hist: "resolveGoal E W s input = (s1, out) \<Longrightarrow> hist (db s1) = hist (db s)"
  by (auto simp: resolveGoal_def Let_def dest!: histD split: if_splits sum.splits option.splits prod.splits)

lemma start_run_hist:
  assumes "start_run E W s workflow k input = (s1, out)"
  shows "out = Inl e \<Longrightarrow> hist (db s1) = hist (db s) \<or> (\<exists>d. hist d = hist (db s) \<and> hist (db s1) = hist (meanwhile W d))"
    and "out = Inr (lr, goal, cfg) \<Longrightarrow> \<exists>d. hist d = hist (db s) \<and> keys (db s1) = keys (meanwhile W d)
      \<and> idents (db s1) = idents (meanwhile W d) @ [(LRID lr, GID goal, workflow)]
      \<and> LRID lr \<notin> fst ` set (idents (meanwhile W d))"
    and "out = Inr (lr, goal, cfg) \<Longrightarrow> \<exists>s0. resolveGoal E W s input = (s0, Inr goal)"
proof -
  obtain s0 o0 where g: "resolveGoal E W s input = (s0, o0)" by fastforce
  note h0 = resolve_hist [OF g]
  show "hist (db s1) = hist (db s) \<or> (\<exists>d. hist d = hist (db s) \<and> hist (db s1) = hist (meanwhile W d))" if "out = Inl e"
    using assms that g h0 unfolding start_run_def
    by (auto simp: SetBudget_def Let_def dest!: hist_no_run split: sum.splits list.splits prod.splits if_splits)
  assume "out = Inr (lr, goal, cfg)"
  then obtain d lr1 where c: "CreateLoopRun (db_out W OpCreateRun) (fresh W) (now_text W) (meanwhile W (db s0)) lr1 = (d, Inr lr)"
    and lr1: "LRGoalID lr1 = GID goal" "DefinitionName lr1 = workflow" and s1: "s1 = s0\<lparr>db := d\<rparr>" and o0: "o0 = Inr goal"
    using assms g unfolding start_run_def
    by (auto simp: SetBudget_def Let_def split: sum.splits list.splits prod.splits if_splits)
  show "\<exists>d. hist d = hist (db s) \<and> keys (db s1) = keys (meanwhile W d)
      \<and> idents (db s1) = idents (meanwhile W d) @ [(LRID lr, GID goal, workflow)]
      \<and> LRID lr \<notin> fst ` set (idents (meanwhile W d))"
    using hist_new_run [OF c] lr1 s1 h0 by (intro exI [of _ "db s0"]) simp
  show "\<exists>s0. resolveGoal E W s input = (s0, Inr goal)" using g o0 by simp
qed

lemma start_run_counted:
  assumes st: "start_run E W s workflow k input = (s1, Inr (lr, goal, cfg))" and n: "numbered (db s)" and m: "mindful lid W"
  shows "counted (LRID lr) 0 (db s1)"
proof -
  obtain d where d: "hist d = hist (db s)"
    and h: "keys (db s1) = keys (meanwhile W d)" "idents (db s1) = idents (meanwhile W d) @ [(LRID lr, GID goal, workflow)]"
    "LRID lr \<notin> fst ` set (idents (meanwhile W d))"
    using start_run_hist(2) [OF st refl] by auto
  have n': "numbered (meanwhile W d)" using m n hist_numbered [OF d] by (simp add: mindful_def)
  have "numbers (db s1) (LRID lr) = []"
    using numbered_owner [OF n'] h(1,3) by (auto simp: numbers_keys filter_empty_conv)
  moreover have "numbered (db s1)" by (rule numbered_more [OF n' h(1)]) (auto simp: h(2))
  ultimately show ?thesis by (simp add: counted_def)
qed

lemma run_numbered:
  assumes "Run E W Ws s workflow input = Some (s', out)" and m: "\<forall>W'\<in>set (W # Ws). mindful (run_id E W input) W'"
    and n: "numbered (db s)"
  shows "numbered (db s')"
proof -
  let ?k = "if IdempotencyKey input \<noteq> [] then deterministicLoopIdentity E (IdempotencyKey input) else []"
  obtain s1 o1 where st: "start_run E W s workflow ?k input = (s1, o1)" by fastforce
  consider "hist (db s') = hist (db s)" | d where "hist d = hist (db s)" "hist (db s') = hist (meanwhile W d)"
    | lr goal cfg where "o1 = Inr (lr, goal, cfg)" "driveIterations E Ws s1 lr goal workflow cfg [] = Some (s', out)"
    using assms(1) st start_run_hist(1) [OF st] unfolding Run_def
    by (auto simp: Let_def split: if_splits option.splits sum.splits prod.splits)
  then show ?thesis
  proof cases
    case 1
    then show ?thesis using hist_numbered n by blast
  next
    case (2 d)
    then show ?thesis using hist_numbered [OF 2(1)] hist_numbered [OF 2(2)] n m by (simp add: mindful_def)
  next
    case (3 lr goal cfg)
    have "LRID lr = run_id E W input" using start_run_steps(2) [OF st 3(1)] by (auto simp: run_id_def Let_def)
    then show ?thesis using driveIterations_numbered [OF 3(2)] start_run_counted [OF st [unfolded 3(1)] n, of "run_id E W input"] m
      by simp
  qed
qed

lemma list_counted:
  assumes "ListLoopRunIterations x d lid = Inr h" and "numbered d"
  shows "counted lid (length h) d"
  using assms by (auto simp: ListLoopRunIterations_def counted_def numbers_def split: exec_outcome.splits)

lemma resume_blocked_numbered:
  assumes "resumeBlockedIteration E W Ws s lr goal cfg h = Some (s', out)"
    and m: "\<forall>W'\<in>set (W # Ws). mindful (LRID lr) W'" and c: "counted (LRID lr) (length h) (db s)"
  shows "numbered (db s')"
proof -
  let ?s1 = "s\<lparr>db := meanwhile W (db s), events := events s @ [ResumedRun (WorkflowRunID (last h))]\<rparr>"
  have c1: "counted (LRID lr) (length h) (db ?s1)" using mindful_counted [of "LRID lr" W] m c by simp
  have ev: "counted (LRID lr) (length h) (db s2)"
    if "evaluateDecideAndAct E W ?s1 lr goal row res pol b prior = (s2, o2)" for row res pol b prior s2 o2
    using hist_counted [OF evaluate_hist [OF that]] c1 by blast
  have on: "numbered (db s')"
    if "evaluateDecideAndAct E W ?s1 lr goal row res pol b (butlast h) = (s2, Inr (GoOn lr2 g2 h2))"
      "driveIterations E Ws s2 lr2 g2 dn cfg h2 = Some (s', out)" "h \<noteq> []" for row res pol b s2 lr2 g2 h2 dn
    using driveIterations_numbered [OF that(2)] evaluate_moves(2) [OF that(1) refl] ev [OF that(1)] m that(3) by simp
  have st: "numbered (db s2)"
    if "evaluateDecideAndAct E W ?s1 lr goal row res pol b prior = (s2, o2)" for row res pol b prior s2 o2
    using ev [OF that] by (simp add: counted_def)
  show ?thesis
    using assms(1) counted_numbered [OF c] counted_numbered [OF c1] unfolding resumeBlockedIteration_def
    by (auto simp: Let_def split: if_splits sum.splits prod.splits act.splits dest: st on)
qed

lemma resume_numbered:
  assumes "Resume E W Ws s lid = Some (s', out)" and "\<forall>W'\<in>set (W # Ws). mindful lid W'" and n: "numbered (db s)"
  shows "numbered (db s')"
proof -
  consider "s' = s"
    | lr goal cfg h where "GetLoopRun (db_out W OpGetRun) (db s) lid = Inr lr"
        "ListLoopRunIterations (db_out W OpListIterations) (db s) lid = Inr h"
        "resumeBlockedIteration E W Ws s lr goal cfg h = Some (s', out) \<or>
         driveIterations E Ws s lr goal (DefinitionName lr) cfg h = Some (s', out)"
    using assms(1) unfolding Resume_def
    by (auto simp: Let_def split: if_splits option.splits sum.splits)
  then show ?thesis
  proof cases
    case (2 lr goal cfg h)
    have "LRID lr = lid" using getLoopRun_view [OF 2(1)] by simp
    then show ?thesis using 2(3) list_counted [OF 2(2) n] assms(2) resume_blocked_numbered [of E W Ws s lr goal cfg h s' out]
      driveIterations_numbered [of E Ws s lr goal "DefinitionName lr" cfg h s' out] by auto
  qed (use n in simp)
qed

lemma numbered_ids:
  assumes "keys d' = keys d" and "map LRID (loop_runs d') = map LRID (loop_runs d)"
  shows "numbered d' = numbered d"
proof -
  have "fst ` set (idents d') = fst ` set (idents d)"
    using arg_cong [OF assms(2), of set] by (simp add: idents_def image_image)
  with assms(1) show ?thesis by (simp add: numbered_hist numbers_keys)
qed

lemma definition_numbered:
  "UpdateLoopRunDefinitionName x nowt d lid name = (d', e) \<Longrightarrow> numbered d' = numbered d"
  by (rule numbered_ids)
    (auto simp: UpdateLoopRunDefinitionName_def update_loop_run_def exec_update_def keys_def Let_def
      split: if_splits exec_outcome.splits)

lemma replan_numbered: "applyReplan W s lr rp = (s', out) \<Longrightarrow> numbered (db s') = numbered (db s)"
  by (auto simp: applyReplan_def applyRearchitect_def call_def Let_def
      dest!: definition_numbered hist_goal [THEN hist_pair] hist_numbered
      split: if_splits prod.splits option.splits sum.splits)

lemma cancel_hist: "Cancel_loop L W s lid = (s', out) \<Longrightarrow> hist (db s') = hist (db s)"
  by (auto simp: Cancel_loop_def call_def dest!: histD split: option.splits if_splits prod.splits)

lemma resolve_numbered:
  assumes "ResolveEscalation L W Ws s lid ov = Some (s', out)" and m: "\<forall>W'\<in>set (W # Ws). mindful lid W'"
    and n: "numbered (db s)"
  shows "numbered (db s')"
proof -
  have same: "numbered d" if "hist d = hist (db s)" for d using hist_numbered [OF that] n by simp
  have forced: "numbered (db s')"
    if "call s (UpdateLoopRunStatus x t (db s) lid st c) what
         (\<lambda>s1. (notifyOuterOnTerminal E s1 lid st, Inr r)) = (s', out)" for x t c what E r st
    using that same by (auto simp: call_def dest!: histD split: prod.splits option.splits)
  have cancelled: "numbered (db s')"
    if "(case Cancel_loop L W s lid of (s1, Inl e) \<Rightarrow> Some (s1, Inl e) | (s1, Inr _) \<Rightarrow> Some (s1, Inr r)) = Some (s', out)" for r
    using that same [OF cancel_hist] by (auto split: prod.splits sum.splits)
  have replanned: "numbered (db s')"
    if "(case applyReplan W s lr rp of (s1, Inl e) \<Rightarrow> Some (s1, Inl (Wrapf what e)) | (s1, Inr _) \<Rightarrow> Resume E W Ws s1 lid)
      = Some (s', out)" for lr rp what E
    using that replan_numbered [of W s lr rp] resume_numbered [of E W Ws _ lid s' out, OF _ m] n
    by (auto split: prod.splits sum.splits)
  show ?thesis
    using assms(1) resume_numbered [OF _ m n] forced cancelled replanned n unfolding ResolveEscalation_def
    by (auto simp: Let_def split: option.splits if_splits sum.splits)
qed

lemma launch_numbered:
  assumes "Launch L W Ws s rq = Some (s', out)" and m: "\<forall>W'\<in>set (W # Ws). mindful (fresh W) W'" and n: "numbered (db s)"
  shows "numbered (db s')"
proof -
  obtain s1 o1 where r: "resolvePresetDefaults W s rq = (s1, o1)" by fastforce
  note v = launch_registry_view [OF r]
  have run: "numbered (db s')"
    if "Run E W Ws s1 name input = Some (s', out)" "IdempotencyKey input = []" for E name input
    using run_numbered [OF that(1)] m n that(2) v by (simp add: run_id_def)
  show ?thesis
  proof (cases o1)
    case (Inl e)
    then show ?thesis using assms(1) r v n unfolding Launch_def by (auto split: option.splits if_splits)
  next
    case (Inr t)
    then show ?thesis using assms(1) r run n unfolding Launch_def
      by (auto split: option.splits if_splits prod.splits)
  qed
qed

lemma perform_numbered:
  assumes "perform L W Ws s c = Some s'" and "\<forall>W'\<in>set (W # Ws). mindful (subject L W c) W'" and n: "numbered (db s)"
  shows "numbered (db s')"
proof (cases c)
  case (CallRun name input)
  then show ?thesis using assms run_numbered by (auto split: option.splits)
next
  case (CallLaunch rq)
  then show ?thesis using assms launch_numbered by auto
next
  case (CallResume lid)
  then show ?thesis using assms resume_numbered by (auto split: option.splits)
next
  case (CallCancel lid)
  then show ?thesis using assms hist_numbered [OF cancel_hist, of L W s lid] by (metis option.inject perform.simps(4) prod.collapse)
next
  case (CallResolve lid ov)
  then show ?thesis using assms resolve_numbered by auto
qed

section \<open>Launching once\<close>

lemma iterate_own:
  assumes "iterate E dn cfg b W (s, lr, goal, h) = out" and m: "mindful (LRID lr) W"
  shows "own (LRID lr) (db (case out of Inl (s2, _) \<Rightarrow> s2 | Inr (s', _) \<Rightarrow> s')) = own (LRID lr) (db s)"
  using assms(1)
proof (cases rule: iterate_cases)
  case late
  then show ?thesis using hist_own [OF escalate_hist, of E W s lr b] by (auto split: prod.splits)
next
  case (unlaunched s1 e)
  then show ?thesis using launch_own [OF unlaunched(1) m] by simp
next
  case (paused s1 row res)
  have "own (LRID lr) d = own (LRID lr) (db s)" if "hist d = hist (db s1)" for d
    using launch_own [OF paused(1) m] hist_own [OF that] by simp
  then show ?thesis using paused(2) by (auto simp: call_def dest!: histD split: prod.splits option.splits)
next
  case (decided s1 row res)
  obtain s2 o2 where e: "evaluateDecideAndAct E W s1 (bumped lr) goal row res (CContinuationPolicy cfg) b h = (s2, o2)"
    by fastforce
  have "own (LRID lr) (db s2) = own (LRID lr) (db s)"
    using launch_own [OF decided(1) m] hist_own [OF evaluate_hist [OF e]] by simp
  then show ?thesis using decided(2) e by (cases "(s2, o2)" rule: verdict_of.cases) auto
qed simp

lemma drive_own:
  "drive (iterate E dn cfg b) Ws (s, lr, goal, h) = Some (s', out) \<Longrightarrow> \<forall>W\<in>set Ws. mindful (LRID lr) W \<Longrightarrow>
     own (LRID lr) (db s') = own (LRID lr) (db s)"
proof (induction Ws arbitrary: s lr goal h)
  case (Cons W Ws)
  show ?case
  proof (cases "iterate E dn cfg b W (s, lr, goal, h)")
    case (Inl t)
    then obtain s2 lr2 g2 h2 where t: "iterate E dn cfg b W (s, lr, goal, h) = Inl (s2, lr2, g2, h2)" by (cases t) auto
    have "own (LRID lr2) (db s') = own (LRID lr2) (db s2)"
      by (rule Cons.IH) (use Cons.prems t iterate_goes_on(1) [OF t] in auto)
    then show ?thesis using Cons.prems(2) iterate_own [OF t] iterate_goes_on(1) [OF t] by simp
  next
    case (Inr r)
    then show ?thesis using Cons.prems iterate_own [OF Inr] by auto
  qed
qed simp

lemma getLoopRun_own:
  assumes "GetLoopRun x d lid = Inr r"
  shows "(lid, LRGoalID r, DefinitionName r) \<in> set (own lid d) \<and> LRID r = lid"
  using assms by (auto simp: GetLoopRun_def own_def idents_def image_iff find_Some_iff split: exec_outcome.splits option.splits)

lemma own_getLoopRun: "x \<noteq> ExecError e \<Longrightarrow> own lid d \<noteq> [] \<Longrightarrow> \<exists>r. GetLoopRun ExecOk d lid = Inr r"
  by (auto simp: GetLoopRun_def own_def idents_def filter_empty_conv find_None_iff split: option.splits)

lemma run_own:
  assumes "Run E W Ws s workflow input = Some (s1, Inr res)" and key: "IdempotencyKey input \<noteq> []"
    and m: "\<forall>W'\<in>set Ws. mindful (run_id E W input) W'" and id: "deterministicLoopIdentity E (IdempotencyKey input) = lid" "lid \<noteq> []"
    and u: "distinct (map fst (idents (db s)))"
  shows "RLoopRunID res = lid \<and> (\<exists>g. own lid (db s1) = [(lid, g, workflow)] \<and> (InGoalID input = [] \<or> g = InGoalID input))"
proof -
  have one: "own lid (db s) = [x]" if "x \<in> set (own lid (db s))" for x
  proof -
    have "distinct (map fst (own lid (db s)))" using u unfolding own_def by (rule distinct_map_filter)
    moreover have "\<forall>y\<in>set (own lid (db s)). fst y = lid" by (auto simp: own_def)
    ultimately show ?thesis using that by (cases "own lid (db s)"; cases "tl (own lid (db s))") (auto split: list.splits)
  qed
  have runid: "run_id E W input = lid" using key id by (simp add: run_id_def Let_def)
  consider (old) r where "GetLoopRun (db_out W OpGetRun) (db s) lid = Inr r" "s1 = s" "DefinitionName r = workflow"
      "InGoalID input = [] \<or> LRGoalID r = InGoalID input" "RLoopRunID res = LRID r"
    | (new) s0 lr goal cfg where "start_run E W s workflow lid input = (s0, Inr (lr, goal, cfg))"
        "driveIterations E Ws s0 lr goal workflow cfg [] = Some (s1, Inr res)"
    using assms(1) key id unfolding Run_def
    by (auto simp: Let_def split: if_splits option.splits sum.splits prod.splits)
  then show ?thesis
  proof cases
    case (old r)
    then show ?thesis using getLoopRun_own [OF old(1)] one by auto
  next
    case (new s0 lr goal cfg)
    have lr: "LRID lr = lid" using start_run_steps(2) [OF new(1) refl] id(2) by simp
    obtain d where h: "idents (db s0) = idents (meanwhile W d) @ [(lid, GID goal, workflow)]"
      "lid \<notin> fst ` set (idents (meanwhile W d))"
      using start_run_hist(2) [OF new(1) refl] lr by auto
    have "own lid (db s0) = [(lid, GID goal, workflow)]" using h by (auto simp: own_def filter_empty_conv image_iff)
    moreover have "own lid (db s1) = own lid (db s0)" "RLoopRunID res = lid"
      using new(2) drive_own [of E workflow cfg _ Ws s0 lr goal "[]" s1 "Inr res"] m lr runid
        drive_settled [of E workflow cfg _ Ws s0 lr goal "[]" s1 res]
      by (auto simp: driveIterations_def split: sum.splits)
    moreover have "InGoalID input = [] \<or> GID goal = InGoalID input"
      using start_run_hist(3) [OF new(1) refl]
      by (auto simp: resolveGoal_def GetGoal_def find_Some_iff split: if_splits sum.splits option.splits exec_outcome.splits)
    ultimately show ?thesis by auto
  qed
qed

section \<open>The rollup of an iteration\<close>

definition failing :: "string \<times> StepResult \<Rightarrow> bool" where
  "failing st \<longleftrightarrow> IsError (snd st) \<or> (case VerifyResult (snd st) of None \<Rightarrow> False | Some v \<Rightarrow> \<not> Passed v)"

definition passing :: "string \<times> StepResult \<Rightarrow> bool" where
  "passing st \<longleftrightarrow> \<not> IsError (snd st) \<and> (case VerifyResult (snd st) of None \<Rightarrow> False | Some v \<Rightarrow> Passed v)"

definition regression_line :: "string \<times> StepResult \<Rightarrow> string" where
  "regression_line st = (if IsError (snd st) then fst st @ '': step errored''
     else fst st @ '': '' @ VReason (the (VerifyResult (snd st))))"

lemma roll_steps:
  "foldl roll_step (p, f, rs) xs = (p + int (length (filter passing xs)), f + int (length (filter failing xs)),
     rs @ map regression_line (filter failing xs))"
  by (induction xs arbitrary: p f rs)
    (auto simp: roll_step_def passing_def failing_def regression_line_def split: option.splits)

lemma rollup_perm:
  assumes "mset xs = mset ys"
  shows "length (filter P xs) = length (filter P ys)" and "sort (map f (filter P xs)) = sort (map f (filter P ys))"
proof -
  have "mset (filter P xs) = mset (filter P ys)" using assms by simp
  then show "length (filter P xs) = length (filter P ys)" by (metis size_mset)
  show "sort (map f (filter P xs)) = sort (map f (filter P ys))"
    by (rule properties_for_sort) (use assms in simp_all)
qed

lemma filter_pos: "0 < length (filter P xs) \<longleftrightarrow> (\<exists>x\<in>set xs. P x)"
  by (auto simp: filter_empty_conv)

lemma classify_closed:
  "snd (classifyIterationProgress (Some r)) =
       (if WStatus r \<in> {RunStatusRunning, RunStatusWaiting, RunStatusWaitingOnFlex, RunStatusWaitingOnLoop, RunStatusCanceled}
        then ''blocked''
        else if WStatus r = RunStatusFailed then ''regression''
        else if \<exists>st\<in>set (StepResults r). failing st
          then (if \<exists>st\<in>set (StepResults r). passing st then ''no_progress'' else ''regression'')
        else ''progress'')
    \<and> (WStatus r \<in> {RunStatusCompleted, RunStatusFailed} \<longrightarrow>
        Regressions (fst (classifyIterationProgress (Some r))) = sort (map regression_line (filter failing (StepResults r))))"
  unfolding filter_pos [symmetric]
  by (cases "WStatus r") (simp_all add: classifyIterationProgress_def isPausedRunStatus_def roll_steps Let_def)

section \<open>Properties\<close>

text \<open>
  C19. The status that a returned loop reports is the one in its row, whatever other parties
  did to the table while the workflows ran, a cancellation included: the row exists and
  carries the reported status, which is one of the two waiting ones, completed or failed, and
  for the last two the outer run, if any, was notified as the last thing the engine did.
\<close>

theorem outcome_persisted:
  assumes "driveIterations E Ws s lr goal dn cfg h = Some (s', Inr res)"
  shows "RLoopRunID res = LRID lr
    \<and> (\<exists>r\<in>set (loop_runs (db s')). LRID r = LRID lr)
    \<and> (\<forall>r\<in>set (loop_runs (db s')). LRID r = LRID lr \<longrightarrow> LStatus r = RStatus res)
    \<and> RStatus res \<in> {''waiting_on_gate'', ''waiting_on_escalation'', ''completed'', ''failed''}
    \<and> (outerResume E \<and> RStatus res \<in> {''completed'', ''failed''} \<longrightarrow>
         (\<exists>evs. events s' = evs @ [NotifyLoopRunTerminal (LRID lr)]))"
proof -
  obtain b where "drive (iterate E dn cfg b) Ws (s, lr, goal, h) = Some (s', Inr res)"
    using assms by (auto simp: driveIterations_def split: sum.splits)
  then have "settled E s' res" "RLoopRunID res = LRID lr" using drive_settled by blast+
  then show ?thesis unfolding settled_def has_status_def by (intro conjI) simp_all
qed

text \<open>
  C20. The iterations of every loop run are numbered from one without gaps: a call that
  finds the table so leaves it so, on every path, failed launches, pauses, resumptions and
  replans included, if other parties keep the numbering and add no iteration to this run.
\<close>

theorem iterations_numbered:
  assumes "perform L W Ws s c = Some s'" and "\<forall>W'\<in>set (W # Ws). mindful (subject L W c) W'" and "numbered (db s)"
  shows "numbers (db s') lid = map int [1..<Suc (length (numbers (db s') lid))]"
  using perform_numbered [OF assms] unfolding numbered_def by blast

text \<open>
  A launch with an idempotency key happens once: after a successful \<^verbatim>\<open>Run\<close>, running
  the same request again, with whatever answers of the world, changes nothing, launches
  nothing and reports the same loop run.
\<close>

lemma run_idempotent:
  assumes "Run E W Ws s workflow input = Some (s1, Inr res)" and "IdempotencyKey input \<noteq> []"
    and "\<forall>W'\<in>set Ws. mindful (run_id E W input) W'" and "deterministicLoopIdentity E (IdempotencyKey input) \<noteq> []"
    and "distinct (map LRID (loop_runs (db s)))"
    and "db_out W2 OpGetRun = ExecOk" and "CheckInstanceCreation W2 (InAgentProfileID input) = None"
  shows "\<exists>res2. Run E W2 Ws2 s1 workflow input = Some (s1, Inr res2) \<and> RLoopRunID res2 = RLoopRunID res"
proof -
  let ?lid = "deterministicLoopIdentity E (IdempotencyKey input)"
  obtain g where o: "own ?lid (db s1) = [(?lid, g, workflow)]" "InGoalID input = [] \<or> g = InGoalID input"
    and res: "RLoopRunID res = ?lid"
    using run_own [OF assms(1,2,3) refl assms(4)] assms(5) by (auto simp: idents_def o_def)
  obtain r where r: "GetLoopRun ExecOk (db s1) ?lid = Inr r" using own_getLoopRun [of ExecOk _ ?lid "db s1"] o(1) by auto
  have "LRID r = ?lid" "LRGoalID r = g" "DefinitionName r = workflow" using getLoopRun_own [OF r] o(1) by auto
  moreover have "configured E" "workflow \<noteq> []" "InAgentProfileID input \<noteq> []"
    using assms(1) by (auto simp: Run_def split: if_splits)
  ultimately show ?thesis using assms(2,6,7) r o(2) res by (auto simp: Run_def Let_def)
qed

text \<open>
  How an iteration is judged. The verdict depends on the workflow's status and on the
  multiset of its steps, not on the order in which the map of steps is visited: blocked if
  the run is paused or canceled, a regression if it failed or if steps failed and none
  passed, no progress if some failed and some passed, progress if none failed; the
  regressions are the failed steps in sorted order.
\<close>

lemma classify_iteration:
  assumes "mset (StepResults r') = mset (StepResults r)" and "WStatus r' = WStatus r" and "WError r' = WError r"
  shows "classifyIterationProgress (Some r') = classifyIterationProgress (Some r)
    \<and> snd (classifyIterationProgress (Some r)) =
       (if WStatus r \<in> {RunStatusRunning, RunStatusWaiting, RunStatusWaitingOnFlex, RunStatusWaitingOnLoop, RunStatusCanceled}
        then ''blocked''
        else if WStatus r = RunStatusFailed then ''regression''
        else if \<exists>st\<in>set (StepResults r). failing st
          then (if \<exists>st\<in>set (StepResults r). passing st then ''no_progress'' else ''regression'')
        else ''progress'')
    \<and> (WStatus r \<in> {RunStatusCompleted, RunStatusFailed} \<longrightarrow>
        Regressions (fst (classifyIterationProgress (Some r))) = sort (map regression_line (filter failing (StepResults r))))"
proof -
  have "classifyIterationProgress (Some r') = classifyIterationProgress (Some r)"
    using rollup_perm(1) [OF assms(1)] rollup_perm(2) [OF assms(1), of regression_line failing] assms(2,3)
    by (simp add: classifyIterationProgress_def roll_steps Let_def)
  then show ?thesis using classify_closed [of r] by simp
qed

section \<open>Witnesses\<close>

definition sample_start :: "(loop_run \<times> Goal \<times> loopRunPersistentConfig) eff" where
  "sample_start = start_run sample_engine (sample_world ''l'') sample_sys ''wf'' ''k'' sample_input"

fun succeeded :: "'a eff option \<Rightarrow> bool" where
  "succeeded (Some (s, Inr r)) = True"
| "succeeded _ = False"

lemma succeeded_iff: "succeeded x \<longleftrightarrow> (\<exists>s r. x = Some (s, Inr r))"
  by (cases x rule: succeeded.cases) auto

lemma sample_run: "succeeded (Run sample_engine (sample_world ''l'') sample_worlds sample_sys ''wf'' sample_input)"
  by code_simp

lemma sample_drive:
  "case sample_start of (s, Inr (lr, goal, cfg)) \<Rightarrow>
     succeeded (driveIterations sample_engine sample_worlds s lr goal ''wf'' cfg []) | _ \<Rightarrow> False"
  by code_simp

lemma sample_mindful [simp]: "mindful lid (sample_world i)"
  by (simp add: mindful_def sample_world_def)

lemma sample_numbered: "numbered (db sample_sys)"
  by (simp add: numbered_def numbers_def sample_sys_def sample_db_def)

theorem outcome_persisted_witness:
  "\<exists>s lr goal cfg s' res. driveIterations sample_engine sample_worlds s lr goal ''wf'' cfg [] = Some (s', Inr res)
    \<and> (\<exists>r. r \<in> set (loop_runs (db s')) \<and> LRID r = LRID lr) \<and> RLoopRunID res = LRID lr"
proof -
  obtain s lr goal cfg s' res where d: "driveIterations sample_engine sample_worlds s lr goal ''wf'' cfg [] = Some (s', Inr res)"
    using sample_drive by (auto simp: succeeded_iff split: prod.splits sum.splits)
  from outcome_persisted [OF d] d show ?thesis by blast
qed

theorem iterations_numbered_witness:
  "\<exists>s'. perform sample_launcher (sample_world ''l'') sample_worlds sample_sys (CallRun ''wf'' sample_input) = Some s'
    \<and> numbers (db s') ''k'' = map int [1..<Suc (length (numbers (db s') ''k''))]"
proof -
  obtain s' where s': "perform sample_launcher (sample_world ''l'') sample_worlds sample_sys (CallRun ''wf'' sample_input) = Some s'"
    using sample_performed by blast
  have "\<forall>W'\<in>set (sample_world ''l'' # sample_worlds). mindful (subject sample_launcher (sample_world ''l'') (CallRun ''wf'' sample_input)) W'"
    by simp
  from iterations_numbered [OF s' this sample_numbered] s' show ?thesis by blast
qed

definition sample_result :: "bool \<Rightarrow> WorkflowLaunchResult" where
  "sample_result swap = \<lparr>InstanceID = [], RunID = ''w'', WorkflowName = [], WStatus = RunStatusCompleted,
     StepResults = (let a = (''b'', \<lparr>IsError = True, VerifyResult = None\<rparr>);
         c = (''a'', \<lparr>IsError = False, VerifyResult = Some \<lparr>Passed = True, VReason = []\<rparr>\<rparr>)
       in if swap then [a, c] else [c, a]), WError = []\<rparr>"

end
