(* ===== verification/Elicitation.thy ===== *)
theory Elicitation
  imports Prelude
begin

text \<open>
  Package \<^verbatim>\<open>internal/elicitation\<close> and the helper of \<^verbatim>\<open>internal/mcp/elicitation.go\<close>: a tool
  asks the user a question in the middle of a call and waits for the answer, a timeout or the
  end of its context.

  Calls of \<^verbatim>\<open>Elicit\<close> and \<^verbatim>\<open>Respond\<close> run concurrently. The model is a machine whose events are
  the atomic steps of the code: what happens under the mutex, one channel operation, one answer
  of the emitter, one reading of the clock. A history is any list of events each of which is
  possible when it happens, so every interleaving is one. UUIDs, the emitter's answers, the
  contexts' errors and the passing of time are the events' arguments.
\<close>

section \<open>Data\<close>

type_synonym UserAction = string

definition ActionAccept :: UserAction where "ActionAccept = ''accept''"
definition ActionDecline :: UserAction where "ActionDecline = ''decline''"
definition ActionCancel :: UserAction where "ActionCancel = ''cancel''"

lemmas action_defs = ActionAccept_def ActionDecline_def ActionCancel_def

type_synonym SchemaType = string

definition SchemaTypeBoolean :: SchemaType where "SchemaTypeBoolean = ''boolean''"
definition SchemaTypeString :: SchemaType where "SchemaTypeString = ''string''"

record RequestedSchema =
  Schema_Type :: SchemaType
  Schema_Title :: string
  Schema_Description :: string

record Response =
  Resp_Action :: UserAction
  Resp_Content :: string
  Resp_Reason :: string

record ElicitInput =
  In_Message :: string
  In_Schema :: "RequestedSchema option"
  In_ToolCallID :: string
  In_SessionID :: string
  In_AgentID :: string
  In_Origin :: string

text \<open>The channel \<^verbatim>\<open>result\<close> has one place.\<close>

record Request =
  Rq_ID :: string
  Rq_Message :: string
  Rq_Schema :: "RequestedSchema option"
  Rq_ToolCallID :: string
  Rq_SessionID :: string
  Rq_AgentID :: string
  Rq_Origin :: string
  Rq_CreatedAt :: go_time
  Rq_result :: "Response option"

record EnvelopeData =
  ElicitationID :: string
  Env_Message :: string
  Env_SchemaType :: string
  Env_SchemaTitle :: string
  Env_SchemaDescription :: string
  Env_ToolCallID :: string
  Env_Origin :: string
  TimeoutAt :: go_time

record EmitInput =
  Emit_SessionID :: string
  Emit_AgentID :: string
  Emit_Data :: EnvelopeData

definition DefaultTimeoutSeconds :: int where "DefaultTimeoutSeconds = 5 * 60"

section \<open>The timeout\<close>

definition wrap64 :: "int \<Rightarrow> int" where
  "wrap64 x = (x + 2 ^ 63) mod 2 ^ 64 - 2 ^ 63"

text \<open>\<^verbatim>\<open>strconv.Atoi\<close>: an optional sign and digits, within 64 bits.\<close>

definition Atoi :: "string \<Rightarrow> int option" where
  "Atoi s = (
     let neg = (s \<noteq> [] \<and> hd s = CHR ''-''); signed = (s \<noteq> [] \<and> (hd s = CHR ''-'' \<or> hd s = CHR ''+''));
         ds = (if signed then tl s else s); n = (if neg then - int (num ds) else int (num ds))
     in if ds \<noteq> [] \<and> list_all digit_char ds \<and> - (2 ^ 63) \<le> n \<and> n < 2 ^ 63 then Some n else None)"

text \<open>\<^verbatim>\<open>New\<close>; \<open>env\<close> is the value of \<^verbatim>\<open>NANITE_ELICITATION_TIMEOUT_SEC\<close>, empty if unset.\<close>

definition configured_timeout :: "string \<Rightarrow> int \<Rightarrow> int" where
  "configured_timeout env timeoutSeconds = (
     let t = (if timeoutSeconds \<le> 0 then
           (if env \<noteq> [] then (case Atoi env of Some n \<Rightarrow> if n > 0 then n else timeoutSeconds
              | None \<Rightarrow> timeoutSeconds) else timeoutSeconds)
         else timeoutSeconds)
     in if t \<le> 0 then DefaultTimeoutSeconds else t)"

section \<open>The machine\<close>

datatype phase =
    Emitting EmitInput
  | Waiting go_time
  | Leaving "Response \<times> go_error option"
  | Returned "Response \<times> go_error option"

datatype rphase =
    Sending string Response
  | Answered "go_error option"

text \<open>
  Every request that was ever made is in \<open>requests\<close>: a call of \<^verbatim>\<open>Respond\<close> may hold one that is
  no longer in the map \<open>pending\<close>. The context under which a call of \<^verbatim>\<open>Elicit\<close> runs is not the
  service's: \<open>ended\<close> gives, by the call's elicitation, the error its context ended with.
\<close>

record Service =
  timeoutSeconds :: int
  now :: go_time
  pending :: "string \<Rightarrow> bool"
  requests :: "string \<Rightarrow> Request option"
  calls :: "string \<Rightarrow> phase option"
  responders :: "nat \<Rightarrow> rphase option"
  ended :: "string \<Rightarrow> go_error option"
  emitted :: "EmitInput list"

definition New :: "string \<Rightarrow> int \<Rightarrow> go_time \<Rightarrow> Service" where
  "New env secs t0 = \<lparr>timeoutSeconds = configured_timeout env secs, now = t0, pending = (\<lambda>_. False),
     requests = Map.empty, calls = Map.empty, responders = Map.empty, ended = Map.empty, emitted = []\<rparr>"

definition timeoutDur :: "Service \<Rightarrow> duration" where
  "timeoutDur s = wrap64 (timeoutSeconds s * 1000000000)"

datatype event =
    Begin string ElicitInput
  | EmitOK string
  | EmitFail string go_error
  | Receive string
  | Expire string
  | CtxDone string
  | CtxEnd string go_error
  | Leave string
  | Look nat string Response
  | Send nat string Response
  | Tick go_time

definition new_request :: "string \<Rightarrow> ElicitInput \<Rightarrow> go_time \<Rightarrow> Request" where
  "new_request eid req t = \<lparr>Rq_ID = eid, Rq_Message = In_Message req, Rq_Schema = In_Schema req,
     Rq_ToolCallID = In_ToolCallID req, Rq_SessionID = In_SessionID req, Rq_AgentID = In_AgentID req,
     Rq_Origin = In_Origin req, Rq_CreatedAt = t, Rq_result = None\<rparr>"

definition schema_type :: "ElicitInput \<Rightarrow> SchemaType" where
  "schema_type req = (case In_Schema req of
       Some sc \<Rightarrow> if Schema_Type sc \<noteq> [] then Schema_Type sc else SchemaTypeString
     | None \<Rightarrow> SchemaTypeString)"

definition prompt :: "string \<Rightarrow> ElicitInput \<Rightarrow> go_time \<Rightarrow> EmitInput" where
  "prompt eid req timeout_at = \<lparr>Emit_SessionID = In_SessionID req, Emit_AgentID = In_AgentID req,
     Emit_Data = \<lparr>ElicitationID = eid, Env_Message = In_Message req, Env_SchemaType = schema_type req,
       Env_SchemaTitle = (case In_Schema req of Some sc \<Rightarrow> Schema_Title sc | None \<Rightarrow> []),
       Env_SchemaDescription = (case In_Schema req of Some sc \<Rightarrow> Schema_Description sc | None \<Rightarrow> []),
       Env_ToolCallID = In_ToolCallID req, Env_Origin = In_Origin req, TimeoutAt = timeout_at\<rparr>\<rparr>"

definition cancelled :: "string \<Rightarrow> Response" where
  "cancelled reason = \<lparr>Resp_Action = ActionCancel, Resp_Content = [], Resp_Reason = reason\<rparr>"

definition errElicitEmit :: "go_error \<Rightarrow> go_error" where
  "errElicitEmit e = Wrapf ''elicitation: emit: '' e"

definition no_pending :: "(string \<Rightarrow> string) \<Rightarrow> string \<Rightarrow> go_error" where
  "no_pending q eid = Errorf (''elicitation: no pending request with id '' @ q eid)"

text \<open>
  One step, or \<^const>\<open>None\<close> if the event is not possible. \<^verbatim>\<open>Elicit\<close> is \<open>Begin\<close> (the new request
  enters the map), an answer of the emitter, one branch of its \<^verbatim>\<open>select\<close> (\<open>Receive\<close> if the
  channel holds a response, \<open>Expire\<close> if the timer has fired, \<open>CtxDone\<close> if the context has ended)
  and \<open>Leave\<close> (the deferred removal); \<open>CtxEnd\<close> is the end of a call's context, once; \<^verbatim>\<open>Respond\<close> is \<open>Look\<close> (under the mutex) and
  \<open>Send\<close> (which drops the response if the channel is full). The timer starts with the
  \<^verbatim>\<open>select\<close>; \<open>q\<close> is the verb \<^verbatim>\<open>%q\<close>.
\<close>

fun step :: "(string \<Rightarrow> string) \<Rightarrow> event \<Rightarrow> Service \<Rightarrow> Service option" where
  "step q (Begin eid req) s = (if requests s eid \<noteq> None then None
     else Some (s\<lparr>requests := (requests s)(eid \<mapsto> new_request eid req (now s)),
       pending := (pending s)(eid := True),
       calls := (calls s)(eid \<mapsto> Emitting (prompt eid req (now s + timeoutDur s)))\<rparr>))"
| "step q (EmitOK eid) s = (case calls s eid of
       Some (Emitting p) \<Rightarrow> Some (s\<lparr>emitted := emitted s @ [p],
         calls := (calls s)(eid \<mapsto> Waiting (now s + timeoutDur s))\<rparr>)
     | _ \<Rightarrow> None)"
| "step q (EmitFail eid e) s = (case calls s eid of
       Some (Emitting p) \<Rightarrow> Some (s\<lparr>calls := (calls s)(eid \<mapsto> Leaving (cancelled ''emit_failed'', Some (errElicitEmit e)))\<rparr>)
     | _ \<Rightarrow> None)"
| "step q (Receive eid) s = (case (calls s eid, requests s eid) of
       (Some (Waiting d), Some r) \<Rightarrow> (case Rq_result r of
            Some resp \<Rightarrow> Some (s\<lparr>requests := (requests s)(eid \<mapsto> r\<lparr>Rq_result := None\<rparr>),
              calls := (calls s)(eid \<mapsto> Leaving (resp, None))\<rparr>)
          | None \<Rightarrow> None)
     | _ \<Rightarrow> None)"
| "step q (Expire eid) s = (case calls s eid of
       Some (Waiting d) \<Rightarrow> if d \<le> now s
         then Some (s\<lparr>calls := (calls s)(eid \<mapsto> Leaving (cancelled ''timeout'', None))\<rparr>) else None
     | _ \<Rightarrow> None)"
| "step q (CtxDone eid) s = (case (calls s eid, ended s eid) of
       (Some (Waiting d), Some e) \<Rightarrow> Some (s\<lparr>calls := (calls s)(eid \<mapsto> Leaving (cancelled ''context_canceled'', Some e))\<rparr>)
     | _ \<Rightarrow> None)"
| "step q (CtxEnd eid e) s = (if ended s eid = None then Some (s\<lparr>ended := (ended s)(eid \<mapsto> e)\<rparr>) else None)"
| "step q (Leave eid) s = (case calls s eid of
       Some (Leaving r) \<Rightarrow> Some (s\<lparr>pending := (pending s)(eid := False), calls := (calls s)(eid \<mapsto> Returned r)\<rparr>)
     | _ \<Rightarrow> None)"
| "step q (Look tid eid resp) s = (if responders s tid \<noteq> None then None
     else Some (s\<lparr>responders := (responders s)(tid \<mapsto>
       (if pending s eid then Sending eid resp else Answered (Some (no_pending q eid))))\<rparr>))"
| "step q (Send tid eid resp) s = (case (responders s tid, requests s eid) of
       (Some (Sending i x), Some r) \<Rightarrow> if i = eid \<and> x = resp
         then Some (s\<lparr>responders := (responders s)(tid \<mapsto> Answered None),
           requests := (if Rq_result r = None then (requests s)(eid \<mapsto> r\<lparr>Rq_result := Some resp\<rparr>) else requests s)\<rparr>)
         else None
     | _ \<Rightarrow> None)"
| "step q (Tick t) s = (if now s \<le> t then Some (s\<lparr>now := t\<rparr>) else None)"

abbreviation history :: "(string \<Rightarrow> string) \<Rightarrow> event list \<Rightarrow> Service \<Rightarrow> Service option" where
  "history q \<equiv> run_events (step q)"

section \<open>Around the service\<close>

text \<open>The fields of a response's data map that are strings, by key.\<close>

definition response_of :: "(string \<Rightarrow> string option) \<Rightarrow> Response" where
  "response_of data = (let a = (case data ''action'' of Some x \<Rightarrow> x | None \<Rightarrow> []) in
     \<lparr>Resp_Action = (if a = ActionAccept \<or> a = ActionDecline \<or> a = ActionCancel then a else ActionCancel),
      Resp_Content = (case data ''content'' of Some x \<Rightarrow> x | None \<Rightarrow> []), Resp_Reason = []\<rparr>)"

text \<open>The call of \<^verbatim>\<open>Respond\<close> that \<^verbatim>\<open>RespondFromEnvelopeData\<close> makes, or its error.\<close>

definition RespondFromEnvelopeData :: "(string \<Rightarrow> string option) \<Rightarrow> go_error + (string \<times> Response)" where
  "RespondFromEnvelopeData data = (case data ''elicitation_id'' of
       Some eid \<Rightarrow> if eid = [] then Inl (Errorf ''elicitation: missing elicitation_id in response data'')
         else Inr (eid, response_of data)
     | None \<Rightarrow> Inl (Errorf ''elicitation: missing elicitation_id in response data''))"

definition ValidateResponse :: "RequestedSchema option \<Rightarrow> Response \<Rightarrow> go_error option" where
  "ValidateResponse schema resp = (
     if Resp_Action resp \<noteq> ActionAccept then None
     else case schema of None \<Rightarrow> None
       | Some sc \<Rightarrow>
          if Schema_Type sc = SchemaTypeBoolean then None
          else if Schema_Type sc = SchemaTypeString \<and> Resp_Content resp = []
          then Some (Errorf ''elicitation: string schema response requires non-empty content when action=accept'')
          else None)"

record ElicitationCreateParams =
  P_Message :: string
  P_Schema :: "RequestedSchema option"

definition elicit_input :: "string \<Rightarrow> string \<Rightarrow> string \<Rightarrow> ElicitationCreateParams \<Rightarrow> ElicitInput" where
  "elicit_input sid aid tool p = \<lparr>In_Message = P_Message p,
     In_Schema = map_option (\<lambda>sc. sc\<lparr>Schema_Type :=
       (if Schema_Type sc \<noteq> SchemaTypeBoolean \<and> Schema_Type sc \<noteq> SchemaTypeString then SchemaTypeString
        else Schema_Type sc)\<rparr>) (P_Schema p),
     In_ToolCallID = tool, In_SessionID = sid, In_AgentID = aid, In_Origin = ''server''\<rparr>"

definition Canceled :: go_error where
  "Canceled = Sentinel ''context canceled''"

text \<open>What \<^verbatim>\<open>ElicitUserInput\<close> makes of the answer of \<^verbatim>\<open>Elicit\<close>; \<^const>\<open>None\<close> is a missing service.\<close>

definition ElicitUserInput :: "(Response \<times> go_error option) option \<Rightarrow> (UserAction \<times> string) \<times> go_error option" where
  "ElicitUserInput r = (case r of
       None \<Rightarrow> ((ActionAccept, []), None)
     | Some (resp, Some e) \<Rightarrow> if Is e Canceled then ((Resp_Action resp, Resp_Content resp), None)
         else ((ActionCancel, []), Some (Wrapf ''mcp: elicitation: '' e))
     | Some (resp, None) \<Rightarrow> ((Resp_Action resp, Resp_Content resp), None))"

section \<open>Steps of one call\<close>

fun own :: "string \<Rightarrow> event \<Rightarrow> bool" where
  "own eid (Begin i req) = (i = eid)"
| "own eid (EmitOK i) = (i = eid)"
| "own eid (EmitFail i e) = (i = eid)"
| "own eid (Receive i) = (i = eid)"
| "own eid (Expire i) = (i = eid)"
| "own eid (CtxDone i) = (i = eid)"
| "own eid (Leave i) = (i = eid)"
| "own eid _ = False"

definition sends :: "string \<Rightarrow> event list \<Rightarrow> Response list" where
  "sends eid es = concat (map (\<lambda>e. case e of Send tid i resp \<Rightarrow> if i = eid then [resp] else [] | _ \<Rightarrow> []) es)"

lemma sends_append: "sends eid (es @ fs) = sends eid es @ sends eid fs"
  by (simp add: sends_def)

lemma sends_snoc: "sends eid (es @ [e]) = sends eid es @ (case e of Send tid i resp \<Rightarrow> if i = eid then [resp] else [] | _ \<Rightarrow> [])"
  by (simp add: sends_def split: event.splits)

text \<open>The steps with which a call is decided, and the steps a call can make without a response, an
  end of its context or a failure of the emitter.\<close>

fun decides :: "string \<Rightarrow> event \<Rightarrow> bool" where
  "decides eid (EmitFail i e) = (i = eid)"
| "decides eid (Receive i) = (i = eid)"
| "decides eid (Expire i) = (i = eid)"
| "decides eid (CtxDone i) = (i = eid)"
| "decides eid _ = False"

fun unaided :: "string \<Rightarrow> event \<Rightarrow> bool" where
  "unaided eid (EmitOK i) = (i = eid)"
| "unaided eid (Expire i) = (i = eid)"
| "unaided eid (Leave i) = (i = eid)"
| "unaided eid (Tick t) = True"
| "unaided eid _ = False"

text \<open>The time a history has come to.\<close>

definition clock :: "go_time \<Rightarrow> event list \<Rightarrow> go_time" where
  "clock t0 es = foldl (\<lambda>t e. case e of Tick t' \<Rightarrow> t' | _ \<Rightarrow> t) t0 es"

lemma clock_snoc: "clock t0 (es @ [e]) = (case e of Tick t \<Rightarrow> t | _ \<Rightarrow> clock t0 es)"
  by (simp add: clock_def split: event.splits)

text \<open>
  What a history says of one elicitation: how many steps its call has made, that it is in the
  map exactly while the call runs, that its channel holds the first response sent to it until
  the call takes it, when its timer fires, and which step decided its answer.
\<close>

fun steps_made :: "phase option \<Rightarrow> nat set" where
  "steps_made None = {0}"
| "steps_made (Some (Emitting p)) = {1}"
| "steps_made (Some (Waiting d)) = {2}"
| "steps_made (Some (Leaving r)) = {2, 3}"
| "steps_made (Some (Returned r)) = {3, 4}"

fun running :: "phase option \<Rightarrow> bool" where
  "running None = False"
| "running (Some (Returned r)) = False"
| "running (Some _) = True"

fun decided :: "phase option \<Rightarrow> nat" where
  "decided (Some (Leaving r)) = 1"
| "decided (Some (Returned r)) = 1"
| "decided _ = 0"

definition first_of :: "'a list \<Rightarrow> 'a option" where
  "first_of xs = (case xs of [] \<Rightarrow> None | x # _ \<Rightarrow> Some x)"

definition by_emitter :: "string \<Rightarrow> event list \<Rightarrow> Response \<times> go_error option \<Rightarrow> bool" where
  "by_emitter eid es a \<longleftrightarrow> (\<exists>e. EmitFail eid e \<in> set es \<and> a = (cancelled ''emit_failed'', Some (errElicitEmit e)))"

definition by_timer :: "duration \<Rightarrow> go_time \<Rightarrow> string \<Rightarrow> event list \<Rightarrow> Response \<times> go_error option \<Rightarrow> bool" where
  "by_timer dur t0 eid es a \<longleftrightarrow> (\<exists>es1 es2 es3. es = es1 @ EmitOK eid # es2 @ Expire eid # es3
     \<and> clock t0 es1 + dur \<le> clock t0 (es1 @ EmitOK eid # es2) \<and> a = (cancelled ''timeout'', None))"

definition by_context :: "string \<Rightarrow> event list \<Rightarrow> Response \<times> go_error option \<Rightarrow> bool" where
  "by_context eid es a \<longleftrightarrow> (\<exists>es1 es2 e. es = es1 @ CtxDone eid # es2 \<and> CtxEnd eid e \<in> set es1
     \<and> a = (cancelled ''context_canceled'', Some e))"

definition by_user :: "string \<Rightarrow> event list \<Rightarrow> Response \<times> go_error option \<Rightarrow> bool" where
  "by_user eid es a \<longleftrightarrow> (\<exists>es1 es2 r. es = es1 @ Receive eid # es2 \<and> first_of (sends eid es1) = Some r \<and> a = (r, None))"

definition answer_from :: "duration \<Rightarrow> go_time \<Rightarrow> string \<Rightarrow> event list \<Rightarrow> Response \<times> go_error option \<Rightarrow> bool" where
  "answer_from dur t0 eid es a \<longleftrightarrow>
     by_user eid es a \<or> by_timer dur t0 eid es a \<or> by_context eid es a \<or> by_emitter eid es a"

definition timer_set :: "duration \<Rightarrow> go_time \<Rightarrow> string \<Rightarrow> event list \<Rightarrow> go_time \<Rightarrow> bool" where
  "timer_set dur t0 eid es d \<longleftrightarrow> (\<exists>es1 es2. es = es1 @ EmitOK eid # es2 \<and> d = clock t0 es1 + dur)"

fun channel_ok :: "Response list \<Rightarrow> phase option \<Rightarrow> Request option \<Rightarrow> bool" where
  "channel_ok ss None rq = (rq = None \<and> ss = [])"
| "channel_ok ss (Some (Emitting p)) rq = (\<exists>r. rq = Some r \<and> Rq_result r = first_of ss)"
| "channel_ok ss (Some (Waiting d)) rq = (\<exists>r. rq = Some r \<and> Rq_result r = first_of ss)"
| "channel_ok ss (Some _) rq = (rq \<noteq> None)"

fun answer_ok :: "duration \<Rightarrow> go_time \<Rightarrow> string \<Rightarrow> event list \<Rightarrow> phase option \<Rightarrow> bool" where
  "answer_ok dur t0 eid es (Some (Waiting d)) = timer_set dur t0 eid es d"
| "answer_ok dur t0 eid es (Some (Leaving a)) = answer_from dur t0 eid es a"
| "answer_ok dur t0 eid es (Some (Returned a)) = answer_from dur t0 eid es a"
| "answer_ok dur t0 eid es _ = True"

definition call_inv :: "duration \<Rightarrow> go_time \<Rightarrow> string \<Rightarrow> event list \<Rightarrow> Service \<Rightarrow> bool" where
  "call_inv dur t0 eid es s \<longleftrightarrow> length (filter (own eid) es) \<in> steps_made (calls s eid)
     \<and> length (filter (decides eid) es) = decided (calls s eid)
     \<and> pending s eid = running (calls s eid)
     \<and> channel_ok (sends eid es) (calls s eid) (requests s eid)
     \<and> answer_ok dur t0 eid es (calls s eid)
     \<and> (\<forall>tid resp. responders s tid = Some (Sending eid resp) \<longrightarrow> calls s eid \<noteq> None)
     \<and> now s = clock t0 es \<and> timeoutDur s = dur
     \<and> (\<forall>e. ended s eid = Some e \<longrightarrow> CtxEnd eid e \<in> set es)"

lemma first_of_append: "first_of (xs @ ys) = (if xs = [] then first_of ys else first_of xs)"
  by (cases xs) (simp_all add: first_of_def)

lemma first_of_Some: "first_of xs = Some x \<Longrightarrow> first_of (xs @ ys) = Some x"
  by (cases xs) (simp_all add: first_of_def)

lemma channel_ok_None [simp]: "\<not> channel_ok ss (Some p) None"
  by (cases p) simp_all

lemma answer_from_more: "answer_from dur t0 eid es a \<Longrightarrow> answer_from dur t0 eid (es @ fs) a"
  unfolding answer_from_def by_user_def by_timer_def by_context_def by_emitter_def
  by (elim disjE exE conjE) (simp, metis append.assoc append_Cons)+

lemma timer_set_more: "timer_set dur t0 eid es d \<Longrightarrow> timer_set dur t0 eid (es @ fs) d"
  unfolding timer_set_def by (metis append.assoc append_Cons)

lemma answer_ok_more: "answer_ok dur t0 eid es p \<Longrightarrow> answer_ok dur t0 eid (es @ fs) p"
  by (cases "(dur, t0, eid, es, p)" rule: answer_ok.cases) (simp_all add: answer_from_more timer_set_more)

lemma answer_by_user: "first_of (sends eid es) = Some r \<Longrightarrow> answer_from dur t0 eid (es @ [Receive eid]) (r, None)"
  by (auto simp: answer_from_def by_user_def)

lemma answer_by_timer: "timer_set dur t0 eid es d \<Longrightarrow> d \<le> clock t0 es \<Longrightarrow>
    answer_from dur t0 eid (es @ [Expire eid]) (cancelled ''timeout'', None)"
  by (fastforce simp: answer_from_def by_timer_def timer_set_def)

lemma answer_by_context: "CtxEnd eid e \<in> set es \<Longrightarrow>
    answer_from dur t0 eid (es @ [CtxDone eid]) (cancelled ''context_canceled'', Some e)"
  by (auto simp: answer_from_def by_context_def)

lemma answer_by_emitter: "answer_from dur t0 eid (es @ [EmitFail eid e]) (cancelled ''emit_failed'', Some (errElicitEmit e))"
  by (auto simp: answer_from_def by_emitter_def)

lemma timer_started: "timer_set dur t0 eid (es @ [EmitOK eid]) (clock t0 es + dur)"
  by (auto simp: timer_set_def)

lemmas answers = answer_by_user answer_by_timer answer_by_context answer_by_emitter timer_started answer_ok_more

lemma timeoutDur_simps [simp]:
  "timeoutDur (s\<lparr>requests := a\<rparr>) = timeoutDur s" "timeoutDur (s\<lparr>pending := b\<rparr>) = timeoutDur s"
  "timeoutDur (s\<lparr>calls := c\<rparr>) = timeoutDur s" "timeoutDur (s\<lparr>responders := d\<rparr>) = timeoutDur s"
  "timeoutDur (s\<lparr>ended := x\<rparr>) = timeoutDur s" "timeoutDur (s\<lparr>emitted := y\<rparr>) = timeoutDur s"
  "timeoutDur (s\<lparr>now := z\<rparr>) = timeoutDur s"
  by (simp_all add: timeoutDur_def)

lemma call_inv_step:
  assumes inv: "call_inv dur t0 eid es s" and st: "step q e s = Some s'"
  shows "call_inv dur t0 eid (es @ [e]) s'"
proof (cases e)
  case (Begin i req)
  then show ?thesis using inv st
    by (cases "i = eid"; cases "calls s eid")
      (auto simp: call_inv_def sends_snoc clock_snoc new_request_def first_of_def answers split: if_splits)
next
  case (EmitOK i)
  then show ?thesis using inv st
    by (cases "i = eid") (auto simp: call_inv_def sends_snoc clock_snoc answers split: option.splits phase.splits)
next
  case (EmitFail i err)
  then show ?thesis using inv st
    by (cases "i = eid") (auto simp: call_inv_def sends_snoc clock_snoc answers split: option.splits phase.splits)
next
  case (Receive i)
  then show ?thesis using inv st
    by (cases "i = eid") (auto simp: call_inv_def sends_snoc clock_snoc answers split: option.splits phase.splits)
next
  case (Expire i)
  then show ?thesis using inv st
    by (cases "i = eid")
      (auto simp: call_inv_def sends_snoc clock_snoc answers split: option.splits phase.splits if_splits)
next
  case (CtxDone i)
  then show ?thesis using inv st
    by (cases "i = eid") (auto simp: call_inv_def sends_snoc clock_snoc answers split: option.splits phase.splits)
next
  case (CtxEnd i err)
  then show ?thesis using inv st
    by (auto simp: call_inv_def sends_snoc clock_snoc answers split: if_splits)
next
  case (Leave i)
  then show ?thesis using inv st
    by (cases "i = eid")
      (auto simp: call_inv_def sends_snoc clock_snoc answers answer_from_more split: option.splits phase.splits)
next
  case (Look tid i resp)
  then show ?thesis using inv st
    by (auto simp: call_inv_def sends_snoc clock_snoc answers split: if_splits)
next
  case (Send tid i resp)
  then obtain r where r: "responders s tid = Some (Sending i resp)" "requests s i = Some r"
    and s': "s' = s\<lparr>responders := (responders s)(tid \<mapsto> Answered None),
      requests := (if Rq_result r = None then (requests s)(i \<mapsto> r\<lparr>Rq_result := Some resp\<rparr>) else requests s)\<rparr>"
    using st by (auto split: option.splits rphase.splits if_splits)
  show ?thesis
  proof (cases "i = eid")
    case True
    obtain p where p: "calls s eid = Some p" using inv r(1) True by (auto simp: call_inv_def)
    have "channel_ok (sends eid es @ [resp]) (Some p) (requests s' eid)"
      using inv r(2) p True s' by (cases p) (auto simp: call_inv_def first_of_append first_of_def split: list.splits)
    with True inv r p s' Send show ?thesis by (auto simp: call_inv_def sends_snoc clock_snoc answers)
  next
    case False
    with inv r s' Send show ?thesis by (auto simp: call_inv_def sends_snoc clock_snoc answers)
  qed
next
  case (Tick t)
  then show ?thesis using inv st by (auto simp: call_inv_def sends_snoc clock_snoc answers split: if_splits)
qed

lemma call_inv_history:
  "history q es (New env secs t0) = Some s \<Longrightarrow> call_inv (timeoutDur (New env secs t0)) t0 eid es s"
proof (induction es arbitrary: s rule: rev_induct)
  case Nil
  then show ?case by (auto simp: call_inv_def New_def sends_def clock_def)
next
  case (snoc e es)
  then show ?case using call_inv_step by (metis run_events_snoc)
qed

text \<open>The steps of others leave a call where it is and do not turn the clock back.\<close>

lemma others_step: "step q e s = Some s' \<Longrightarrow> \<not> own eid e \<Longrightarrow> calls s' eid = calls s eid \<and> now s \<le> now s'"
  by (cases e) (auto split: if_splits option.splits phase.splits rphase.splits)

lemma others_history:
  "history q fs s = Some s' \<Longrightarrow> filter (own eid) fs = [] \<Longrightarrow> calls s' eid = calls s eid \<and> now s \<le> now s'"
proof (induction fs arbitrary: s)
  case (Cons e fs)
  then obtain s1 where "step q e s = Some s1" "history q fs s1 = Some s'" "\<not> own eid e" "filter (own eid) fs = []"
    by (auto split: option.splits if_splits)
  with Cons.IH [of s1] others_step [of q e s s1 eid] show ?case by auto
qed simp

lemma timer_fires:
  assumes "calls s eid = Some (Waiting d)" "d \<le> now s"
  shows "\<exists>s'. history q [Expire eid, Leave eid] s = Some s'
    \<and> calls s' eid = Some (Returned (cancelled ''timeout'', None)) \<and> \<not> pending s' eid"
  using assms by simp

text \<open>A configured timeout of 9223372037 seconds or more is not representable in nanoseconds.\<close>

lemma long_timeout_overflows: "timeoutDur (New ''9223372037'' 0 t0) < 0"
  by (simp add: timeoutDur_def New_def configured_timeout_def Atoi_def num_def digit_char_def between_def wrap64_def)

section \<open>Properties\<close>

text \<open>
  C25. Every call of \<^verbatim>\<open>Elicit\<close> comes to its end, and the timer alone sees to it. In any history
  a call makes at most four steps of its own. Whatever its state, it can return although nobody
  responds and its context never ends: some continuation of at most four steps, which are the
  emitter's success, the passing of time, the timer and the return, ends it. And once its
  deadline is over, the timer's branch stays open: whatever the other calls, the responders and
  the clock do from then on, as long as the call itself has not moved on, it can return the
  cancellation of the timeout in two steps, and is then no longer pending.
\<close>

theorem elicit_returns:
  assumes "history q es (New env secs t0) = Some s" "calls s eid = Some p"
  shows "length (filter (own eid) es) \<le> 4
    \<and> (\<exists>fs s' r. list_all (unaided eid) fs \<and> length fs \<le> 4 \<and> history q fs s = Some s' \<and> calls s' eid = Some (Returned r))
    \<and> (\<forall>d fs s'. p = Waiting d \<longrightarrow> d \<le> now s \<longrightarrow> history q fs s = Some s' \<longrightarrow> filter (own eid) fs = [] \<longrightarrow>
         (\<exists>s''. history q [Expire eid, Leave eid] s' = Some s''
            \<and> calls s'' eid = Some (Returned (cancelled ''timeout'', None)) \<and> \<not> pending s'' eid))"
proof -
  have "length (filter (own eid) es) \<in> steps_made (Some p)"
    using call_inv_history [OF assms(1), of eid] assms(2) by (simp add: call_inv_def)
  then have "length (filter (own eid) es) \<le> 4" by (cases p) auto
  moreover have "\<exists>fs s' r. list_all (unaided eid) fs \<and> length fs \<le> 4 \<and> history q fs s = Some s' \<and> calls s' eid = Some (Returned r)"
  proof (cases p)
    case (Emitting x)
    with assms(2) show ?thesis
      by (intro exI [of _ "[EmitOK eid, Tick (max (now s) (now s + timeoutDur s)), Expire eid, Leave eid]"]) simp
  next
    case (Waiting d)
    with assms(2) show ?thesis by (intro exI [of _ "[Tick (max d (now s)), Expire eid, Leave eid]"]) simp
  next
    case (Leaving r)
    with assms(2) show ?thesis by (intro exI [of _ "[Leave eid]"]) simp
  next
    case (Returned r)
    with assms(2) show ?thesis by (intro exI [of _ "[]"]) simp
  qed
  moreover have "\<exists>s''. history q [Expire eid, Leave eid] s' = Some s''
      \<and> calls s'' eid = Some (Returned (cancelled ''timeout'', None)) \<and> \<not> pending s'' eid"
    if "p = Waiting d" "d \<le> now s" "history q fs s = Some s'" "filter (own eid) fs = []" for d fs s'
    using timer_fires [of s' eid d q] others_history [OF that(3,4)] that(1,2) assms(2) by auto
  ultimately show ?thesis by blast
qed

text \<open>
  C26. A confirmation comes from the user, and a cancellation says why. Whatever the
  interleaving, a call that has returned was decided by exactly one step, and that step fixes
  its answer: it received, without error, the first response that had been sent to its request;
  or its timer fired, not before the timeout had passed since its prompt was emitted, and it
  returned "timeout" without error; or its context had ended, and it returned
  "context_canceled" with the context's error; or the emitter failed, and it returned
  "emit_failed" with the emitter's error, wrapped. So a tool is told to go ahead only if the
  first response to its question was to accept. The request of a returned call is no longer
  pending: every later \<^verbatim>\<open>Respond\<close> to it is refused.
\<close>

theorem answer_authentic:
  assumes "history q es (New env secs t0) = Some s" "calls s eid = Some (Returned (resp, err))"
  shows "length (filter (decides eid) es) = 1
    \<and> ((\<exists>es1 es2. es = es1 @ Receive eid # es2 \<and> first_of (sends eid es1) = Some resp \<and> err = None)
      \<or> (\<exists>es1 es2 es3. es = es1 @ EmitOK eid # es2 @ Expire eid # es3
          \<and> clock t0 es1 + timeoutDur (New env secs t0) \<le> clock t0 (es1 @ EmitOK eid # es2)
          \<and> resp = cancelled ''timeout'' \<and> err = None)
      \<or> (\<exists>es1 es2 e. es = es1 @ CtxDone eid # es2 \<and> CtxEnd eid e \<in> set es1
          \<and> resp = cancelled ''context_canceled'' \<and> err = Some e)
      \<or> (\<exists>e. EmitFail eid e \<in> set es \<and> resp = cancelled ''emit_failed'' \<and> err = Some (errElicitEmit e)))
    \<and> (fst (fst (ElicitUserInput (Some (resp, err)))) = ActionAccept
        \<longrightarrow> first_of (sends eid es) = Some resp \<and> Resp_Action resp = ActionAccept)
    \<and> (responders s tid = None \<longrightarrow>
        (\<exists>s'. step q (Look tid eid r) s = Some s' \<and> responders s' tid = Some (Answered (Some (no_pending q eid)))))"
proof -
  let ?dur = "timeoutDur (New env secs t0)"
  have inv: "length (filter (decides eid) es) = 1" "answer_from ?dur t0 eid es (resp, err)" "\<not> pending s eid"
    using call_inv_history [OF assms(1), of eid] assms(2) by (simp_all add: call_inv_def)
  have accepted: "first_of (sends eid es) = Some resp \<and> Resp_Action resp = ActionAccept"
    if "fst (fst (ElicitUserInput (Some (resp, err)))) = ActionAccept"
    using inv(2) that unfolding answer_from_def
    by (auto simp: by_user_def by_timer_def by_context_def by_emitter_def ElicitUserInput_def cancelled_def action_defs
        sends_append first_of_Some split: if_splits)
  have "by_user eid es (resp, err) \<or> by_timer ?dur t0 eid es (resp, err)
      \<or> by_context eid es (resp, err) \<or> by_emitter eid es (resp, err)"
    using inv(2) by (simp add: answer_from_def)
  then show ?thesis using inv(1,3) accepted
    by (auto simp: by_user_def by_timer_def by_context_def by_emitter_def)
qed

section \<open>Instances\<close>

definition sample_question :: ElicitInput where
  "sample_question = \<lparr>In_Message = ''Send?'', In_Schema = Some \<lparr>Schema_Type = SchemaTypeBoolean, Schema_Title = [],
     Schema_Description = []\<rparr>, In_ToolCallID = ''tool'', In_SessionID = ''s1'', In_AgentID = ''a1'', In_Origin = ''server''\<rparr>"

definition sample_yes :: Response where
  "sample_yes = \<lparr>Resp_Action = ActionAccept, Resp_Content = [], Resp_Reason = []\<rparr>"

definition sample_no :: Response where
  "sample_no = \<lparr>Resp_Action = ActionDecline, Resp_Content = [], Resp_Reason = []\<rparr>"

text \<open>Two users answer the same question; the first answer counts.\<close>

definition sample_events :: "event list" where
  "sample_events = [Begin ''e1'' sample_question, Look 1 ''e1'' sample_yes, EmitOK ''e1'', Look 2 ''e1'' sample_no,
     Send 1 ''e1'' sample_yes, Send 2 ''e1'' sample_no, Receive ''e1'', Leave ''e1'']"

lemma sample_history:
  "\<exists>s. history (\<lambda>x. x) sample_events (New [] 0 0) = Some s
     \<and> calls s ''e1'' = Some (Returned (sample_yes, None)) \<and> responders s 3 = None"
  by (simp add: sample_events_def New_def new_request_def)

theorem elicit_returns_witness:
  "\<exists>s s' s''. history (\<lambda>x. x) (take 3 sample_events @ [Tick 300000000000]) (New [] 0 0) = Some s
     \<and> calls s ''e1'' = Some (Waiting 300000000000)
     \<and> history (\<lambda>x. x) [Look 2 ''e1'' sample_no, CtxEnd ''e1'' Canceled] s = Some s'
     \<and> history (\<lambda>x. x) [Expire ''e1'', Leave ''e1''] s' = Some s''
     \<and> calls s'' ''e1'' = Some (Returned (cancelled ''timeout'', None))"
proof -
  obtain s where s: "history (\<lambda>x. x) (take 3 sample_events @ [Tick 300000000000]) (New [] 0 0) = Some s"
    "calls s ''e1'' = Some (Waiting 300000000000)" "(300000000000 :: go_time) \<le> now s" "ended s ''e1'' = None" "responders s 2 = None"
    by (simp add: sample_events_def New_def timeoutDur_def wrap64_def configured_timeout_def DefaultTimeoutSeconds_def)
  obtain s' where s': "history (\<lambda>x. x) [Look 2 ''e1'' sample_no, CtxEnd ''e1'' Canceled] s = Some s'"
    using s(4,5) by simp
  have "filter (own ''e1'') [Look 2 ''e1'' sample_no, CtxEnd ''e1'' Canceled] = []" by simp
  with elicit_returns [OF s(1,2)] s(1-3) s' show ?thesis by blast
qed

theorem answer_authentic_witness:
  "\<exists>s. history (\<lambda>x. x) sample_events (New [] 0 0) = Some s \<and> calls s ''e1'' = Some (Returned (sample_yes, None))
     \<and> first_of (sends ''e1'' sample_events) = Some sample_yes \<and> length (sends ''e1'' sample_events) = 2"
proof -
  obtain s where s: "history (\<lambda>x. x) sample_events (New [] 0 0) = Some s" "calls s ''e1'' = Some (Returned (sample_yes, None))"
    using sample_history by blast
  have "fst (fst (ElicitUserInput (Some (sample_yes, None)))) = ActionAccept"
    by (simp add: ElicitUserInput_def sample_yes_def)
  with answer_authentic [OF s, of 3 sample_yes] have "first_of (sends ''e1'' sample_events) = Some sample_yes" by blast
  with s show ?thesis by (simp add: sample_events_def sends_def)
qed

end
