(* ===== verification/Coordination.thy ===== *)
theory Coordination
  imports Prelude
begin

text \<open>
  Package \<^verbatim>\<open>internal/coordination\<close>: the key-value layer for state that agents share. The
  interface \<^verbatim>\<open>CoordStore\<close> is a record of operations over a state; \<^verbatim>\<open>BadgerStore\<close> and
  \<^verbatim>\<open>NoopStore\<close> are its two implementations. Every operation gets the instant it runs at,
  because entries can expire.

  Badger itself is a parameter: the record \<open>badger\<close> of the transactions the store runs. The
  locale \<open>badger_laws\<close> states what its documentation promises, on a \<open>view\<close> of the database
  (the value of each key at each instant); \<open>coord_store\<close> states what the interface promises.
  The store over Badger keeps the interface's promises if Badger keeps its own, and the
  no-op store keeps those of \<open>coord_reads\<close>: it reads as an empty store.
\<close>

section \<open>The interface\<close>

definition ErrNotFound :: go_error where
  "ErrNotFound = Sentinel ''key not found''"

record KVEntry =
  Key :: string
  Value :: string
  ExpiresAt :: go_time

definition PrefixHeartbeat :: string where "PrefixHeartbeat = ''agent:''"
definition PrefixTask :: string where "PrefixTask = ''task:''"
definition PrefixWorker :: string where "PrefixWorker = ''worker:''"

definition HeartbeatTTL :: duration where "HeartbeatTTL = 30 * 1000000000"
definition WorkerTTL :: duration where "WorkerTTL = 5 * 60 * 1000000000"

record 'c CoordStore =
  kv_Put :: "go_time \<Rightarrow> string \<Rightarrow> string \<Rightarrow> duration \<Rightarrow> 'c \<Rightarrow> 'c \<times> go_error option"
  kv_Get :: "go_time \<Rightarrow> string \<Rightarrow> 'c \<Rightarrow> go_error + string"
  kv_Delete :: "go_time \<Rightarrow> string \<Rightarrow> 'c \<Rightarrow> 'c \<times> go_error option"
  kv_List :: "go_time \<Rightarrow> string \<Rightarrow> 'c \<Rightarrow> go_error + KVEntry list"
  kv_Available :: bool

section \<open>The store over Badger\<close>

text \<open>
  The transactions: an update that sets one entry, with a time to live or without; a view
  that reads one key; an update that deletes one key; a view that iterates over a prefix
  and answers key, value and expiry (in Unix seconds, \<open>0\<close> for none) of each item. An update
  that fails answers with the error.
\<close>

record 'd badger =
  set_entry :: "go_time \<Rightarrow> string \<Rightarrow> string \<Rightarrow> duration option \<Rightarrow> 'd \<Rightarrow> 'd \<times> go_error option"
  txn_get :: "go_time \<Rightarrow> string \<Rightarrow> 'd \<Rightarrow> go_error + string"
  txn_delete :: "go_time \<Rightarrow> string \<Rightarrow> 'd \<Rightarrow> 'd \<times> go_error option"
  iterate_prefix :: "go_time \<Rightarrow> string \<Rightarrow> 'd \<Rightarrow> go_error + (string \<times> string \<times> int) list"

definition ErrKeyNotFound :: go_error where
  "ErrKeyNotFound = Sentinel ''Key not found''"

definition Badger_Put :: "'d badger \<Rightarrow> go_time \<Rightarrow> string \<Rightarrow> string \<Rightarrow> duration \<Rightarrow> 'd \<Rightarrow> 'd \<times> go_error option" where
  "Badger_Put B now key value ttl d = set_entry B now key value (if ttl > 0 then Some ttl else None) d"

definition Badger_Get :: "'d badger \<Rightarrow> go_time \<Rightarrow> string \<Rightarrow> 'd \<Rightarrow> go_error + string" where
  "Badger_Get B now key d = (case txn_get B now key d of
       Inl e \<Rightarrow> Inl (if Is e ErrKeyNotFound then ErrNotFound else e)
     | Inr v \<Rightarrow> Inr v)"

definition Badger_Delete :: "'d badger \<Rightarrow> go_time \<Rightarrow> string \<Rightarrow> 'd \<Rightarrow> 'd \<times> go_error option" where
  "Badger_Delete B now key d = (case txn_delete B now key d of
       (d', Some e) \<Rightarrow> (d', if Is e ErrKeyNotFound then None else Some e)
     | (d', None) \<Rightarrow> (d', None))"

text \<open>\<^verbatim>\<open>time.Unix\<close>: the Unix epoch is 62135596800 seconds after the zero time.\<close>

definition unix_time :: "int \<Rightarrow> go_time" where
  "unix_time s = (s + 62135596800) * 1000000000"

definition Badger_List :: "'d badger \<Rightarrow> go_time \<Rightarrow> string \<Rightarrow> 'd \<Rightarrow> go_error + KVEntry list" where
  "Badger_List B now p d = (case iterate_prefix B now p d of Inl e \<Rightarrow> Inl e
     | Inr items \<Rightarrow> Inr (map (\<lambda>(k, v, x). \<lparr>Key = k, Value = v,
          ExpiresAt = if x > 0 then unix_time x else 0\<rparr>) items))"

definition BadgerStore :: "'d badger \<Rightarrow> 'd CoordStore" where
  "BadgerStore B = \<lparr>kv_Put = Badger_Put B, kv_Get = Badger_Get B, kv_Delete = Badger_Delete B,
     kv_List = Badger_List B, kv_Available = True\<rparr>"

section \<open>The no-op store\<close>

definition NoopStore :: "unit CoordStore" where
  "NoopStore = \<lparr>kv_Put = (\<lambda>now key value ttl c. (c, None)), kv_Get = (\<lambda>now key c. Inl ErrNotFound),
     kv_Delete = (\<lambda>now key c. (c, None)), kv_List = (\<lambda>now p c. Inr []), kv_Available = False\<rparr>"

section \<open>Contracts\<close>

text \<open>What a reader of the store may rely on.\<close>

locale coord_reads =
  fixes S :: "'c CoordStore"
    and view :: "'c \<Rightarrow> go_time \<Rightarrow> string \<Rightarrow> string option"
  assumes get_found: "kv_Get S now k c = Inr v \<Longrightarrow> view c now k = Some v"
    and get_missing: "kv_Get S now k c = Inl e \<Longrightarrow> Is e ErrNotFound \<Longrightarrow> view c now k = None"
    and delete_ok: "kv_Delete S now k c = (c', None) \<Longrightarrow> now \<le> t \<Longrightarrow> view c' t = (view c t)(k := None)"
    and delete_failed: "kv_Delete S now k c = (c', Some e) \<Longrightarrow> view c' = view c"
    and list_ok: "kv_List S now p c = Inr es \<Longrightarrow> distinct (map Key es)
      \<and> (\<forall>k v. (k, v) \<in> (\<lambda>e. (Key e, Value e)) ` set es \<longleftrightarrow> prefix p k \<and> view c now k = Some v)"

text \<open>What a writer may rely on as well: a value without a time to live stays.\<close>

locale coord_store = coord_reads +
  assumes put_ok: "kv_Put S now k v 0 c = (c', None) \<Longrightarrow> now \<le> t \<Longrightarrow> view c' t = (view c t)(k \<mapsto> v)"
    and put_other: "kv_Put S now k v ttl c = (c', r) \<Longrightarrow> k' \<noteq> k \<Longrightarrow> view c' t k' = view c t k'"
    and put_failed: "kv_Put S now k v ttl c = (c', Some e) \<Longrightarrow> view c' = view c"
begin

text \<open>A later read of a key finds the last value written, or fails for another reason.\<close>

lemma get_after_put:
  "kv_Put S now k v 0 c = (c', None) \<Longrightarrow> now \<le> t
    \<Longrightarrow> kv_Get S t k' c' = Inr w \<Longrightarrow> Some w = (if k' = k then Some v else view c t k')"
  using put_ok get_found by fastforce

lemma put_not_missing:
  "kv_Put S now k v 0 c = (c', None) \<Longrightarrow> now \<le> t \<Longrightarrow> kv_Get S t k c' = Inl e \<Longrightarrow> \<not> Is e ErrNotFound"
  using put_ok get_missing by fastforce

end

text \<open>What Badger's documentation promises of the transactions.\<close>

locale badger_laws =
  fixes B :: "'d badger"
    and view :: "'d \<Rightarrow> go_time \<Rightarrow> string \<Rightarrow> string option"
  assumes set_ok: "set_entry B now k v None d = (d', None) \<Longrightarrow> now \<le> t \<Longrightarrow> view d' t = (view d t)(k \<mapsto> v)"
    and set_other: "set_entry B now k v ttl d = (d', r) \<Longrightarrow> k' \<noteq> k \<Longrightarrow> view d' t k' = view d t k'"
    and set_failed: "set_entry B now k v ttl d = (d', Some e) \<Longrightarrow> view d' = view d"
    and txn_found: "txn_get B now k d = Inr v \<Longrightarrow> view d now k = Some v"
    and txn_missing: "txn_get B now k d = Inl e \<Longrightarrow> Is e ErrKeyNotFound \<or> Is e ErrNotFound \<Longrightarrow> view d now k = None"
    and del_ok: "txn_delete B now k d = (d', None) \<Longrightarrow> now \<le> t \<Longrightarrow> view d' t = (view d t)(k := None)"
    and del_missing: "txn_delete B now k d = (d', Some e) \<Longrightarrow> Is e ErrKeyNotFound \<Longrightarrow> now \<le> t
      \<Longrightarrow> view d' t = view d t \<and> view d t k = None"
    and del_failed: "txn_delete B now k d = (d', Some e) \<Longrightarrow> view d' = view d"
    and iterate_ok: "iterate_prefix B now p d = Inr items \<Longrightarrow> distinct (map fst items)
      \<and> (\<forall>k v. (\<exists>x. (k, v, x) \<in> set items) \<longleftrightarrow> prefix p k \<and> view d now k = Some v)"

sublocale badger_laws \<subseteq> coord_store "BadgerStore B" view
proof unfold_locales
  fix now k d v
  assume "kv_Get (BadgerStore B) now k d = Inr v"
  then show "view d now k = Some v"
    by (intro txn_found) (auto simp: BadgerStore_def Badger_Get_def split: sum.splits if_splits)
next
  fix now k d e
  assume "kv_Get (BadgerStore B) now k d = Inl e" "Is e ErrNotFound"
  then show "view d now k = None"
    by (auto simp: BadgerStore_def Badger_Get_def split: sum.splits if_splits intro: txn_missing)
next
  fix now k d d' t
  assume "kv_Delete (BadgerStore B) now k d = (d', None)" and t: "now \<le> t"
  then consider "txn_delete B now k d = (d', None)"
    | e where "txn_delete B now k d = (d', Some e)" "Is e ErrKeyNotFound"
    by (auto simp: BadgerStore_def Badger_Delete_def split: prod.splits option.splits if_splits)
  then show "view d' t = (view d t)(k := None)"
    by cases (use del_ok t del_missing in \<open>fastforce+\<close>)
next
  fix now k d d' e
  assume "kv_Delete (BadgerStore B) now k d = (d', Some e)"
  then show "view d' = view d"
    by (auto simp: BadgerStore_def Badger_Delete_def split: prod.splits option.splits if_splits intro: del_failed)
next
  fix now p d es
  assume "kv_List (BadgerStore B) now p d = Inr es"
  then obtain items where items: "iterate_prefix B now p d = Inr items"
    and es: "es = map (\<lambda>(k, v, x). \<lparr>Key = k, Value = v, ExpiresAt = if x > 0 then unix_time x else 0\<rparr>) items"
    by (auto simp: BadgerStore_def Badger_List_def split: sum.splits)
  have keys: "map Key es = map fst items" unfolding es by auto
  have kvs: "(k, v) \<in> (\<lambda>e. (Key e, Value e)) ` set es \<longleftrightarrow> (\<exists>x. (k, v, x) \<in> set items)" for k v
    unfolding es by (auto simp: image_iff split: prod.splits)
  show "distinct (map Key es)
      \<and> (\<forall>k v. (k, v) \<in> (\<lambda>e. (Key e, Value e)) ` set es \<longleftrightarrow> prefix p k \<and> view d now k = Some v)"
    using iterate_ok [OF items] unfolding keys kvs .
qed (simp_all add: BadgerStore_def Badger_Put_def set_ok set_other set_failed)

interpretation noop: coord_reads NoopStore "\<lambda>_ _ _. None"
  by unfold_locales (auto simp: NoopStore_def)

section \<open>A database that never fails\<close>

text \<open>
  A reference for the parameter: entries with the instant they expire at, newest first.
\<close>

type_synonym mem_db = "(string \<times> string \<times> go_time option) list"

definition mem_live :: "go_time \<Rightarrow> go_time option \<Rightarrow> bool" where
  "mem_live now x = (case x of None \<Rightarrow> True | Some t \<Rightarrow> now < t)"

definition mem_view :: "mem_db \<Rightarrow> go_time \<Rightarrow> string \<Rightarrow> string option" where
  "mem_view d now k = (case map_of d k of
       Some (v, x) \<Rightarrow> if mem_live now x then Some v else None | None \<Rightarrow> None)"

definition mem_badger :: "mem_db badger" where
  "mem_badger = \<lparr>
     set_entry = (\<lambda>now k v ttl d. ((k, v, map_option ((+) now) ttl) # d, None)),
     txn_get = (\<lambda>now k d. case mem_view d now k of Some v \<Rightarrow> Inr v | None \<Rightarrow> Inl ErrKeyNotFound),
     txn_delete = (\<lambda>now k d. (filter (\<lambda>e. fst e \<noteq> k) d, None)),
     iterate_prefix = (\<lambda>now p d. Inr (concat (map (\<lambda>k. case mem_view d now k of
        Some v \<Rightarrow> [(k, v, 0)] | None \<Rightarrow> []) (filter (prefix p) (remdups (map fst d))))))\<rparr>"

lemma mem_view_Cons:
  "mem_view ((k, v, x) # d) now k' = (if k' = k then (if mem_live now x then Some v else None) else mem_view d now k')"
  by (simp add: mem_view_def)

lemma mem_view_filter: "mem_view (filter (\<lambda>e. fst e \<noteq> k) d) now k' = (if k' = k then None else mem_view d now k')"
  by (induction d) (auto simp: mem_view_def)

interpretation mem: badger_laws mem_badger mem_view
proof
  fix now p items and d :: mem_db
  let ?f = "\<lambda>k. case mem_view d now k of Some v \<Rightarrow> [(k, v, 0 :: int)] | None \<Rightarrow> []"
  assume "iterate_prefix mem_badger now p d = Inr items"
  then have items: "items = concat (map ?f (filter (prefix p) (remdups (map fst d))))"
    by (simp add: mem_badger_def)
  have "map fst (concat (map ?f ks)) = filter (\<lambda>k. mem_view d now k \<noteq> None) ks" for ks
    by (induction ks) (auto split: option.splits)
  moreover have "k \<in> fst ` set d" if "mem_view d now k = Some v" for k v
    using that by (auto simp: mem_view_def split: option.splits dest: map_of_SomeD intro: rev_image_eqI)
  ultimately show "distinct (map fst items)
      \<and> (\<forall>k v. (\<exists>x. (k, v, x) \<in> set items) \<longleftrightarrow> prefix p k \<and> mem_view d now k = Some v)"
    unfolding items by (fastforce split: option.splits)
qed (auto simp: mem_badger_def mem_view_Cons mem_view_filter mem_live_def fun_eq_iff
    ErrKeyNotFound_def ErrNotFound_def split: option.splits)

end
