(* ===== verification/GoJSON.thy ===== *)
theory GoJSON
  imports Prelude
begin

text \<open>
  The part of package \<^verbatim>\<open>encoding/json\<close> the modelled packages use: the text of a value
  (\<^verbatim>\<open>Marshal\<close>'s escaping) and the reader (\<^verbatim>\<open>Unmarshal\<close>'s grammar, with its treatment of
  escapes, surrogates, bytes that are not UTF-8, white space and nesting depth). A value is
  a tree; how a struct becomes a tree and is filled from one is written out by the component
  that declares the struct. The wording of the errors is the parameter \<open>wording\<close>.

  The main result is \<open>Decode_Encode\<close>: reading what was written gives back the tree, if its
  strings are valid UTF-8.
\<close>

section \<open>Values\<close>

datatype json =
    JNull
  | JBool bool
  | JNum int
  | JFrac string
  | JStr string
  | JArr "json list"
  | JObj "(string \<times> json) list"

section \<open>Writing\<close>

definition hex_digit :: "nat \<Rightarrow> char" where
  "hex_digit n = (if n < 10 then char_of (48 + n) else char_of (87 + n))"

text \<open>The first rune of \<open>s\<close>, escaped the way \<^verbatim>\<open>appendString\<close> does with HTML escaping on.\<close>

definition esc :: "string \<Rightarrow> string" where
  "esc r = (case r of
       [c] \<Rightarrow> (if c = CHR 0x22 then [CHR 0x5C, CHR 0x22]
         else if c = CHR 0x5C then [CHR 0x5C, CHR 0x5C]
         else if c = CHR 0x08 then [CHR 0x5C, CHR ''b'']
         else if c = CHR 0x0C then [CHR 0x5C, CHR ''f'']
         else if c = CHR 0x0A then [CHR 0x5C, CHR ''n'']
         else if c = CHR 0x0D then [CHR 0x5C, CHR ''r'']
         else if c = CHR 0x09 then [CHR 0x5C, CHR ''t'']
         else if (of_char c :: nat) < 32 \<or> c = CHR ''<'' \<or> c = CHR ''>'' \<or> c = CHR ''&''
           then CHR 0x5C # ''u00'' @ [hex_digit (of_char c div 16), hex_digit (of_char c mod 16)]
         else [c])
     | _ \<Rightarrow> (if r = [CHR 0xE2, CHR 0x80, CHR 0xA8] then CHR 0x5C # ''u2028''
         else if r = [CHR 0xE2, CHR 0x80, CHR 0xA9] then CHR 0x5C # ''u2029''
         else r))"

fun esc_n :: "nat \<Rightarrow> string \<Rightarrow> string" where
  "esc_n 0 s = []"
| "esc_n (Suc n) s = (if s = [] then []
     else if rune_len s = 0 then (CHR 0x5C # ''ufffd'') @ esc_n n (tl s)
     else esc (take (rune_len s) s) @ esc_n n (drop (rune_len s) s))"

definition quote_str :: "string \<Rightarrow> string" where
  "quote_str s = CHR 0x22 # esc_n (length s) s @ [CHR 0x22]"

fun Encode :: "json \<Rightarrow> string" where
  "Encode JNull = ''null''"
| "Encode (JBool b) = (if b then ''true'' else ''false'')"
| "Encode (JNum i) = show_int i"
| "Encode (JFrac s) = s"
| "Encode (JStr s) = quote_str s"
| "Encode (JArr vs) = ''['' @ Join (map Encode vs) '','' @ '']''"
| "Encode (JObj ms) = ''{'' @ Join (map (\<lambda>(k, v). quote_str k @ '':'' @ Encode v) ms) '','' @ ''}''"

section \<open>Reading\<close>

subsection \<open>Strings\<close>

definition hex_val :: "char \<Rightarrow> nat option" where
  "hex_val c = (let n = (of_char c :: nat) in
     if 48 \<le> n \<and> n \<le> 57 then Some (n - 48)
     else if 97 \<le> n \<and> n \<le> 102 then Some (n - 87)
     else if 65 \<le> n \<and> n \<le> 70 then Some (n - 55) else None)"

fun hex4 :: "string \<Rightarrow> (nat \<times> string) option" where
  "hex4 (a # b # c # d # r) = (case (hex_val a, hex_val b, hex_val c, hex_val d) of
       (Some w, Some x, Some y, Some z) \<Rightarrow> Some (((w * 16 + x) * 16 + y) * 16 + z, r)
     | _ \<Rightarrow> None)"
| "hex4 _ = None"

definition utf8 :: "nat \<Rightarrow> string" where
  "utf8 n = (if n < 0x80 then [char_of n]
     else if n < 0x800 then [char_of (0xC0 + n div 64), char_of (0x80 + n mod 64)]
     else if n < 0x10000 then
       [char_of (0xE0 + n div 4096), char_of (0x80 + n div 64 mod 64), char_of (0x80 + n mod 64)]
     else [char_of (0xF0 + n div 262144), char_of (0x80 + n div 4096 mod 64),
       char_of (0x80 + n div 64 mod 64), char_of (0x80 + n mod 64)])"

definition surrogate :: "nat \<Rightarrow> bool" where
  "surrogate u = (0xD800 \<le> u \<and> u < 0xE000)"

text \<open>After \<^verbatim>\<open>\u\<close>: a code point, a pair of surrogates, or the replacement character for half a pair.\<close>

definition unescape_u :: "string \<Rightarrow> (string \<times> string) option" where
  "unescape_u s = (case hex4 s of None \<Rightarrow> None
     | Some (u, r) \<Rightarrow>
        if \<not> surrogate u then Some (utf8 u, r)
        else case r of
            b # v # r2 \<Rightarrow> (case (b = CHR 0x5C \<and> v = CHR ''u'', hex4 r2) of
                (True, Some (l, r3)) \<Rightarrow>
                   if u < 0xDC00 \<and> 0xDC00 \<le> l \<and> l < 0xE000
                   then Some (utf8 (0x10000 + (u - 0xD800) * 1024 + (l - 0xDC00)), r3)
                   else Some (utf8 0xFFFD, r)
              | _ \<Rightarrow> Some (utf8 0xFFFD, r))
          | _ \<Rightarrow> Some (utf8 0xFFFD, r))"

definition unescape :: "string \<Rightarrow> (string \<times> string) option" where
  "unescape s = (case s of [] \<Rightarrow> None
     | c # r \<Rightarrow>
        if c = CHR 0x22 \<or> c = CHR 0x5C \<or> c = CHR ''/'' then Some ([c], r)
        else if c = CHR ''b'' then Some ([CHR 0x08], r)
        else if c = CHR ''f'' then Some ([CHR 0x0C], r)
        else if c = CHR ''n'' then Some ([CHR 0x0A], r)
        else if c = CHR ''r'' then Some ([CHR 0x0D], r)
        else if c = CHR ''t'' then Some ([CHR 0x09], r)
        else if c = CHR ''u'' then unescape_u r
        else None)"

text \<open>The string whose opening quote has been read, and the text after its closing quote.\<close>

fun dec_chars :: "nat \<Rightarrow> string \<Rightarrow> (string \<times> string) option" where
  "dec_chars 0 s = None"
| "dec_chars (Suc n) s = (case s of [] \<Rightarrow> None
     | c # r \<Rightarrow>
        if c = CHR 0x22 then Some ([], r)
        else if c = CHR 0x5C then (case unescape r of None \<Rightarrow> None
          | Some (bs, r') \<Rightarrow> map_option (apfst ((@) bs)) (dec_chars n r'))
        else if (of_char c :: nat) < 32 then None
        else if rune_len s = 0 then map_option (apfst ((@) (utf8 0xFFFD))) (dec_chars n r)
        else map_option (apfst ((@) (take (rune_len s) s))) (dec_chars n (drop (rune_len s) s)))"

subsection \<open>Numbers\<close>

text \<open>The rest of a number after its integer part: a fraction and an exponent, if any.\<close>

definition skip_fraction :: "string \<Rightarrow> string option" where
  "skip_fraction s = (case s of
       c # r \<Rightarrow> (if c \<noteq> CHR ''.'' then Some s
          else if takeWhile digit_char r = [] then None else Some (dropWhile digit_char r))
     | [] \<Rightarrow> Some s)"

definition skip_exponent :: "string \<Rightarrow> string option" where
  "skip_exponent s = (case s of
       c # r \<Rightarrow> (if c \<noteq> CHR ''e'' \<and> c \<noteq> CHR ''E'' then Some s
          else let r' = (case r of g # q \<Rightarrow> if g = CHR ''+'' \<or> g = CHR ''-'' then q else r | [] \<Rightarrow> r)
             in if takeWhile digit_char r' = [] then None else Some (dropWhile digit_char r'))
     | [] \<Rightarrow> Some s)"

definition int_part :: "string \<Rightarrow> (string \<times> string) option" where
  "int_part s = (let ds = takeWhile digit_char s; r = dropWhile digit_char s in
     if ds = [] then None
     else if hd ds = CHR ''0'' then Some ([hd ds], tl ds @ r) else Some (ds, r))"

definition dec_number :: "string \<Rightarrow> (json \<times> string) option" where
  "dec_number s = (let neg = (s \<noteq> [] \<and> hd s = CHR ''-'') in
     case int_part (if neg then tl s else s) of None \<Rightarrow> None
     | Some (ds, r1) \<Rightarrow> (case Option.bind (skip_fraction r1) skip_exponent of None \<Rightarrow> None
        | Some r2 \<Rightarrow> Some (if r2 = r1 then JNum (if neg then - int (num ds) else int (num ds))
            else JFrac (take (length s - length r2) s), r2)))"

subsection \<open>Values\<close>

definition skip_ws :: "string \<Rightarrow> string" where
  "skip_ws s = dropWhile (\<lambda>c. c \<in> {CHR 0x20, CHR 0x09, CHR 0x0A, CHR 0x0D}) s"

definition literal :: "string \<Rightarrow> json \<Rightarrow> string \<Rightarrow> (json \<times> string) option" where
  "literal w v s = (if prefix w s then Some (v, drop (length w) s) else None)"

text \<open>
  Each call reads at least one byte, so the length of the text is fuel enough. The second
  argument is the nesting depth that is left; package \<^verbatim>\<open>json\<close> allows 10000.
\<close>

definition start_key :: "string \<Rightarrow> (string \<times> string) option" where
  "start_key s = (case skip_ws s of
       c # r \<Rightarrow> (if c \<noteq> CHR 0x22 then None
          else case dec_chars (length r) r of None \<Rightarrow> None
          | Some (k, r1) \<Rightarrow> (case skip_ws r1 of
               d # r2 \<Rightarrow> if d = CHR '':'' then Some (k, r2) else None | [] \<Rightarrow> None))
     | [] \<Rightarrow> None)"

fun dec_value :: "nat \<Rightarrow> nat \<Rightarrow> string \<Rightarrow> (json \<times> string) option"
  and dec_elems :: "nat \<Rightarrow> nat \<Rightarrow> string \<Rightarrow> (json list \<times> string) option"
  and dec_members :: "nat \<Rightarrow> nat \<Rightarrow> string \<Rightarrow> ((string \<times> json) list \<times> string) option" where
  "dec_value 0 d s = None"
| "dec_value (Suc n) d s = (case skip_ws s of [] \<Rightarrow> None
     | c # r \<Rightarrow>
        if c = CHR 0x22 then map_option (apfst JStr) (dec_chars (length r) r)
        else if c = CHR ''['' then
          (if d = 0 then None
           else case skip_ws r of
               e # r1 \<Rightarrow> if e = CHR '']'' then Some (JArr [], r1)
                 else map_option (apfst JArr) (dec_elems n (d - 1) r)
             | [] \<Rightarrow> None)
        else if c = CHR ''{'' then
          (if d = 0 then None
           else case skip_ws r of
               e # r1 \<Rightarrow> if e = CHR ''}'' then Some (JObj [], r1)
                 else map_option (apfst JObj) (dec_members n (d - 1) r)
             | [] \<Rightarrow> None)
        else if c = CHR ''n'' then literal ''null'' JNull (c # r)
        else if c = CHR ''t'' then literal ''true'' (JBool True) (c # r)
        else if c = CHR ''f'' then literal ''false'' (JBool False) (c # r)
        else dec_number (c # r))"
| "dec_elems 0 d s = None"
| "dec_elems (Suc n) d s = (case dec_value n d s of None \<Rightarrow> None
     | Some (v, r) \<Rightarrow> (case skip_ws r of
          e # r1 \<Rightarrow> if e = CHR '','' then map_option (apfst ((#) v)) (dec_elems n d r1)
            else if e = CHR '']'' then Some ([v], r1) else None
        | [] \<Rightarrow> None))"
| "dec_members 0 d s = None"
| "dec_members (Suc n) d s = (case start_key s of None \<Rightarrow> None
     | Some (k, r0) \<Rightarrow> (case dec_value n d r0 of None \<Rightarrow> None
        | Some (v, r) \<Rightarrow> (case skip_ws r of
             e # r1 \<Rightarrow> if e = CHR '','' then map_option (apfst ((#) (k, v))) (dec_members n d r1)
               else if e = CHR ''}'' then Some ([(k, v)], r1) else None
           | [] \<Rightarrow> None)))"

definition max_depth :: nat where "max_depth = 10000"

definition Decode :: "(string \<Rightarrow> go_error) \<Rightarrow> string \<Rightarrow> go_error + json" where
  "Decode wording s = (case dec_value (Suc (length s)) max_depth s of
       Some (v, r) \<Rightarrow> if skip_ws r = [] then Inr v else Inl (wording s)
     | None \<Rightarrow> Inl (wording s))"

section \<open>Which values come back\<close>

fun valid_n :: "nat \<Rightarrow> string \<Rightarrow> bool" where
  "valid_n 0 s = (s = [])"
| "valid_n (Suc n) s = (s = [] \<or> 0 < rune_len s \<and> valid_n n (drop (rune_len s) s))"

definition valid_utf8 :: "string \<Rightarrow> bool" where
  "valid_utf8 s = valid_n (length s) s"

fun utf8_json :: "json \<Rightarrow> bool" where
  "utf8_json (JStr s) = valid_utf8 s"
| "utf8_json (JArr vs) = list_all utf8_json vs"
| "utf8_json (JObj ms) = list_all (\<lambda>(k, v). valid_utf8 k \<and> utf8_json v) ms"
| "utf8_json (JFrac s) = False"
| "utf8_json _ = True"

fun depth :: "json \<Rightarrow> nat" where
  "depth (JArr vs) = Suc (Max (set (0 # map depth vs)))"
| "depth (JObj ms) = Suc (Max (set (0 # map (\<lambda>(k, v). depth v) ms)))"
| "depth _ = 0"

text \<open>Numbers end where the text goes on with something else.\<close>

definition ends :: "string \<Rightarrow> bool" where
  "ends t = (case t of [] \<Rightarrow> True | c # _ \<Rightarrow> \<not> digit_char c \<and> c \<notin> {CHR ''.'', CHR ''e'', CHR ''E''})"

definition num_start :: "char \<Rightarrow> bool" where
  "num_start c = (c = CHR ''-'' \<or> digit_char c)"

abbreviation member :: "string \<times> json \<Rightarrow> string" where
  "member \<equiv> \<lambda>(k, v). quote_str k @ '':'' @ Encode v"

section \<open>Strings come back\<close>

lemma rune_len_le: "rune_len s \<le> length s"
  by (simp add: rune_len_def split: list.splits)

lemma rune_len_app:
  assumes "0 < rune_len s"
  shows "rune_len (take (rune_len s) s @ t) = rune_len s"
proof -
  obtain k where k: "rune_len s = k" "0 < k" using assms by simp
  have "rune_len (take k s @ t) = k"
    using k by (cases s; cases "tl s"; cases "tl (tl s)"; cases "tl (tl (tl s))") (auto simp: rune_len_def split: if_splits)
  with k show ?thesis by simp
qed

lemma hex_val_digit: "n < 16 \<Longrightarrow> hex_val (hex_digit n) = Some n"
  by (simp add: hex_val_def hex_digit_def of_char_of)

lemma unescape_hex:
  "(of_char c :: nat) < 128 \<Longrightarrow>
    unescape_u (CHR ''0'' # CHR ''0'' # hex_digit (of_char c div 16) # hex_digit (of_char c mod 16) # t) = Some ([c], t)"
proof -
  assume c: "(of_char c :: nat) < 128"
  then have "hex_val (hex_digit (of_char c div 16)) = Some (of_char c div 16)"
    by (intro hex_val_digit) simp
  moreover have "hex_val (hex_digit (of_char c mod 16)) = Some (of_char c mod 16)"
    by (intro hex_val_digit) simp
  moreover have "hex_val (CHR ''0'') = Some 0" by (simp add: hex_val_def)
  ultimately have "hex4 (CHR ''0'' # CHR ''0'' # hex_digit (of_char c div 16) # hex_digit (of_char c mod 16) # t)
      = Some (of_char c, t)"
    by simp
  with c show ?thesis by (simp add: unescape_u_def surrogate_def utf8_def)
qed

lemma ascii_byte_lt: "ascii_byte c \<longleftrightarrow> (of_char c :: nat) < 128"
  by (cases c) (auto simp: ascii_byte_def of_char_def)


lemma rune_take: "rune_len (take (rune_len s) s) = rune_len s"
  using rune_len_app [of s "[]"] by (cases "rune_len s = 0") (simp_all add: rune_len_def)

lemma dec_esc:
  assumes r: "rune_len r = length r" "r \<noteq> []"
  shows "dec_chars (Suc n) (esc r @ t) = map_option (apfst ((@) r)) (dec_chars n t)"
proof (cases "\<exists>c. r = [c]")
  case True
  then obtain c where c: "r = [c]" by blast
  then have asc: "ascii_byte c" using r(1) by (simp add: rune_len_def split: if_splits)
  then have lt: "(of_char c :: nat) < 128" by (simp add: ascii_byte_lt)
  have "rune_len (c # t) = 1" using asc by (simp add: rune_len_def)
  then show ?thesis
    unfolding c esc_def using unescape_hex [OF lt, of t] by (simp add: unescape_def)
next
  case False
  then obtain c d r' where c: "r = c # d # r'" using r(2) by (cases r; cases "tl r") auto
  then have "\<not> ascii_byte c" using r(1) by (auto simp: rune_len_def)
  then have ge: "128 \<le> (of_char c :: nat)" by (simp add: ascii_byte_lt)
  then have neq: "c \<noteq> CHR 0x22" "c \<noteq> CHR 0x5C" by auto
  have len: "rune_len (r @ t) = length r" using rune_len_app [of r t] r by (cases r) simp_all
  have sep: "utf8 0x2028 = [CHR 0xE2, CHR 0x80, CHR 0xA8]" "utf8 0x2029 = [CHR 0xE2, CHR 0x80, CHR 0xA9]"
    by (simp_all add: utf8_def char_of_def bit_0)
  have hex: "hex4 (CHR ''2'' # CHR ''0'' # CHR ''2'' # CHR ''8'' # t) = Some (0x2028, t)"
    "hex4 (CHR ''2'' # CHR ''0'' # CHR ''2'' # CHR ''9'' # t) = Some (0x2029, t)"
    by (simp_all add: hex_val_def)
  have u: "unescape_u (''2028'' @ t) = Some ([CHR 0xE2, CHR 0x80, CHR 0xA8], t)"
    "unescape_u (''2029'' @ t) = Some ([CHR 0xE2, CHR 0x80, CHR 0xA9], t)"
    using hex sep by (simp_all add: unescape_u_def surrogate_def del: hex4.simps)
  show ?thesis
  proof (cases "r \<in> {[CHR 0xE2, CHR 0x80, CHR 0xA8], [CHR 0xE2, CHR 0x80, CHR 0xA9]}")
    case True
    with u show ?thesis by (auto simp: esc_def unescape_def)
  next
    case False
    then have "esc r = r" using c by (simp add: esc_def)
    with c ge neq len show ?thesis by simp
  qed
qed

lemma esc_nonempty: "r \<noteq> [] \<Longrightarrow> 1 \<le> length (esc r)"
  by (auto simp: esc_def split: list.splits)

lemma dec_chars_esc:
  "valid_n m s \<Longrightarrow> length (esc_n m s) < n \<Longrightarrow> dec_chars n (esc_n m s @ CHR 0x22 # t) = Some (s, t)"
proof (induction m arbitrary: s n)
  case 0
  then show ?case by (cases n) simp_all
next
  case (Suc m)
  show ?case
  proof (cases "s = []")
    case True
    with Suc.prems show ?thesis by (cases n) simp_all
  next
    case False
    let ?r = "take (rune_len s) s" and ?s = "drop (rune_len s) s"
    from Suc.prems False have v: "0 < rune_len s" "valid_n m ?s" by simp_all
    have r: "rune_len ?r = length ?r" "?r \<noteq> []" using v(1) False rune_take [of s] rune_len_le [of s] by auto
    have e: "esc_n (Suc m) s = esc ?r @ esc_n m ?s" using v(1) False by simp
    with Suc.prems(2) esc_nonempty [OF r(2)] obtain n' where n: "n = Suc n'" "length (esc_n m ?s) < n'"
      by (cases n) auto
    have "dec_chars n (esc_n (Suc m) s @ CHR 0x22 # t)
        = map_option (apfst ((@) ?r)) (dec_chars n' (esc_n m ?s @ CHR 0x22 # t))"
      unfolding e n(1) append_assoc by (rule dec_esc [OF r])
    also have "\<dots> = Some (s, t)" using Suc.IH [OF v(2) n(2)] by simp
    finally show ?thesis .
  qed
qed

lemma dec_quoted:
  assumes "valid_utf8 s"
  shows "dec_chars (length (tl (quote_str s @ t))) (tl (quote_str s @ t)) = Some (s, t)"
  using dec_chars_esc [of "length s" s _ t] assms
  by (simp add: quote_str_def valid_utf8_def del: dec_chars.simps)


lemma show_nat_head: "\<exists>c r. show_nat n = c # r \<and> digit_char c \<and> (c = CHR ''0'' \<longleftrightarrow> n = 0)"
proof (induction n rule: show_nat.induct)
  case (1 n)
  show ?case
  proof (cases "n < 10")
    case True
    have "char_of (48 + n) = CHR ''0'' \<longleftrightarrow> n = 0"
    proof
      assume "char_of (48 + n) = CHR ''0''"
      then have "(of_char (char_of (48 + n) :: char) :: nat) = of_char (CHR ''0'')" by simp
      with char_of_digit [OF True] show "n = 0" by simp
    qed (simp add: char_of_def bit_0)
    with True show ?thesis by (subst show_nat.simps) simp
  next
    case False
    from 1 [OF this] obtain c r where "show_nat (n div 10) = c # r" "digit_char c"
      "(c = CHR ''0'') = (n div 10 = 0)" by (elim exE conjE)
    with False show ?thesis by (subst show_nat.simps) simp
  qed
qed

lemma int_part_show:
  assumes "ends t"
  shows "int_part (show_nat n @ t) = Some (show_nat n, t)"
proof -
  obtain c r where c: "show_nat n = c # r" "digit_char c" "(c = CHR ''0'') = (n = 0)"
    using show_nat_head [of n] by (elim exE conjE)
  have "takeWhile digit_char (show_nat n @ t) = show_nat n" "dropWhile digit_char (show_nat n @ t) = t"
    using assms digits_show_nat [of n]
    by (auto simp: ends_def list_all_iff takeWhile_append dropWhile_append split: list.splits)
  moreover have "show_nat 0 = ''0''" by (simp add: show_nat.simps char_of_def bit_0)
  ultimately show ?thesis using c by (cases "n = 0") (simp_all add: int_part_def Let_def)
qed

lemma dec_show_int:
  assumes "ends t"
  shows "dec_number (show_int i @ t) = Some (JNum i, t)"
proof -
  have sk: "Option.bind (skip_fraction t) skip_exponent = Some t"
    using assms by (cases t) (simp_all add: ends_def skip_fraction_def skip_exponent_def)
  obtain c r where c: "show_nat (nat i) = c # r" "digit_char c" using show_nat_head [of "nat i"] by (elim exE conjE)
  then have "c \<noteq> CHR ''-''" by (auto simp: digit_char_def between_def)
  then have "hd (show_nat (nat i) @ t) \<noteq> CHR ''-''" using c(1) by simp
  then show ?thesis
    by (simp add: dec_number_def show_int_def int_part_show [OF assms] sk)
qed

subsection \<open>Whole values\<close>

lemma Join_Cons: "Join (x # xs) sep = (if xs = [] then x else x @ sep @ Join xs sep)"
  by (cases xs) simp_all

lemma skip_ws_id: "c \<notin> {CHR 0x20, CHR 0x09, CHR 0x0A, CHR 0x0D} \<Longrightarrow> skip_ws (c # r) = c # r"
  by (simp add: skip_ws_def)

lemma num_start_neq:
  assumes "num_start c"
  shows "c \<noteq> CHR 0x20" "c \<noteq> CHR 0x09" "c \<noteq> CHR 0x0A" "c \<noteq> CHR 0x0D" "c \<noteq> CHR '']''" "c \<noteq> CHR 0x22"
    "c \<noteq> CHR ''[''" "c \<noteq> CHR ''{''" "c \<noteq> CHR ''n''" "c \<noteq> CHR ''t''" "c \<noteq> CHR ''f''"
  using assms by (auto simp: num_start_def digit_char_def between_def)

lemma show_int_head: "\<exists>c r. show_int i = c # r \<and> num_start c"
  using show_nat_head [of "nat i"] by (cases "i < 0") (auto simp: show_int_def num_start_def)

lemma Encode_head:
  assumes "utf8_json v"
  shows "\<exists>c r. Encode v = c # r \<and> c \<notin> {CHR 0x20, CHR 0x09, CHR 0x0A, CHR 0x0D, CHR '']''}"
proof (cases v)
  case (JNum i)
  obtain c r where "show_int i = c # r" "num_start c" using show_int_head [of i] by blast
  then show ?thesis using JNum num_start_neq [of c] by simp
next
  case (JBool b)
  then show ?thesis by (cases b) simp_all
qed (use assms in \<open>simp_all add: quote_str_def\<close>)

lemma dec_number_value:
  assumes "ends t"
  shows "dec_value (Suc n) d (show_int i @ t) = Some (JNum i, t)"
proof -
  obtain c r where c: "show_int i = c # r" "num_start c" using show_int_head [of i] by blast
  then have "dec_value (Suc n) d (c # (r @ t)) = dec_number (c # (r @ t))"
    using skip_ws_id [of c "r @ t"] num_start_neq [OF c(2)] by simp
  with c(1) dec_show_int [OF assms, of i] show ?thesis by simp
qed

lemma ends_sep: "ends (CHR '','' # t)" "ends (CHR '']'' # t)" "ends (CHR ''}'' # t)"
  by (simp_all add: ends_def digit_char_def between_def)

lemma dec_elems_Join:
  assumes "\<And>v n t. v \<in> set vs \<Longrightarrow> length (Encode v) \<le> n \<Longrightarrow> ends t \<Longrightarrow> dec_value n d (Encode v @ t) = Some (v, t)"
    and "vs \<noteq> []" and "length (Join (map Encode vs) '','') < n"
  shows "dec_elems n d (Join (map Encode vs) '','' @ CHR '']'' # t) = Some (vs, t)"
  using assms
proof (induction vs arbitrary: n)
  case (Cons v vs)
  obtain m where n: "n = Suc m" using Cons.prems(3) by (cases n) auto
  show ?case
  proof (cases "vs = []")
    case True
    with Cons.prems n ends_sep(2) [of t] show ?thesis by (simp add: skip_ws_id)
  next
    case False
    let ?r = "Join (map Encode vs) '','' @ CHR '']'' # t"
    have len: "length (Encode v) \<le> m" "length (Join (map Encode vs) '','') < m"
      using Cons.prems(3) n False by (simp_all add: Join_Cons)
    have "dec_value m d (Encode v @ CHR '','' # ?r) = Some (v, CHR '','' # ?r)"
      using Cons.prems(1) [of v m] len(1) ends_sep(1) by simp
    moreover have "dec_elems m d ?r = Some (vs, t)" using Cons.IH Cons.prems(1) False len(2) by simp
    ultimately show ?thesis using n False by (simp add: Join_Cons skip_ws_id)
  qed
qed simp

lemma start_key_quoted: "valid_utf8 k \<Longrightarrow> start_key (quote_str k @ CHR '':'' # r) = Some (k, r)"
  using dec_quoted [of k "CHR '':'' # r"] by (simp add: start_key_def quote_str_def skip_ws_id)

lemma dec_members_Join:
  assumes "\<And>k v n t. (k, v) \<in> set ms \<Longrightarrow> length (Encode v) \<le> n \<Longrightarrow> ends t \<Longrightarrow> dec_value n d (Encode v @ t) = Some (v, t)"
    and "ms \<noteq> []" and "length (Join (map member ms) '','') < n" and "\<forall>(k, v) \<in> set ms. valid_utf8 k"
  shows "dec_members n d (Join (map member ms) '','' @ CHR ''}'' # t) = Some (ms, t)"
  using assms
proof (induction ms arbitrary: n)
  case (Cons m ms)
  obtain k v where m: "m = (k, v)" by force
  obtain n' where n: "n = Suc n'" using Cons.prems(3) by (cases n) auto
  have key: "start_key (quote_str k @ CHR '':'' # r) = Some (k, r)" for r
    using Cons.prems(4) m by (intro start_key_quoted) simp
  show ?case
  proof (cases "ms = []")
    case True
    with Cons.prems m n ends_sep(3) [of t] show ?thesis by (simp add: skip_ws_id key)
  next
    case False
    let ?r = "Join (map member ms) '','' @ CHR ''}'' # t"
    have len: "length (Encode v) \<le> n'" "length (Join (map member ms) '','') < n'"
      using Cons.prems(3) n m False by (simp_all add: Join_Cons)
    have "dec_value n' d (Encode v @ CHR '','' # ?r) = Some (v, CHR '','' # ?r)"
      using Cons.prems(1) [of k v n'] m len(1) ends_sep(1) by simp
    moreover have "dec_members n' d ?r = Some (ms, t)" using Cons.IH Cons.prems(1,4) False len(2) by fastforce
    ultimately show ?thesis using n m False by (simp add: Join_Cons skip_ws_id key)
  qed
qed simp

lemma dec_Encode:
  "utf8_json v \<Longrightarrow> depth v \<le> d \<Longrightarrow> length (Encode v) \<le> n \<Longrightarrow> ends t
    \<Longrightarrow> dec_value n d (Encode v @ t) = Some (v, t)"
proof (induction v arbitrary: n d t)
  case JNull
  then show ?case by (cases n) (simp_all add: skip_ws_def literal_def)
next
  case (JBool b)
  then show ?case by (cases n; cases b) (simp_all add: skip_ws_def literal_def)
next
  case (JNum i)
  then have "n \<noteq> 0" using show_int_head [of i] by auto
  with JNum.prems(4) dec_number_value show ?case by (cases n) simp_all
next
  case (JStr s)
  then show ?case using dec_quoted [of s t]
    by (cases n) (simp_all add: quote_str_def skip_ws_id)
next
  case (JArr vs)
  obtain m e where n: "n = Suc m" and d: "d = Suc e" using JArr.prems(2,3) by (cases n; cases d) auto
  show ?case
  proof (cases vs)
    case Nil
    with n d show ?thesis by (simp add: skip_ws_id)
  next
    case (Cons w ws)
    have e: "depth v \<le> e" if "v \<in> set vs" for v using JArr.prems(2) d that by auto
    have "dec_elems m e (Join (map Encode vs) '','' @ CHR '']'' # t) = Some (vs, t)"
      using JArr e n Cons by (intro dec_elems_Join) (auto simp: list_all_iff)
    moreover obtain c r where "Encode w = c # r" "c \<notin> {CHR 0x20, CHR 0x09, CHR 0x0A, CHR 0x0D, CHR '']''}"
    proof -
      have "utf8_json w" using JArr.prems(1) Cons by simp
      from Encode_head [OF this] that show ?thesis by (elim exE conjE)
    qed
    moreover from this have "\<exists>q. Join (map Encode vs) '','' = c # q" using Cons by (simp add: Join_Cons)
    ultimately show ?thesis using n d Cons by (auto simp: skip_ws_id simp del: Join.simps list.map)
  qed
next
  case (JObj ms)
  obtain m e where n: "n = Suc m" and d: "d = Suc e" using JObj.prems(2,3) by (cases n; cases d) auto
  show ?case
  proof (cases ms)
    case Nil
    with n d show ?thesis by (simp add: skip_ws_id)
  next
    case (Cons w ws)
    have e: "depth v \<le> e" if "(k, v) \<in> set ms" for k v using JObj.prems(2) d that by force
    have "dec_members m e (Join (map member ms) '','' @ CHR ''}'' # t) = Some (ms, t)"
      using JObj e n Cons by (intro dec_members_Join) (fastforce simp: list_all_iff)+
    moreover have "\<exists>q. Join (map member ms) '','' = CHR 0x22 # q"
      using Cons by (simp add: Join_Cons quote_str_def case_prod_beta)
    ultimately show ?thesis using n d Cons by (auto simp: skip_ws_id simp del: Join.simps list.map)
  qed
qed simp

lemma Decode_Encode [simp]:
  "utf8_json v \<Longrightarrow> depth v \<le> max_depth \<Longrightarrow> Decode wording (Encode v) = Inr v"
  using dec_Encode [of v max_depth "Suc (length (Encode v))" "[]"]
  by (simp add: Decode_def skip_ws_def ends_def del: dec_value.simps)

end
