(* ===== verification/GoTime.thy ===== *)
theory GoTime
  imports Prelude
begin

text \<open>
  The part of package \<^verbatim>\<open>time\<close> that writes instants as text and reads them back: the layouts
  \<^verbatim>\<open>RFC3339\<close> and \<^verbatim>\<open>RFC3339Nano\<close> for instants in UTC, which is what the modelled packages
  store. An instant counts nanoseconds from \<^verbatim>\<open>0001-01-01T00:00:00Z\<close>.

  Reading back is modelled for the texts that writing produces
  (\<^verbatim>\<open>YYYY-MM-DDTHH:MM:SS[.fraction]Z\<close>); what \<^verbatim>\<open>time.Parse\<close> makes of any other text (a zone
  offset, a comma, garbage) is the parameter \<open>other\<close>. The main result is that reading
  what was written gives back the instant, to the second or to the nanosecond.
\<close>

section \<open>The calendar\<close>

definition leap :: "int \<Rightarrow> bool" where
  "leap y = (y mod 4 = 0 \<and> (y mod 100 \<noteq> 0 \<or> y mod 400 = 0))"

definition days_before_year :: "int \<Rightarrow> int" where
  "days_before_year y = (let n = y - 1 in 365 * n + n div 4 - n div 100 + n div 400)"

definition month_lengths :: "bool \<Rightarrow> int list" where
  "month_lengths l = [31, if l then 29 else 28, 31, 30, 31, 30, 31, 31, 30, 31, 30, 31]"

text \<open>The year and the day of the year, peeling off cycles of 400, 100 and 4 years and single years.\<close>

definition year_day :: "int \<Rightarrow> int \<times> int" where
  "year_day d = (let n400 = d div 146097; r = d mod 146097;
       n100 = min 3 (r div 36524); r100 = r - 36524 * n100;
       n4 = r100 div 1461; r4 = r100 mod 1461;
       n1 = min 3 (r4 div 365)
     in (1 + 400 * n400 + 100 * n100 + 4 * n4 + n1, r4 - 365 * n1))"

fun month_day :: "int \<Rightarrow> int list \<Rightarrow> int \<Rightarrow> int \<times> int" where
  "month_day m [] yd = (m, yd + 1)"
| "month_day m (l # ls) yd = (if yd < l then (m, yd + 1) else month_day (m + 1) ls (yd - l))"

definition month_start :: "bool \<Rightarrow> int \<Rightarrow> int" where
  "month_start l m = sum_list (take (nat (m - 1)) (month_lengths l))"

record civil =
  c_year :: int
  c_month :: int
  c_day :: int
  c_hour :: int
  c_min :: int
  c_sec :: int

definition second_ns :: int where "second_ns = 1000000000"

definition civil_of :: "int \<Rightarrow> civil" where
  "civil_of s = (let d = s div 86400; r = s mod 86400; (y, yd) = year_day d;
       (m, md) = month_day 1 (month_lengths (leap y)) yd
     in \<lparr>c_year = y, c_month = m, c_day = md,
         c_hour = r div 3600, c_min = r mod 3600 div 60, c_sec = r mod 60\<rparr>)"

definition seconds_of :: "civil \<Rightarrow> int" where
  "seconds_of c = (days_before_year (c_year c) + month_start (leap (c_year c)) (c_month c)
       + c_day c - 1) * 86400 + c_hour c * 3600 + c_min c * 60 + c_sec c"

definition civil_ok :: "civil \<Rightarrow> bool" where
  "civil_ok c = (1 \<le> c_month c \<and> c_month c \<le> 12 \<and> 1 \<le> c_day c
     \<and> c_day c \<le> month_lengths (leap (c_year c)) ! nat (c_month c - 1)
     \<and> 0 \<le> c_hour c \<and> c_hour c < 24 \<and> 0 \<le> c_min c \<and> c_min c < 60 \<and> 0 \<le> c_sec c \<and> c_sec c < 60)"

section \<open>Writing\<close>

text \<open>\<^verbatim>\<open>appendInt\<close>: at least \<open>w\<close> digits, a sign in front of them.\<close>

definition pad :: "nat \<Rightarrow> nat \<Rightarrow> string" where
  "pad w n = replicate (w - length (show_nat n)) (CHR ''0'') @ show_nat n"

definition appendInt :: "nat \<Rightarrow> int \<Rightarrow> string" where
  "appendInt w i = (if i < 0 then CHR ''-'' # pad w (nat (- i)) else pad w (nat i))"

definition format_civil :: "civil \<Rightarrow> string" where
  "format_civil c = appendInt 4 (c_year c) @ ''-'' @ appendInt 2 (c_month c) @ ''-''
     @ appendInt 2 (c_day c) @ ''T'' @ appendInt 2 (c_hour c) @ '':'' @ appendInt 2 (c_min c)
     @ '':'' @ appendInt 2 (c_sec c)"

definition FormatRFC3339 :: "go_time \<Rightarrow> string" where
  "FormatRFC3339 t = format_civil (civil_of (t div second_ns)) @ ''Z''"

definition strip_zeros :: "string \<Rightarrow> string" where
  "strip_zeros s = rev (dropWhile (\<lambda>c. c = CHR ''0'') (rev s))"

definition FormatRFC3339Nano :: "go_time \<Rightarrow> string" where
  "FormatRFC3339Nano t = format_civil (civil_of (t div second_ns))
     @ (let ns = nat (t mod second_ns) in if ns = 0 then [] else CHR ''.'' # strip_zeros (pad 9 ns)) @ ''Z''"

section \<open>Reading\<close>

text \<open>The texts at their fixed places; digits beyond the ninth of a fraction are dropped.\<close>

definition parse_utc :: "string \<Rightarrow> go_time option" where
  "parse_utc s = (
     let f = (\<lambda>i n. take n (drop i s)); v = (\<lambda>i n. int (num (f i n)));
         frac = butlast (drop 20 s);
         c = \<lparr>c_year = v 0 4, c_month = v 5 2, c_day = v 8 2,
              c_hour = v 11 2, c_min = v 14 2, c_sec = v 17 2\<rparr>
     in if 20 \<le> length s
           \<and> list_all digit_char (f 0 4 @ f 5 2 @ f 8 2 @ f 11 2 @ f 14 2 @ f 17 2)
           \<and> [s ! 4, s ! 7, s ! 10, s ! 13, s ! 16] = ''--T::'' \<and> last s = CHR ''Z'' \<and> civil_ok c
           \<and> (length s = 20
              \<or> s ! 19 = CHR ''.'' \<and> frac \<noteq> [] \<and> list_all digit_char frac)
        then Some (seconds_of c * second_ns
          + (if length s = 20 then 0 else int (num (take 9 (frac @ replicate 9 (CHR ''0''))))))
        else None)"

definition ParseRFC3339 :: "(string \<Rightarrow> go_error + go_time) \<Rightarrow> string \<Rightarrow> go_error + go_time" where
  "ParseRFC3339 other s = (case parse_utc s of Some t \<Rightarrow> Inr t | None \<Rightarrow> other s)"

text \<open>The instants of the years 1 to 9999: those a four digit year can name.\<close>

definition printable :: "go_time \<Rightarrow> bool" where
  "printable t = (0 \<le> t \<and> t < 3652059 * 86400 * second_ns)"

section \<open>The calendar's arithmetic\<close>

lemma multiple_iff:
  fixes n k q r :: int
  assumes "n = k * q + r" "0 \<le> r" "r < k"
  shows "n div k = q" "n mod k = r"
    "(n + 1) mod k = 0 \<longleftrightarrow> r + 1 = k"
proof -
  show "n div k = q" "n mod k = r" using int_div_pos_eq [OF assms] int_mod_pos_eq [OF assms] by simp_all
  show "(n + 1) mod k = 0 \<longleftrightarrow> r + 1 = k"
  proof (cases "r + 1 = k")
    case True
    then have "n + 1 = k * (q + 1) + 0" using assms(1) by (simp add: algebra_simps)
    then have "(n + 1) mod k = 0" using assms by (intro int_mod_pos_eq) auto
    with True show ?thesis by simp
  next
    case False
    then have "(n + 1) mod k = r + 1" using assms by (intro int_mod_pos_eq [of _ _ q]) auto
    with False assms(2) show ?thesis by simp
  qed
qed

lemma cycle_divs:
  fixes a b c e :: int
  assumes "0 \<le> b" "b \<le> 3" "0 \<le> c" "c \<le> 24" "0 \<le> e" "e \<le> 3"
  defines "n \<equiv> 400 * a + 100 * b + 4 * c + e"
  shows "n div 4 = 100 * a + 25 * b + c" "n div 100 = 4 * a + b" "n div 400 = a"
    "(n + 1) mod 4 = 0 \<longleftrightarrow> e = 3" "(n + 1) mod 100 = 0 \<longleftrightarrow> c = 24 \<and> e = 3"
    "(n + 1) mod 400 = 0 \<longleftrightarrow> b = 3 \<and> c = 24 \<and> e = 3"
proof -
  have eqs: "n = 4 * (100 * a + 25 * b + c) + e" "n = 100 * (4 * a + b) + (4 * c + e)"
    "n = 400 * a + (100 * b + 4 * c + e)" unfolding n_def by simp_all
  have lts: "e < 4" "0 \<le> 4 * c + e" "4 * c + e < 100" "0 \<le> 100 * b + 4 * c + e" "100 * b + 4 * c + e < 400"
    using assms(1-6) by linarith+
  note m4 = multiple_iff [OF eqs(1) assms(5) lts(1)]
  note m100 = multiple_iff [OF eqs(2) lts(2,3)]
  note m400 = multiple_iff [OF eqs(3) lts(4,5)]
  show "n div 4 = 100 * a + 25 * b + c" "n div 100 = 4 * a + b" "n div 400 = a"
    by (rule m4(1), rule m100(1), rule m400(1))
  have "e + 1 = 4 \<longleftrightarrow> e = 3" by linarith
  moreover have "4 * c + e + 1 = 100 \<longleftrightarrow> c = 24 \<and> e = 3" using assms(3-6) by linarith
  moreover have "100 * b + 4 * c + e + 1 = 400 \<longleftrightarrow> b = 3 \<and> c = 24 \<and> e = 3" using assms(1-6) by linarith
  ultimately show "(n + 1) mod 4 = 0 \<longleftrightarrow> e = 3" "(n + 1) mod 100 = 0 \<longleftrightarrow> c = 24 \<and> e = 3"
    "(n + 1) mod 400 = 0 \<longleftrightarrow> b = 3 \<and> c = 24 \<and> e = 3"
    unfolding m4(3) m100(3) m400(3) by simp_all
qed

lemma capped_quotient:
  fixes r k m :: int
  assumes "0 \<le> r" "0 < k" "r \<le> 4 * k"
  defines "b \<equiv> min 3 (r div k)"
  shows "0 \<le> b" "b \<le> 3" "0 \<le> r - k * b" "r - k * b \<le> k" "r - k * b = k \<Longrightarrow> b = 3"
proof -
  have eq: "k * (r div k) + r mod k = r" and lt: "0 \<le> r mod k" "r mod k < k"
    using assms(2) by simp_all
  have pos: "0 \<le> r div k" using assms(1,2) by (simp add: pos_imp_zdiv_nonneg_iff)
  then show "0 \<le> b" "b \<le> 3" by (simp_all add: b_def)
  show "0 \<le> r - k * b" "r - k * b \<le> k" "r - k * b = k \<Longrightarrow> b = 3"
  proof -
    have "r - k * b = r mod k \<or> b = 3 \<and> 3 \<le> r div k"
      using eq by (cases "r div k \<le> 3") (auto simp: b_def min_def minus_mult_div_eq_mod)
    moreover have "0 \<le> r - k * 3" if "3 \<le> r div k"
      using eq lt(1) mult_left_mono [OF that, of k] assms(2) by linarith
    ultimately show "0 \<le> r - k * b" "r - k * b \<le> k" "r - k * b = k \<Longrightarrow> b = 3"
      using lt assms(3) by auto
  qed
qed

lemma cycle_days:
  assumes "0 \<le> b" "b \<le> 3" "0 \<le> c" "c \<le> 24" "0 \<le> e" "e \<le> 3"
  shows "days_before_year (1 + 400 * a + 100 * b + 4 * c + e) = 146097 * a + 36524 * b + 1461 * c + 365 * e"
    and "leap (1 + 400 * a + 100 * b + 4 * c + e) \<longleftrightarrow> e = 3 \<and> (c = 24 \<longrightarrow> b = 3)"
proof -
  let ?n = "400 * a + 100 * b + 4 * c + e"
  have eq: "1 + 400 * a + 100 * b + 4 * c + e = ?n + 1" by simp
  note d = cycle_divs [OF assms, of a]
  show "days_before_year (1 + 400 * a + 100 * b + 4 * c + e) = 146097 * a + 36524 * b + 1461 * c + 365 * e"
    unfolding eq days_before_year_def Let_def add_diff_cancel_right' d(1-3) by (simp add: algebra_simps)
  show "leap (1 + 400 * a + 100 * b + 4 * c + e) \<longleftrightarrow> e = 3 \<and> (c = 24 \<longrightarrow> b = 3)"
    unfolding eq leap_def d(4-6) by blast
qed

lemma year_day_spec:
  assumes "year_day d = (y, yd)"
  shows "days_before_year y + yd = d" "0 \<le> yd" "yd < (if leap y then 366 else 365)"
proof -
  define a where "a = d div 146097"
  define r where "r = d mod 146097"
  define b where "b = min 3 (r div 36524)"
  define q where "q = r - 36524 * b"
  define c where "c = q div 1461"
  define p where "p = q mod 1461"
  define e where "e = min 3 (p div 365)"
  have y: "y = 1 + 400 * a + 100 * b + 4 * c + e" and yd: "yd = p - 365 * e"
    using assms unfolding year_day_def Let_def a_def [symmetric] r_def [symmetric] b_def [symmetric]
      q_def [symmetric] c_def [symmetric] p_def [symmetric] e_def [symmetric] by simp_all
  have d: "d = 146097 * a + r" "0 \<le> r" "r < 146097" unfolding a_def r_def by simp_all
  have "(0::int) < 36524" "r \<le> 4 * 36524" using d(3) by simp_all
  note b = capped_quotient [OF d(2) this, folded b_def, folded q_def]
  have q: "q = 1461 * c + p" "0 \<le> p" "p < 1461" unfolding c_def p_def by simp_all
  have c: "0 \<le> c" "c \<le> 24" using b(3,4) q by linarith+
  have "(0::int) < 365" "p \<le> 4 * 365" using q(3) by simp_all
  note e = capped_quotient [OF q(2) this, folded e_def]
  note k = cycle_days [OF b(1,2) c e(1,2), of a]
  show "days_before_year y + yd = d" unfolding y yd k(1) using d(1) q(1) q_def by linarith
  show "0 \<le> yd" using e(3) yd by simp
  show "yd < (if leap y then 366 else 365)"
  proof (cases "p - 365 * e = 365")
    case True
    then have "e = 3" "p = 1460" using e(5) by simp_all
    moreover have "b = 3" if "c = 24" using b(5) q(1) that \<open>p = 1460\<close> by simp
    ultimately show ?thesis unfolding y k(2) yd by simp
  qed (use e(4) yd in auto)
qed

lemma month_day_spec:
  "month_day m ls yd = (m', d) \<Longrightarrow> 0 \<le> yd \<Longrightarrow> yd < sum_list ls
    \<Longrightarrow> m \<le> m' \<and> m' < m + int (length ls) \<and> 1 \<le> d \<and> d \<le> ls ! nat (m' - m)
       \<and> sum_list (take (nat (m' - m)) ls) + d - 1 = yd"
proof (induction ls arbitrary: m yd)
  case (Cons l ls)
  show ?case
  proof (cases "yd < l")
    case False
    then have IH: "m + 1 \<le> m' \<and> m' < m + 1 + int (length ls) \<and> 1 \<le> d \<and> d \<le> ls ! nat (m' - (m + 1))
        \<and> sum_list (take (nat (m' - (m + 1))) ls) + d - 1 = yd - l"
      using Cons by auto
    then have "nat (m' - m) = Suc (nat (m' - (m + 1)))" by auto
    with IH show ?thesis by auto
  qed (use Cons.prems in auto)
qed simp

lemma civil_of_spec:
  assumes "civil_of s = c"
  shows "seconds_of c = s" "civil_ok c" "c_year c = fst (year_day (s div 86400))"
proof -
  obtain y yd where y: "year_day (s div 86400) = (y, yd)" by force
  obtain m d where m: "month_day 1 (month_lengths (leap y)) yd = (m, d)" by force
  have c: "c = \<lparr>c_year = y, c_month = m, c_day = d, c_hour = s mod 86400 div 3600,
      c_min = s mod 86400 mod 3600 div 60, c_sec = s mod 86400 mod 60\<rparr>"
    using assms y m by (simp add: civil_of_def Let_def)
  note yds = year_day_spec [OF y]
  have len: "sum_list (month_lengths l) = (if l then 366 else 365)" "length (month_lengths l) = 12" for l
    by (simp_all add: month_lengths_def)
  have md: "1 \<le> m \<and> m < 1 + 12 \<and> 1 \<le> d \<and> d \<le> month_lengths (leap y) ! nat (m - 1)
      \<and> sum_list (take (nat (m - 1)) (month_lengths (leap y))) + d - 1 = yd"
    using month_day_spec [OF m] yds(2,3) len [of "leap y"] by simp
  let ?r = "s mod 86400"
  have r: "?r div 3600 * 3600 + ?r mod 3600 div 60 * 60 + ?r mod 60 = ?r"
  proof -
    have "?r mod 3600 mod 60 = ?r mod 60" by (simp add: mod_mod_cancel)
    then show ?thesis by (metis (no_types) add.assoc div_mult_mod_eq)
  qed
  have s: "s div 86400 * 86400 + ?r = s" by simp
  have days: "days_before_year y + month_start (leap y) m + d - 1 = s div 86400"
    using yds(1) md by (simp add: month_start_def)
  show "seconds_of c = s"
    unfolding seconds_of_def c civil.select_convs days using r s by linarith
  have "?r div 3600 < 24" "0 \<le> ?r div 3600" by (simp_all add: div_less_iff_less_mult pos_imp_zdiv_nonneg_iff)
  moreover have "?r mod 3600 div 60 < 60" "0 \<le> ?r mod 3600 div 60"
    by (simp_all add: div_less_iff_less_mult pos_imp_zdiv_nonneg_iff)
  ultimately show "civil_ok c" using md by (simp add: civil_ok_def c)
  show "c_year c = fst (year_day (s div 86400))" by (simp add: c y)
qed

lemma days_before_year_mono: "y \<le> y' \<Longrightarrow> days_before_year y \<le> days_before_year y'"
proof -
  assume le: "y \<le> y'"
  define n n' where "n = y - 1" and "n' = y' - 1"
  have nn: "n \<le> n'" using le by (simp add: n_def n'_def)
  have "n' div 100 \<le> (n + (n' - n) * 100) div 100" using nn by (intro zdiv_mono1) auto
  also have "\<dots> = n div 100 + (n' - n)" by simp
  finally have "n' div 100 \<le> n div 100 + (n' - n)" .
  moreover have "n div 4 \<le> n' div 4" "n div 400 \<le> n' div 400" using nn by (auto intro: zdiv_mono1)
  ultimately show "days_before_year y \<le> days_before_year y'"
    using nn unfolding days_before_year_def Let_def n_def [symmetric] n'_def [symmetric] by linarith
qed

lemma year_bounds:
  assumes "0 \<le> d" "d < 3652059"
  shows "1 \<le> fst (year_day d)" "fst (year_day d) \<le> 9999"
proof -
  obtain y yd where y: "year_day d = (y, yd)" by force
  note spec = year_day_spec [OF y]
  have lo: "days_before_year 0 = -366" and hi: "days_before_year 10000 = 3652059"
    by (simp_all add: days_before_year_def)
  have "\<not> y \<le> 0" using days_before_year_mono [of y 0] lo spec assms(1) by (auto split: if_splits)
  moreover have "\<not> 10000 \<le> y" using days_before_year_mono [of 10000 y] hi spec assms(2) by auto
  ultimately show "1 \<le> fst (year_day d)" "fst (year_day d) \<le> 9999" using y by auto
qed

lemma pad_props:
  "num (pad w n) = n" "list_all digit_char (pad w n)"
  "n < 10 ^ w \<Longrightarrow> 0 < w \<Longrightarrow> length (pad w n) = w"
proof -
  have "digit_char (CHR ''0'')" by (simp add: digit_char_def between_def)
  then show "list_all digit_char (pad w n)"
    using digits_show_nat [of n] by (auto simp: pad_def list_all_iff)
  show "num (pad w n) = n" by (simp add: pad_def)
  show "n < 10 ^ w \<Longrightarrow> 0 < w \<Longrightarrow> length (pad w n) = w"
    using length_show_nat [of w n] by (simp add: pad_def)
qed

lemma strip_zeros_props: "\<exists>k. s = strip_zeros s @ replicate k (CHR ''0'')"
proof (induction s rule: rev_induct)
  case (snoc c s)
  then obtain k where "s = strip_zeros s @ replicate k (CHR ''0'')" by blast
  then have "s @ [CHR ''0''] = strip_zeros s @ replicate (Suc k) (CHR ''0'')"
    by (metis append.assoc replicate_append_same replicate_Suc)
  moreover have "strip_zeros (s @ [c]) = (if c = CHR ''0'' then strip_zeros s else s @ [c])"
    by (simp add: strip_zeros_def)
  ultimately show ?case by (metis append_Nil2 replicate_0)
qed (simp add: strip_zeros_def)

lemma fraction_back:
  assumes "0 < n" "n < 10 ^ 9"
  defines "f \<equiv> strip_zeros (pad 9 n)"
  shows "f \<noteq> []" "list_all digit_char f" "num (take 9 (f @ replicate 9 (CHR ''0''))) = n"
proof -
  obtain k where k: "pad 9 n = f @ replicate k (CHR ''0'')" using strip_zeros_props [of "pad 9 n"] f_def by blast
  have p: "num (pad 9 n) = n" "list_all digit_char (pad 9 n)" "length (pad 9 n) = 9"
    using pad_props [of 9 n] pad_props(3) [of n 9] assms(2) by simp_all
  show "f \<noteq> []" using k p(1) assms(1) num_zeros [of k "[]"] by (auto simp: num_def)
  show "list_all digit_char f" using k p(2) by simp
  have "length f + k = 9" using p(3) k by simp
  then have "take 9 (f @ replicate 9 (CHR ''0'')) = pad 9 n" using k by simp
  then show "num (take 9 (f @ replicate 9 (CHR ''0''))) = n" using p(1) by simp
qed

section \<open>Reading back what was written\<close>

lemma appendInt_pad: "0 \<le> i \<Longrightarrow> appendInt w i = pad w (nat i)"
  by (simp add: appendInt_def)

lemma civil_small:
  assumes "civil_ok c"
  shows "nat (c_month c) < 10 ^ 2" "nat (c_day c) < 10 ^ 2" "nat (c_hour c) < 10 ^ 2"
    "nat (c_min c) < 10 ^ 2" "nat (c_sec c) < 10 ^ 2"
    "0 \<le> c_month c" "0 \<le> c_day c" "0 \<le> c_hour c" "0 \<le> c_min c" "0 \<le> c_sec c"
proof -
  have "month_lengths l ! i \<le> 31" if "i < 12" for l i
  proof -
    have "length (month_lengths l) = 12" "\<forall>x\<in>set (month_lengths l). x \<le> 31" by (simp_all add: month_lengths_def)
    with that show ?thesis by simp
  qed
  moreover have "nat (c_month c - 1) < 12" using assms by (auto simp: civil_ok_def)
  ultimately have "c_day c \<le> 31" using assms order_trans by (fastforce simp: civil_ok_def)
  then show "nat (c_day c) < 10 ^ 2" by simp
qed (use assms in \<open>auto simp: civil_ok_def\<close>)

lemma parse_format:
  assumes ok: "civil_ok c" and year: "0 \<le> c_year c" "c_year c \<le> 9999"
    and frac: "f = [] \<and> ns = 0 \<or> (\<exists>g. f = CHR ''.'' # g \<and> g \<noteq> [] \<and> list_all digit_char g
       \<and> num (take 9 (g @ replicate 9 (CHR ''0''))) = ns)"
  shows "parse_utc (format_civil c @ f @ ''Z'') = Some (seconds_of c * second_ns + int ns)"
proof -
  note small = civil_small [OF ok]
  define y where "y = pad 4 (nat (c_year c))"
  define mo where "mo = pad 2 (nat (c_month c))"
  define d where "d = pad 2 (nat (c_day c))"
  define h where "h = pad 2 (nat (c_hour c))"
  define mi where "mi = pad 2 (nat (c_min c))"
  define se where "se = pad 2 (nat (c_sec c))"
  note defs = y_def mo_def d_def h_def mi_def se_def
  have len: "length y = 4" "length mo = 2" "length d = 2" "length h = 2" "length mi = 2" "length se = 2"
    using small year by (simp_all add: defs pad_props(3))
  have dig: "list_all digit_char y" "list_all digit_char mo" "list_all digit_char d"
    "list_all digit_char h" "list_all digit_char mi" "list_all digit_char se"
    by (simp_all add: defs pad_props(2))
  have fmt: "format_civil c = y @ ''-'' @ mo @ ''-'' @ d @ ''T'' @ h @ '':'' @ mi @ '':'' @ se"
    using small year by (simp add: format_civil_def appendInt_pad defs)
  have num: "int (num y) = c_year c" "int (num mo) = c_month c" "int (num d) = c_day c"
    "int (num h) = c_hour c" "int (num mi) = c_min c" "int (num se) = c_sec c"
    using small year by (simp_all add: defs pad_props(1))
  have c: "\<lparr>c_year = c_year c, c_month = c_month c, c_day = c_day c,
      c_hour = c_hour c, c_min = c_min c, c_sec = c_sec c\<rparr> = c" by simp
  show ?thesis
    using frac
  proof (elim disjE conjE exE)
    assume "f = []" "ns = 0"
    then show ?thesis unfolding parse_utc_def fmt Let_def
      by (simp add: len dig num c ok nth_append nth_Cons' numeral_eq_Suc)
  next
    fix g assume g: "f = CHR ''.'' # g" "g \<noteq> []" "list_all digit_char g"
      "num (take 9 (g @ replicate 9 (CHR ''0''))) = ns"
    then show ?thesis unfolding parse_utc_def fmt Let_def
      by (simp add: len dig num c ok nth_append nth_Cons')
  qed
qed

lemma pos_zdiv_less: "0 < k \<Longrightarrow> a < b * k \<Longrightarrow> a div k < (b::int)"
  by (metis add_increasing2 div_mult_mod_eq less_imp_le linorder_not_less mult_right_mono pos_mod_sign)

lemma civil_printable:
  assumes "printable t"
  defines "c \<equiv> civil_of (t div second_ns)"
  shows "civil_ok c" "0 \<le> c_year c" "c_year c \<le> 9999" "seconds_of c = t div second_ns"
proof -
  note spec = civil_of_spec [OF c_def [symmetric, THEN meta_eq_to_obj_eq]]
  show "civil_ok c" "seconds_of c = t div second_ns" using spec(1,2) by simp_all
  have "0 \<le> t div second_ns div 86400" "t div second_ns div 86400 < 3652059"
    using assms(1)
    by (auto simp: printable_def second_ns_def pos_imp_zdiv_nonneg_iff zdiv_zmult2_eq [symmetric]
        intro: pos_zdiv_less)
  then show "0 \<le> c_year c" "c_year c \<le> 9999" using year_bounds spec(3) by fastforce+
qed

lemma parse_RFC3339 [simp]:
  assumes "printable t"
  shows "ParseRFC3339 other (FormatRFC3339 t) = Inr (t div second_ns * second_ns)"
  using parse_format [OF civil_printable(1-3) [OF assms], of "[]" 0] civil_printable(4) [OF assms]
  by (simp add: ParseRFC3339_def FormatRFC3339_def)

lemma parse_RFC3339Nano [simp]:
  assumes "printable t"
  shows "ParseRFC3339 other (FormatRFC3339Nano t) = Inr t"
proof -
  define ns where "ns = nat (t mod second_ns)"
  have ns: "ns < 10 ^ 9" "int ns = t mod second_ns" by (simp_all add: ns_def second_ns_def nat_less_iff)
  note p = parse_format [OF civil_printable(1-3) [OF assms], unfolded civil_printable(4) [OF assms]]
  have t: "t div second_ns * second_ns + int ns = t" by (simp add: ns(2))
  show ?thesis
  proof (cases "ns = 0")
    case True
    with p [of "[]" 0] t show ?thesis
      by (simp add: ParseRFC3339_def FormatRFC3339Nano_def ns_def [symmetric])
  next
    case False
    with fraction_back [of ns] ns(1) p [of "CHR ''.'' # strip_zeros (pad 9 ns)" ns] t show ?thesis
      by (simp add: ParseRFC3339_def FormatRFC3339Nano_def ns_def [symmetric] Let_def)
  qed
qed

lemma printable_trunc: "printable t \<Longrightarrow> printable (t div second_ns * second_ns)"
  by (auto simp: printable_def second_ns_def pos_imp_zdiv_nonneg_iff intro: le_less_trans [rotated] div_times_less_eq_dividend)

section \<open>The order of dates\<close>

text \<open>An earlier date has fewer days before it.\<close>

lemma month_start_less:
  assumes "1 \<le> m" "m < n" "n \<le> (12::int)"
  shows "month_start l m + month_lengths l ! nat (m - 1) \<le> month_start l n"
proof -
  define i j where "i = nat (m - 1)" and "j = nat (n - 1)"
  have ij: "i < j" "j < 12" using assms by (auto simp: i_def j_def)
  have "list_all (\<lambda>l. list_all (\<lambda>j. list_all (\<lambda>i. sum_list (take i (month_lengths l)) + month_lengths l ! i
      \<le> sum_list (take j (month_lengths l))) [0..<j]) [0..<12]) [True, False]" by code_simp
  then have "sum_list (take i (month_lengths l)) + month_lengths l ! i \<le> sum_list (take j (month_lengths l))"
    using ij by (cases l) (auto simp: list_all_iff simp del: upt.simps)
  then show ?thesis by (simp add: month_start_def i_def [symmetric] j_def [symmetric])
qed

lemma month_end:
  assumes "1 \<le> m" "m \<le> (12::int)"
  shows "month_start l m + month_lengths l ! nat (m - 1) \<le> (if l then 366 else 365)" "0 \<le> month_start l m"
proof -
  have i: "nat (m - 1) < 12" using assms by auto
  have "list_all (\<lambda>l. list_all (\<lambda>i. sum_list (take i (month_lengths l)) + month_lengths l ! i
      \<le> (if l then 366 else 365) \<and> 0 \<le> sum_list (take i (month_lengths l))) [0..<12]) [True, False]" by code_simp
  then have "sum_list (take (nat (m - 1)) (month_lengths l)) + month_lengths l ! nat (m - 1) \<le> (if l then 366 else 365)
      \<and> 0 \<le> sum_list (take (nat (m - 1)) (month_lengths l))"
    using i by (cases l) (auto simp: list_all_iff simp del: upt.simps)
  then show "month_start l m + month_lengths l ! nat (m - 1) \<le> (if l then 366 else 365)" "0 \<le> month_start l m"
    by (simp_all add: month_start_def)
qed

lemma div_step:
  fixes n k :: int
  assumes "0 < k"
  shows "(n + 1) div k = n div k + (if (n + 1) mod k = 0 then 1 else 0)"
proof -
  have "0 \<le> n mod k" "n mod k < k" using assms by simp_all
  note m = multiple_iff [of n k "n div k" "n mod k", OF _ this]
  show ?thesis
  proof (cases "(n + 1) mod k = 0")
    case True
    then have "n + 1 = k * (n div k + 1) + 0" using m(3) by (metis add.assoc add.right_neutral mult.commute mult_div_mod_eq distrib_left mult.right_neutral)
    then have "(n + 1) div k = n div k + 1" using assms by (intro int_div_pos_eq) auto
    with True show ?thesis by simp
  next
    case False
    then have "n mod k + 1 < k" using m(3) \<open>n mod k < k\<close> by simp
    moreover have "n + 1 = k * (n div k) + (n mod k + 1)" by simp
    ultimately have "(n + 1) div k = n div k" using \<open>0 \<le> n mod k\<close> by (intro int_div_pos_eq) auto
    with False show ?thesis by simp
  qed
qed

lemma days_before_year_Suc: "days_before_year (y + 1) = days_before_year y + (if leap y then 366 else 365)"
proof -
  have dvd: "(4::int) dvd 100" "(100::int) dvd 400" by simp_all
  have imp: "y mod 4 = 0" if "y mod 100 = 0" using that dvd(1) by (metis dvd_trans mod_0_imp_dvd dvd_imp_mod_0)
  have imp': "y mod 100 = 0" if "y mod 400 = 0" using that dvd(2) by (metis dvd_trans mod_0_imp_dvd dvd_imp_mod_0)
  define a b c where "a = (y - 1) div 4" and "b = (y - 1) div 100" and "c = (y - 1) div 400"
  have "y div 4 = a + (if y mod 4 = 0 then 1 else 0)" "y div 100 = b + (if y mod 100 = 0 then 1 else 0)"
    "y div 400 = c + (if y mod 400 = 0 then 1 else 0)"
    using div_step [OF zero_less_numeral, of "y - 1"] unfolding a_def b_def c_def diff_add_cancel by blast+
  then show ?thesis
    unfolding days_before_year_def Let_def leap_def add_diff_cancel_right' a_def [symmetric] b_def [symmetric] c_def [symmetric]
    using imp imp' by (cases "y mod 4 = 0"; cases "y mod 100 = 0"; cases "y mod 400 = 0") (simp_all only: if_True if_False simp_thms, simp_all)
qed

definition civil_less :: "civil \<Rightarrow> civil \<Rightarrow> bool" where
  "civil_less c d = (c_year c < c_year d \<or> c_year c = c_year d \<and> (c_month c < c_month d \<or> c_month c = c_month d \<and> (c_day c < c_day d
     \<or> c_day c = c_day d \<and> (c_hour c < c_hour d \<or> c_hour c = c_hour d \<and> (c_min c < c_min d \<or> c_min c = c_min d \<and> c_sec c < c_sec d)))))"

definition civil_days :: "civil \<Rightarrow> int" where
  "civil_days c = days_before_year (c_year c) + month_start (leap (c_year c)) (c_month c) + c_day c - 1"

lemma civil_days_less:
  assumes "civil_ok c" "civil_ok d"
    and "c_year c < c_year d \<or> c_year c = c_year d \<and> (c_month c < c_month d \<or> c_month c = c_month d \<and> c_day c < c_day d)"
  shows "civil_days c < civil_days d"
  using assms(3)
proof (elim disjE conjE)
  assume y: "c_year c < c_year d"
  have "c_day c \<le> month_lengths (leap (c_year c)) ! nat (c_month c - 1)" using assms(1) by (simp add: civil_ok_def)
  with month_end(1) [of "c_month c" "leap (c_year c)"] assms(1) have "civil_days c < days_before_year (c_year c + 1)"
    unfolding days_before_year_Suc civil_days_def by (simp add: civil_ok_def)
  also have "\<dots> \<le> days_before_year (c_year d)" using y by (intro days_before_year_mono) simp
  also have "\<dots> \<le> civil_days d" using month_end(2) [of "c_month d" "leap (c_year d)"] assms(2) by (simp add: civil_days_def civil_ok_def)
  finally show ?thesis .
next
  assume eq: "c_year c = c_year d" and m: "c_month c < c_month d"
  have "month_start (leap (c_year d)) (c_month c) + month_lengths (leap (c_year d)) ! nat (c_month c - 1) \<le> month_start (leap (c_year d)) (c_month d)"
    using assms(1,2) m by (intro month_start_less) (auto simp: civil_ok_def)
  then show ?thesis using assms(1,2) eq by (simp add: civil_days_def civil_ok_def)
qed (simp add: civil_days_def)

lemma civil_seconds_less:
  assumes "civil_ok c" "civil_ok d" "civil_less c d"
  shows "seconds_of c < seconds_of d"
proof -
  have sec: "seconds_of x = civil_days x * 86400 + (c_hour x * 3600 + c_min x * 60 + c_sec x)" for x
    by (simp add: seconds_of_def civil_days_def)
  have range: "0 \<le> c_hour x * 3600 + c_min x * 60 + c_sec x" "c_hour x * 3600 + c_min x * 60 + c_sec x < 86400" if "civil_ok x" for x
    using that by (auto simp: civil_ok_def)
  consider "civil_days c < civil_days d" | "civil_days c = civil_days d" "c_hour c < c_hour d \<or> c_hour c = c_hour d \<and> (c_min c < c_min d \<or> c_min c = c_min d \<and> c_sec c < c_sec d)"
    using civil_days_less [OF assms(1,2)] assms(3) unfolding civil_less_def by (fastforce simp: civil_days_def)
  then show ?thesis
  proof cases
    case 1
    then have "civil_days c * 86400 + 86400 \<le> civil_days d * 86400" by linarith
    with range [OF assms(1)] range [OF assms(2)] show ?thesis unfolding sec by linarith
  next
    case 2
    have "c_min c < 60" "c_sec c < 60" "0 \<le> c_min d" "0 \<le> c_sec d" using assms(1,2) by (auto simp: civil_ok_def)
    with 2 show ?thesis unfolding sec by auto
  qed
qed

lemma civil_less_total: "civil_less c d \<or> civil_less d c \<or> c = d"
  by (cases c; cases d) (auto simp: civil_less_def)

lemma civil_less_iff:
  assumes "civil_ok c" "civil_ok d"
  shows "civil_less c d \<longleftrightarrow> seconds_of c < seconds_of d"
  using civil_seconds_less [OF assms] civil_seconds_less [OF assms(2,1)] civil_less_total [of c d] by auto

end
