(* ===== verification/Tasks.thy ===== *)
theory Tasks
  imports Coordination GoJSON GoTime "HOL-Library.List_Lexorder" "HOL-Library.Char_ord"
begin

text \<open>
  Package \<^verbatim>\<open>internal/task\<close>: tasks of the multi-agent orchestration, the transitions their
  status may take, the local backend that keeps them as JSON in the coordination store with
  snapshots in SQLite, and the service that chooses between the local backend and those of
  plugins.

  The coordination store is any implementation of \<^verbatim>\<open>CoordStore\<close>, plugin backends are any
  operations over a state of their own, and clock readings, new UUIDs, the driver's errors
  and the wording of the JSON errors are arguments. The tree of a task's JSON, its text and
  the SQLite rows are written out. A call is one step: \<^verbatim>\<open>Transition\<close> and \<^verbatim>\<open>Assign\<close> of the
  local backend read a task and write it back in two transactions without a lock, and what
  happens when two calls overlap there (one may write back a status the other has left) is
  outside the model.
\<close>

section \<open>Tasks\<close>

type_synonym Status = string

definition StatusPending :: Status where "StatusPending = ''pending''"
definition StatusInProgress :: Status where "StatusInProgress = ''in_progress''"
definition StatusCompleted :: Status where "StatusCompleted = ''completed''"
definition StatusFailed :: Status where "StatusFailed = ''failed''"
definition StatusCanceled :: Status where "StatusCanceled = ''canceled''"

lemmas status_defs = StatusPending_def StatusInProgress_def StatusCompleted_def StatusFailed_def
  StatusCanceled_def

text \<open>
  A \<^verbatim>\<open>map[string]string\<close> is the list of its entries in key order, which is the order
  \<^verbatim>\<open>json.Marshal\<close> writes them in; a nil map is \<^const>\<open>None\<close>.
\<close>

type_synonym str_map = "(string \<times> string) list"

fun map_put :: "string \<Rightarrow> string \<Rightarrow> str_map \<Rightarrow> str_map" where
  "map_put k v [] = [(k, v)]"
| "map_put k v ((a, b) # m) = (if k < a then (k, v) # (a, b) # m
     else if k = a then (k, v) # m else (a, b) # map_put k v m)"

record Task =
  ID :: string
  ParentID :: string
  SessionID :: string
  WorkerSessionID :: string
  Title :: string
  Description :: string
  Task_Status :: Status
  AssigneeAgentID :: string
  Result :: string
  Error :: string
  TokensUsed :: int
  Metadata :: "str_map option"
  CreatedAt :: go_time
  UpdatedAt :: go_time
  CompletedAt :: "go_time option"

definition zero_task :: Task where
  "zero_task = \<lparr>ID = [], ParentID = [], SessionID = [], WorkerSessionID = [], Title = [], Description = [],
     Task_Status = [], AssigneeAgentID = [], Result = [], Error = [], TokensUsed = 0, Metadata = None,
     CreatedAt = 0, UpdatedAt = 0, CompletedAt = None\<rparr>"

definition terminal_status :: "Status \<Rightarrow> bool" where
  "terminal_status s = (s = StatusCompleted \<or> s = StatusFailed \<or> s = StatusCanceled)"

definition Task_IsTerminal :: "Task \<Rightarrow> bool" where
  "Task_IsTerminal t = terminal_status (Task_Status t)"

definition validTransitions :: "(Status \<times> Status list) list" where
  "validTransitions = [
     (StatusPending, [StatusInProgress, StatusCanceled]),
     (StatusInProgress, [StatusCompleted, StatusFailed, StatusCanceled]),
     (StatusCompleted, []),
     (StatusFailed, [StatusPending]),
     (StatusCanceled, [])]"

text \<open>\<open>q\<close> is the verb \<^verbatim>\<open>%q\<close> of package \<^verbatim>\<open>fmt\<close>, used in messages only.\<close>

definition ValidateTransition :: "(string \<Rightarrow> string) \<Rightarrow> Status \<Rightarrow> Status \<Rightarrow> go_error option" where
  "ValidateTransition q from to = (case map_of validTransitions from of
       None \<Rightarrow> Some (Errorf (''unknown status '' @ q from))
     | Some allowed \<Rightarrow> if to \<in> set allowed then None
         else Some (Errorf (''invalid transition from '' @ q from @ '' to '' @ q to)))"

record TaskFilter =
  f_SessionID :: string
  f_ParentID :: string
  f_Status :: Status

definition no_filter :: TaskFilter where
  "no_filter = \<lparr>f_SessionID = [], f_ParentID = [], f_Status = []\<rparr>"

definition matchesFilter :: "Task \<Rightarrow> TaskFilter \<Rightarrow> bool" where
  "matchesFilter t f = (
     if f_SessionID f \<noteq> [] \<and> SessionID t \<noteq> f_SessionID f then False
     else if f_ParentID f \<noteq> [] \<and> ParentID t \<noteq> f_ParentID f then False
     else if f_Status f \<noteq> [] \<and> Task_Status t \<noteq> f_Status f then False
     else True)"

section \<open>JSON\<close>

text \<open>
  What package \<^verbatim>\<open>json\<close> says when it fails, its folding of member names, what the two time
  parsers make of texts that are not UTC texts of \<^verbatim>\<open>Format\<close>, and \<^verbatim>\<open>%q\<close>.
\<close>

record json_env =
  syntax_error :: "string \<Rightarrow> go_error"
  type_error :: "string \<Rightarrow> go_error"
  fold_name :: "string \<Rightarrow> string"
  other_json_time :: "string \<Rightarrow> go_error + go_time"
  other_time :: "string \<Rightarrow> go_error + go_time"
  quote_verb :: "string \<Rightarrow> string"

definition omit_str :: "string \<Rightarrow> string \<Rightarrow> (string \<times> json) list" where
  "omit_str k s = (if s = [] then [] else [(k, JStr s)])"

definition map_json :: "str_map option \<Rightarrow> json" where
  "map_json m = (case m of None \<Rightarrow> JNull | Some kvs \<Rightarrow> JObj (map (\<lambda>(k, v). (k, JStr v)) kvs))"

definition time_json :: "go_time \<Rightarrow> json" where
  "time_json t = JStr (FormatRFC3339Nano t)"

definition task_json :: "Task \<Rightarrow> json" where
  "task_json t = JObj (
     [(''id'', JStr (ID t))] @ omit_str ''parent_id'' (ParentID t)
     @ [(''session_id'', JStr (SessionID t))] @ omit_str ''worker_session_id'' (WorkerSessionID t)
     @ [(''title'', JStr (Title t))] @ omit_str ''description'' (Description t)
     @ [(''status'', JStr (Task_Status t))] @ omit_str ''assignee_agent_id'' (AssigneeAgentID t)
     @ omit_str ''result'' (Result t) @ omit_str ''error'' (Error t)
     @ [(''tokens_used'', JNum (TokensUsed t))]
     @ (if Metadata t = None \<or> Metadata t = Some [] then [] else [(''metadata'', map_json (Metadata t))])
     @ [(''created_at'', time_json (CreatedAt t)), (''updated_at'', time_json (UpdatedAt t))]
     @ (case CompletedAt t of None \<Rightarrow> [] | Some c \<Rightarrow> [(''completed_at'', time_json c)]))"

text \<open>\<^verbatim>\<open>Time.MarshalJSON\<close> refuses years that four digits cannot name.\<close>

definition time_marshals :: "go_time \<Rightarrow> bool" where
  "time_marshals t = (let y = c_year (civil_of (t div second_ns)) in 0 \<le> y \<and> y \<le> 9999)"

definition task_times :: "Task \<Rightarrow> go_time list" where
  "task_times t = [CreatedAt t, UpdatedAt t] @ (case CompletedAt t of None \<Rightarrow> [] | Some c \<Rightarrow> [c])"

definition marshal_task :: "Task \<Rightarrow> go_error + string" where
  "marshal_task t = (if list_all time_marshals (task_times t) then Inr (Encode (task_json t))
     else Inl (Wrapf ''json: error calling MarshalJSON for type time.Time: ''
       (Errorf ''Time.MarshalJSON: year outside of range [0,9999]'')))"

text \<open>
  Filling a field from a value: \<^const>\<open>None\<close> where package \<^verbatim>\<open>json\<close> reports an error. A value
  \<^verbatim>\<open>null\<close> leaves a string, a number or a time alone and clears a map or a pointer.
\<close>

definition put_str :: "((string \<Rightarrow> string) \<Rightarrow> Task \<Rightarrow> Task) \<Rightarrow> json \<Rightarrow> Task \<Rightarrow> Task option" where
  "put_str upd v t = (case v of JStr s \<Rightarrow> Some (upd (\<lambda>_. s) t) | JNull \<Rightarrow> Some t | _ \<Rightarrow> None)"

definition put_int :: "((int \<Rightarrow> int) \<Rightarrow> Task \<Rightarrow> Task) \<Rightarrow> json \<Rightarrow> Task \<Rightarrow> Task option" where
  "put_int upd v t = (case v of
       JNum i \<Rightarrow> if - (2 ^ 63) \<le> i \<and> i < 2 ^ 63 then Some (upd (\<lambda>_. i) t) else None
     | JNull \<Rightarrow> Some t | _ \<Rightarrow> None)"

definition read_time :: "json_env \<Rightarrow> json \<Rightarrow> go_time option" where
  "read_time E v = (case v of
       JStr s \<Rightarrow> (case ParseRFC3339 (other_json_time E) s of Inr t \<Rightarrow> Some t | Inl _ \<Rightarrow> None)
     | _ \<Rightarrow> None)"

definition put_time :: "json_env \<Rightarrow> ((go_time \<Rightarrow> go_time) \<Rightarrow> Task \<Rightarrow> Task) \<Rightarrow> json \<Rightarrow> Task \<Rightarrow> Task option" where
  "put_time E upd v t = (if v = JNull then Some t
     else map_option (\<lambda>x. upd (\<lambda>_. x) t) (read_time E v))"

definition put_time_ptr :: "json_env \<Rightarrow> ((go_time option \<Rightarrow> go_time option) \<Rightarrow> Task \<Rightarrow> Task)
    \<Rightarrow> json \<Rightarrow> Task \<Rightarrow> Task option" where
  "put_time_ptr E upd v t = (if v = JNull then Some (upd (\<lambda>_. None) t)
     else map_option (\<lambda>x. upd (\<lambda>_. Some x) t) (read_time E v))"

text \<open>
  A \<^verbatim>\<open>map[string]string\<close> from a value: the map afterwards, and whether there was no error. A
  member of another type than string is an error and leaves the empty string in the map.
\<close>

definition elem_str :: "json \<Rightarrow> string" where
  "elem_str v = (case v of JStr s \<Rightarrow> s | _ \<Rightarrow> [])"

definition read_map :: "json \<Rightarrow> str_map option \<Rightarrow> str_map option \<times> bool" where
  "read_map v m = (case v of
       JNull \<Rightarrow> (None, True)
     | JObj ms \<Rightarrow> (Some (foldl (\<lambda>acc (k, w). map_put k (elem_str w) acc) (case m of None \<Rightarrow> [] | Some kvs \<Rightarrow> kvs) ms),
         list_all (\<lambda>(k, w). case w of JStr _ \<Rightarrow> True | JNull \<Rightarrow> True | _ \<Rightarrow> False) ms)
     | _ \<Rightarrow> (m, False))"

definition put_map :: "((str_map option \<Rightarrow> str_map option) \<Rightarrow> Task \<Rightarrow> Task) \<Rightarrow> (Task \<Rightarrow> str_map option)
    \<Rightarrow> json \<Rightarrow> Task \<Rightarrow> Task option" where
  "put_map upd get v t = (case read_map v (get t) of (m, ok) \<Rightarrow> if ok then Some (upd (\<lambda>_. m) t) else None)"

definition task_fields :: "json_env \<Rightarrow> (string \<times> (json \<Rightarrow> Task \<Rightarrow> Task option)) list" where
  "task_fields E = [
     (''id'', put_str ID_update), (''parent_id'', put_str ParentID_update),
     (''session_id'', put_str SessionID_update), (''worker_session_id'', put_str WorkerSessionID_update),
     (''title'', put_str Title_update), (''description'', put_str Description_update),
     (''status'', put_str Task_Status_update), (''assignee_agent_id'', put_str AssigneeAgentID_update),
     (''result'', put_str Result_update), (''error'', put_str Error_update),
     (''tokens_used'', put_int TokensUsed_update), (''metadata'', put_map Metadata_update Metadata),
     (''created_at'', put_time E CreatedAt_update), (''updated_at'', put_time E UpdatedAt_update),
     (''completed_at'', put_time_ptr E CompletedAt_update)]"

text \<open>The field of a member: its exact name, or else the first whose folded name agrees; none is ignored.\<close>

definition field_of :: "json_env \<Rightarrow> string \<Rightarrow> (json \<Rightarrow> Task \<Rightarrow> Task option) option" where
  "field_of E k = (case map_of (task_fields E) k of Some f \<Rightarrow> Some f
     | None \<Rightarrow> map_option snd (find (\<lambda>(n, _). fold_name E n = fold_name E k) (task_fields E)))"

fun fill_members :: "json_env \<Rightarrow> (string \<times> json) list \<Rightarrow> Task \<Rightarrow> Task option" where
  "fill_members E [] t = Some t"
| "fill_members E ((k, v) # ms) t = (case (case field_of E k of None \<Rightarrow> Some t | Some f \<Rightarrow> f v t) of
       None \<Rightarrow> None | Some t' \<Rightarrow> fill_members E ms t')"

definition unmarshal_task :: "json_env \<Rightarrow> string \<Rightarrow> go_error + Task" where
  "unmarshal_task E data = (case Decode (syntax_error E) data of
       Inl e \<Rightarrow> Inl e
     | Inr v \<Rightarrow> (case (case v of JNull \<Rightarrow> Some zero_task | JObj ms \<Rightarrow> fill_members E ms zero_task | _ \<Rightarrow> None) of
          None \<Rightarrow> Inl (type_error E data) | Some t \<Rightarrow> Inr t))"

text \<open>
  A task as the program makes them: its strings are valid UTF-8, its map has its entries in
  key order, its number fits 64 bits and its instants have four digit years.
\<close>

definition map_wf :: "str_map \<Rightarrow> bool" where
  "map_wf m = (sorted_wrt (<) (map fst m) \<and> list_all (\<lambda>(k, v). valid_utf8 k \<and> valid_utf8 v) m)"

definition task_strings :: "Task \<Rightarrow> string list" where
  "task_strings t = [ID t, ParentID t, SessionID t, WorkerSessionID t, Title t, Description t,
     Task_Status t, AssigneeAgentID t, Result t, Error t]"

definition task_wf :: "Task \<Rightarrow> bool" where
  "task_wf t = (list_all valid_utf8 (task_strings t) \<and> (case Metadata t of None \<Rightarrow> True | Some m \<Rightarrow> map_wf m)
     \<and> - (2 ^ 63) \<le> TokensUsed t \<and> TokensUsed t < 2 ^ 63 \<and> list_all printable (task_times t))"

text \<open>What JSON does not tell apart: an empty map is left out and comes back as nil.\<close>

definition json_norm :: "Task \<Rightarrow> Task" where
  "json_norm t = t\<lparr>Metadata := (if Metadata t = Some [] then None else Metadata t)\<rparr>"

section \<open>Snapshots in SQLite\<close>

text \<open>
  A row of table \<^verbatim>\<open>tasks\<close>. \<^verbatim>\<open>UpsertTask\<close> is the only writer and never writes a null but for
  \<^verbatim>\<open>completed_at\<close>, so that the \<^verbatim>\<open>COALESCE\<close>s of the query never see one.
\<close>

record task_row =
  r_id :: string
  r_parent_id :: string
  r_session_id :: string
  r_worker_session_id :: string
  r_title :: string
  r_description :: string
  r_status :: string
  r_assignee_agent_id :: string
  r_result :: string
  r_error :: string
  r_tokens_used :: int
  r_metadata :: string
  r_created_at :: string
  r_updated_at :: string
  r_completed_at :: "string option"

type_synonym task_table = "task_row list"

record 'q SnapshotStore =
  sn_UpsertTask :: "Task \<Rightarrow> 'q \<Rightarrow> 'q \<times> go_error option"
  sn_ListTasks :: "TaskFilter \<Rightarrow> 'q \<Rightarrow> go_error + Task list"

text \<open>What the driver answers to a statement or a query that it refuses.\<close>

record sql_env =
  exec_error :: "task_row \<Rightarrow> task_table \<Rightarrow> go_error option"
  query_error :: "TaskFilter \<Rightarrow> task_table \<Rightarrow> go_error option"

definition task_row_of :: "Task \<Rightarrow> task_row" where
  "task_row_of t = \<lparr>r_id = ID t, r_parent_id = ParentID t, r_session_id = SessionID t,
     r_worker_session_id = WorkerSessionID t, r_title = Title t, r_description = Description t,
     r_status = Task_Status t, r_assignee_agent_id = AssigneeAgentID t, r_result = Result t,
     r_error = Error t, r_tokens_used = TokensUsed t, r_metadata = Encode (map_json (Metadata t)),
     r_created_at = FormatRFC3339 (CreatedAt t), r_updated_at = FormatRFC3339 (UpdatedAt t),
     r_completed_at = map_option FormatRFC3339 (CompletedAt t)\<rparr>"

text \<open>\<^verbatim>\<open>INSERT ... ON CONFLICT(id) DO UPDATE\<close>: every column but \<^verbatim>\<open>id\<close> and \<^verbatim>\<open>created_at\<close> is replaced.\<close>

fun upsert_row :: "task_row \<Rightarrow> task_table \<Rightarrow> task_table" where
  "upsert_row r [] = [r]"
| "upsert_row r (x # xs) = (if r_id x = r_id r then r\<lparr>r_created_at := r_created_at x\<rparr> # xs
     else x # upsert_row r xs)"

definition UpsertTask :: "sql_env \<Rightarrow> Task \<Rightarrow> task_table \<Rightarrow> task_table \<times> go_error option" where
  "UpsertTask D t q = (case exec_error D (task_row_of t) q of
       Some e \<Rightarrow> (q, Some (Wrapf ''upsert task: '' e))
     | None \<Rightarrow> (upsert_row (task_row_of t) q, None))"

definition scan_time :: "json_env \<Rightarrow> string \<Rightarrow> go_time" where
  "scan_time E s = (case ParseRFC3339 (other_time E) s of Inr t \<Rightarrow> t | Inl _ \<Rightarrow> 0)"

definition scan_metadata :: "json_env \<Rightarrow> string \<Rightarrow> str_map option" where
  "scan_metadata E s = (case Decode (syntax_error E) s of Inl _ \<Rightarrow> None | Inr v \<Rightarrow> fst (read_map v None))"

definition scanTask :: "json_env \<Rightarrow> task_row \<Rightarrow> Task" where
  "scanTask E r = \<lparr>ID = r_id r, ParentID = r_parent_id r, SessionID = r_session_id r,
     WorkerSessionID = r_worker_session_id r, Title = r_title r, Description = r_description r,
     Task_Status = r_status r, AssigneeAgentID = r_assignee_agent_id r, Result = r_result r,
     Error = r_error r, TokensUsed = r_tokens_used r,
     Metadata = (case scan_metadata E (r_metadata r) of None \<Rightarrow> Some [] | Some m \<Rightarrow> Some m),
     CreatedAt = scan_time E (r_created_at r), UpdatedAt = scan_time E (r_updated_at r),
     CompletedAt = map_option (scan_time E) (r_completed_at r)\<rparr>"

definition row_matches :: "TaskFilter \<Rightarrow> task_row \<Rightarrow> bool" where
  "row_matches f r = ((f_SessionID f \<noteq> [] \<longrightarrow> r_session_id r = f_SessionID f)
     \<and> (f_ParentID f \<noteq> [] \<longrightarrow> r_parent_id r = f_ParentID f)
     \<and> (f_Status f \<noteq> [] \<longrightarrow> r_status r = f_Status f))"

text \<open>\<^verbatim>\<open>ORDER BY created_at DESC\<close>, by the bytes of the column.\<close>

fun insert_desc :: "task_row \<Rightarrow> task_table \<Rightarrow> task_table" where
  "insert_desc r [] = [r]"
| "insert_desc r (x # xs) = (if r_created_at r < r_created_at x then x # insert_desc r xs else r # x # xs)"

definition order_desc :: "task_table \<Rightarrow> task_table" where
  "order_desc q = foldr insert_desc q []"

definition ListTasks :: "sql_env \<Rightarrow> json_env \<Rightarrow> TaskFilter \<Rightarrow> task_table \<Rightarrow> go_error + Task list" where
  "ListTasks D E f q = (case query_error D f q of Some e \<Rightarrow> Inl (Wrapf ''list tasks: '' e)
     | None \<Rightarrow> Inr (map (scanTask E) (order_desc (filter (row_matches f) q))))"

definition SQLiteSnapshot :: "sql_env \<Rightarrow> json_env \<Rightarrow> task_table SnapshotStore" where
  "SQLiteSnapshot D E = \<lparr>sn_UpsertTask = UpsertTask D, sn_ListTasks = ListTasks D E\<rparr>"

section \<open>The local backend\<close>

record ('c, 'q) LocalBackend =
  lb_coord :: "'c CoordStore"
  lb_db :: "'q SnapshotStore option"

definition NewLocalBackend :: "'c CoordStore \<Rightarrow> 'q SnapshotStore option \<Rightarrow> ('c, 'q) LocalBackend" where
  "NewLocalBackend coord db = \<lparr>lb_coord = coord, lb_db = db\<rparr>"

text \<open>The \<open>i\<close>-th clock reading of a call is \<open>clk i\<close>.\<close>

type_synonym clock = "nat \<Rightarrow> go_time"

definition put_task :: "('c, 'q) LocalBackend \<Rightarrow> go_time \<Rightarrow> Task \<Rightarrow> 'c \<Rightarrow> 'c \<times> go_error option" where
  "put_task b now t c = (case marshal_task t of
       Inl e \<Rightarrow> (c, Some (Wrapf ''marshal task: '' e))
     | Inr data \<Rightarrow> kv_Put (lb_coord b) now (PrefixTask @ ID t) data 0 c)"

definition created_task :: "string \<Rightarrow> go_time \<Rightarrow> Task \<Rightarrow> Task" where
  "created_task uuid now t = t\<lparr>ID := (if ID t = [] then uuid else ID t), CreatedAt := now, UpdatedAt := now,
     Task_Status := (if Task_Status t = [] then StatusPending else Task_Status t),
     Metadata := (if Metadata t = None then Some [] else Metadata t)\<rparr>"

text \<open>\<^verbatim>\<open>Create\<close> and \<^verbatim>\<open>Update\<close> also change the caller's task, which is the second result.\<close>

definition Local_Create :: "('c, 'q) LocalBackend \<Rightarrow> clock \<Rightarrow> string \<Rightarrow> Task \<Rightarrow> 'c \<Rightarrow> 'c \<times> Task \<times> go_error option" where
  "Local_Create b clk uuid t c = (let t' = created_task uuid (clk 0) t; (c', r) = put_task b (clk 1) t' c
     in (c', t', r))"

definition Local_Get :: "json_env \<Rightarrow> ('c, 'q) LocalBackend \<Rightarrow> go_time \<Rightarrow> string \<Rightarrow> 'c \<Rightarrow> go_error + Task" where
  "Local_Get E b now tid c = (case kv_Get (lb_coord b) now (PrefixTask @ tid) c of
       Inl e \<Rightarrow> Inl (Wrapf (''get task '' @ tid @ '': '') e)
     | Inr data \<Rightarrow> (case unmarshal_task E data of
          Inl e \<Rightarrow> Inl (Wrapf (''unmarshal task '' @ tid @ '': '') e) | Inr t \<Rightarrow> Inr t))"

definition Local_Update :: "('c, 'q) LocalBackend \<Rightarrow> clock \<Rightarrow> Task \<Rightarrow> 'c \<Rightarrow> 'c \<times> Task \<times> go_error option" where
  "Local_Update b clk t c = (let t' = t\<lparr>UpdatedAt := clk 0\<rparr>; (c', r) = put_task b (clk 1) t' c in (c', t', r))"

definition Local_Delete :: "('c, 'q) LocalBackend \<Rightarrow> go_time \<Rightarrow> string \<Rightarrow> 'c \<Rightarrow> 'c \<times> go_error option" where
  "Local_Delete b now tid c = kv_Delete (lb_coord b) now (PrefixTask @ tid) c"

definition readable_tasks :: "json_env \<Rightarrow> KVEntry list \<Rightarrow> Task list" where
  "readable_tasks E es = concat (map (\<lambda>e. case unmarshal_task E (Value e) of Inl _ \<Rightarrow> [] | Inr t \<Rightarrow> [t]) es)"

definition Local_List :: "json_env \<Rightarrow> ('c, 'q) LocalBackend \<Rightarrow> go_time \<Rightarrow> TaskFilter \<Rightarrow> 'c \<Rightarrow> go_error + Task list" where
  "Local_List E b now f c = (case kv_List (lb_coord b) now PrefixTask c of
       Inl e \<Rightarrow> Inl (Wrapf ''list tasks: '' e)
     | Inr es \<Rightarrow> Inr (filter (\<lambda>t. matchesFilter t f) (readable_tasks E es)))"

definition moved_task :: "clock \<Rightarrow> Status \<Rightarrow> Task \<Rightarrow> Task" where
  "moved_task clk to t = (let t' = t\<lparr>Task_Status := to, UpdatedAt := clk 1\<rparr> in
     if to = StatusCompleted \<or> to = StatusFailed \<or> to = StatusCanceled then t'\<lparr>CompletedAt := Some (clk 2)\<rparr> else t')"

definition Local_Transition :: "json_env \<Rightarrow> ('c, 'q) LocalBackend \<Rightarrow> clock \<Rightarrow> string \<Rightarrow> Status \<Rightarrow> 'c \<Rightarrow> 'c \<times> go_error option" where
  "Local_Transition E b clk tid to c = (case Local_Get E b (clk 0) tid c of
       Inl e \<Rightarrow> (c, Some e)
     | Inr t \<Rightarrow> (case ValidateTransition (quote_verb E) (Task_Status t) to of
          Some e \<Rightarrow> (c, Some e)
        | None \<Rightarrow> put_task b (clk 3) (moved_task clk to t) c))"

definition assigned_task :: "go_time \<Rightarrow> string \<Rightarrow> string \<Rightarrow> Task \<Rightarrow> Task" where
  "assigned_task now agentID workerSessionID t =
     t\<lparr>AssigneeAgentID := agentID, WorkerSessionID := workerSessionID, UpdatedAt := now\<rparr>"

definition Local_Assign :: "json_env \<Rightarrow> ('c, 'q) LocalBackend \<Rightarrow> clock \<Rightarrow> string \<Rightarrow> string \<Rightarrow> string \<Rightarrow> 'c \<Rightarrow> 'c \<times> go_error option" where
  "Local_Assign E b clk tid agentID workerSessionID c = (case Local_Get E b (clk 0) tid c of
       Inl e \<Rightarrow> (c, Some e)
     | Inr t \<Rightarrow> put_task b (clk 2) (assigned_task (clk 1) agentID workerSessionID t) c)"

fun upsert_all :: "'q SnapshotStore \<Rightarrow> Task list \<Rightarrow> 'q \<Rightarrow> 'q \<times> go_error option" where
  "upsert_all db [] q = (q, None)"
| "upsert_all db (t # ts) q = (case sn_UpsertTask db t q of
       (q', Some e) \<Rightarrow> (q', Some (Wrapf (''snapshot task '' @ ID t @ '': '') e))
     | (q', None) \<Rightarrow> upsert_all db ts q')"

definition Local_Snapshot :: "json_env \<Rightarrow> ('c, 'q) LocalBackend \<Rightarrow> go_time \<Rightarrow> 'c \<Rightarrow> 'q \<Rightarrow> 'q \<times> go_error option" where
  "Local_Snapshot E b now c q = (case lb_db b of None \<Rightarrow> (q, None)
     | Some db \<Rightarrow> (case kv_List (lb_coord b) now PrefixTask c of
          Inl e \<Rightarrow> (q, Some (Wrapf ''list tasks for snapshot: '' e))
        | Inr es \<Rightarrow> upsert_all db (readable_tasks E es) q))"

fun restore_all :: "('c, 'q) LocalBackend \<Rightarrow> go_time \<Rightarrow> Task list \<Rightarrow> 'c \<Rightarrow> 'c \<times> go_error option" where
  "restore_all b now [] c = (c, None)"
| "restore_all b now (t # ts) c = (if Task_IsTerminal t then restore_all b now ts c
     else case put_task b now t c of
         (c', Some e) \<Rightarrow> (c', Some (Wrapf (''restore task '' @ ID t @ '': '') e))
       | (c', None) \<Rightarrow> restore_all b now ts c')"

definition Local_Restore :: "('c, 'q) LocalBackend \<Rightarrow> go_time \<Rightarrow> 'q \<Rightarrow> 'c \<Rightarrow> 'c \<times> go_error option" where
  "Local_Restore b now q c = (case lb_db b of None \<Rightarrow> (c, None)
     | Some db \<Rightarrow> if \<not> kv_Available (lb_coord b) then (c, None)
         else case sn_ListTasks db no_filter q of
             Inl e \<Rightarrow> (c, Some (Wrapf ''restore tasks: '' e))
           | Inr ts \<Rightarrow> restore_all b now ts c)"

section \<open>The service\<close>

text \<open>A plugin's backend: its operations over the state \<open>'p\<close> of the plugins.\<close>

record 'p TaskBackend =
  tb_Create :: "Task \<Rightarrow> 'p \<Rightarrow> 'p \<times> Task \<times> go_error option"
  tb_Get :: "string \<Rightarrow> 'p \<Rightarrow> 'p \<times> (go_error + Task)"
  tb_Update :: "Task \<Rightarrow> 'p \<Rightarrow> 'p \<times> Task \<times> go_error option"
  tb_Delete :: "string \<Rightarrow> 'p \<Rightarrow> 'p \<times> go_error option"
  tb_List :: "TaskFilter \<Rightarrow> 'p \<Rightarrow> 'p \<times> (go_error + Task list)"
  tb_Transition :: "string \<Rightarrow> Status \<Rightarrow> 'p \<Rightarrow> 'p \<times> go_error option"
  tb_Assign :: "string \<Rightarrow> string \<Rightarrow> string \<Rightarrow> 'p \<Rightarrow> 'p \<times> go_error option"

datatype 'p backend = LocalImpl | Plugin "'p TaskBackend"

definition BackendLocal :: string where "BackendLocal = ''local''"

text \<open>
  The settings function reads the user's configured name, which is an argument of the
  operations; it may be missing, and so may the local backend.
\<close>

record ServiceConfig =
  cfg_Local :: bool
  cfg_Settings :: "(string \<Rightarrow> string) option"

record 'p serviceImpl =
  backends :: "string \<Rightarrow> 'p backend option"
  has_local :: bool
  settings :: "string \<Rightarrow> string"

definition Task_NewService :: "ServiceConfig \<Rightarrow> 'p serviceImpl" where
  "Task_NewService cfg = \<lparr>
     backends = (if cfg_Local cfg then [BackendLocal \<mapsto> LocalImpl] else Map.empty),
     has_local = cfg_Local cfg,
     settings = (case cfg_Settings cfg of None \<Rightarrow> (\<lambda>_. BackendLocal) | Some f \<Rightarrow> f)\<rparr>"

text \<open>\<^const>\<open>None\<close> is a value that does not implement \<^verbatim>\<open>TaskBackend\<close>.\<close>

definition RegisterBackend :: "string \<Rightarrow> 'p backend option \<Rightarrow> 'p serviceImpl \<Rightarrow> 'p serviceImpl" where
  "RegisterBackend name tb s = (case tb of None \<Rightarrow> s
     | Some x \<Rightarrow> s\<lparr>backends := (backends s)(name \<mapsto> x)\<rparr>)"

definition UnregisterBackend :: "string \<Rightarrow> 'p serviceImpl \<Rightarrow> 'p serviceImpl \<times> bool" where
  "UnregisterBackend name s = (
     if name = BackendLocal then (s, False)
     else if backends s name = None then (s, False)
     else (s\<lparr>backends := (backends s)(name := None)\<rparr>, True))"

definition configured_name :: "'p serviceImpl \<Rightarrow> string \<Rightarrow> string" where
  "configured_name s conf = (let name = settings s conf in if name = [] then BackendLocal else name)"

text \<open>The backend a call goes to; \<^const>\<open>None\<close> is a nil local backend.\<close>

definition active_backend :: "'p serviceImpl \<Rightarrow> string \<Rightarrow> 'p backend option" where
  "active_backend s conf = (case backends s (configured_name s conf) of
       Some b \<Rightarrow> Some b
     | None \<Rightarrow> if has_local s then Some LocalImpl else None)"

definition ActiveBackendName :: "'p serviceImpl \<Rightarrow> string \<Rightarrow> string" where
  "ActiveBackendName s conf = (let name = settings s conf in
     if name = [] then BackendLocal
     else if backends s name \<noteq> None then name
     else name @ '' (unavailable, using local)'')"

text \<open>
  The state behind the service. An operation is \<^const>\<open>None\<close> where the call would dereference
  the nil local backend.
\<close>

record ('c, 'q, 'p) task_world =
  w_coord :: 'c
  w_db :: 'q
  w_plugins :: 'p

record ('c, 'q, 'p) task_service =
  sv_impl :: "'p serviceImpl"
  sv_local :: "('c, 'q) LocalBackend"
  sv_env :: json_env

definition Service_Create :: "('c, 'q, 'p) task_service \<Rightarrow> string \<Rightarrow> clock \<Rightarrow> string \<Rightarrow> Task
    \<Rightarrow> ('c, 'q, 'p) task_world \<Rightarrow> (('c, 'q, 'p) task_world \<times> Task \<times> go_error option) option" where
  "Service_Create S conf clk uuid t w = (case active_backend (sv_impl S) conf of None \<Rightarrow> None
     | Some LocalImpl \<Rightarrow> (case Local_Create (sv_local S) clk uuid t (w_coord w) of
          (c, t', r) \<Rightarrow> Some (w\<lparr>w_coord := c\<rparr>, t', r))
     | Some (Plugin p) \<Rightarrow> (case tb_Create p t (w_plugins w) of (x, t', r) \<Rightarrow> Some (w\<lparr>w_plugins := x\<rparr>, t', r)))"

definition Service_Get :: "('c, 'q, 'p) task_service \<Rightarrow> string \<Rightarrow> go_time \<Rightarrow> string
    \<Rightarrow> ('c, 'q, 'p) task_world \<Rightarrow> (('c, 'q, 'p) task_world \<times> (go_error + Task)) option" where
  "Service_Get S conf now tid w = (case active_backend (sv_impl S) conf of None \<Rightarrow> None
     | Some LocalImpl \<Rightarrow> Some (w, Local_Get (sv_env S) (sv_local S) now tid (w_coord w))
     | Some (Plugin p) \<Rightarrow> (case tb_Get p tid (w_plugins w) of (x, r) \<Rightarrow> Some (w\<lparr>w_plugins := x\<rparr>, r)))"

definition Service_Update :: "('c, 'q, 'p) task_service \<Rightarrow> string \<Rightarrow> clock \<Rightarrow> Task
    \<Rightarrow> ('c, 'q, 'p) task_world \<Rightarrow> (('c, 'q, 'p) task_world \<times> Task \<times> go_error option) option" where
  "Service_Update S conf clk t w = (case active_backend (sv_impl S) conf of None \<Rightarrow> None
     | Some LocalImpl \<Rightarrow> (case Local_Update (sv_local S) clk t (w_coord w) of
          (c, t', r) \<Rightarrow> Some (w\<lparr>w_coord := c\<rparr>, t', r))
     | Some (Plugin p) \<Rightarrow> (case tb_Update p t (w_plugins w) of (x, t', r) \<Rightarrow> Some (w\<lparr>w_plugins := x\<rparr>, t', r)))"

definition Service_Transition :: "('c, 'q, 'p) task_service \<Rightarrow> string \<Rightarrow> clock \<Rightarrow> string \<Rightarrow> Status
    \<Rightarrow> ('c, 'q, 'p) task_world \<Rightarrow> (('c, 'q, 'p) task_world \<times> go_error option) option" where
  "Service_Transition S conf clk tid to w = (case active_backend (sv_impl S) conf of None \<Rightarrow> None
     | Some LocalImpl \<Rightarrow> (case Local_Transition (sv_env S) (sv_local S) clk tid to (w_coord w) of
          (c, r) \<Rightarrow> Some (w\<lparr>w_coord := c\<rparr>, r))
     | Some (Plugin p) \<Rightarrow> (case tb_Transition p tid to (w_plugins w) of (x, r) \<Rightarrow> Some (w\<lparr>w_plugins := x\<rparr>, r)))"

definition Service_Assign :: "('c, 'q, 'p) task_service \<Rightarrow> string \<Rightarrow> clock \<Rightarrow> string \<Rightarrow> string \<Rightarrow> string
    \<Rightarrow> ('c, 'q, 'p) task_world \<Rightarrow> (('c, 'q, 'p) task_world \<times> go_error option) option" where
  "Service_Assign S conf clk tid agentID workerSessionID w = (case active_backend (sv_impl S) conf of None \<Rightarrow> None
     | Some LocalImpl \<Rightarrow> (case Local_Assign (sv_env S) (sv_local S) clk tid agentID workerSessionID (w_coord w) of
          (c, r) \<Rightarrow> Some (w\<lparr>w_coord := c\<rparr>, r))
     | Some (Plugin p) \<Rightarrow> (case tb_Assign p tid agentID workerSessionID (w_plugins w) of
          (x, r) \<Rightarrow> Some (w\<lparr>w_plugins := x\<rparr>, r)))"

definition Service_Delete :: "('c, 'q, 'p) task_service \<Rightarrow> string \<Rightarrow> go_time \<Rightarrow> string
    \<Rightarrow> ('c, 'q, 'p) task_world \<Rightarrow> (('c, 'q, 'p) task_world \<times> go_error option) option" where
  "Service_Delete S conf now tid w = (case active_backend (sv_impl S) conf of None \<Rightarrow> None
     | Some LocalImpl \<Rightarrow> (case Local_Delete (sv_local S) now tid (w_coord w) of (c, r) \<Rightarrow> Some (w\<lparr>w_coord := c\<rparr>, r))
     | Some (Plugin p) \<Rightarrow> (case tb_Delete p tid (w_plugins w) of (x, r) \<Rightarrow> Some (w\<lparr>w_plugins := x\<rparr>, r)))"

definition active_List :: "('c, 'q, 'p) task_service \<Rightarrow> string \<Rightarrow> go_time \<Rightarrow> TaskFilter
    \<Rightarrow> ('c, 'q, 'p) task_world \<Rightarrow> (('c, 'q, 'p) task_world \<times> (go_error + Task list)) option" where
  "active_List S conf now f w = (case active_backend (sv_impl S) conf of None \<Rightarrow> None
     | Some LocalImpl \<Rightarrow> Some (w, Local_List (sv_env S) (sv_local S) now f (w_coord w))
     | Some (Plugin p) \<Rightarrow> (case tb_List p f (w_plugins w) of (x, r) \<Rightarrow> Some (w\<lparr>w_plugins := x\<rparr>, r)))"

definition ListBySession :: "('c, 'q, 'p) task_service \<Rightarrow> string \<Rightarrow> go_time \<Rightarrow> string
    \<Rightarrow> ('c, 'q, 'p) task_world \<Rightarrow> (('c, 'q, 'p) task_world \<times> (go_error + Task list)) option" where
  "ListBySession S conf now sid = active_List S conf now (no_filter\<lparr>f_SessionID := sid\<rparr>)"

definition ListByParent :: "('c, 'q, 'p) task_service \<Rightarrow> string \<Rightarrow> go_time \<Rightarrow> string
    \<Rightarrow> ('c, 'q, 'p) task_world \<Rightarrow> (('c, 'q, 'p) task_world \<times> (go_error + Task list)) option" where
  "ListByParent S conf now parent = active_List S conf now (no_filter\<lparr>f_ParentID := parent\<rparr>)"

definition ListAll :: "('c, 'q, 'p) task_service \<Rightarrow> string \<Rightarrow> go_time
    \<Rightarrow> ('c, 'q, 'p) task_world \<Rightarrow> (('c, 'q, 'p) task_world \<times> (go_error + Task list)) option" where
  "ListAll S conf now = active_List S conf now no_filter"

definition Service_Cancel :: "('c, 'q, 'p) task_service \<Rightarrow> string \<Rightarrow> clock \<Rightarrow> string
    \<Rightarrow> ('c, 'q, 'p) task_world \<Rightarrow> (('c, 'q, 'p) task_world \<times> go_error option) option" where
  "Service_Cancel S conf clk tid = Service_Transition S conf clk tid StatusCanceled"

definition Service_Snapshot :: "('c, 'q, 'p) task_service \<Rightarrow> go_time
    \<Rightarrow> ('c, 'q, 'p) task_world \<Rightarrow> ('c, 'q, 'p) task_world \<times> go_error option" where
  "Service_Snapshot S now w = (if \<not> has_local (sv_impl S) then (w, None)
     else case Local_Snapshot (sv_env S) (sv_local S) now (w_coord w) (w_db w) of (q, r) \<Rightarrow> (w\<lparr>w_db := q\<rparr>, r))"

definition Service_Restore :: "('c, 'q, 'p) task_service \<Rightarrow> go_time
    \<Rightarrow> ('c, 'q, 'p) task_world \<Rightarrow> ('c, 'q, 'p) task_world \<times> go_error option" where
  "Service_Restore S now w = (if \<not> has_local (sv_impl S) then (w, None)
     else case Local_Restore (sv_local S) now (w_db w) (w_coord w) of (c, r) \<Rightarrow> (w\<lparr>w_coord := c\<rparr>, r))"

section \<open>A task comes back from its JSON\<close>

lemma ascii_valid_n: "list_all ascii_byte s \<Longrightarrow> length s \<le> n \<Longrightarrow> valid_n n s"
proof (induction n arbitrary: s)
  case (Suc n)
  show ?case
  proof (cases s)
    case (Cons c r)
    with Suc.prems have "rune_len s = 1" "list_all ascii_byte r" "length r \<le> n" by (simp_all add: rune_len_def)
    with Suc.IH [of r] Cons show ?thesis by simp
  qed simp
qed simp

lemma ascii_valid: "list_all ascii_byte s \<Longrightarrow> valid_utf8 s"
  by (simp add: valid_utf8_def ascii_valid_n)

lemma digit_ascii: "digit_char c \<Longrightarrow> ascii_byte c"
  by (simp add: ascii_byte_lt digit_char_def between_def)

lemma ascii_pad: "list_all ascii_byte (pad w n)"
  using pad_props(2) [of w n] digit_ascii by (auto simp: list_all_iff)

lemma ascii_appendInt: "list_all ascii_byte (appendInt w i)"
  by (simp add: appendInt_def ascii_pad ascii_byte_lt)

lemma ascii_strip: "list_all ascii_byte s \<Longrightarrow> list_all ascii_byte (strip_zeros s)"
  by (auto simp: strip_zeros_def list_all_iff dest: set_dropWhileD)

lemma ascii_nano: "list_all ascii_byte (FormatRFC3339Nano t)"
  by (simp add: FormatRFC3339Nano_def format_civil_def ascii_appendInt ascii_byte_lt Let_def ascii_strip ascii_pad)

lemma read_time_json [simp]: "printable t \<Longrightarrow> read_time E (time_json t) = Some t"
  by (simp add: read_time_def time_json_def)

lemma map_put_last: "\<forall>x\<in>set m. fst x < k \<Longrightarrow> map_put k v m = m @ [(k, v)]"
proof (induction m)
  case (Cons a m)
  then have "fst a < k" by simp
  then have "\<not> k < fst a" "k \<noteq> fst a" by auto
  with Cons show ?case by (cases a) simp
qed simp

lemma foldl_map_put:
  "sorted_wrt (<) (map fst (acc @ m)) \<Longrightarrow>
    foldl (\<lambda>acc (k, w). map_put k (elem_str w) acc) acc (map (\<lambda>(k, v). (k, JStr v)) m) = acc @ m"
proof (induction m arbitrary: acc)
  case (Cons a m)
  obtain k v where a: "a = (k, v)" by force
  have "map_put k v acc = acc @ [(k, v)]"
    using Cons.prems a by (intro map_put_last) (auto simp: sorted_wrt_append)
  with Cons.IH [of "acc @ [(k, v)]"] Cons.prems a show ?case by (simp add: elem_str_def)
qed simp

lemma read_map_json:
  "map_wf m \<Longrightarrow> read_map (map_json (Some m)) None = (Some m, True)"
  using foldl_map_put [of "[]" m] by (auto simp: read_map_def map_json_def map_wf_def list_all_iff)

lemma fill_append: "fill_members E (ms @ ns) t = Option.bind (fill_members E ms t) (fill_members E ns)"
  by (induction E ms t rule: fill_members.induct) (auto split: option.splits)

lemma field_of_exact: "map_of (task_fields E) k = Some f \<Longrightarrow> field_of E k = Some f"
  by (simp add: field_of_def)

lemma fill_str:
  "map_of (task_fields E) k = Some (put_str upd) \<Longrightarrow> fill_members E [(k, JStr s)] t = Some (upd (\<lambda>_. s) t)"
  by (simp add: field_of_exact put_str_def)

lemma fill_omit:
  "map_of (task_fields E) k = Some (put_str upd) \<Longrightarrow> upd (\<lambda>_. []) t = t
    \<Longrightarrow> fill_members E (omit_str k s) t = Some (upd (\<lambda>_. s) t)"
  by (simp add: omit_str_def fill_str del: fill_members.simps(2))

lemma fill_task_json:
  assumes "task_wf t" "task_json t = JObj ms"
  shows "fill_members E ms zero_task = Some (json_norm t)"
proof -
  have times: "printable (CreatedAt t)" "printable (UpdatedAt t)" "CompletedAt t = Some c \<Longrightarrow> printable c" for c
    using assms(1) by (simp_all add: task_wf_def task_times_def)
  have meta: "map_wf m" if "Metadata t = Some m" for m using assms(1) that by (simp add: task_wf_def)
  have tok: "- (2 ^ 63) \<le> TokensUsed t" "TokensUsed t < 2 ^ 63" using assms(1) by (simp_all add: task_wf_def)
  let ?m = "if Metadata t = None \<or> Metadata t = Some [] then [] else [(''metadata'', map_json (Metadata t))]"
  let ?c = "case CompletedAt t of None \<Rightarrow> [] | Some c \<Rightarrow> [(''completed_at'', time_json c)]"
  have m: "fill_members E ?m u = Some (u\<lparr>Metadata := (if Metadata t = Some [] then None else Metadata t)\<rparr>)"
    if "Metadata u = None" for u
    using that meta by (cases "Metadata t") (auto simp: field_of_exact task_fields_def put_map_def read_map_json)
  have c: "fill_members E ?c u = Some (u\<lparr>CompletedAt := CompletedAt t\<rparr>)" if "CompletedAt u = None" for u
    using that times(3) by (cases "CompletedAt t") (auto simp: field_of_exact task_fields_def put_time_ptr_def time_json_def read_time_def)
  have i: "fill_members E [(''tokens_used'', JNum (TokensUsed t))] u = Some (u\<lparr>TokensUsed := TokensUsed t\<rparr>)" for u
    using tok by (simp add: field_of_exact task_fields_def put_int_def)
  have d: "fill_members E [(''created_at'', time_json (CreatedAt t)), (''updated_at'', time_json (UpdatedAt t))] u
      = Some (u\<lparr>CreatedAt := CreatedAt t, UpdatedAt := UpdatedAt t\<rparr>)" for u
    using times(1,2) by (simp add: field_of_exact task_fields_def put_time_def time_json_def read_time_def)
  have ms: "ms = [(''id'', JStr (ID t))] @ omit_str ''parent_id'' (ParentID t)
     @ [(''session_id'', JStr (SessionID t))] @ omit_str ''worker_session_id'' (WorkerSessionID t)
     @ [(''title'', JStr (Title t))] @ omit_str ''description'' (Description t)
     @ [(''status'', JStr (Task_Status t))] @ omit_str ''assignee_agent_id'' (AssigneeAgentID t)
     @ omit_str ''result'' (Result t) @ omit_str ''error'' (Error t)
     @ [(''tokens_used'', JNum (TokensUsed t))] @ ?m
     @ [(''created_at'', time_json (CreatedAt t)), (''updated_at'', time_json (UpdatedAt t))] @ ?c"
    using assms(2) by (simp add: task_json_def)
  have str: "map_of (task_fields E) ''id'' = Some (put_str ID_update)"
    "map_of (task_fields E) ''parent_id'' = Some (put_str ParentID_update)"
    "map_of (task_fields E) ''session_id'' = Some (put_str SessionID_update)"
    "map_of (task_fields E) ''worker_session_id'' = Some (put_str WorkerSessionID_update)"
    "map_of (task_fields E) ''title'' = Some (put_str Title_update)"
    "map_of (task_fields E) ''description'' = Some (put_str Description_update)"
    "map_of (task_fields E) ''status'' = Some (put_str Task_Status_update)"
    "map_of (task_fields E) ''assignee_agent_id'' = Some (put_str AssigneeAgentID_update)"
    "map_of (task_fields E) ''result'' = Some (put_str Result_update)"
    "map_of (task_fields E) ''error'' = Some (put_str Error_update)"
    by (simp_all add: task_fields_def)
  show ?thesis
    unfolding ms fill_append
    by (simp add: fill_str [OF str(1)] fill_str [OF str(3)] fill_str [OF str(5)] fill_str [OF str(7)]
        fill_omit [OF str(2)] fill_omit [OF str(4)] fill_omit [OF str(6)] fill_omit [OF str(8)]
        fill_omit [OF str(9)] fill_omit [OF str(10)] i m d c zero_task_def json_norm_def
        del: fill_members.simps)
qed

lemma depth_obj: "list_all (\<lambda>(k, v). depth v \<le> n) ms \<Longrightarrow> depth (JObj ms) \<le> Suc n"
  by (auto simp: Max_le_iff list_all_iff)

lemma list_all_omit: "list_all P (omit_str k s) = (s = [] \<or> P (k, JStr s))"
  by (simp add: omit_str_def)

lemma depth_map_json: "depth (map_json m) \<le> 1"
proof (cases m)
  case (Some kvs)
  have "depth (JObj (map (\<lambda>(k, v). (k, JStr v)) kvs)) \<le> Suc 0"
    by (rule depth_obj) (simp add: list_all_length case_prod_beta)
  with Some show ?thesis by (simp add: map_json_def del: depth.simps(2))
qed (simp add: map_json_def)

lemma depth_task_json: "depth (task_json t) \<le> 2"
  unfolding task_json_def numeral_2_eq_2
  using depth_map_json by (intro depth_obj) (simp add: list_all_omit time_json_def split: option.split)

lemma utf8_map_json: "map_wf m \<Longrightarrow> utf8_json (map_json (Some m))"
  by (simp add: map_json_def map_wf_def list_all_length case_prod_beta)

lemma utf8_time_json: "utf8_json (time_json t)"
  by (simp add: time_json_def ascii_valid ascii_nano)

lemma utf8_task_json: "task_wf t \<Longrightarrow> utf8_json (task_json t)"
  by (simp add: task_json_def task_wf_def task_strings_def list_all_omit utf8_map_json utf8_time_json
      ascii_valid ascii_byte_lt split: option.splits)

lemma printable_marshals: "printable t \<Longrightarrow> time_marshals t"
  using civil_printable(2,3) [of t] by (simp add: time_marshals_def Let_def)

lemma unmarshal_marshal:
  assumes "task_wf t" "marshal_task t = Inr data"
  shows "unmarshal_task E data = Inr (json_norm t)"
proof -
  obtain ms where ms: "task_json t = JObj ms" by (simp add: task_json_def)
  have "Decode (syntax_error E) (Encode (task_json t)) = Inr (task_json t)"
    using utf8_task_json [OF assms(1)] depth_task_json [of t] by (intro Decode_Encode) (simp_all add: max_depth_def)
  with assms fill_task_json [OF assms(1) ms] ms show ?thesis
    by (simp add: unmarshal_task_def marshal_task_def split: if_splits)
qed

lemma marshal_wf: "task_wf t \<Longrightarrow> \<exists>data. marshal_task t = Inr data"
  by (auto simp: marshal_task_def task_wf_def list_all_iff printable_marshals)

end
