(* ===== verification/TaskBoard.thy ===== *)
theory TaskBoard
  imports Tasks
begin

text \<open>
  What the local task backend promises: it is a board of tasks by id. Every operation that
  succeeds does to the board what the abstract operation does and one that fails leaves it
  alone, whatever the coordination store underneath, as long as that store keeps the contract
  of \<open>coord_store\<close>; stored values stay readable tasks filed under their own id; the status of
  a task moves along \<^verbatim>\<open>validTransitions\<close> only; and a snapshot followed by a restore brings
  unfinished tasks back.
\<close>

section \<open>Calls and the board\<close>

datatype task_op =
    OpCreate string Task
  | OpUpdate Task
  | OpDelete string
  | OpTransition string Status
  | OpAssign string string string

fun perform_op :: "json_env \<Rightarrow> ('c, 'q) LocalBackend \<Rightarrow> clock \<times> task_op \<Rightarrow> 'c \<Rightarrow> 'c \<times> go_error option" where
  "perform_op E b (clk, OpCreate uuid t) c = (case Local_Create b clk uuid t c of (c', _, r) \<Rightarrow> (c', r))"
| "perform_op E b (clk, OpUpdate t) c = (case Local_Update b clk t c of (c', _, r) \<Rightarrow> (c', r))"
| "perform_op E b (clk, OpDelete tid) c = Local_Delete b (clk 0) tid c"
| "perform_op E b (clk, OpTransition tid to) c = Local_Transition E b clk tid to c"
| "perform_op E b (clk, OpAssign tid a ws) c = Local_Assign E b clk tid a ws c"

text \<open>The tasks a store holds at an instant, and the abstract operations on them.\<close>

type_synonym board = "string \<Rightarrow> Task option"

definition board_of :: "json_env \<Rightarrow> ('c \<Rightarrow> go_time \<Rightarrow> string \<Rightarrow> string option) \<Rightarrow> go_time \<Rightarrow> 'c \<Rightarrow> board" where
  "board_of E view now c tid = (case view c now (PrefixTask @ tid) of None \<Rightarrow> None
     | Some d \<Rightarrow> (case unmarshal_task E d of Inl _ \<Rightarrow> None | Inr t \<Rightarrow> Some t))"

fun board_op :: "clock \<times> task_op \<Rightarrow> board \<Rightarrow> board" where
  "board_op (clk, OpCreate uuid t) m = (let t' = created_task uuid (clk 0) t in m(ID t' \<mapsto> json_norm t'))"
| "board_op (clk, OpUpdate t) m = m(ID t \<mapsto> json_norm (t\<lparr>UpdatedAt := clk 0\<rparr>))"
| "board_op (clk, OpDelete tid) m = m(tid := None)"
| "board_op (clk, OpTransition tid to) m = (case m tid of None \<Rightarrow> m | Some t \<Rightarrow> m(tid \<mapsto> moved_task clk to t))"
| "board_op (clk, OpAssign tid a ws) m = (case m tid of None \<Rightarrow> m | Some t \<Rightarrow> m(tid \<mapsto> assigned_task (clk 1) a ws t))"

definition edge :: "Status \<Rightarrow> Status \<Rightarrow> bool" where
  "edge x y = (\<exists>ys. map_of validTransitions x = Some ys \<and> y \<in> set ys)"

fun enabled :: "task_op \<Rightarrow> board \<Rightarrow> bool" where
  "enabled (OpTransition tid to) m = (\<exists>t. m tid = Some t \<and> edge (Task_Status t) to)"
| "enabled (OpAssign tid a ws) m = (m tid \<noteq> None)"
| "enabled _ m = True"

text \<open>The arguments of a call: well-formed tasks and texts, and clock readings in order.\<close>

definition clock_ok :: "clock \<Rightarrow> bool" where
  "clock_ok clk = (clk 0 \<le> clk 1 \<and> clk 1 \<le> clk 2 \<and> clk 2 \<le> clk 3 \<and> printable (clk 0) \<and> printable (clk 1)
     \<and> printable (clk 2))"

fun args_ok :: "clock \<times> task_op \<Rightarrow> bool" where
  "args_ok (clk, OpCreate uuid t) = (clock_ok clk \<and> task_wf (created_task uuid (clk 0) t))"
| "args_ok (clk, OpUpdate t) = (clock_ok clk \<and> task_wf (t\<lparr>UpdatedAt := clk 0\<rparr>))"
| "args_ok (clk, OpAssign tid a ws) = (clock_ok clk \<and> valid_utf8 a \<and> valid_utf8 ws)"
| "args_ok (clk, _) = clock_ok clk"

text \<open>
  The invariant of the store at an instant: what is filed under a task's key is the JSON of a
  well-formed task with that id, and does not expire.
\<close>

definition entry_wf :: "json_env \<Rightarrow> string \<Rightarrow> string option \<Rightarrow> bool" where
  "entry_wf E tid d = (case d of None \<Rightarrow> True
     | Some data \<Rightarrow> (case unmarshal_task E data of Inl _ \<Rightarrow> False
        | Inr t \<Rightarrow> ID t = tid \<and> task_wf t \<and> Metadata t \<noteq> Some []))"

definition lasting :: "('c \<Rightarrow> go_time \<Rightarrow> string \<Rightarrow> string option) \<Rightarrow> go_time \<Rightarrow> 'c \<Rightarrow> bool" where
  "lasting view now c \<longleftrightarrow> (\<forall>tid t. now \<le> t \<longrightarrow> view c t (PrefixTask @ tid) = view c now (PrefixTask @ tid))"

definition store_wf :: "json_env \<Rightarrow> ('c \<Rightarrow> go_time \<Rightarrow> string \<Rightarrow> string option) \<Rightarrow> go_time \<Rightarrow> 'c \<Rightarrow> bool" where
  "store_wf E view now c \<longleftrightarrow> lasting view now c
     \<and> (\<forall>tid. entry_wf E tid (view c now (PrefixTask @ tid)))"

section \<open>Well-formed tasks\<close>

lemma json_norm_wf: "task_wf t \<Longrightarrow> task_wf (json_norm t)"
  by (auto simp: json_norm_def task_wf_def task_strings_def task_times_def)

lemma json_norm_simps [simp]:
  "ID (json_norm t) = ID t" "Task_Status (json_norm t) = Task_Status t" "Metadata (json_norm t) \<noteq> Some []"
  by (auto simp: json_norm_def)

lemma json_norm_id: "Metadata t \<noteq> Some [] \<Longrightarrow> json_norm t = t"
  by (simp add: json_norm_def)

lemma edge_valid: "ValidateTransition q x y = None \<longleftrightarrow> edge x y"
  by (auto simp: ValidateTransition_def edge_def split: option.splits)

lemma edge_utf8: "edge x y \<Longrightarrow> valid_utf8 y"
  by (auto simp: edge_def validTransitions_def status_defs ascii_valid ascii_byte_lt split: if_splits)

lemma moved_task_props:
  "ID (moved_task clk to t) = ID t" "Task_Status (moved_task clk to t) = to"
  "Metadata (moved_task clk to t) = Metadata t"
  by (simp_all add: moved_task_def Let_def)

lemma moved_task_wf:
  "task_wf t \<Longrightarrow> valid_utf8 to \<Longrightarrow> clock_ok clk \<Longrightarrow> task_wf (moved_task clk to t)"
  by (auto simp: moved_task_def task_wf_def task_strings_def task_times_def clock_ok_def Let_def split: option.splits)

lemma assigned_task_props:
  "ID (assigned_task now a ws t) = ID t" "Task_Status (assigned_task now a ws t) = Task_Status t"
  "Metadata (assigned_task now a ws t) = Metadata t"
  by (simp_all add: assigned_task_def)

lemma assigned_task_wf:
  "task_wf t \<Longrightarrow> valid_utf8 a \<Longrightarrow> valid_utf8 ws \<Longrightarrow> printable now \<Longrightarrow> task_wf (assigned_task now a ws t)"
  by (auto simp: assigned_task_def task_wf_def task_strings_def task_times_def split: option.splits)

lemma store_wf_view:
  "store_wf E view t0 c \<Longrightarrow> t0 \<le> u \<Longrightarrow> view c u (PrefixTask @ tid) = view c t0 (PrefixTask @ tid)"
  unfolding store_wf_def lasting_def by blast

lemma store_wf_later:
  assumes "store_wf E view t0 c" "t0 \<le> now"
  shows "store_wf E view now c"
proof -
  have "lasting view now c"
    unfolding lasting_def using store_wf_view [OF assms(1)] assms(2) order_trans by metis
  moreover have "entry_wf E tid (view c now (PrefixTask @ tid))" for tid
    using assms(1) unfolding store_wf_view [OF assms] store_wf_def by blast
  ultimately show ?thesis by (simp add: store_wf_def)
qed

lemma board_later: "store_wf E view t0 c \<Longrightarrow> t0 \<le> now \<Longrightarrow> board_of E view now c = board_of E view t0 c"
  using store_wf_view [of E view t0 c now] by (intro ext) (simp add: board_of_def)

lemma board_wf:
  assumes "store_wf E view now c" "board_of E view now c tid = Some t"
  shows "ID t = tid" "task_wf t" "Metadata t \<noteq> Some []"
proof -
  have "entry_wf E tid (view c now (PrefixTask @ tid))" using assms(1) by (simp add: store_wf_def)
  with assms(2) show "ID t = tid" "task_wf t" "Metadata t \<noteq> Some []"
    by (simp_all add: entry_wf_def board_of_def split: option.splits sum.splits)
qed

section \<open>The backend over any store that keeps its contract\<close>

context coord_store
begin

lemma put_task_ok:
  assumes "lb_coord b = S" "task_wf t" "store_wf E view t0 c" "t0 \<le> now" "put_task b now t c = (c', None)"
  shows "store_wf E view now c'"
    and "board_of E view now c' = (board_of E view t0 c)(ID t \<mapsto> json_norm t)"
proof -
  obtain data where data: "marshal_task t = Inr data" using marshal_wf [OF assms(2)] by blast
  then have put: "kv_Put S now (PrefixTask @ ID t) data 0 c = (c', None)"
    using assms(1,5) by (simp add: put_task_def)
  have view: "view c' u k = (if k = PrefixTask @ ID t then Some data else view c u k)" if "now \<le> u" for u k
    using put_ok [OF put that] by simp
  note um = unmarshal_marshal [OF assms(2) data, of E]
  note wf = store_wf_later [OF assms(3,4)]
  have "entry_wf E tid (view c' now (PrefixTask @ tid))" for tid
  proof (cases "tid = ID t")
    case True
    with um json_norm_wf [OF assms(2)] view [of now] show ?thesis by (simp add: entry_wf_def)
  next
    case False
    with wf view [of now] show ?thesis by (simp add: store_wf_def)
  qed
  moreover have "lasting view now c'"
    unfolding lasting_def using view store_wf_view [OF wf] by (metis order_refl)
  ultimately show "store_wf E view now c'" by (simp add: store_wf_def)
  have "board_of E view now c' = (board_of E view now c)(ID t \<mapsto> json_norm t)"
    using um view by (intro ext) (simp add: board_of_def)
  then show "board_of E view now c' = (board_of E view t0 c)(ID t \<mapsto> json_norm t)"
    using board_later [OF assms(3,4)] by simp
qed

lemma put_task_failed:
  "lb_coord b = S \<Longrightarrow> put_task b now t c = (c', Some e) \<Longrightarrow> view c' = view c"
  by (auto simp: put_task_def split: sum.splits intro: put_failed)

lemma Local_Get_board:
  assumes "lb_coord b = S" "Local_Get E b now tid c = Inr t"
  shows "board_of E view now c tid = Some t"
proof -
  obtain data where "kv_Get S now (PrefixTask @ tid) c = Inr data" "unmarshal_task E data = Inr t"
    using assms by (auto simp: Local_Get_def split: sum.splits)
  with get_found [of now "PrefixTask @ tid" c data] show ?thesis by (simp add: board_of_def)
qed

lemma delete_board:
  assumes "store_wf E view t0 c" "t0 \<le> now" "kv_Delete S now (PrefixTask @ tid) c = (c', None)" "now \<le> u"
  shows "store_wf E view u c' \<and> board_of E view u c' = (board_of E view t0 c)(tid := None)"
proof -
  note wf = store_wf_later [OF assms(1,2)]
  have view: "view c' u k = (if k = PrefixTask @ tid then None else view c u k)" if "now \<le> u" for u k
    using delete_ok [OF assms(3) that] by simp
  have "entry_wf E i (view c' now (PrefixTask @ i))" for i
  proof (cases "i = tid")
    case True
    with view [of now] show ?thesis by (simp add: entry_wf_def)
  next
    case False
    with wf view [of now] show ?thesis by (simp add: store_wf_def)
  qed
  moreover have "lasting view now c'"
    unfolding lasting_def using view store_wf_view [OF wf] by (metis order_refl)
  ultimately have wf': "store_wf E view now c'" by (simp add: store_wf_def)
  have "board_of E view now c' = (board_of E view now c)(tid := None)"
    using view by (intro ext) (simp add: board_of_def)
  then show ?thesis
    using board_later [OF assms(1,2)] board_later [OF wf' assms(4)] store_wf_later [OF wf' assms(4)] by simp
qed

text \<open>
  One call: if it succeeds, the abstract operation was enabled and is what happened to the
  board; if it fails, nothing happened.
\<close>

lemma perform_ok:
  assumes "lb_coord b = S" "store_wf E view t0 c" "args_ok (clk, x)" "t0 \<le> clk 0"
    and "perform_op E b (clk, x) c = (c', None)"
  shows "enabled x (board_of E view t0 c) \<and> store_wf E view (clk 3) c'
    \<and> board_of E view (clk 3) c' = board_op (clk, x) (board_of E view t0 c)"
proof -
  have clk: "clk 0 \<le> clk 3" "clk 1 \<le> clk 3" "clk 2 \<le> clk 3" "t0 \<le> clk 1" "t0 \<le> clk 2" "t0 \<le> clk 3" "clock_ok clk"
    "printable (clk 1)"
    using assms(3,4) by (cases x; simp add: clock_ok_def)+
  have later: "store_wf E view (clk 3) c' \<and> board_of E view (clk 3) c' = (board_of E view t0 c)(ID t \<mapsto> json_norm t)"
    if "task_wf t" "t0 \<le> u" "u \<le> clk 3" "put_task b u t c = (c', None)" for t u
    using put_task_ok [OF assms(1) that(1) assms(2) that(2,4)] store_wf_later that(3) board_later by metis
  have got: "board_of E view t0 c tid = Some t" if "Local_Get E b (clk 0) tid c = Inr t" for tid t
    using Local_Get_board [OF assms(1) that] board_later [OF assms(2,4)] by simp
  show ?thesis
  proof (cases x)
    case (OpCreate uuid t)
    with assms(3,5) later [of "created_task uuid (clk 0) t" "clk 1"] clk show ?thesis
      by (simp add: Local_Create_def Let_def split: prod.splits)
  next
    case (OpUpdate t)
    with assms(3,5) later [of "t\<lparr>UpdatedAt := clk 0\<rparr>" "clk 1"] clk show ?thesis
      by (simp add: Local_Update_def Let_def split: prod.splits)
  next
    case (OpDelete tid)
    then have del: "kv_Delete S (clk 0) (PrefixTask @ tid) c = (c', None)"
      using assms(1,5) by (simp add: Local_Delete_def)
    show ?thesis using OpDelete delete_board [OF assms(2,4) del] clk(1) by simp
  next
    case (OpTransition tid to)
    then obtain t where t: "Local_Get E b (clk 0) tid c = Inr t" "edge (Task_Status t) to"
      "put_task b (clk 3) (moved_task clk to t) c = (c', None)"
      using assms(5) by (auto simp: Local_Transition_def edge_valid split: sum.splits option.splits if_splits)
    note bt = got [OF t(1)]
    have "task_wf (moved_task clk to t)"
      using board_wf(2) [OF assms(2) bt] edge_utf8 [OF t(2)] clk(7) by (rule moved_task_wf)
    with later [of "moved_task clk to t" "clk 3"] t clk(6) bt board_wf [OF assms(2) bt] OpTransition show ?thesis
      by (simp add: moved_task_props json_norm_id)
  next
    case (OpAssign tid a ws)
    then obtain t where t: "Local_Get E b (clk 0) tid c = Inr t"
      "put_task b (clk 2) (assigned_task (clk 1) a ws t) c = (c', None)"
      using assms(5) by (auto simp: Local_Assign_def split: sum.splits)
    note bt = got [OF t(1)]
    have "task_wf (assigned_task (clk 1) a ws t)"
      using board_wf(2) [OF assms(2) bt] assms(3) OpAssign clk(8) by (simp add: assigned_task_wf)
    with later [of "assigned_task (clk 1) a ws t" "clk 2"] t clk bt board_wf [OF assms(2) bt] OpAssign show ?thesis
      by (simp add: assigned_task_props json_norm_id)
  qed
qed

lemma perform_failed:
  assumes "lb_coord b = S" "perform_op E b (clk, x) c = (c', Some e)"
  shows "view c' = view c"
  using assms put_task_failed [OF assms(1)] delete_failed
  by (cases x) (auto simp: Local_Create_def Local_Update_def Local_Delete_def Local_Transition_def Local_Assign_def
      Let_def split: prod.splits sum.splits option.splits)

end

section \<open>Sequences of calls\<close>

fun perform_all :: "json_env \<Rightarrow> ('c, 'q) LocalBackend \<Rightarrow> (clock \<times> task_op) list \<Rightarrow> 'c \<Rightarrow> 'c \<times> go_error option list" where
  "perform_all E b [] c = (c, [])"
| "perform_all E b (x # xs) c = (case perform_op E b x c of
     (c', r) \<Rightarrow> (case perform_all E b xs c' of (c'', rs) \<Rightarrow> (c'', r # rs)))"

fun calls_ok :: "go_time \<Rightarrow> (clock \<times> task_op) list \<Rightarrow> bool" where
  "calls_ok t0 [] = True"
| "calls_ok t0 ((clk, x) # xs) = (args_ok (clk, x) \<and> t0 \<le> clk 0 \<and> calls_ok (clk 3) xs)"

fun finish :: "go_time \<Rightarrow> (clock \<times> task_op) list \<Rightarrow> go_time" where
  "finish t0 [] = t0"
| "finish t0 ((clk, x) # xs) = finish (clk 3) xs"

text \<open>The board's side: a call that failed is skipped, one that succeeded has to be enabled.\<close>

fun board_run :: "((clock \<times> task_op) \<times> go_error option) list \<Rightarrow> board \<Rightarrow> board option" where
  "board_run [] m = Some m"
| "board_run ((x, r) # xs) m = (if r \<noteq> None then board_run xs m
     else if enabled (snd x) m then board_run xs (board_op x m) else None)"

lemma clock_ok_args: "args_ok (clk, x) \<Longrightarrow> clock_ok clk"
  by (cases x) simp_all

lemma clock_span: "clock_ok clk \<Longrightarrow> clk 0 \<le> clk 3"
  by (simp add: clock_ok_def)

lemma finish_ge: "calls_ok t0 xs \<Longrightarrow> t0 \<le> finish t0 xs"
proof (induction xs arbitrary: t0)
  case (Cons y xs)
  obtain clk x where y: "y = (clk, x)" by force
  with Cons.prems have "t0 \<le> clk 0" "clk 0 \<le> clk 3" "calls_ok (clk 3) xs"
    using clock_span [OF clock_ok_args [of clk x]] by simp_all
  with Cons.IH [of "clk 3"] y show ?case by simp
qed simp

lemma store_wf_cong: "view c' = view c \<Longrightarrow> store_wf E view t0 c' = store_wf E view t0 c"
  by (simp add: store_wf_def lasting_def)

lemma board_cong: "view c' = view c \<Longrightarrow> board_of E view t0 c' = board_of E view t0 c"
  by (intro ext) (simp add: board_of_def)

context coord_store
begin

lemma perform_all_board:
  assumes "lb_coord b = S"
  shows "store_wf E view t0 c \<Longrightarrow> calls_ok t0 xs \<Longrightarrow> perform_all E b xs c = (c', rs)
    \<Longrightarrow> store_wf E view (finish t0 xs) c'
       \<and> board_run (zip xs rs) (board_of E view t0 c) = Some (board_of E view (finish t0 xs) c')"
proof (induction xs arbitrary: c t0 rs)
  case (Cons y xs)
  obtain clk x where y: "y = (clk, x)" by force
  obtain c1 r where p: "perform_op E b (clk, x) c = (c1, r)" by force
  obtain rs1 where rs: "perform_all E b xs c1 = (c', rs1)" "rs = r # rs1"
    using Cons.prems(3) y p by (auto split: prod.splits)
  have ok: "args_ok (clk, x)" "t0 \<le> clk 0" "calls_ok (clk 3) xs" using Cons.prems(2) y by simp_all
  have le: "t0 \<le> clk 3" using clock_span [OF clock_ok_args [OF ok(1)]] ok(2) by simp
  have step: "store_wf E view (clk 3) c1 \<and> board_of E view (clk 3) c1
      = (if r = None then board_op (clk, x) (board_of E view t0 c) else board_of E view t0 c)
      \<and> (r = None \<longrightarrow> enabled x (board_of E view t0 c))"
  proof (cases r)
    case None
    with perform_ok [OF assms Cons.prems(1) ok(1,2)] p show ?thesis by simp
  next
    case (Some e)
    with perform_failed [OF assms] p have "view c1 = view c" by blast
    then have "store_wf E view (clk 3) c1 = store_wf E view (clk 3) c"
      "board_of E view (clk 3) c1 = board_of E view (clk 3) c"
      by (rule store_wf_cong, rule board_cong)
    with Some store_wf_later [OF Cons.prems(1) le] board_later [OF Cons.prems(1) le] show ?thesis by simp
  qed
  with Cons.IH [of "clk 3" c1 rs1] ok(3) rs y show ?case by (auto split: if_splits)
qed simp

lemma Local_Get_missing:
  assumes "lb_coord b = S" "store_wf E view now c" "Local_Get E b now tid c = Inl e" "Is e ErrNotFound"
  shows "board_of E view now c tid = None"
proof (cases "kv_Get S now (PrefixTask @ tid) c")
  case (Inl e')
  then have "Is e' ErrNotFound" using assms(1,3,4) by (auto simp: Local_Get_def ErrNotFound_def)
  with get_missing [OF Inl] show ?thesis by (simp add: board_of_def)
next
  case (Inr d)
  have "entry_wf E tid (view c now (PrefixTask @ tid))" using assms(2) by (simp add: store_wf_def)
  with get_found [OF Inr] Inr assms(1,3) show ?thesis by (auto simp: entry_wf_def Local_Get_def split: sum.splits)
qed

text \<open>The entries of a listing are the tasks of the board.\<close>

lemma readable_board:
  assumes "store_wf E view now c" "kv_List S now PrefixTask c = Inr es"
  shows "distinct (map ID (readable_tasks E es))"
    and "t \<in> set (readable_tasks E es) \<longleftrightarrow> (board_of E view now c (ID t) = Some t)"
proof -
  have es: "distinct (map Key es)"
    "(k, v) \<in> (\<lambda>e. (Key e, Value e)) ` set es \<longleftrightarrow> prefix PrefixTask k \<and> view c now k = Some v" for k v
    using list_ok [OF assms(2)] by blast+
  have entry: "\<exists>t. unmarshal_task E (Value e) = Inr t \<and> Key e = PrefixTask @ ID t \<and> board_of E view now c (ID t) = Some t"
    if "e \<in> set es" for e
  proof -
    have "prefix PrefixTask (Key e) \<and> view c now (Key e) = Some (Value e)" using es(2) that by blast
    then obtain tid where k: "Key e = PrefixTask @ tid" "view c now (PrefixTask @ tid) = Some (Value e)"
      by (auto simp: prefix_def)
    have "entry_wf E tid (view c now (PrefixTask @ tid))" using assms(1) by (simp add: store_wf_def)
    with k show ?thesis by (auto simp: entry_wf_def board_of_def split: sum.splits)
  qed
  have "map (\<lambda>t. PrefixTask @ ID t) (readable_tasks E es') = map Key es'" if "set es' \<subseteq> set es" for es'
    using that entry by (induction es') (fastforce simp: readable_tasks_def split: sum.splits)+
  from this [of es] es(1) have "distinct (map (\<lambda>t. PrefixTask @ ID t) (readable_tasks E es))" by simp
  then show "distinct (map ID (readable_tasks E es))" by (simp add: distinct_map inj_on_def)
  show "t \<in> set (readable_tasks E es) \<longleftrightarrow> board_of E view now c (ID t) = Some t"
  proof
    assume "t \<in> set (readable_tasks E es)"
    with entry show "board_of E view now c (ID t) = Some t"
      by (fastforce simp: readable_tasks_def split: sum.splits)
  next
    assume "board_of E view now c (ID t) = Some t"
    then obtain d where d: "view c now (PrefixTask @ ID t) = Some d" "unmarshal_task E d = Inr t"
      by (auto simp: board_of_def split: option.splits sum.splits)
    then obtain e where "e \<in> set es" "Value e = d" using es(2) [of "PrefixTask @ ID t" d] by auto
    with d(2) show "t \<in> set (readable_tasks E es)" by (force simp: readable_tasks_def)
  qed
qed

end

section \<open>Snapshots\<close>

definition to_second :: "go_time \<Rightarrow> go_time" where
  "to_second t = t div second_ns * second_ns"

text \<open>
  What is left of a task after a snapshot and a restore: instants to the second. The
  creation instant is that of the task's first snapshot.
\<close>

definition restored :: "go_time \<Rightarrow> Task \<Rightarrow> Task" where
  "restored created t = t\<lparr>CreatedAt := to_second created, UpdatedAt := to_second (UpdatedAt t),
     CompletedAt := map_option to_second (CompletedAt t)\<rparr>"

definition row_at :: "task_table \<Rightarrow> string \<Rightarrow> task_row option" where
  "row_at q tid = find (\<lambda>r. r_id r = tid) q"

text \<open>A table that only \<^verbatim>\<open>UpsertTask\<close> has written.\<close>

definition row_for :: "go_time \<Rightarrow> Task \<Rightarrow> task_row" where
  "row_for created t = (task_row_of t)\<lparr>r_created_at := FormatRFC3339 created\<rparr>"

definition table_wf :: "task_table \<Rightarrow> bool" where
  "table_wf q = (distinct (map r_id q)
     \<and> (\<forall>r\<in>set q. \<exists>t created. task_wf t \<and> Metadata t \<noteq> Some [] \<and> printable created \<and> r = row_for created t))"

lemma printable_to_second: "printable t \<Longrightarrow> printable (to_second t)"
  by (simp add: to_second_def printable_trunc)

lemma scan_row:
  assumes "task_wf t" "Metadata t \<noteq> Some []" "printable created"
  shows "task_wf (scanTask E (row_for created t))"
    and "json_norm (scanTask E (row_for created t)) = restored created t"
    and "ID (scanTask E (row_for created t)) = ID t" "Task_Status (scanTask E (row_for created t)) = Task_Status t"
proof -
  have times: "printable (UpdatedAt t)" "\<And>c. CompletedAt t = Some c \<Longrightarrow> printable c"
    using assms(1) by (simp_all add: task_wf_def task_times_def)
  have st: "scan_time E (FormatRFC3339 x) = to_second x" if "printable x" for x
    using that by (simp add: scan_time_def to_second_def)
  have meta: "scan_metadata E (Encode (map_json (Metadata t))) = Metadata t"
  proof (cases "Metadata t")
    case None
    have "utf8_json JNull" "depth JNull \<le> max_depth" by simp_all
    from Decode_Encode [OF this] None show ?thesis by (simp add: scan_metadata_def map_json_def read_map_def)
  next
    case (Some m)
    have wf: "map_wf m" using assms(1) Some by (simp add: task_wf_def)
    have "depth (map_json (Some m)) \<le> max_depth" using depth_map_json [of "Some m"] by (simp add: max_depth_def)
    from Decode_Encode [OF utf8_map_json [OF wf] this] Some read_map_json [OF wf] show ?thesis
      by (simp add: scan_metadata_def)
  qed
  have c: "map_option (scan_time E) (map_option FormatRFC3339 (CompletedAt t)) = map_option to_second (CompletedAt t)"
    using times(2) st by (cases "CompletedAt t") simp_all
  have scan: "scanTask E (row_for created t) = (restored created t)\<lparr>Metadata := Some (case Metadata t of None \<Rightarrow> [] | Some m \<Rightarrow> m)\<rparr>"
    using st [OF assms(3)] st [OF times(1)] meta c
    by (simp add: scanTask_def row_for_def task_row_of_def restored_def split: option.splits)
  show "json_norm (scanTask E (row_for created t)) = restored created t"
    unfolding scan json_norm_def using assms(2) by (cases "Metadata t") (auto simp: restored_def)
  have "printable (to_second created)" "printable (to_second (UpdatedAt t))"
    "\<And>c. CompletedAt t = Some c \<Longrightarrow> printable (to_second c)"
    using assms(3) times printable_to_second by simp_all
  then show "task_wf (scanTask E (row_for created t))"
    unfolding scan using assms(1)
    by (simp add: task_wf_def task_strings_def task_times_def restored_def map_wf_def split: option.splits)
  show "ID (scanTask E (row_for created t)) = ID t" "Task_Status (scanTask E (row_for created t)) = Task_Status t"
    unfolding scan by (simp_all add: restored_def)
qed

text \<open>The table after a snapshot.\<close>

lemma upsert_at:
  "row_at (upsert_row r q) tid = (if tid = r_id r
     then Some (case row_at q tid of None \<Rightarrow> r | Some x \<Rightarrow> r\<lparr>r_created_at := r_created_at x\<rparr>) else row_at q tid)"
  by (induction q) (auto simp: row_at_def)

lemma upsert_ids: "set (map r_id (upsert_row r q)) = insert (r_id r) (set (map r_id q))"
  "distinct (map r_id q) \<Longrightarrow> distinct (map r_id (upsert_row r q))"
  by (induction q) auto

lemma row_at_Some: "row_at q tid = Some r \<Longrightarrow> r \<in> set q \<and> r_id r = tid"
  by (auto simp: row_at_def find_Some_iff)

lemma row_at_mem: "distinct (map r_id q) \<Longrightarrow> r \<in> set q \<Longrightarrow> row_at q (r_id r) = Some r"
proof (induction q)
  case (Cons a q)
  show ?case
  proof (cases "r_id a = r_id r")
    case True
    with Cons.prems have "r = a" by (auto simp: image_iff)
    then show ?thesis by (simp add: row_at_def)
  next
    case False
    with Cons show ?thesis by (auto simp: row_at_def)
  qed
qed simp

lemma row_for_simps [simp]: "r_id (row_for x t) = ID t" "r_id (task_row_of t) = ID t" "r_status (row_for x t) = Task_Status t"
  by (simp_all add: row_for_def task_row_of_def)

lemma table_wf_row:
  assumes "table_wf q" "row_at q tid = Some r"
  obtains t created where "task_wf t" "Metadata t \<noteq> Some []" "printable created" "r = row_for created t" "ID t = tid"
proof -
  have r: "r \<in> set q" "r_id r = tid" using row_at_Some [OF assms(2)] by simp_all
  from r(1) assms(1) obtain t created where t: "task_wf t" "Metadata t \<noteq> Some []" "printable created"
    "r = row_for created t"
    unfolding table_wf_def by blast
  from t(4) r(2) have "ID t = tid" by simp
  with t show ?thesis by (rule that)
qed

text \<open>The instant a task's row was first written with.\<close>

definition first_created :: "json_env \<Rightarrow> task_table \<Rightarrow> Task \<Rightarrow> go_time" where
  "first_created E q t = (case row_at q (ID t) of None \<Rightarrow> CreatedAt t | Some r \<Rightarrow> scan_time E (r_created_at r))"

lemma task_row_for: "task_row_of t = row_for (CreatedAt t) t"
  by (simp add: row_for_def task_row_of_def)

lemma row_for_created: "(task_row_of t)\<lparr>r_created_at := r_created_at (row_for x u)\<rparr> = row_for x t"
  by (simp add: row_for_def)

lemma set_upsert:
  "y \<in> set (upsert_row r q) \<Longrightarrow> y = r \<or> y \<in> set q \<or> (\<exists>x\<in>set q. y = r\<lparr>r_created_at := r_created_at x\<rparr>)"
  by (induction q) (auto split: if_splits)

lemma task_created: "task_wf t \<Longrightarrow> printable (CreatedAt t)"
  by (simp add: task_wf_def task_times_def)

lemma upsert_wf:
  assumes "table_wf q" "task_wf t" "Metadata t \<noteq> Some []"
  shows "table_wf (upsert_row (task_row_of t) q)"
proof -
  have "\<exists>u created. task_wf u \<and> Metadata u \<noteq> Some [] \<and> printable created \<and> y = row_for created u"
    if "y \<in> set (upsert_row (task_row_of t) q)" for y
    using set_upsert [OF that]
  proof (elim disjE bexE)
    assume "y = task_row_of t"
    with assms(2,3) task_created [OF assms(2)] task_row_for show ?thesis by metis
  next
    assume "y \<in> set q"
    with assms(1) show ?thesis by (simp add: table_wf_def)
  next
    fix x assume "x \<in> set q" and y: "y = (task_row_of t)\<lparr>r_created_at := r_created_at x\<rparr>"
    with assms(1) obtain u created where "printable created" "x = row_for created u" by (auto simp: table_wf_def)
    with y assms(2,3) row_for_created show ?thesis by metis
  qed
  with assms(1) upsert_ids(2) show ?thesis by (simp add: table_wf_def)
qed

text \<open>The row a snapshot leaves for a task.\<close>

definition snapshot_row :: "task_table \<Rightarrow> Task \<Rightarrow> task_row" where
  "snapshot_row q t = (case row_at q (ID t) of None \<Rightarrow> task_row_of t
     | Some x \<Rightarrow> (task_row_of t)\<lparr>r_created_at := r_created_at x\<rparr>)"

lemma upsert_all_rows:
  "upsert_all (SQLiteSnapshot D E) ts q = (q', None) \<Longrightarrow> table_wf q
    \<Longrightarrow> (\<And>t. t \<in> set ts \<Longrightarrow> task_wf t \<and> Metadata t \<noteq> Some []) \<Longrightarrow> distinct (map ID ts)
    \<Longrightarrow> table_wf q' \<and> (\<forall>t\<in>set ts. row_at q' (ID t) = Some (snapshot_row q t))
       \<and> (\<forall>tid. tid \<notin> ID ` set ts \<longrightarrow> row_at q' tid = row_at q tid)"
proof (induction ts arbitrary: q)
  case (Cons t ts)
  let ?q = "upsert_row (task_row_of t) q"
  have up: "upsert_all (SQLiteSnapshot D E) ts ?q = (q', None)"
    using Cons.prems(1) by (auto simp: SQLiteSnapshot_def UpsertTask_def split: option.splits)
  have wf: "table_wf ?q" using upsert_wf Cons.prems(2,3) by simp
  have at: "row_at ?q tid = (if tid = ID t then Some (snapshot_row q t) else row_at q tid)" for tid
    by (simp add: upsert_at snapshot_row_def split: option.splits)
  have IH: "table_wf q' \<and> (\<forall>u\<in>set ts. row_at q' (ID u) = Some (snapshot_row ?q u))
       \<and> (\<forall>tid. tid \<notin> ID ` set ts \<longrightarrow> row_at q' tid = row_at ?q tid)"
    using Cons.IH [OF up wf] Cons.prems(3,4) by simp
  have fresh: "ID t \<notin> ID ` set ts" using Cons.prems(4) by simp
  then have "snapshot_row ?q u = snapshot_row q u" if "u \<in> set ts" for u
    using at [of "ID u"] that by (auto simp: snapshot_row_def image_iff)
  moreover have "row_at q' (ID t) = Some (snapshot_row q t)" using IH fresh at by simp
  moreover have "row_at q' tid = row_at q tid" if "tid \<notin> ID ` set (t # ts)" for tid using IH at that by simp
  ultimately show ?case using IH by simp
qed simp

lemma order_desc_set: "set (order_desc q) = set q" "distinct (map r_id q) \<Longrightarrow> distinct (map r_id (order_desc q))"
proof -
  have ins: "set (insert_desc r q) = insert r (set q)" for r q by (induction q) auto
  have dis: "distinct (map r_id q) \<Longrightarrow> r_id r \<notin> r_id ` set q \<Longrightarrow> distinct (map r_id (insert_desc r q))" for r q
    by (induction q) (auto simp: ins)
  show set: "set (order_desc q) = set q" for q by (induction q) (auto simp: order_desc_def ins)
  show "distinct (map r_id q) \<Longrightarrow> distinct (map r_id (order_desc q))"
  proof (induction q)
    case (Cons a q)
    have eq: "order_desc (a # q) = insert_desc a (order_desc q)" by (simp add: order_desc_def)
    show ?case unfolding eq using Cons set [of q] by (intro dis) auto
  qed (simp add: order_desc_def)
qed

lemma scanned:
  assumes "table_wf q" "r \<in> set q"
  shows "task_wf (scanTask E r)" "ID (scanTask E r) = r_id r" "Task_Status (scanTask E r) = r_status r"
proof -
  obtain t created where "task_wf t" "Metadata t \<noteq> Some []" "printable created" "r = row_for created t"
    using assms by (auto simp: table_wf_def)
  with scan_row [of t created E] show "task_wf (scanTask E r)" "ID (scanTask E r) = r_id r"
    "Task_Status (scanTask E r) = r_status r" by simp_all
qed

context coord_store
begin

lemma restore_all_board:
  assumes "lb_coord b = S"
  shows "restore_all b now ts c = (c', None) \<Longrightarrow> store_wf E view now c \<Longrightarrow> (\<And>t. t \<in> set ts \<Longrightarrow> task_wf t)
    \<Longrightarrow> distinct (map ID ts)
    \<Longrightarrow> store_wf E view now c'
       \<and> (\<forall>t\<in>set ts. \<not> Task_IsTerminal t \<longrightarrow> board_of E view now c' (ID t) = Some (json_norm t))
       \<and> (\<forall>tid. (\<forall>t\<in>set ts. ID t = tid \<longrightarrow> Task_IsTerminal t) \<longrightarrow> board_of E view now c' tid = board_of E view now c tid)"
proof (induction ts arbitrary: c)
  case (Cons t ts)
  show ?case
  proof (cases "Task_IsTerminal t")
    case True
    with Cons show ?thesis by auto
  next
    case False
    then obtain c1 where p: "put_task b now t c = (c1, None)" "restore_all b now ts c1 = (c', None)"
      using Cons.prems(1) by (auto split: prod.splits option.splits)
    have wf: "task_wf t" using Cons.prems(3) by simp
    note put = put_task_ok [OF assms wf Cons.prems(2) order_refl p(1)]
    have IH: "store_wf E view now c'
       \<and> (\<forall>t\<in>set ts. \<not> Task_IsTerminal t \<longrightarrow> board_of E view now c' (ID t) = Some (json_norm t))
       \<and> (\<forall>tid. (\<forall>t\<in>set ts. ID t = tid \<longrightarrow> Task_IsTerminal t) \<longrightarrow> board_of E view now c' tid = board_of E view now c1 tid)"
      using Cons.IH [OF p(2) put(1)] Cons.prems(3,4) by simp
    have "\<forall>u\<in>set ts. ID u \<noteq> ID t" using Cons.prems(4) by (auto simp: image_iff)
    then have "board_of E view now c' (ID t) = Some (json_norm t)" using IH put(2) by simp
    moreover have "board_of E view now c' tid = board_of E view now c tid"
      if "\<forall>u\<in>set (t # ts). ID u = tid \<longrightarrow> Task_IsTerminal u" for tid
      using IH put(2) that False by auto
    ultimately show ?thesis using IH by simp
  qed
qed simp

end

lemma restored_row:
  assumes "table_wf q'" "set ts = scanTask E ` set q'"
    and "\<forall>t\<in>set ts. \<not> Task_IsTerminal t \<longrightarrow> m (ID t) = Some (json_norm t)"
    and "\<forall>tid. (\<forall>t\<in>set ts. ID t = tid \<longrightarrow> Task_IsTerminal t) \<longrightarrow> m tid = m0 tid"
  shows "m tid = (case row_at q' tid of None \<Rightarrow> m0 tid
      | Some r \<Rightarrow> if terminal_status (r_status r) then m0 tid else Some (json_norm (scanTask E r)))"
proof -
  note sc = scanned [OF assms(1)]
  have dist: "distinct (map r_id q')" using assms(1) by (simp add: table_wf_def)
  show ?thesis
  proof (cases "row_at q' tid")
    case None
    then have "\<forall>r\<in>set q'. r_id r \<noteq> tid" by (auto simp: row_at_def find_None_iff)
    then have "\<forall>t\<in>set ts. ID t = tid \<longrightarrow> Task_IsTerminal t" using assms(2) sc(2) by auto
    with assms(4) None show ?thesis by simp
  next
    case (Some r)
    note r = row_at_Some [OF Some]
    have only: "x = r" if "x \<in> set q'" "r_id x = tid" for x
      using row_at_mem [OF dist that(1)] that(2) Some by simp
    show ?thesis
    proof (cases "terminal_status (r_status r)")
      case True
      then have "\<forall>t\<in>set ts. ID t = tid \<longrightarrow> Task_IsTerminal t"
        using assms(2) sc(2,3) only by (auto simp: Task_IsTerminal_def)
      with assms(4) Some True show ?thesis by simp
    next
      case False
      have "scanTask E r \<in> set ts" "\<not> Task_IsTerminal (scanTask E r)" "ID (scanTask E r) = tid"
        using r assms(2) sc(2,3) [of r] False by (auto simp: Task_IsTerminal_def)
      with assms(3) Some False show ?thesis by auto
    qed
  qed
qed

lemma snapshot_row_back:
  assumes "table_wf q" "task_wf t \<and> Metadata t \<noteq> Some []"
  shows "json_norm (scanTask E (snapshot_row q t)) = restored (first_created E q t) t"
    "r_status (snapshot_row q t) = Task_Status t"
proof -
  have "\<exists>created. printable created \<and> snapshot_row q t = row_for created t
      \<and> to_second (first_created E q t) = to_second created"
  proof (cases "row_at q (ID t)")
    case None
    with assms(2) task_created task_row_for show ?thesis by (auto simp: snapshot_row_def first_created_def)
  next
    case (Some r)
    obtain u created where u: "printable created" "r = row_for created u"
      using table_wf_row [OF assms(1) Some] by metis
    then have "snapshot_row q t = row_for created t" using Some row_for_created by (simp add: snapshot_row_def)
    moreover have "first_created E q t = to_second created"
      using Some u by (simp add: first_created_def row_for_def scan_time_def to_second_def)
    moreover have "to_second (to_second created) = to_second created" by (simp add: to_second_def second_ns_def)
    ultimately show ?thesis using u(1) by auto
  qed
  then obtain created where c: "printable created" "snapshot_row q t = row_for created t"
    "to_second (first_created E q t) = to_second created" by blast
  have "json_norm (scanTask E (row_for created t)) = restored created t"
    using scan_row(2) c(1) assms(2) by blast
  then show "json_norm (scanTask E (snapshot_row q t)) = restored (first_created E q t) t"
    using c(2,3) by (simp add: restored_def)
  show "r_status (snapshot_row q t) = Task_Status t" using c(2) by simp
qed

section \<open>Which operations touch a task's status\<close>

text \<open>Calls that neither replace nor remove the task \<open>tid\<close>.\<close>

fun keeps_task :: "string \<Rightarrow> clock \<times> task_op \<Rightarrow> bool" where
  "keeps_task tid (clk, OpCreate uuid t) = (ID (created_task uuid (clk 0) t) \<noteq> tid)"
| "keeps_task tid (clk, OpUpdate t) = (ID t \<noteq> tid)"
| "keeps_task tid (clk, OpDelete i) = (i \<noteq> tid)"
| "keeps_task tid (clk, _) = True"

text \<open>What transitions and assignments leave alone.\<close>

definition same_identity :: "Task \<Rightarrow> Task \<Rightarrow> bool" where
  "same_identity t u = (ID u = ID t \<and> ParentID u = ParentID t \<and> SessionID u = SessionID t \<and> Title u = Title t
     \<and> Description u = Description t \<and> CreatedAt u = CreatedAt t \<and> Metadata u = Metadata t)"

lemma keeps_step:
  assumes "keeps_task tid x" "enabled (snd x) m" "m tid = Some t"
  shows "\<exists>u. board_op x m tid = Some u \<and> edge\<^sup>*\<^sup>* (Task_Status t) (Task_Status u) \<and> same_identity t u"
proof -
  obtain clk y where x: "x = (clk, y)" by force
  show ?thesis
  proof (cases y)
    case (OpTransition i to)
    show ?thesis
    proof (cases "i = tid")
      case True
      then have "edge (Task_Status t) to" using assms OpTransition x by simp
      then have "edge\<^sup>*\<^sup>* (Task_Status t) to" by (rule r_into_rtranclp)
      with True OpTransition x assms(3) show ?thesis
        by (auto simp: moved_task_def Let_def same_identity_def)
    next
      case False
      with OpTransition x assms(3) show ?thesis by (auto simp: same_identity_def split: option.splits)
    qed
  next
    case (OpAssign i a ws)
    then show ?thesis using x assms(3)
      by (cases "i = tid") (auto simp: assigned_task_def same_identity_def split: option.splits)
  qed (use x assms in \<open>auto simp: same_identity_def Let_def\<close>)
qed

lemma same_identity_trans: "same_identity t u \<Longrightarrow> same_identity u v \<Longrightarrow> same_identity t v"
  by (simp add: same_identity_def)

lemma keeps_run:
  "board_run xs m = Some m' \<Longrightarrow> \<forall>x\<in>set xs. keeps_task tid (fst x) \<Longrightarrow> m tid = Some t
    \<Longrightarrow> \<exists>u. m' tid = Some u \<and> edge\<^sup>*\<^sup>* (Task_Status t) (Task_Status u) \<and> same_identity t u"
proof (induction xs arbitrary: m t)
  case Nil
  then show ?case by (auto simp: same_identity_def)
next
  case (Cons y xs)
  obtain x r where y: "y = (x, r)" by (cases y)
  show ?case
  proof (cases r)
    case None
    then have run: "enabled (snd x) m" "board_run xs (board_op x m) = Some m'" using Cons.prems(1) y by (auto split: if_splits)
    obtain u where u: "board_op x m tid = Some u" "edge\<^sup>*\<^sup>* (Task_Status t) (Task_Status u)" "same_identity t u"
      using keeps_step [OF _ run(1) Cons.prems(3)] Cons.prems(2) y by auto
    obtain v where "m' tid = Some v" "edge\<^sup>*\<^sup>* (Task_Status u) (Task_Status v)" "same_identity u v"
      using Cons.IH [OF run(2) _ u(1)] Cons.prems(2) by auto
    with u show ?thesis using rtranclp_trans same_identity_trans by metis
  next
    case (Some e)
    with Cons y show ?thesis by auto
  qed
qed

lemma final_status:
  assumes "edge\<^sup>*\<^sup>* x y" "x = StatusCompleted \<or> x = StatusCanceled"
  shows "y = x"
  using assms(1)
proof (cases rule: converse_rtranclpE)
  case (step z)
  then show ?thesis using assms(2) by (auto simp: edge_def validTransitions_def status_defs)
qed simp

section \<open>Properties\<close>

text \<open>
  C21. The local backend is a board of tasks. Take any store that keeps the contract of
  \<^verbatim>\<open>CoordStore\<close>, any well-formed state of it and any sequence of calls to \<^verbatim>\<open>Create\<close>,
  \<^verbatim>\<open>Update\<close>, \<^verbatim>\<open>Delete\<close>, \<^verbatim>\<open>Transition\<close> and \<^verbatim>\<open>Assign\<close>, some of which may fail. The calls that
  returned no error are exactly the abstract operations that happened to the board, each of
  them enabled when it happened, and the failed ones changed nothing. A later \<^verbatim>\<open>Get\<close> that
  succeeds answers with the board's task and one that reports a missing key answers for an
  empty place; a later \<^verbatim>\<open>List\<close> answers exactly the board's tasks that match the filter, each
  once.
\<close>

theorem tasks_refine_board:
  assumes "coord_store (lb_coord b) view" "store_wf E view t0 c" "calls_ok t0 xs"
    and "perform_all E b xs c = (c', rs)" "finish t0 xs \<le> now"
  shows "\<exists>m. board_run (zip xs rs) (board_of E view t0 c) = Some m
    \<and> (\<forall>tid t. Local_Get E b now tid c' = Inr t \<longrightarrow> m tid = Some t)
    \<and> (\<forall>tid e. Local_Get E b now tid c' = Inl e \<and> Is e ErrNotFound \<longrightarrow> m tid = None)
    \<and> (\<forall>f ts. Local_List E b now f c' = Inr ts
         \<longrightarrow> distinct (map ID ts) \<and> (\<forall>t. t \<in> set ts \<longleftrightarrow> m (ID t) = Some t \<and> matchesFilter t f))"
proof -
  note run = coord_store.perform_all_board [OF assms(1) refl assms(2-4)]
  let ?m = "board_of E view (finish t0 xs) c'"
  note wf = store_wf_later [OF conjunct1 [OF run] assms(5)]
  note m = board_later [OF conjunct1 [OF run] assms(5)]
  have "distinct (map ID ts) \<and> (\<forall>t. t \<in> set ts \<longleftrightarrow> ?m (ID t) = Some t \<and> matchesFilter t f)"
    if listed: "Local_List E b now f c' = Inr ts" for f ts
  proof -
    obtain es where es: "kv_List (lb_coord b) now PrefixTask c' = Inr es"
      "ts = filter (\<lambda>t. matchesFilter t f) (readable_tasks E es)"
      using listed by (auto simp: Local_List_def split: sum.splits)
    note r = coord_store.readable_board [OF assms(1) wf es(1)]
    show ?thesis using r m es(2) by (auto simp: distinct_map_filter)
  qed
  moreover have "?m tid = Some t" if "Local_Get E b now tid c' = Inr t" for tid t
    using coord_store.Local_Get_board [OF assms(1) refl that] m by simp
  moreover have "?m tid = None" if "Local_Get E b now tid c' = Inl e \<and> Is e ErrNotFound" for tid e
    using coord_store.Local_Get_missing [OF assms(1) refl wf, of tid e] that m by simp
  ultimately show ?thesis using run by blast
qed

text \<open>
  C22. Stored tasks are well-formed. From a well-formed state of the store no sequence of
  calls, failing or not, leaves a value under a task's key that does not decode to a
  well-formed task with exactly that id, or one that expires.
\<close>

theorem stored_tasks_wellformed:
  assumes "coord_store (lb_coord b) view" "store_wf E view t0 c" "calls_ok t0 xs" "perform_all E b xs c = (c', rs)"
  shows "store_wf E view (finish t0 xs) c'"
  using coord_store.perform_all_board [OF assms(1) refl assms(2-4)] by simp

text \<open>
  C23. A task's status moves along the table of valid transitions only. As long as nobody
  replaces or removes the task, any sequence of calls that starts with a task on the board ends
  with it there, with the same identity, with a status reachable from the first one by valid
  transitions; completed and canceled tasks stay what they are.
\<close>

theorem status_moves_along_edges:
  assumes "coord_store (lb_coord b) view" "store_wf E view t0 c" "calls_ok t0 xs"
    and "perform_all E b xs c = (c', rs)" "\<forall>x\<in>set xs. keeps_task tid x" "board_of E view t0 c tid = Some t"
  shows "\<exists>u. board_of E view (finish t0 xs) c' tid = Some u \<and> edge\<^sup>*\<^sup>* (Task_Status t) (Task_Status u)
    \<and> same_identity t u
    \<and> (Task_Status t \<in> {StatusCompleted, StatusCanceled} \<longrightarrow> Task_Status u = Task_Status t)"
proof -
  have run: "board_run (zip xs rs) (board_of E view t0 c) = Some (board_of E view (finish t0 xs) c')"
    using coord_store.perform_all_board [OF assms(1) refl assms(2-4)] by simp
  have "\<forall>x\<in>set (zip xs rs). keeps_task tid (fst x)" using assms(5) by (auto dest: set_zip_leftD)
  from keeps_run [OF run this assms(6)] final_status show ?thesis by blast
qed

text \<open>
  C24. A snapshot followed by a restore brings unfinished tasks back. After \<^verbatim>\<open>Snapshot\<close> of one
  state and \<^verbatim>\<open>Restore\<close> into another, both without error, a task of the first state that is not
  terminal is on the board again, with its instants cut to the second and the creation instant
  of its first snapshot; a terminal one leaves its place as the second state had it; and where
  the first state had no task, an unfinished row of an earlier snapshot comes back, so that a
  deleted task can reappear.
\<close>

theorem snapshot_restores:
  assumes "coord_store (lb_coord b) view" "kv_Available (lb_coord b)" "lb_db b = Some (SQLiteSnapshot D E)"
    and "store_wf E view now c" "store_wf E view now' c0" "table_wf q"
    and "Local_Snapshot E b now c q = (q', None)" "Local_Restore b now' q' c0 = (c1, None)"
  shows "board_of E view now' c1 tid = (case board_of E view now c tid of
      Some t \<Rightarrow> if Task_IsTerminal t then board_of E view now' c0 tid else Some (restored (first_created E q t) t)
    | None \<Rightarrow> (case row_at q tid of
        None \<Rightarrow> board_of E view now' c0 tid
      | Some r \<Rightarrow> if terminal_status (r_status r) then board_of E view now' c0 tid
          else Some (json_norm (scanTask E r))))"
proof -
  obtain es where es: "kv_List (lb_coord b) now PrefixTask c = Inr es"
    "upsert_all (SQLiteSnapshot D E) (readable_tasks E es) q = (q', None)"
    using assms(3,7) by (auto simp: Local_Snapshot_def split: sum.splits)
  note rb = coord_store.readable_board [OF assms(1,4) es(1)]
  have wf: "task_wf t \<and> Metadata t \<noteq> Some []" if "t \<in> set (readable_tasks E es)" for t
    using that rb(2) board_wf [OF assms(4)] by blast
  note rows = upsert_all_rows [OF es(2) assms(6) wf rb(1)]
  have tables: "table_wf q'" "distinct (map r_id q')" using rows by (auto simp: table_wf_def)
  obtain ts where ts: "ts = map (scanTask E) (order_desc q')" "restore_all b now' ts c0 = (c1, None)"
    using assms(2,3,8)
    by (auto simp: Local_Restore_def SQLiteSnapshot_def ListTasks_def row_matches_def no_filter_def split: option.splits)
  have tss: "set ts = scanTask E ` set q'" using ts(1) order_desc_set(1) by simp
  have "map ID ts = map r_id (order_desc q')"
    using ts(1) scanned(2) [OF tables(1)] order_desc_set(1) [of q'] by simp
  then have dist: "distinct (map ID ts)" using order_desc_set(2) [OF tables(2)] by simp
  have tswf: "task_wf t" if "t \<in> set ts" for t using that tss scanned(1) [OF tables(1)] by auto
  note res = coord_store.restore_all_board [OF assms(1) refl ts(2) assms(5) tswf dist]
  have at: "board_of E view now' c1 tid = (case row_at q' tid of None \<Rightarrow> board_of E view now' c0 tid
      | Some r \<Rightarrow> if terminal_status (r_status r) then board_of E view now' c0 tid else Some (json_norm (scanTask E r)))"
    by (rule restored_row [OF tables(1) tss]) (use res in blast)+
  show ?thesis
  proof (cases "board_of E view now c tid")
    case None
    then have "tid \<notin> ID ` set (readable_tasks E es)" using rb(2) by auto
    with rows at None show ?thesis by simp
  next
    case (Some t)
    then have t: "ID t = tid" "t \<in> set (readable_tasks E es)" using board_wf(1) [OF assms(4)] rb(2) by auto
    then have "row_at q' tid = Some (snapshot_row q t)" using rows by blast
    with at Some snapshot_row_back [OF assms(6), of t] wf [OF t(2)] show ?thesis by (simp add: Task_IsTerminal_def)
  qed
qed

section \<open>Instances\<close>

text \<open>A backend over the reference database, a task, and its first two calls.\<close>

definition sample_env :: json_env where
  "sample_env = \<lparr>syntax_error = Errorf, type_error = Errorf, fold_name = (\<lambda>s. s),
     other_json_time = (\<lambda>s. Inl (Errorf s)), other_time = (\<lambda>s. Inl (Errorf s)), quote_verb = (\<lambda>s. s)\<rparr>"

definition sample_sql :: sql_env where
  "sample_sql = \<lparr>exec_error = (\<lambda>_ _. None), query_error = (\<lambda>_ _. None)\<rparr>"

definition sample_local :: "(mem_db, task_table) LocalBackend" where
  "sample_local = NewLocalBackend (BadgerStore mem_badger) (Some (SQLiteSnapshot sample_sql sample_env))"

definition sample_clock :: "int \<Rightarrow> clock" where
  "sample_clock s i = (63900000000 + s) * second_ns + int i"

definition sample_task :: Task where
  "sample_task = zero_task\<lparr>ID := ''t1'', SessionID := ''s1'', Title := ''fix''\<rparr>"

definition sample_create :: "clock \<times> task_op" where
  "sample_create = (sample_clock 0, OpCreate ''u1'' sample_task)"

definition sample_move :: "clock \<times> task_op" where
  "sample_move = (sample_clock 1, OpTransition ''t1'' StatusInProgress)"

definition sample_created :: Task where
  "sample_created = json_norm (created_task ''u1'' (sample_clock 0 0) sample_task)"

lemma sample_store: "coord_store (lb_coord sample_local) mem_view" "kv_Available (lb_coord sample_local)"
  "lb_db sample_local = Some (SQLiteSnapshot sample_sql sample_env)"
  using mem.coord_store_axioms by (simp_all add: sample_local_def NewLocalBackend_def BadgerStore_def)

lemma sample_clock_ok: "0 \<le> s \<Longrightarrow> s < 1000 \<Longrightarrow> clock_ok (sample_clock s)"
  by (simp add: clock_ok_def sample_clock_def printable_def second_ns_def)

lemma sample_times: "0 \<le> sample_clock 0 0" "sample_clock 0 3 \<le> sample_clock 1 0"
  by (simp_all add: sample_clock_def second_ns_def)

lemma sample_valid: "valid_utf8 ''t1''" "valid_utf8 ''s1''" "valid_utf8 ''fix''" "valid_utf8 ''pending''" "valid_utf8 []"
  by (simp_all add: ascii_valid ascii_byte_lt)

lemma sample_wf: "task_wf (created_task ''u1'' (sample_clock 0 0) sample_task)"
  using sample_clock_ok [of 0] sample_valid
  by (simp add: created_task_def sample_task_def zero_task_def task_wf_def task_strings_def task_times_def
      clock_ok_def map_wf_def StatusPending_def)

lemma sample_calls_ok: "calls_ok 0 [sample_create]" "calls_ok 0 [sample_create, sample_move]"
  "calls_ok (sample_clock 0 3) [sample_move]"
  using sample_wf sample_clock_ok [of 0] sample_clock_ok [of 1] sample_times
  by (simp_all add: sample_create_def sample_move_def)

lemma empty_wf: "store_wf E mem_view t []"
  by (simp add: store_wf_def lasting_def entry_wf_def mem_view_def)

lemma sample_put:
  assumes "task_wf t"
  shows "\<exists>d. put_task sample_local now t c = ((PrefixTask @ ID t, d, None) # c, None)
     \<and> unmarshal_task E d = Inr (json_norm t)"
proof -
  obtain d where "marshal_task t = Inr d" using marshal_wf [OF assms] by blast
  with unmarshal_marshal [OF assms this, of E] show ?thesis
    by (simp add: put_task_def sample_local_def NewLocalBackend_def BadgerStore_def Badger_Put_def mem_badger_def)
qed

definition sample_store_db :: mem_db where
  "sample_store_db = fst (perform_all sample_env sample_local [sample_create] [])"

lemma sample_db_entry:
  "\<exists>d. sample_store_db = [(''task:t1'', d, None)] \<and> unmarshal_task sample_env d = Inr sample_created
     \<and> perform_all sample_env sample_local [sample_create] [] = (sample_store_db, [None])"
proof -
  have tid: "ID (created_task ''u1'' (sample_clock 0 0) sample_task) = ''t1''"
    by (simp add: created_task_def sample_task_def)
  obtain d where "put_task sample_local (sample_clock 0 1) (created_task ''u1'' (sample_clock 0 0) sample_task) []
      = ([(''task:t1'', d, None)], None)" "unmarshal_task sample_env d = Inr sample_created"
    using sample_put [OF sample_wf, of "sample_clock 0 1" "[]" sample_env] tid
    by (auto simp: sample_created_def PrefixTask_def)
  then show ?thesis
    by (simp add: sample_store_db_def sample_create_def Local_Create_def Let_def)
qed

lemma sample_db_wf: "store_wf sample_env mem_view (sample_clock 0 3) sample_store_db"
  "board_of sample_env mem_view now sample_store_db = [''t1'' \<mapsto> sample_created]"
proof -
  obtain d where d: "sample_store_db = [(''task:t1'', d, None)]" "unmarshal_task sample_env d = Inr sample_created"
    "perform_all sample_env sample_local [sample_create] [] = (sample_store_db, [None])"
    using sample_db_entry by blast
  show "store_wf sample_env mem_view (sample_clock 0 3) sample_store_db"
    using coord_store.perform_all_board [OF sample_store(1) refl empty_wf sample_calls_ok(1) d(3)]
    by (simp add: sample_create_def)
  show "board_of sample_env mem_view now sample_store_db = [''t1'' \<mapsto> sample_created]"
    unfolding d(1) using d(2) by (intro ext) (simp add: board_of_def mem_view_def mem_live_def PrefixTask_def)
qed

lemma sample_created_props: "Task_Status sample_created = StatusPending" "ID sample_created = ''t1''"
  "\<not> Task_IsTerminal sample_created"
  by (simp_all add: sample_created_def created_task_def sample_task_def zero_task_def Task_IsTerminal_def terminal_status_def status_defs)

lemma sample_moved: "\<exists>c. perform_all sample_env sample_local [sample_move] sample_store_db = (c, [None])"
proof -
  obtain d where d: "sample_store_db = [(''task:t1'', d, None)]" "unmarshal_task sample_env d = Inr sample_created"
    using sample_db_entry by blast
  have "Local_Get sample_env sample_local (sample_clock 1 0) ''t1'' sample_store_db = Inr sample_created"
    unfolding d(1) using d(2) by (simp add: Local_Get_def sample_local_def NewLocalBackend_def BadgerStore_def Badger_Get_def
        mem_badger_def mem_view_def mem_live_def PrefixTask_def)
  moreover have "ValidateTransition (quote_verb sample_env) StatusPending StatusInProgress = None"
    by (simp add: ValidateTransition_def validTransitions_def)
  moreover have "task_wf (moved_task (sample_clock 1) StatusInProgress sample_created)"
    using json_norm_wf [OF sample_wf] sample_clock_ok [of 1]
    by (intro moved_task_wf) (simp_all add: sample_created_def StatusInProgress_def ascii_valid ascii_byte_lt)
  moreover from sample_put [OF this, of "sample_clock 1 3" sample_store_db sample_env]
  obtain c where "put_task sample_local (sample_clock 1 3) (moved_task (sample_clock 1) StatusInProgress sample_created) sample_store_db
      = (c, None)" by blast
  ultimately show ?thesis
    by (simp add: sample_move_def Local_Transition_def sample_created_props)
qed

lemma perform_sample: "\<exists>c. perform_all sample_env sample_local [sample_create, sample_move] [] = (c, [None, None])"
proof -
  obtain c where "perform_all sample_env sample_local [sample_move] sample_store_db = (c, [None])" using sample_moved by blast
  moreover obtain d where "perform_all sample_env sample_local [sample_create] [] = (sample_store_db, [None])"
    using sample_db_entry by blast
  ultimately show ?thesis by (auto split: prod.splits)
qed

theorem tasks_refine_board_witness:
  "\<exists>c m. perform_all sample_env sample_local [sample_create, sample_move] [] = (c, [None, None])
     \<and> board_run [(sample_create, None), (sample_move, None)] Map.empty = Some m
     \<and> map_option Task_Status (m ''t1'') = Some StatusInProgress"
proof -
  obtain c where c: "perform_all sample_env sample_local [sample_create, sample_move] [] = (c, [None, None])"
    using perform_sample by blast
  have empty: "board_of sample_env mem_view 0 [] = Map.empty"
    by (intro ext) (simp add: board_of_def mem_view_def)
  obtain m where m: "board_run [(sample_create, None), (sample_move, None)] Map.empty = Some m"
    using tasks_refine_board [OF sample_store(1) empty_wf sample_calls_ok(2) c order_refl] empty by auto
  then have "map_option Task_Status (m ''t1'') = Some StatusInProgress"
    by (auto simp: sample_create_def sample_move_def created_task_def sample_task_def Let_def moved_task_props split: if_splits)
  with c m show ?thesis by blast
qed

theorem stored_tasks_wellformed_witness:
  "\<exists>c. perform_all sample_env sample_local [sample_create, sample_move] [] = (c, [None, None])
     \<and> store_wf sample_env mem_view (sample_clock 1 3) c"
proof -
  obtain c where c: "perform_all sample_env sample_local [sample_create, sample_move] [] = (c, [None, None])"
    using perform_sample by blast
  with stored_tasks_wellformed [OF sample_store(1) empty_wf sample_calls_ok(2) c] show ?thesis
    by (auto simp: sample_create_def sample_move_def)
qed

theorem status_moves_along_edges_witness:
  "\<exists>c u. perform_all sample_env sample_local [sample_move] sample_store_db = (c, [None])
     \<and> board_of sample_env mem_view (sample_clock 1 3) c ''t1'' = Some u
     \<and> edge\<^sup>*\<^sup>* StatusPending (Task_Status u)"
proof -
  obtain c where c: "perform_all sample_env sample_local [sample_move] sample_store_db = (c, [None])"
    using sample_moved by blast
  have "\<forall>x\<in>set [sample_move]. keeps_task ''t1'' x" by (simp add: sample_move_def)
  from status_moves_along_edges [OF sample_store(1) sample_db_wf(1) sample_calls_ok(3) c this, of sample_created]
  show ?thesis using c sample_db_wf(2) by (auto simp: sample_move_def sample_created_props)
qed

theorem snapshot_restores_witness:
  "\<exists>q c. Local_Snapshot sample_env sample_local (sample_clock 0 3) sample_store_db [] = (q, None)
     \<and> Local_Restore sample_local (sample_clock 1 0) q [] = (c, None)
     \<and> board_of sample_env mem_view (sample_clock 1 0) c ''t1'' = Some (restored (CreatedAt sample_created) sample_created)"
proof -
  obtain d where d: "sample_store_db = [(''task:t1'', d, None)]" "unmarshal_task sample_env d = Inr sample_created"
    using sample_db_entry by blast
  have list: "kv_List (lb_coord sample_local) (sample_clock 0 3) PrefixTask sample_store_db
      = Inr [\<lparr>Key = ''task:t1'', Value = d, ExpiresAt = 0\<rparr>]"
    unfolding d(1) by (simp add: sample_local_def NewLocalBackend_def BadgerStore_def Badger_List_def mem_badger_def
        mem_view_def mem_live_def PrefixTask_def)
  let ?q = "[task_row_of sample_created]"
  have snap: "Local_Snapshot sample_env sample_local (sample_clock 0 3) sample_store_db [] = (?q, None)"
    using list d(2) sample_store(3)
    by (simp add: Local_Snapshot_def readable_tasks_def SQLiteSnapshot_def UpsertTask_def sample_sql_def)
  have wf: "task_wf sample_created" "Metadata sample_created \<noteq> Some []"
    using json_norm_wf [OF sample_wf] by (simp_all add: sample_created_def)
  have "task_wf (scanTask sample_env (task_row_of sample_created))"
    unfolding task_row_for using scan_row(1) [OF wf task_created [OF wf(1)]] .
  from sample_put [OF this, of "sample_clock 1 0" "[]" sample_env]
  obtain c where "put_task sample_local (sample_clock 1 0) (scanTask sample_env (task_row_of sample_created)) [] = (c, None)"
    by blast
  moreover have "\<not> Task_IsTerminal (scanTask sample_env (task_row_of sample_created))"
    unfolding task_row_for using scan_row(4) [OF wf task_created [OF wf(1)]] sample_created_props(3)
    by (simp add: Task_IsTerminal_def)
  ultimately have rest: "Local_Restore sample_local (sample_clock 1 0) ?q [] = (c, None)"
    using sample_store(2,3)
    by (simp add: Local_Restore_def SQLiteSnapshot_def ListTasks_def sample_sql_def no_filter_def row_matches_def order_desc_def)
  have "table_wf []" by (simp add: table_wf_def)
  from snapshot_restores [OF sample_store sample_db_wf(1) empty_wf this snap rest, of "''t1''"]
  have "board_of sample_env mem_view (sample_clock 1 0) c ''t1'' = Some (restored (CreatedAt sample_created) sample_created)"
    by (simp add: sample_db_wf(2) sample_created_props(3) first_created_def row_at_def)
  with snap rest show ?thesis by blast
qed

end
