(* ===== verification/Workers.thy ===== *)
theory Workers
  imports TaskBoard
begin

text \<open>
  Package \<^verbatim>\<open>internal/worker\<close>: the manager that runs delegated work in at most so many workers
  at a time, with heartbeats, cancellation, reaping and shutdown.

  \<^verbatim>\<open>SpawnFull\<close> runs in the goroutine of its caller and blocks; any number of such calls, of
  \<^verbatim>\<open>SpawnLight\<close>, of \<^verbatim>\<open>Cancel\<close>, \<^verbatim>\<open>ReapStale\<close> and \<^verbatim>\<open>Shutdown\<close>, and the heartbeat and retention
  goroutines interleave. An event of the model is one of their atomic steps: one operation on
  the semaphore, on the map of workers, on a worker's status under its mutex, or on the
  coordination store. The three effects of \<^verbatim>\<open>Cancel\<close> are on three different objects and happen
  in one event, and so do the scan of \<^verbatim>\<open>ReapStale\<close> and the cancellations it makes, although in
  the source a worker may finish between them. What the chat service, the worktree manager and a tool answer are the events'
  arguments; the coordination store and the task service are those of theory \<open>Tasks\<close>, over
  one shared store.
\<close>

section \<open>Data\<close>

type_synonym WStatus = string

definition StatusSpawning :: WStatus where "StatusSpawning = ''spawning''"
definition StatusRunning :: WStatus where "StatusRunning = ''running''"
definition WStatusCompleted :: WStatus where "WStatusCompleted = ''completed''"
definition WStatusFailed :: WStatus where "WStatusFailed = ''failed''"
definition WStatusCanceled :: WStatus where "WStatusCanceled = ''canceled''"

lemmas wstatus_defs = StatusSpawning_def StatusRunning_def WStatusCompleted_def WStatusFailed_def WStatusCanceled_def

definition TypeFull :: string where "TypeFull = ''full''"
definition TypeLight :: string where "TypeLight = ''light''"

text \<open>A worker; \<open>ctx_canceled\<close> says that its context was canceled.\<close>

record Worker =
  W_ID :: string
  W_Type :: string
  W_ParentSessionID :: string
  W_SessionID :: string
  W_TaskID :: string
  W_AgentID :: string
  W_Status :: WStatus
  W_WorktreePath :: string
  W_CreatedAt :: go_time
  ctx_canceled :: bool

record WSnapshot =
  S_ID :: string
  S_Type :: string
  S_ParentSessionID :: string
  S_SessionID :: string
  S_TaskID :: string
  S_AgentID :: string
  S_Status :: WStatus
  S_WorktreePath :: string
  S_CreatedAt :: go_time

definition Worker_Snapshot :: "Worker \<Rightarrow> WSnapshot" where
  "Worker_Snapshot w = \<lparr>S_ID = W_ID w, S_Type = W_Type w, S_ParentSessionID = W_ParentSessionID w,
     S_SessionID = W_SessionID w, S_TaskID = W_TaskID w, S_AgentID = W_AgentID w, S_Status = W_Status w,
     S_WorktreePath = W_WorktreePath w, S_CreatedAt = W_CreatedAt w\<rparr>"

record SpawnRequest =
  Req_ParentSessionID :: string
  Req_Title :: string
  Req_Description :: string
  Req_AgentID :: string
  Req_Mode :: string
  Req_Model :: string
  Req_Isolation :: string
  Req_TaskID :: string

record DelegationRequest =
  D_ParentSessionID :: string
  D_Title :: string
  D_Description :: string
  D_AgentID :: string
  D_Mode :: string
  D_Model :: string

record DelegationResult =
  DR_WorkerSessionID :: string
  DR_TaskID :: string
  DR_Content :: string
  DR_TokensUsed :: int
  DR_Success :: bool
  DR_Error :: string

record WResult =
  Res_WorkerID :: string
  Res_SessionID :: string
  Res_TaskID :: string
  Res_Content :: string
  Res_TokensUsed :: int
  Res_Success :: bool
  Res_Error :: string
  Res_Duration :: duration

section \<open>The manager\<close>

text \<open>Where a call of \<^verbatim>\<open>SpawnFull\<close> is.\<close>

datatype spawn_phase =
    Stored                      \<comment> \<open>in the map, status spawning; its status is not yet written\<close>
  | Preparing                   \<comment> \<open>heartbeat started; the worktree is next\<close>
  | Abandoning go_error         \<comment> \<open>no worktree; \<^verbatim>\<open>cleanup\<close> is next\<close>
  | Removing go_error           \<comment> \<open>slot released; removal from the map is next\<close>
  | Prepared                    \<comment> \<open>\<^verbatim>\<open>SetStatus(StatusRunning)\<close> is next\<close>
  | Announcing                  \<comment> \<open>running; its status is not yet written\<close>
  | Delegating                  \<comment> \<open>\<^verbatim>\<open>DelegateTask\<close> is in flight\<close>
  | Checking WStatus WResult    \<comment> \<open>the delegation is over; \<^verbatim>\<open>GetStatus\<close> is next\<close>
  | Setting WStatus WResult     \<comment> \<open>the status was not canceled; \<^verbatim>\<open>SetStatus\<close> is next\<close>
  | Reporting WResult           \<comment> \<open>the last status is not yet written\<close>
  | Cleaning WResult            \<comment> \<open>\<^verbatim>\<open>cleanup\<close> is next\<close>
  | Finished "go_error + WResult"

text \<open>
  \<open>objs\<close> holds every worker ever made, \<open>in_map\<close> says which are in the manager's map, and
  \<open>ids\<close> lists them in the order of their making. \<open>sem\<close> is the number of taken places of the
  semaphore. \<open>closed\<close> is the state of the lifecycle manager.
\<close>

record ('c, 'q, 'p) Manager =
  maxWorkers :: nat
  sem :: nat
  ids :: "string list"
  objs :: "string \<Rightarrow> Worker option"
  in_map :: "string \<Rightarrow> bool"
  spawns :: "string \<Rightarrow> spawn_phase option"
  requests :: "string \<Rightarrow> SpawnRequest option"
  beating :: "string \<Rightarrow> bool"
  retiring :: "string \<Rightarrow> bool"
  lights :: "string list"
  closed :: bool
  started :: "string \<Rightarrow> go_time"
  m_now :: go_time
  world :: "('c, 'q, 'p) task_world"

record ('c, 'q, 'p) ManagerConfig =
  MaxConcurrentWorkers :: int
  mc_Coord :: "'c CoordStore option"
  mc_Tasks :: "('c, 'q, 'p) task_service option"
  mc_Worktrees :: bool

definition NewManager :: "('c, 'q, 'p) ManagerConfig \<Rightarrow> go_time \<Rightarrow> ('c, 'q, 'p) task_world \<Rightarrow> ('c, 'q, 'p) Manager" where
  "NewManager cfg t0 w = \<lparr>maxWorkers = nat (if MaxConcurrentWorkers cfg \<le> 0 then 5 else MaxConcurrentWorkers cfg),
     sem = 0, ids = [], objs = Map.empty, in_map = (\<lambda>_. False), spawns = Map.empty, requests = Map.empty,
     beating = (\<lambda>_. False), retiring = (\<lambda>_. False), lights = [], closed = False, started = (\<lambda>_. 0),
     m_now = t0, world = w\<rparr>"

definition SetStatus :: "string \<Rightarrow> WStatus \<Rightarrow> ('c, 'q, 'p) Manager \<Rightarrow> ('c, 'q, 'p) Manager" where
  "SetStatus wid st m = m\<lparr>objs := (objs m)(wid := map_option (\<lambda>w. w\<lparr>W_Status := st\<rparr>) (objs m wid))\<rparr>"

definition SetSessionID :: "string \<Rightarrow> string \<Rightarrow> ('c, 'q, 'p) Manager \<Rightarrow> ('c, 'q, 'p) Manager" where
  "SetSessionID wid x m = m\<lparr>objs := (objs m)(wid := map_option (\<lambda>w. w\<lparr>W_SessionID := x\<rparr>) (objs m wid))\<rparr>"

definition SetWorktreePath :: "string \<Rightarrow> string \<Rightarrow> ('c, 'q, 'p) Manager \<Rightarrow> ('c, 'q, 'p) Manager" where
  "SetWorktreePath wid x m = m\<lparr>objs := (objs m)(wid := map_option (\<lambda>w. w\<lparr>W_WorktreePath := x\<rparr>) (objs m wid))\<rparr>"

definition cancel_ctx :: "string \<Rightarrow> ('c, 'q, 'p) Manager \<Rightarrow> ('c, 'q, 'p) Manager" where
  "cancel_ctx wid m = m\<lparr>objs := (objs m)(wid := map_option (\<lambda>w. w\<lparr>ctx_canceled := True\<rparr>) (objs m wid))\<rparr>"

definition goto :: "string \<Rightarrow> spawn_phase \<Rightarrow> ('c, 'q, 'p) Manager \<Rightarrow> ('c, 'q, 'p) Manager" where
  "goto wid p m = m\<lparr>spawns := (spawns m)(wid \<mapsto> p)\<rparr>"

section \<open>The coordination store\<close>

text \<open>The JSON of a status: the members of a Go map in key order.\<close>

definition status_json :: "WSnapshot \<Rightarrow> json" where
  "status_json s = JObj [(''agent_id'', JStr (S_AgentID s)), (''created_at'', time_json (S_CreatedAt s)),
     (''id'', JStr (S_ID s)), (''parent'', JStr (S_ParentSessionID s)), (''session_id'', JStr (S_SessionID s)),
     (''status'', JStr (S_Status s)), (''type'', JStr (S_Type s)), (''worktree'', JStr (S_WorktreePath s))]"

definition coord_put :: "('c, 'q, 'p) ManagerConfig \<Rightarrow> string \<Rightarrow> string \<Rightarrow> duration \<Rightarrow> ('c, 'q, 'p) Manager \<Rightarrow> ('c, 'q, 'p) Manager" where
  "coord_put cfg key data ttl m = (case mc_Coord cfg of None \<Rightarrow> m
     | Some S \<Rightarrow> if \<not> kv_Available S then m
         else m\<lparr>world := (world m)\<lparr>w_coord := fst (kv_Put S (m_now m) key data ttl (w_coord (world m)))\<rparr>\<rparr>)"

text \<open>A time that does not marshal leaves \<^verbatim>\<open>data\<close> empty; the error is dropped.\<close>

definition writeWorkerStatus :: "('c, 'q, 'p) ManagerConfig \<Rightarrow> string \<Rightarrow> ('c, 'q, 'p) Manager \<Rightarrow> ('c, 'q, 'p) Manager" where
  "writeWorkerStatus cfg wid m = (case objs m wid of None \<Rightarrow> m
     | Some w \<Rightarrow> let s = Worker_Snapshot w in
         coord_put cfg (PrefixWorker @ S_ID s @ '':status'')
           (if time_marshals (S_CreatedAt s) then Encode (status_json s) else []) WorkerTTL m)"

definition heartbeat_key :: "string \<Rightarrow> string" where
  "heartbeat_key wid = PrefixHeartbeat @ wid @ '':heartbeat''"

definition heartbeat_data :: "string \<Rightarrow> go_time \<Rightarrow> string" where
  "heartbeat_data wid t = (if time_marshals t
     then Encode (JObj [(''timestamp'', time_json t), (''worker_id'', JStr wid)]) else [])"

definition write_heartbeat :: "('c, 'q, 'p) ManagerConfig \<Rightarrow> string \<Rightarrow> ('c, 'q, 'p) Manager \<Rightarrow> ('c, 'q, 'p) Manager" where
  "write_heartbeat cfg wid m = coord_put cfg (heartbeat_key wid) (heartbeat_data wid (m_now m)) HeartbeatTTL m"

section \<open>Cancel, reap, shut down\<close>

text \<open>\<open>conf\<close> is the user's configured task backend and \<open>clk\<close> the clock of the task service's call.\<close>

definition Manager_Cancel :: "('c, 'q, 'p) ManagerConfig \<Rightarrow> string \<Rightarrow> clock \<Rightarrow> string
    \<Rightarrow> ('c, 'q, 'p) Manager \<Rightarrow> ('c, 'q, 'p) Manager \<times> go_error option" where
  "Manager_Cancel cfg conf clk wid m = (case (in_map m wid, objs m wid) of
       (True, Some w) \<Rightarrow>
         let m1 = writeWorkerStatus cfg wid (SetStatus wid WStatusCanceled (cancel_ctx wid m)) in
         (if W_TaskID w \<noteq> [] then (case mc_Tasks cfg of None \<Rightarrow> m1
            | Some T \<Rightarrow> (case Service_Cancel T conf clk (W_TaskID w) (world m1) of
                None \<Rightarrow> m1 | Some (wd, r) \<Rightarrow> m1\<lparr>world := wd\<rparr>))
          else m1, None)
     | _ \<Rightarrow> (m, Some (Errorf (''worker '' @ wid @ '' not found''))))"

definition ActiveCount :: "('c, 'q, 'p) Manager \<Rightarrow> nat" where
  "ActiveCount m = length (filter (\<lambda>i. in_map m i \<and> (case objs m i of None \<Rightarrow> False
     | Some w \<Rightarrow> W_Status w = StatusSpawning \<or> W_Status w = StatusRunning)) (ids m))"

definition Manager_List :: "('c, 'q, 'p) Manager \<Rightarrow> WSnapshot list" where
  "Manager_List m = concat (map (\<lambda>i. if in_map m i then (case objs m i of None \<Rightarrow> [] | Some w \<Rightarrow> [Worker_Snapshot w]) else [])
     (ids m))"

text \<open>The \<^verbatim>\<open>timestamp\<close> of a heartbeat: the last member that names it; zero if there is none.\<close>

definition heartbeat_time :: "json_env \<Rightarrow> string \<Rightarrow> go_time option" where
  "heartbeat_time E data = (case Decode (syntax_error E) data of
       Inr (JObj ms) \<Rightarrow> foldl (\<lambda>acc (k, v). if fold_name E k = fold_name E ''timestamp'' then
            (case acc of None \<Rightarrow> None | Some t \<Rightarrow> if v = JNull then Some t else read_time E v) else acc) (Some 0) ms
     | Inr JNull \<Rightarrow> Some 0
     | _ \<Rightarrow> None)"

definition is_stale :: "json_env \<Rightarrow> 'c CoordStore \<Rightarrow> duration \<Rightarrow> ('c, 'q, 'p) Manager \<Rightarrow> string \<Rightarrow> bool" where
  "is_stale E S threshold m wid = (in_map m wid \<and> (case objs m wid of None \<Rightarrow> False
     | Some w \<Rightarrow> W_Status w = StatusRunning \<and>
         (case kv_Get S (m_now m) (heartbeat_key (W_ID w)) (w_coord (world m)) of
            Inl e \<Rightarrow> True
          | Inr data \<Rightarrow> (case heartbeat_time E data of None \<Rightarrow> False | Some t \<Rightarrow> threshold < m_now m - t))))"

text \<open>The map is ranged over in the order \<open>order\<close>.\<close>

definition ReapStale :: "('c, 'q, 'p) ManagerConfig \<Rightarrow> json_env \<Rightarrow> string \<Rightarrow> clock \<Rightarrow> string list \<Rightarrow> duration
    \<Rightarrow> ('c, 'q, 'p) Manager \<Rightarrow> ('c, 'q, 'p) Manager \<times> string list" where
  "ReapStale cfg E conf clk order threshold m = (case mc_Coord cfg of None \<Rightarrow> (m, [])
     | Some S \<Rightarrow> if \<not> kv_Available S then (m, [])
         else let stale = filter (is_stale E S threshold m) order
           in (foldl (\<lambda>m wid. fst (Manager_Cancel cfg conf clk wid m)) m stale, stale))"

definition Manager_Shutdown :: "('c, 'q, 'p) Manager \<Rightarrow> ('c, 'q, 'p) Manager" where
  "Manager_Shutdown m = m\<lparr>closed := True, objs := (\<lambda>i. if in_map m i
     then map_option (\<lambda>w. w\<lparr>ctx_canceled := True, W_Status := WStatusCanceled\<rparr>) (objs m i) else objs m i)\<rparr>"

section \<open>Spawning\<close>

definition new_worker :: "string \<Rightarrow> SpawnRequest \<Rightarrow> go_time \<Rightarrow> Worker" where
  "new_worker wid req t = \<lparr>W_ID = wid, W_Type = TypeFull, W_ParentSessionID = Req_ParentSessionID req,
     W_SessionID = [], W_TaskID = Req_TaskID req, W_AgentID = Req_AgentID req, W_Status = StatusSpawning,
     W_WorktreePath = [], W_CreatedAt = t, ctx_canceled = False\<rparr>"

definition delegation_request :: "SpawnRequest \<Rightarrow> DelegationRequest" where
  "delegation_request req = \<lparr>D_ParentSessionID = Req_ParentSessionID req, D_Title = Req_Title req,
     D_Description = Req_Description req, D_AgentID = Req_AgentID req, D_Mode = Req_Mode req, D_Model = Req_Model req\<rparr>"

text \<open>\<open>err\<close> prints an error.\<close>

definition spawn_result :: "(go_error \<Rightarrow> string) \<Rightarrow> string \<Rightarrow> duration \<Rightarrow> go_error + DelegationResult \<Rightarrow> WResult" where
  "spawn_result err wid dur d = (case d of
       Inl e \<Rightarrow> \<lparr>Res_WorkerID = wid, Res_SessionID = [], Res_TaskID = [], Res_Content = [], Res_TokensUsed = 0,
          Res_Success = False, Res_Error = err e, Res_Duration = dur\<rparr>
     | Inr r \<Rightarrow> \<lparr>Res_WorkerID = wid, Res_SessionID = DR_WorkerSessionID r, Res_TaskID = DR_TaskID r,
          Res_Content = DR_Content r, Res_TokensUsed = DR_TokensUsed r, Res_Success = DR_Success r,
          Res_Error = (if DR_Success r then [] else DR_Error r), Res_Duration = dur\<rparr>)"

definition final_status :: "go_error + DelegationResult \<Rightarrow> WStatus" where
  "final_status d = (case d of Inl e \<Rightarrow> WStatusFailed
     | Inr r \<Rightarrow> if DR_Success r then WStatusCompleted else WStatusFailed)"

text \<open>\<^verbatim>\<open>SpawnLight\<close>'s result from what the tool answered: its content, whether that is an error, an error.\<close>

definition light_result :: "(go_error \<Rightarrow> string) \<Rightarrow> string \<Rightarrow> duration \<Rightarrow> string \<times> bool \<times> go_error option \<Rightarrow> WResult" where
  "light_result err wid dur ans = (case ans of (content, isError, e) \<Rightarrow>
     \<lparr>Res_WorkerID = wid, Res_SessionID = [], Res_TaskID = [], Res_Content = content, Res_TokensUsed = 0,
      Res_Success = (e = None \<and> \<not> isError),
      Res_Error = (case e of Some x \<Rightarrow> err x | None \<Rightarrow> if isError then content else []), Res_Duration = dur\<rparr>)"

definition cleanup :: "string \<Rightarrow> ('c, 'q, 'p) Manager \<Rightarrow> ('c, 'q, 'p) Manager" where
  "cleanup wid m = m\<lparr>beating := (beating m)(wid := False), sem := sem m - 1\<rparr>"

text \<open>
  \<^verbatim>\<open>Acquire\<close> takes a slot and stores the new worker; a call whose context ends while it waits
  for a slot changes nothing and is no event.
\<close>

definition acquire :: "string \<Rightarrow> SpawnRequest \<Rightarrow> ('c, 'q, 'p) Manager \<Rightarrow> ('c, 'q, 'p) Manager" where
  "acquire wid req m = m\<lparr>sem := sem m + 1, ids := ids m @ [wid],
     objs := (objs m)(wid \<mapsto> new_worker wid req (m_now m)), in_map := (in_map m)(wid := True),
     requests := (requests m)(wid \<mapsto> req), spawns := (spawns m)(wid \<mapsto> Stored)\<rparr>"

text \<open>The worktree, if the request asks for isolation: \<open>ans\<close> is the worktree manager's answer.\<close>

definition prepare :: "('c, 'q, 'p) ManagerConfig \<Rightarrow> string \<Rightarrow> go_error + string \<Rightarrow> ('c, 'q, 'p) Manager \<Rightarrow> ('c, 'q, 'p) Manager" where
  "prepare cfg wid ans m = (
     if map_option Req_Isolation (requests m wid) = Some ''worktree'' then
       (if \<not> mc_Worktrees cfg then goto wid (Abandoning (Errorf ''worktree isolation requires a git repository'')) m
        else case ans of
            Inl e \<Rightarrow> goto wid (Abandoning (Wrapf ''create worktree: '' e)) m
          | Inr path \<Rightarrow> goto wid Prepared (SetWorktreePath wid path m))
     else goto wid Prepared m)"

datatype wevent =
    Acquire string SpawnRequest
  | WriteSpawning string
  | Prepare string "go_error + string"
  | Abandon string
  | Remove string
  | MarkRunning string
  | WriteRunning string
  | Delegated string "go_error + DelegationResult"
  | Check string
  | SetFinal string
  | WriteFinal string
  | Cleanup string
  | Retire string
  | Beat string
  | StopBeat string
  | LightAcquire string
  | LightDone string
  | CancelCall string clock string
  | ReapCall string clock "string list" duration
  | ShutdownCall
  | Pass go_time

text \<open>One event, \<^const>\<open>None\<close> where it is not possible.\<close>

fun wstep :: "('c, 'q, 'p) ManagerConfig \<Rightarrow> json_env \<Rightarrow> (go_error \<Rightarrow> string) \<Rightarrow> wevent
    \<Rightarrow> ('c, 'q, 'p) Manager \<Rightarrow> ('c, 'q, 'p) Manager option" where
  "wstep cfg E err (Acquire wid req) m = (if sem m < maxWorkers m \<and> wid \<notin> set (ids m) then Some (acquire wid req m) else None)"
| "wstep cfg E err (WriteSpawning wid) m = (case spawns m wid of
       Some Stored \<Rightarrow> Some (goto wid Preparing ((writeWorkerStatus cfg wid m)
         \<lparr>beating := (beating m)(wid := \<not> closed m), started := (started m)(wid := m_now m)\<rparr>))
     | _ \<Rightarrow> None)"
| "wstep cfg E err (Prepare wid ans) m = (case spawns m wid of Some Preparing \<Rightarrow> Some (prepare cfg wid ans m) | _ \<Rightarrow> None)"
| "wstep cfg E err (Abandon wid) m = (case spawns m wid of
       Some (Abandoning e) \<Rightarrow> Some (goto wid (Removing e) (cleanup wid m)) | _ \<Rightarrow> None)"
| "wstep cfg E err (Remove wid) m = (case spawns m wid of
       Some (Removing e) \<Rightarrow> Some (goto wid (Finished (Inl e)) (cancel_ctx wid (m\<lparr>in_map := (in_map m)(wid := False)\<rparr>)))
     | _ \<Rightarrow> None)"
| "wstep cfg E err (MarkRunning wid) m = (case spawns m wid of
       Some Prepared \<Rightarrow> Some (goto wid Announcing (SetStatus wid StatusRunning m)) | _ \<Rightarrow> None)"
| "wstep cfg E err (WriteRunning wid) m = (case spawns m wid of
       Some Announcing \<Rightarrow> Some (goto wid Delegating (writeWorkerStatus cfg wid m)) | _ \<Rightarrow> None)"
| "wstep cfg E err (Delegated wid d) m = (case spawns m wid of
       Some Delegating \<Rightarrow> Some (goto wid (Checking (final_status d) (spawn_result err wid (m_now m - started m wid) d))
         (case d of Inl e \<Rightarrow> m | Inr r \<Rightarrow> SetSessionID wid (DR_WorkerSessionID r) m))
     | _ \<Rightarrow> None)"
| "wstep cfg E err (Check wid) m = (case (spawns m wid, objs m wid) of
       (Some (Checking st r), Some w) \<Rightarrow> Some (goto wid (if W_Status w \<noteq> WStatusCanceled then Setting st r else Reporting r) m)
     | _ \<Rightarrow> None)"
| "wstep cfg E err (SetFinal wid) m = (case spawns m wid of
       Some (Setting st r) \<Rightarrow> Some (goto wid (Reporting r) (SetStatus wid st m)) | _ \<Rightarrow> None)"
| "wstep cfg E err (WriteFinal wid) m = (case spawns m wid of
       Some (Reporting r) \<Rightarrow> Some (goto wid (Cleaning r) (writeWorkerStatus cfg wid m)) | _ \<Rightarrow> None)"
| "wstep cfg E err (Cleanup wid) m = (case spawns m wid of
       Some (Cleaning r) \<Rightarrow> Some (goto wid (Finished (Inr r)) (cancel_ctx wid
         ((cleanup wid m)\<lparr>retiring := (retiring m)(wid := \<not> closed m)\<rparr>)))
     | _ \<Rightarrow> None)"
| "wstep cfg E err (Retire wid) m = (if retiring m wid
     then Some (m\<lparr>in_map := (in_map m)(wid := False), retiring := (retiring m)(wid := False)\<rparr>) else None)"
| "wstep cfg E err (Beat wid) m = (if beating m wid then Some (write_heartbeat cfg wid m) else None)"
| "wstep cfg E err (StopBeat wid) m = (if beating m wid \<and> closed m then Some (m\<lparr>beating := (beating m)(wid := False)\<rparr>) else None)"
| "wstep cfg E err (LightAcquire lid) m = (if sem m < maxWorkers m \<and> lid \<notin> set (lights m)
     then Some (m\<lparr>sem := sem m + 1, lights := lid # lights m\<rparr>) else None)"
| "wstep cfg E err (LightDone lid) m = (if lid \<in> set (lights m)
     then Some (m\<lparr>sem := sem m - 1, lights := remove1 lid (lights m)\<rparr>) else None)"
| "wstep cfg E err (CancelCall conf clk wid) m = Some (fst (Manager_Cancel cfg conf clk wid m))"
| "wstep cfg E err (ReapCall conf clk order threshold) m = Some (fst (ReapStale cfg E conf clk order threshold m))"
| "wstep cfg E err ShutdownCall m = Some (Manager_Shutdown m)"
| "wstep cfg E err (Pass t) m = (if m_now m \<le> t then Some (m\<lparr>m_now := t\<rparr>) else None)"

abbreviation wrun :: "('c, 'q, 'p) ManagerConfig \<Rightarrow> json_env \<Rightarrow> (go_error \<Rightarrow> string) \<Rightarrow> wevent list
    \<Rightarrow> ('c, 'q, 'p) Manager \<Rightarrow> ('c, 'q, 'p) Manager option" where
  "wrun cfg E err \<equiv> run_events (wstep cfg E err)"

section \<open>Slots\<close>

text \<open>Whether a call of \<^verbatim>\<open>SpawnFull\<close> holds its slot, and whether it has given it back but not yet left the map.\<close>

fun holding :: "spawn_phase option \<Rightarrow> bool" where
  "holding None = False"
| "holding (Some (Removing e)) = False"
| "holding (Some (Finished r)) = False"
| "holding (Some _) = True"

fun removing :: "spawn_phase option \<Rightarrow> bool" where
  "removing (Some (Removing e)) = True"
| "removing _ = False"

definition holders :: "('c, 'q, 'p) Manager \<Rightarrow> string list" where
  "holders m = filter (\<lambda>i. holding (spawns m i)) (ids m)"

definition leavers :: "('c, 'q, 'p) Manager \<Rightarrow> string list" where
  "leavers m = filter (\<lambda>i. removing (spawns m i)) (ids m)"

definition active_worker :: "('c, 'q, 'p) Manager \<Rightarrow> string \<Rightarrow> bool" where
  "active_worker m i = (in_map m i \<and> (case objs m i of None \<Rightarrow> False
     | Some w \<Rightarrow> W_Status w = StatusSpawning \<or> W_Status w = StatusRunning))"

definition slots_inv :: "('c, 'q, 'p) Manager \<Rightarrow> bool" where
  "slots_inv m \<longleftrightarrow> distinct (ids m) \<and> sem m = length (holders m) + length (lights m) \<and> sem m \<le> maxWorkers m
     \<and> (\<forall>i. i \<notin> set (ids m) \<longrightarrow> spawns m i = None \<and> \<not> in_map m i \<and> objs m i = None)
     \<and> (\<forall>i. active_worker m i \<longrightarrow> holding (spawns m i) \<or> removing (spawns m i))
     \<and> (\<forall>i r. spawns m i = Some (Reporting r) \<or> spawns m i = Some (Cleaning r) \<longrightarrow> \<not> active_worker m i)
     \<and> (\<forall>i st r. spawns m i = Some (Checking st r) \<or> spawns m i = Some (Setting st r)
          \<longrightarrow> st = WStatusCompleted \<or> st = WStatusFailed)
     \<and> distinct (lights m)"

lemmas state_defs = SetStatus_def SetSessionID_def SetWorktreePath_def cancel_ctx_def goto_def cleanup_def

lemma coord_put_frame [simp]:
  "maxWorkers (coord_put cfg k d ttl m) = maxWorkers m" "sem (coord_put cfg k d ttl m) = sem m"
  "ids (coord_put cfg k d ttl m) = ids m" "objs (coord_put cfg k d ttl m) = objs m"
  "in_map (coord_put cfg k d ttl m) = in_map m" "spawns (coord_put cfg k d ttl m) = spawns m"
  "lights (coord_put cfg k d ttl m) = lights m" "m_now (coord_put cfg k d ttl m) = m_now m"
  "closed (coord_put cfg k d ttl m) = closed m" "beating (coord_put cfg k d ttl m) = beating m"
  "retiring (coord_put cfg k d ttl m) = retiring m"
  by (simp_all add: coord_put_def split: option.splits)

lemma write_frame [simp]:
  "maxWorkers (writeWorkerStatus cfg wid m) = maxWorkers m" "sem (writeWorkerStatus cfg wid m) = sem m"
  "ids (writeWorkerStatus cfg wid m) = ids m" "objs (writeWorkerStatus cfg wid m) = objs m"
  "in_map (writeWorkerStatus cfg wid m) = in_map m" "spawns (writeWorkerStatus cfg wid m) = spawns m"
  "lights (writeWorkerStatus cfg wid m) = lights m" "m_now (writeWorkerStatus cfg wid m) = m_now m"
  "closed (writeWorkerStatus cfg wid m) = closed m" "beating (writeWorkerStatus cfg wid m) = beating m"
  "retiring (writeWorkerStatus cfg wid m) = retiring m"
  by (simp_all add: writeWorkerStatus_def Let_def split: option.splits)

lemma cancel_frame:
  defines "m' \<equiv> \<lambda>cfg conf clk wid m. fst (Manager_Cancel cfg conf clk wid m)"
  shows "maxWorkers (m' cfg conf clk wid m) = maxWorkers m" "sem (m' cfg conf clk wid m) = sem m"
    "ids (m' cfg conf clk wid m) = ids m" "in_map (m' cfg conf clk wid m) = in_map m"
    "spawns (m' cfg conf clk wid m) = spawns m" "lights (m' cfg conf clk wid m) = lights m"
    "objs (m' cfg conf clk wid m) = (if in_map m wid
       then (objs m)(wid := map_option (\<lambda>w. w\<lparr>ctx_canceled := True, W_Status := WStatusCanceled\<rparr>) (objs m wid)) else objs m)"
  by (auto simp: m'_def Manager_Cancel_def Let_def state_defs split: option.splits bool.splits)

text \<open>Steps that change neither slots nor phases and make no worker active keep the invariant.\<close>

lemma slots_inv_frame:
  assumes "slots_inv m" "maxWorkers m' = maxWorkers m" "sem m' = sem m" "ids m' = ids m" "spawns m' = spawns m"
    "lights m' = lights m"
    and "\<And>i. active_worker m' i \<Longrightarrow> active_worker m i"
    and "\<And>i. i \<notin> set (ids m) \<Longrightarrow> \<not> in_map m i \<Longrightarrow> objs m i = None \<Longrightarrow> \<not> in_map m' i \<and> objs m' i = None"
  shows "slots_inv m'"
proof -
  from assms have "holders m' = holders m" by (simp add: holders_def)
  with assms show ?thesis unfolding slots_inv_def by (intro conjI allI impI) (simp_all, blast+)
qed

lemma cancel_slots: "slots_inv m \<Longrightarrow> slots_inv (fst (Manager_Cancel cfg conf clk wid m))"
  by (erule slots_inv_frame)
    (auto simp: cancel_frame active_worker_def wstatus_defs split: option.splits if_splits)

lemma reap_slots: "slots_inv m \<Longrightarrow> slots_inv (foldl (\<lambda>m wid. fst (Manager_Cancel cfg conf clk wid m)) m xs)"
  by (induction xs arbitrary: m) (simp_all add: cancel_slots)

text \<open>A step of one call from one phase to the next.\<close>

lemma move_slots:
  assumes inv: "slots_inv m" and p: "spawns m wid = Some p" and p': "holding (Some p) = holding (Some p')"
    and same: "maxWorkers m' = maxWorkers m" "sem m' = sem m" "ids m' = ids m" "lights m' = lights m"
      "spawns m' = (spawns m)(wid \<mapsto> p')" "in_map m' = in_map m"
      "\<And>i. i \<noteq> wid \<Longrightarrow> map_option W_Status (objs m' i) = map_option W_Status (objs m i)" "objs m' wid = None \<longleftrightarrow> objs m wid = None"
    and act: "active_worker m' wid \<Longrightarrow> (holding (Some p') \<or> removing (Some p')) \<and> (\<forall>r. p' \<noteq> Reporting r \<and> p' \<noteq> Cleaning r)"
    and st: "\<And>st r. p' = Checking st r \<or> p' = Setting st r \<Longrightarrow> st = WStatusCompleted \<or> st = WStatusFailed"
  shows "slots_inv m'"
proof -
  have others: "active_worker m' i = active_worker m i" if "i \<noteq> wid" for i
  proof -
    have "(case objs m' i of None \<Rightarrow> False | Some w \<Rightarrow> W_Status w = StatusSpawning \<or> W_Status w = StatusRunning)
      = (case map_option W_Status (objs m' i) of None \<Rightarrow> False | Some s \<Rightarrow> s = StatusSpawning \<or> s = StatusRunning)"
      "(case objs m i of None \<Rightarrow> False | Some w \<Rightarrow> W_Status w = StatusSpawning \<or> W_Status w = StatusRunning)
      = (case map_option W_Status (objs m i) of None \<Rightarrow> False | Some s \<Rightarrow> s = StatusSpawning \<or> s = StatusRunning)"
      by (simp_all split: option.splits)
    with same(6) same(7) [OF that] show ?thesis by (simp add: active_worker_def)
  qed
  have "wid \<in> set (ids m)" using inv p unfolding slots_inv_def by force
  moreover have "holders m' = holders m" using same(3,5) p p' by (auto simp: holders_def intro!: filter_cong)
  moreover have "objs m' i = None" if "i \<noteq> wid" "objs m i = None" for i using same(7) [OF that(1)] that(2) by simp
  ultimately show ?thesis
    using inv same act st others unfolding slots_inv_def by (auto split: if_splits)
qed

lemma release_count:
  "distinct xs \<Longrightarrow> w \<in> set xs \<Longrightarrow> P w \<Longrightarrow> \<not> Q w \<Longrightarrow> (\<And>x. x \<noteq> w \<Longrightarrow> Q x = P x)
    \<Longrightarrow> Suc (length (filter Q xs)) = length (filter P xs)"
proof (induction xs)
  case (Cons a xs)
  show ?case
  proof (cases "a = w")
    case True
    have "filter Q xs = filter P xs"
    proof (rule filter_cong)
      fix x assume "x \<in> set xs"
      with True Cons.prems(1) have "x \<noteq> w" by auto
      then show "Q x = P x" by (rule Cons.prems(5))
    qed simp
    with True Cons.prems(3,4) show ?thesis by simp
  next
    case False
    with Cons.prems have "Suc (length (filter Q xs)) = length (filter P xs)" by (intro Cons.IH) auto
    with Cons.prems(5) [OF False] show ?thesis by simp
  qed
qed simp

lemma release_slots:
  assumes inv: "slots_inv m" and p: "spawns m wid = Some p" "holding (Some p)" and p': "\<not> holding (Some p')"
    and act: "active_worker m wid \<Longrightarrow> removing (Some p')"
    and same: "maxWorkers m' = maxWorkers m" "sem m' = sem m - 1" "ids m' = ids m" "lights m' = lights m"
      "spawns m' = (spawns m)(wid \<mapsto> p')" "in_map m' = in_map m"
      "\<And>i. map_option W_Status (objs m' i) = map_option W_Status (objs m i)"
  shows "slots_inv m'"
proof -
  have none: "objs m' i = None \<longleftrightarrow> objs m i = None" for i using same(7) [of i] by (cases "objs m i") auto
  have others: "active_worker m' i = active_worker m i" for i
    using same(6) same(7) [of i] by (cases "objs m i"; cases "objs m' i") (simp_all add: active_worker_def)
  have "wid \<in> set (ids m)" using inv p unfolding slots_inv_def by force
  then have cnt: "Suc (length (holders m')) = length (holders m)"
    unfolding holders_def same(3) using inv p p' same(5)
    by (intro release_count) (auto simp: slots_inv_def)
  with inv \<open>wid \<in> set (ids m)\<close> p' act same none others show ?thesis
    unfolding slots_inv_def by (auto split: if_splits)
qed

lemma acquire_slots:
  assumes "slots_inv m" "sem m < maxWorkers m" "wid \<notin> set (ids m)"
  shows "slots_inv (acquire wid req m)"
proof -
  have "filter (\<lambda>i. holding (((spawns m)(wid \<mapsto> Stored)) i)) (ids m) = filter (\<lambda>i. holding (spawns m i)) (ids m)"
    using assms(3) by (intro filter_cong) auto
  then have "holders (acquire wid req m) = holders m @ [wid]" by (simp add: holders_def acquire_def)
  moreover have "active_worker (acquire wid req m) i = active_worker m i" if "i \<noteq> wid" for i
    using that by (simp add: active_worker_def acquire_def)
  ultimately show ?thesis
    using assms unfolding slots_inv_def by (auto simp: acquire_def)
qed

lemma light_slots:
  assumes "slots_inv m"
  shows "sem m < maxWorkers m \<Longrightarrow> lid \<notin> set (lights m) \<Longrightarrow> slots_inv (m\<lparr>sem := sem m + 1, lights := lid # lights m\<rparr>)"
    and "lid \<in> set (lights m) \<Longrightarrow> slots_inv (m\<lparr>sem := sem m - 1, lights := remove1 lid (lights m)\<rparr>)"
proof -
  have "holders (m\<lparr>sem := n, lights := ls\<rparr>) = holders m" for n ls by (simp add: holders_def)
  moreover have "active_worker (m\<lparr>sem := n, lights := ls\<rparr>) = active_worker m" for n ls by (simp add: active_worker_def fun_eq_iff)
  moreover have "\<exists>n. length (lights m) = Suc n" if "lid \<in> set (lights m)"
    using length_pos_if_in_set [OF that] by (simp add: gr0_conv_Suc)
  ultimately show "sem m < maxWorkers m \<Longrightarrow> lid \<notin> set (lights m) \<Longrightarrow> slots_inv (m\<lparr>sem := sem m + 1, lights := lid # lights m\<rparr>)"
    and "lid \<in> set (lights m) \<Longrightarrow> slots_inv (m\<lparr>sem := sem m - 1, lights := remove1 lid (lights m)\<rparr>)"
    using assms unfolding slots_inv_def by (simp, auto simp: length_remove1)
qed

lemma shutdown_slots: "slots_inv m \<Longrightarrow> slots_inv (Manager_Shutdown m)"
  by (erule slots_inv_frame)
    (auto simp: Manager_Shutdown_def active_worker_def wstatus_defs split: option.splits if_splits)

lemma unmap_slots: "slots_inv m \<Longrightarrow> slots_inv (m\<lparr>in_map := (in_map m)(wid := False), retiring := rs\<rparr>)"
  by (erule slots_inv_frame) (auto simp: active_worker_def split: if_splits)

lemma inactive_statuses [simp]:
  "WStatusCompleted \<noteq> StatusSpawning" "WStatusCompleted \<noteq> StatusRunning"
  "WStatusFailed \<noteq> StatusSpawning" "WStatusFailed \<noteq> StatusRunning"
  "WStatusCanceled \<noteq> StatusSpawning" "WStatusCanceled \<noteq> StatusRunning"
  "WStatusCompleted \<noteq> WStatusCanceled" "WStatusFailed \<noteq> WStatusCanceled" "StatusRunning \<noteq> WStatusCanceled"
  by (simp_all add: wstatus_defs)

lemma goto_frame [simp]:
  "maxWorkers (goto w p m) = maxWorkers m" "sem (goto w p m) = sem m" "ids (goto w p m) = ids m"
  "objs (goto w p m) = objs m" "in_map (goto w p m) = in_map m" "spawns (goto w p m) = (spawns m)(w \<mapsto> p)"
  "lights (goto w p m) = lights m" "closed (goto w p m) = closed m" "m_now (goto w p m) = m_now m" "world (goto w p m) = world m"
  by (simp_all add: goto_def)

lemma update_frame [simp]:
  "maxWorkers (SetStatus w st m) = maxWorkers m" "sem (SetStatus w st m) = sem m" "ids (SetStatus w st m) = ids m"
  "in_map (SetStatus w st m) = in_map m" "spawns (SetStatus w st m) = spawns m" "lights (SetStatus w st m) = lights m"
  "maxWorkers (SetSessionID w x m) = maxWorkers m" "sem (SetSessionID w x m) = sem m" "ids (SetSessionID w x m) = ids m"
  "in_map (SetSessionID w x m) = in_map m" "spawns (SetSessionID w x m) = spawns m" "lights (SetSessionID w x m) = lights m"
  "maxWorkers (SetWorktreePath w x m) = maxWorkers m" "sem (SetWorktreePath w x m) = sem m" "ids (SetWorktreePath w x m) = ids m"
  "in_map (SetWorktreePath w x m) = in_map m" "spawns (SetWorktreePath w x m) = spawns m" "lights (SetWorktreePath w x m) = lights m"
  "maxWorkers (cancel_ctx w m) = maxWorkers m" "sem (cancel_ctx w m) = sem m" "ids (cancel_ctx w m) = ids m"
  "in_map (cancel_ctx w m) = in_map m" "spawns (cancel_ctx w m) = spawns m" "lights (cancel_ctx w m) = lights m"
  by (simp_all add: state_defs)

lemma update_objs:
  "objs (SetStatus w st m) = (objs m)(w := map_option (\<lambda>x. x\<lparr>W_Status := st\<rparr>) (objs m w))"
  "map_option W_Status (objs (SetSessionID w x m) i) = map_option W_Status (objs m i)"
  "map_option W_Status (objs (SetWorktreePath w x m) i) = map_option W_Status (objs m i)"
  "map_option W_Status (objs (cancel_ctx w m) i) = map_option W_Status (objs m i)"
  "objs (SetStatus w st m) i = None \<longleftrightarrow> objs m i = None"
  "objs (SetSessionID w x m) i = None \<longleftrightarrow> objs m i = None"
  "objs (SetWorktreePath w x m) i = None \<longleftrightarrow> objs m i = None"
  by (simp_all add: state_defs option.map_comp comp_def)

lemma goto_slots:
  assumes "slots_inv m" "spawns m wid = Some p" "holding (Some p) = holding (Some p')"
    and "maxWorkers n = maxWorkers m" "sem n = sem m" "ids n = ids m" "lights n = lights m" "spawns n = spawns m" "in_map n = in_map m"
      "\<And>i. i \<noteq> wid \<Longrightarrow> map_option W_Status (objs n i) = map_option W_Status (objs m i)" "objs n wid = None \<longleftrightarrow> objs m wid = None"
    and "active_worker n wid \<Longrightarrow> (holding (Some p') \<or> removing (Some p')) \<and> (\<forall>r. p' \<noteq> Reporting r \<and> p' \<noteq> Cleaning r)"
    and "\<And>st r. p' = Checking st r \<or> p' = Setting st r \<Longrightarrow> st = WStatusCompleted \<or> st = WStatusFailed"
  shows "slots_inv (goto wid p' n)"
  by (rule move_slots [OF assms(1-3)]) (use assms(4-) in \<open>simp_all add: active_worker_def\<close>)

text \<open>Every event keeps the invariant: first those of one spawning call, then the others.\<close>

lemma prepare_slots:
  assumes "slots_inv m" "spawns m wid = Some Preparing"
  shows "slots_inv (prepare cfg wid ans m)"
  unfolding prepare_def using assms
  by (auto split: sum.splits intro!: goto_slots [of m wid Preparing] simp: update_objs)

lemma outcome_slots:
  assumes inv: "slots_inv m" and p: "spawns m wid = Some (Checking st r)" and w: "objs m wid = Some w"
  shows "slots_inv (goto wid (if W_Status w \<noteq> WStatusCanceled then Setting st r else Reporting r) m)"
proof -
  have "st = WStatusCompleted \<or> st = WStatusFailed" using inv p unfolding slots_inv_def by blast
  with inv p w show ?thesis
    by (auto intro!: goto_slots [of m wid "Checking st r"] simp: active_worker_def split: if_splits)
qed

lemma final_slots:
  assumes inv: "slots_inv m" and p: "spawns m wid = Some (Setting st r)"
  shows "slots_inv (goto wid (Reporting r) (SetStatus wid st m))"
proof -
  have "st = WStatusCompleted \<or> st = WStatusFailed" using inv p unfolding slots_inv_def by blast
  with inv p show ?thesis
    by (auto intro!: goto_slots [of m wid "Setting st r"] simp: active_worker_def update_objs split: option.splits)
qed

lemma reported_slots:
  assumes inv: "slots_inv m" and p: "spawns m wid = Some (Reporting r)"
  shows "slots_inv (goto wid (Cleaning r) (writeWorkerStatus cfg wid m))"
proof -
  have "\<not> active_worker m wid" using inv p unfolding slots_inv_def by blast
  with inv p show ?thesis
    by (auto intro!: goto_slots [of m wid "Reporting r"] simp: active_worker_def)
qed

lemma cleaned_slots:
  assumes inv: "slots_inv m" and p: "spawns m wid = Some (Cleaning r)"
  shows "slots_inv (goto wid (Finished (Inr r)) (cancel_ctx wid ((cleanup wid m)\<lparr>retiring := rs\<rparr>)))"
proof -
  have "\<not> active_worker m wid" using inv p unfolding slots_inv_def by blast
  then show ?thesis
    by (intro release_slots [OF inv p, where p' = "Finished (Inr r)"]) (simp_all add: update_objs cleanup_def)
qed

lemma removed_slots:
  assumes inv: "slots_inv m" and p: "spawns m wid = Some (Removing e)"
  shows "slots_inv (goto wid (Finished (Inl e)) (cancel_ctx wid (m\<lparr>in_map := (in_map m)(wid := False)\<rparr>)))"
proof -
  have inv': "slots_inv (m\<lparr>in_map := (in_map m)(wid := False)\<rparr>)" using unmap_slots [OF inv, where wid = wid and rs = "retiring m"] by simp
  from p show ?thesis
    by (intro goto_slots [OF inv', of wid "Removing e"])
      (simp_all add: update_objs active_worker_def cancel_ctx_def)
qed

lemma heartbeat_slots: "slots_inv m \<Longrightarrow> slots_inv (write_heartbeat cfg wid m)"
  by (erule slots_inv_frame) (simp_all add: write_heartbeat_def active_worker_def)

lemma wstep_slots:
  assumes step: "wstep cfg E err e m = Some m'" and inv: "slots_inv m"
  shows "slots_inv m'"
proof (cases e)
  case (WriteSpawning wid)
  with step have p: "spawns m wid = Some Stored" and "m' = goto wid Preparing ((writeWorkerStatus cfg wid m)
         \<lparr>beating := (beating m)(wid := \<not> closed m), started := (started m)(wid := m_now m)\<rparr>)"
    by (auto split: option.splits spawn_phase.splits)
  then show ?thesis by (auto intro!: goto_slots [OF inv p])
next
  case (Abandon wid)
  with step obtain x where p: "spawns m wid = Some (Abandoning x)" and "m' = goto wid (Removing x) (cleanup wid m)"
    by (auto split: option.splits spawn_phase.splits)
  then show ?thesis by (intro release_slots [OF inv p, where p' = "Removing x"]) (simp_all add: cleanup_def)
next
  case (MarkRunning wid)
  with step have p: "spawns m wid = Some Prepared" and "m' = goto wid Announcing (SetStatus wid StatusRunning m)"
    by (auto split: option.splits spawn_phase.splits)
  then show ?thesis by (auto intro!: goto_slots [OF inv p] simp: update_objs)
next
  case (WriteRunning wid)
  with step have p: "spawns m wid = Some Announcing" and "m' = goto wid Delegating (writeWorkerStatus cfg wid m)"
    by (auto split: option.splits spawn_phase.splits)
  then show ?thesis by (auto intro!: goto_slots [OF inv p])
next
  case (Delegated wid d)
  with step have p: "spawns m wid = Some Delegating"
    and "m' = goto wid (Checking (final_status d) (spawn_result err wid (m_now m - started m wid) d))
         (case d of Inl e \<Rightarrow> m | Inr r \<Rightarrow> SetSessionID wid (DR_WorkerSessionID r) m)"
    by (auto split: option.splits spawn_phase.splits)
  moreover have "final_status d = WStatusCompleted \<or> final_status d = WStatusFailed"
    by (simp add: final_status_def split: sum.splits)
  ultimately show ?thesis by (auto intro!: goto_slots [OF inv p] simp: update_objs split: sum.splits)
next
  case (ReapCall conf clk order threshold)
  with step inv show ?thesis
    by (auto simp: ReapStale_def Let_def reap_slots split: option.splits if_splits)
next
  case (Check wid)
  with step obtain st r w where "spawns m wid = Some (Checking st r)" "objs m wid = Some w"
    "m' = goto wid (if W_Status w \<noteq> WStatusCanceled then Setting st r else Reporting r) m"
    by (auto split: option.splits spawn_phase.splits)
  then show ?thesis using outcome_slots [OF inv] by simp
next
  case (Pass t)
  with step inv show ?thesis by (auto intro!: slots_inv_frame [OF inv] simp: active_worker_def split: if_splits)
next
  case (StopBeat wid)
  with step inv show ?thesis by (auto intro!: slots_inv_frame [OF inv] simp: active_worker_def split: if_splits)
qed (use step inv in \<open>auto split: option.splits spawn_phase.splits if_splits
      intro: acquire_slots prepare_slots final_slots reported_slots cleaned_slots removed_slots
        light_slots [simplified] unmap_slots heartbeat_slots cancel_slots shutdown_slots\<close>)

interpretation slots: guarded_machine "wstep cfg E err" "\<lambda>_. True" slots_inv for cfg E err
  by unfold_locales (rule wstep_slots)

lemma new_slots: "slots_inv (NewManager cfg t0 w)"
  by (simp add: slots_inv_def NewManager_def holders_def active_worker_def)

lemma reach_slots: "wrun cfg E err es (NewManager cfg t0 w) = Some m \<Longrightarrow> slots_inv m"
  using slots.inv_events [OF _ _ new_slots] by (simp add: list_all_iff)

lemma length_filter_cover:
  "(\<And>x. P x \<Longrightarrow> Q x \<or> R x) \<Longrightarrow> length (filter P xs) \<le> length (filter Q xs) + length (filter R xs)"
  by (induction xs) (auto intro: le_SucI)

lemma ActiveCount_bound:
  assumes "slots_inv m"
  shows "ActiveCount m \<le> length (holders m) + length (leavers m)"
proof -
  have "ActiveCount m = length (filter (active_worker m) (ids m))"
    unfolding ActiveCount_def active_worker_def ..
  also have "\<dots> \<le> length (holders m) + length (leavers m)"
    using assms unfolding slots_inv_def holders_def leavers_def by (intro length_filter_cover) blast
  finally show ?thesis .
qed

section \<open>A canceled worker\<close>

text \<open>The phases of a call that no longer turn the status back.\<close>

fun committed :: "spawn_phase option \<Rightarrow> bool" where
  "committed (Some Delegating) = True"
| "committed (Some (Checking st r)) = True"
| "committed (Some (Reporting r)) = True"
| "committed (Some (Cleaning r)) = True"
| "committed (Some (Finished r)) = True"
| "committed _ = False"

definition stays_canceled :: "string \<Rightarrow> ('c, 'q, 'p) Manager \<Rightarrow> bool" where
  "stays_canceled wid m = (wid \<in> set (ids m) \<and> committed (spawns m wid)
     \<and> (case objs m wid of None \<Rightarrow> False | Some w \<Rightarrow> W_Status w = WStatusCanceled \<and> ctx_canceled w))"

lemma cancel_stays:
  assumes "stays_canceled wid m"
  shows "stays_canceled wid (fst (Manager_Cancel cfg conf clk i m))"
  using assms by (auto simp: stays_canceled_def cancel_frame split: option.splits)

lemma cancels_stay:
  "stays_canceled wid m \<Longrightarrow> stays_canceled wid (foldl (\<lambda>m i. fst (Manager_Cancel cfg conf clk i m)) m is)"
  by (induction "is" arbitrary: m) (simp_all add: cancel_stays)

lemma other_stays:
  assumes "stays_canceled wid m" "ids m' = ids m" "spawns m' wid = spawns m wid" "objs m' wid = objs m wid"
  shows "stays_canceled wid m'"
  using assms by (simp add: stays_canceled_def)

lemma wstep_stays:
  assumes step: "wstep cfg E err e m = Some m'" and c: "stays_canceled wid m"
  shows "stays_canceled wid m'"
proof (cases e)
  case (ReapCall conf clk order threshold)
  with step c show ?thesis
    by (auto simp: ReapStale_def Let_def cancels_stay split: option.splits if_splits)
next
  case (CancelCall conf clk i)
  with step c show ?thesis by (auto simp: cancel_stays)
next
  case (Prepare i ans)
  with step c show ?thesis
    by (auto simp: stays_canceled_def prepare_def SetWorktreePath_def split: option.splits spawn_phase.splits if_splits sum.splits)
next
  case (Delegated i d)
  with step c show ?thesis
    by (cases "i = wid") (auto simp: stays_canceled_def SetSessionID_def split: option.splits spawn_phase.splits if_splits sum.splits)
qed (use step c in \<open>auto simp: stays_canceled_def acquire_def state_defs Manager_Shutdown_def write_heartbeat_def
      split: option.splits spawn_phase.splits if_splits\<close>)

interpretation canceled: guarded_machine "wstep cfg E err" "\<lambda>_. True" "stays_canceled wid" for cfg E err wid
  by unfold_locales (rule wstep_stays)

interpretation capacity: guarded_machine "wstep cfg E err" "\<lambda>_. True" "\<lambda>m. maxWorkers m = k" for cfg E err k
proof
  have reap: "maxWorkers (foldl (\<lambda>m i. fst (Manager_Cancel cfg conf clk i m)) m is) = maxWorkers m"
    for conf clk "is" and m :: "('a, 'b, 'c) Manager"
    by (induction "is" arbitrary: m) (simp_all add: cancel_frame)
  fix e and m m' :: "('a, 'b, 'c) Manager"
  assume "wstep cfg E err e m = Some m'" "maxWorkers m = k"
  then show "maxWorkers m' = k"
    by (cases e) (auto simp: acquire_def prepare_def cleanup_def write_heartbeat_def Manager_Shutdown_def
        cancel_frame ReapStale_def Let_def reap split: option.splits spawn_phase.splits if_splits sum.splits)
qed

section \<open>The linked task\<close>

text \<open>
  A store that works: it answers with what it holds and takes what it is given.
\<close>

definition healthy :: "'c CoordStore \<Rightarrow> ('c \<Rightarrow> go_time \<Rightarrow> string \<Rightarrow> string option) \<Rightarrow> bool" where
  "healthy S view \<longleftrightarrow> (\<forall>c now k v. view c now k = Some v \<longrightarrow> kv_Get S now k c = Inr v)
     \<and> (\<forall>now k v ttl c. snd (kv_Put S now k v ttl c) = None)"

definition same_tasks :: "('c \<Rightarrow> go_time \<Rightarrow> string \<Rightarrow> string option) \<Rightarrow> 'c \<Rightarrow> 'c \<Rightarrow> bool" where
  "same_tasks view c c' \<longleftrightarrow> (\<forall>now tid. view c' now (PrefixTask @ tid) = view c now (PrefixTask @ tid))"

lemma same_tasks_store:
  assumes "same_tasks view c c'"
  shows "store_wf E view now c' = store_wf E view now c" "board_of E view now c' = board_of E view now c"
  using assms by (auto simp: same_tasks_def store_wf_def lasting_def board_of_def fun_eq_iff)

lemma status_key_not_task: "PrefixTask @ tid \<noteq> PrefixWorker @ k"
  by (simp add: PrefixTask_def PrefixWorker_def)

context coord_store
begin

lemma status_write_keeps_tasks:
  assumes "mc_Coord cfg = Some S"
  shows "same_tasks view (w_coord (world m)) (w_coord (world (writeWorkerStatus cfg wid m)))"
proof -
  have "view (fst (kv_Put S now (PrefixWorker @ k) d ttl c)) t (PrefixTask @ tid) = view c t (PrefixTask @ tid)" for now k d ttl c t tid
    using put_other [of now "PrefixWorker @ k" d ttl c _ _ "PrefixTask @ tid"] status_key_not_task [of tid k]
    by (metis prod.collapse)
  with assms show ?thesis
    by (simp add: same_tasks_def writeWorkerStatus_def coord_put_def Let_def split: option.split)
qed

text \<open>In a store that works a task is canceled exactly if its status allows it.\<close>

lemma transition_healthy:
  assumes "healthy S view" "lb_coord b = S" "store_wf E view t0 c" "clock_ok clk" "t0 \<le> clk 0"
    and tr: "Local_Transition E b clk tid to c = (c', r)"
  shows "store_wf E view (clk 3) c'"
    and "board_of E view (clk 3) c' = (if enabled (OpTransition tid to) (board_of E view t0 c)
       then board_op (clk, OpTransition tid to) (board_of E view t0 c) else board_of E view t0 c)"
proof -
  let ?B = "board_of E view t0 c"
  have clk: "t0 \<le> clk 3" using assms(4,5) by (simp add: clock_ok_def)
  have op: "perform_op E b (clk, OpTransition tid to) c = (c', r)" using tr by simp
  have same: "store_wf E view (clk 3) c' \<and> board_of E view (clk 3) c' = ?B" if "r = Some e" for e
    using perform_failed [OF assms(2), of E clk] op that store_wf_cong board_cong
      store_wf_later [OF assms(3) clk] board_later [OF assms(3) clk] by metis
  show "store_wf E view (clk 3) c'"
    using same perform_ok [of b E t0 c clk "OpTransition tid to" c'] op assms(2-5) by (cases r) auto
  show "board_of E view (clk 3) c' = (if enabled (OpTransition tid to) ?B then board_op (clk, OpTransition tid to) ?B else ?B)"
  proof (cases r)
    case None
    then show ?thesis using perform_ok [of b E t0 c clk "OpTransition tid to" c'] op assms(2-5) by auto
  next
    case (Some e)
    have "\<not> enabled (OpTransition tid to) ?B"
    proof
      assume "enabled (OpTransition tid to) ?B"
      then obtain t where t: "?B tid = Some t" "edge (Task_Status t) to" by auto
      then obtain d where d: "view c (clk 0) (PrefixTask @ tid) = Some d" "unmarshal_task E d = Inr t"
        using store_wf_view [OF assms(3,5)] by (auto simp: board_of_def split: option.splits sum.splits)
      then have "Local_Get E b (clk 0) tid c = Inr t" using assms(1,2) by (simp add: Local_Get_def healthy_def)
      moreover obtain x where "marshal_task (moved_task clk to t) = Inr x"
        using marshal_wf [OF moved_task_wf [OF board_wf(2) [OF assms(3) t(1)] edge_utf8 [OF t(2)] assms(4)]] by blast
      ultimately have "snd (Local_Transition E b clk tid to c) = None"
        using t(2) assms(1,2) by (simp add: Local_Transition_def edge_valid put_task_def healthy_def split: option.splits)
      with tr Some show False by simp
    qed
    then show ?thesis using same [OF Some] by (auto simp del: board_op.simps)
  qed
qed

end

lemma mem_healthy: "healthy (BadgerStore mem_badger) mem_view"
  by (simp add: healthy_def BadgerStore_def Badger_Get_def Badger_Put_def mem_badger_def)

section \<open>Properties\<close>

text \<open>
  C27. Whatever calls of the manager interleave, no more than \<^verbatim>\<open>MaxConcurrentWorkers\<close> (five by
  default) places of the semaphore are taken, each by one \<^verbatim>\<open>SpawnFull\<close> or \<^verbatim>\<open>SpawnLight\<close> in
  progress; the workers that \<^verbatim>\<open>ActiveCount\<close> counts hold a place, but for those whose worktree
  could not be made and that are about to leave the map; and no place leaks: once every call
  has returned, all places are free and no worker is active.
\<close>

theorem workers_within_capacity:
  assumes "wrun cfg E err es (NewManager cfg t0 w) = Some m"
  shows "maxWorkers m = nat (if MaxConcurrentWorkers cfg \<le> 0 then 5 else MaxConcurrentWorkers cfg)
    \<and> sem m \<le> maxWorkers m
    \<and> sem m = length (holders m) + length (lights m)
    \<and> ActiveCount m \<le> length (holders m) + length (leavers m)
    \<and> (lights m = [] \<and> (\<forall>i p. spawns m i = Some p \<longrightarrow> (\<exists>r. p = Finished r)) \<longrightarrow> sem m = 0 \<and> ActiveCount m = 0)"
proof -
  have inv: "slots_inv m" by (rule reach_slots [OF assms])
  have "sem m = 0 \<and> ActiveCount m = 0" if "lights m = []" and all: "\<forall>i p. spawns m i = Some p \<longrightarrow> (\<exists>r. p = Finished r)"
  proof -
    have "\<not> holding (spawns m i)" "\<not> removing (spawns m i)" for i
      using all by (cases "spawns m i"; fastforce)+
    then have "holders m = []" "leavers m = []" by (simp_all add: holders_def leavers_def)
    with that(1) inv ActiveCount_bound [OF inv] show ?thesis by (simp add: slots_inv_def)
  qed
  moreover have "maxWorkers m = maxWorkers (NewManager cfg t0 w)"
    using capacity.inv_events [OF assms] by (simp add: list_all_iff)
  ultimately show ?thesis
    using inv ActiveCount_bound [OF inv] by (simp add: slots_inv_def NewManager_def)
qed

text \<open>
  C28. A worker canceled while its delegation is in flight (by \<^verbatim>\<open>Cancel\<close> itself or through
  \<^verbatim>\<open>ReapStale\<close>) is canceled for good: its context is canceled, and whatever happens afterwards,
  the delegation's success included, its status stays \<^verbatim>\<open>canceled\<close>.
\<close>

theorem canceled_in_flight_stays:
  assumes "wrun cfg E err es (NewManager cfg t0 w) = Some m"
    and "spawns m wid = Some Delegating" and "Manager_Cancel cfg conf clk wid m = (m1, None)"
    and "wrun cfg E err fs m1 = Some m2"
  shows "\<exists>x. objs m2 wid = Some x \<and> W_Status x = WStatusCanceled \<and> ctx_canceled x"
proof -
  have "wid \<in> set (ids m)" using reach_slots [OF assms(1)] assms(2) unfolding slots_inv_def by force
  moreover have "in_map m wid \<and> (\<exists>x. objs m wid = Some x)"
    using assms(3) by (auto simp: Manager_Cancel_def split: option.splits bool.splits)
  ultimately have "stays_canceled wid m1"
    using assms(2) cancel_frame [of cfg conf clk wid m] assms(3) by (auto simp: stays_canceled_def)
  then have "stays_canceled wid m2" using canceled.inv_events [OF assms(4)] by (simp add: list_all_iff)
  then show ?thesis by (auto simp: stays_canceled_def split: option.splits)
qed

section \<open>The properties on a small run\<close>

definition sample_config :: "(unit, unit, unit) ManagerConfig" where
  "sample_config = \<lparr>MaxConcurrentWorkers = 1, mc_Coord = None, mc_Tasks = None, mc_Worktrees = False\<rparr>"

definition sample_world :: "(unit, unit, unit) task_world" where
  "sample_world = \<lparr>w_coord = (), w_db = (), w_plugins = ()\<rparr>"

definition sample_request :: SpawnRequest where
  "sample_request = \<lparr>Req_ParentSessionID = ''s'', Req_Title = ''t'', Req_Description = [], Req_AgentID = ''a'',
     Req_Mode = [], Req_Model = [], Req_Isolation = [], Req_TaskID = []\<rparr>"

definition sample_done :: DelegationResult where
  "sample_done = \<lparr>DR_WorkerSessionID = ''s2'', DR_TaskID = [], DR_Content = ''ok'', DR_TokensUsed = 3,
     DR_Success = True, DR_Error = []\<rparr>"

definition sample_spawn :: "wevent list" where
  "sample_spawn = [Acquire ''w1'' sample_request, WriteSpawning ''w1'', Prepare ''w1'' (Inr []),
     MarkRunning ''w1'', WriteRunning ''w1'']"

definition sample_finish :: "wevent list" where
  "sample_finish = [Delegated ''w1'' (Inr sample_done), Check ''w1'', WriteFinal ''w1'', Cleanup ''w1'']"

lemmas sample_defs = sample_config_def sample_request_def sample_done_def sample_spawn_def sample_finish_def
  NewManager_def acquire_def prepare_def writeWorkerStatus_def coord_put_def state_defs new_worker_def
  final_status_def spawn_result_def Manager_Cancel_def

lemma sample_spawned:
  "\<exists>m. wrun sample_config sample_env (\<lambda>_. []) sample_spawn (NewManager sample_config 0 sample_world) = Some m
     \<and> spawns m ''w1'' = Some Delegating \<and> in_map m ''w1'' \<and> objs m ''w1'' \<noteq> None \<and> sem m = 1 \<and> started m ''w1'' = 0
     \<and> closed m = False"
  by (simp add: sample_defs)

lemma sample_canceled:
  assumes "spawns m ''w1'' = Some Delegating" "in_map m ''w1''" "objs m ''w1'' \<noteq> None"
  shows "\<exists>m1 m2. Manager_Cancel sample_config [] clk ''w1'' m = (m1, None)
     \<and> wrun sample_config sample_env (\<lambda>_. []) sample_finish m1 = Some m2"
  using assms by (auto simp: sample_defs Let_def)

theorem workers_within_capacity_witness:
  "\<exists>m. wrun sample_config sample_env (\<lambda>_. []) sample_spawn (NewManager sample_config 0 sample_world) = Some m
     \<and> sem m = 1 \<and> maxWorkers m = 1 \<and> length (holders m) + length (lights m) = 1"
proof -
  obtain m where m: "wrun sample_config sample_env (\<lambda>_. []) sample_spawn (NewManager sample_config 0 sample_world) = Some m" "sem m = 1"
    using sample_spawned by blast
  with workers_within_capacity [OF m(1)] show ?thesis by (simp add: sample_config_def)
qed

theorem canceled_in_flight_stays_witness:
  "\<exists>m m1 m2 x. wrun sample_config sample_env (\<lambda>_. []) sample_spawn (NewManager sample_config 0 sample_world) = Some m
     \<and> Manager_Cancel sample_config [] (\<lambda>_. 0) ''w1'' m = (m1, None)
     \<and> wrun sample_config sample_env (\<lambda>_. []) sample_finish m1 = Some m2
     \<and> objs m2 ''w1'' = Some x \<and> W_Status x = WStatusCanceled"
proof -
  obtain m where m: "wrun sample_config sample_env (\<lambda>_. []) sample_spawn (NewManager sample_config 0 sample_world) = Some m"
    "spawns m ''w1'' = Some Delegating" "in_map m ''w1''" "objs m ''w1'' \<noteq> None"
    using sample_spawned by blast
  then obtain m1 m2 where c: "Manager_Cancel sample_config [] (\<lambda>_. 0) ''w1'' m = (m1, None)"
    "wrun sample_config sample_env (\<lambda>_. []) sample_finish m1 = Some m2"
    using sample_canceled [of m "\<lambda>_. 0"] by blast
  with canceled_in_flight_stays [OF m(1,2) c] m(1) show ?thesis by blast
qed

end
