(* ===== verification/ToolRepair.thy ===== *)
theory ToolRepair
  imports GoJSON "HOL-Library.Char_ord" "HOL-Library.List_Lexorder"
begin

text \<open>
  Package \<^verbatim>\<open>internal/recover\<close>, the presentation of schema failures in
  \<^verbatim>\<open>internal/envelope/validator.go\<close>, and the part of \<^verbatim>\<open>internal/service/tool.go\<close> that runs a tool:
  the error of a tool call is classified, a small model may reshape the arguments once, and the
  tool is called once more.

  The tool transport and the model are functions over a state of the world. What the library
  \<^verbatim>\<open>go-envelopes\<close> says of an error, the Unicode tables, the wording of JSON errors, the verb \<^verbatim>\<open>%q\<close>
  and the printing of floating point numbers are the fields of \<open>tool_env\<close>. Latencies are only
  logged and are not modelled; the system prompt is a constant of the request and left out.
\<close>

section \<open>Kinds\<close>

type_synonym Kind = string

definition KindNone :: Kind where "KindNone = ''none''"
definition KindSchemaValidation :: Kind where "KindSchemaValidation = ''schema_validation''"
definition KindTypeCoercion :: Kind where "KindTypeCoercion = ''type_coercion''"
definition KindWrongCardType :: Kind where "KindWrongCardType = ''wrong_card_type''"
definition KindMissingOptionalField :: Kind where "KindMissingOptionalField = ''missing_optional_field''"
definition KindFormatMismatch :: Kind where "KindFormatMismatch = ''format_mismatch''"

lemmas kind_defs = KindNone_def KindSchemaValidation_def KindTypeCoercion_def KindWrongCardType_def
  KindMissingOptionalField_def KindFormatMismatch_def

definition IsRecoverable :: "Kind \<Rightarrow> bool" where
  "IsRecoverable k = (k \<noteq> KindNone \<and> k \<noteq> [])"

definition Kind_String :: "Kind \<Rightarrow> string" where
  "Kind_String k = (if k = [] then KindNone else k)"

section \<open>Errors\<close>

text \<open>
  A \<^verbatim>\<open>ValidationFailure\<close> of \<^verbatim>\<open>go-envelopes\<close>: \<^verbatim>\<open>Expected\<close> is a list of strings, a list of any values,
  or something else; a missing \<^verbatim>\<open>Actual\<close> has no type and missing \<^verbatim>\<open>Metadata\<close> no properties.
\<close>

datatype expected = Strings "string list" | Items "json list" | Opaque

record ValidationFailure =
  F_Keyword :: string
  F_Message :: string
  F_InstancePath :: string
  F_SchemaURI :: string
  F_Expected :: expected
  F_ActualType :: string
  F_Properties :: "string list"

text \<open>Arguments: a \<^verbatim>\<open>map[string]any\<close>, its entries in key order; \<^const>\<open>None\<close> is a nil map.\<close>

type_synonym args = "(string \<times> json) list option"

record RecoverableError =
  R_Kind :: Kind
  R_ToolName :: string
  R_SentArgs :: args
  R_SchemaURI :: string
  R_ErrorPath :: string
  R_ErrorReason :: string
  R_Suggestion :: string

text \<open>
  An error with its chain: a text, a text around an error, a \<^verbatim>\<open>*ValidationError\<close> with its text and
  its details, a \<^verbatim>\<open>*RecoverableError\<close> around its original error.
\<close>

datatype tool_error =
    Plain string
  | Around string tool_error
  | Invalid string "ValidationFailure list"
  | Recoverable RecoverableError tool_error

text \<open>\<^verbatim>\<open>errors.As\<close> for the two types: the first in the chain.\<close>

fun as_recoverable :: "tool_error \<Rightarrow> (RecoverableError \<times> tool_error) option" where
  "as_recoverable (Around p e) = as_recoverable e"
| "as_recoverable (Recoverable r e) = Some (r, e)"
| "as_recoverable _ = None"

fun as_invalid :: "tool_error \<Rightarrow> (string \<times> ValidationFailure list) option" where
  "as_invalid (Around p e) = as_invalid e"
| "as_invalid (Recoverable r e) = as_invalid e"
| "as_invalid (Invalid s fs) = Some (s, fs)"
| "as_invalid (Plain s) = None"

fun err_text :: "tool_error \<Rightarrow> string" where
  "err_text (Plain s) = s"
| "err_text (Around p e) = p @ err_text e"
| "err_text (Invalid s fs) = s"
| "err_text (Recoverable r e) = Join (
     [''recoverable['' @ R_Kind r @ '']'']
     @ (if R_ToolName r \<noteq> [] then [''tool='' @ R_ToolName r] else [])
     @ (if R_ErrorPath r \<noteq> [] then [''path='' @ R_ErrorPath r] else [])
     @ [if R_ErrorReason r \<noteq> [] then R_ErrorReason r else err_text e]) '' ''"

record tool_env =
  te_lower :: "string \<Rightarrow> string"
  te_flatten :: "tool_error \<Rightarrow> ValidationFailure list"
  te_fold :: "string \<Rightarrow> string"
  te_float :: "json \<Rightarrow> json option"
  te_json_error :: "string \<Rightarrow> string"
  te_quote :: "string \<Rightarrow> string"

section \<open>Presenting schema failures\<close>

record StructuredError =
  SE_Path :: string
  SE_Reason :: string
  SE_Suggestion :: string

fun stringsFromExpected :: "expected \<Rightarrow> string list" where
  "stringsFromExpected (Strings ss) = ss"
| "stringsFromExpected (Items vs) = concat (map (\<lambda>v. case v of JStr s \<Rightarrow> [s] | _ \<Rightarrow> []) vs)"
| "stringsFromExpected Opaque = []"

definition quote_field :: "string \<Rightarrow> string" where
  "quote_field s = CHR 0x27 # s @ [CHR 0x27]"

definition joinQuoted :: "string list \<Rightarrow> string" where
  "joinQuoted ss = Join (map quote_field ss) '', ''"

definition presentValidationFailure :: "ValidationFailure \<Rightarrow> StructuredError" where
  "presentValidationFailure f = (
     let es = stringsFromExpected (F_Expected f); got = F_ActualType f in
     if F_Keyword f = ''required'' then
       (if es = [] then \<lparr>SE_Path = F_InstancePath f, SE_Reason = F_Message f, SE_Suggestion = []\<rparr>
        else \<lparr>SE_Path = F_InstancePath f, SE_Reason = F_Message f @ '': '' @ joinQuoted es,
          SE_Suggestion = (if length es = 1 then ''add required field '' @ quote_field (hd es)
            else ''add required fields '' @ joinQuoted es)\<rparr>)
     else if F_Keyword f = ''additionalProperties'' then
       (let allowed = (if es = [] then F_Properties f else es) in
        \<lparr>SE_Path = F_InstancePath f, SE_Reason = F_Message f,
         SE_Suggestion = (if allowed \<noteq> [] then ''allowed: '' @ Join allowed '', '' else [])\<rparr>)
     else if F_Keyword f = ''type'' then
       \<lparr>SE_Path = F_InstancePath f,
        SE_Reason = (if got \<noteq> [] \<and> es \<noteq> [] then ''got '' @ got @ '', want '' @ Join es '' or '' else F_Message f),
        SE_Suggestion = (
          if es = [''array''] then
            (if got = ''object'' then ''wrap in `[...]`'' else ''wrap the value in an array: `[...]`'')
          else if es = [''string''] \<and> (got = ''number'' \<or> got = ''integer'' \<or> got = ''boolean'')
          then ''stringify the value (use quotes)'' else [])\<rparr>
     else if F_Keyword f = ''enum'' then
       \<lparr>SE_Path = F_InstancePath f, SE_Reason = F_Message f,
        SE_Suggestion = (if es \<noteq> [] then ''allowed values: '' @ Join es '', '' else [])\<rparr>
     else \<lparr>SE_Path = F_InstancePath f, SE_Reason = F_Message f, SE_Suggestion = []\<rparr>)"

definition FlattenSchemaError :: "tool_env \<Rightarrow> tool_error \<Rightarrow> StructuredError list" where
  "FlattenSchemaError E e = (
     let fs = (case as_invalid e of Some (_, ds) \<Rightarrow> ds | None \<Rightarrow> te_flatten E e) in
     if fs = [] then [\<lparr>SE_Path = [], SE_Reason = err_text e, SE_Suggestion = []\<rparr>]
     else map presentValidationFailure fs)"

section \<open>Classification\<close>

fun classify_from :: "bool \<Rightarrow> ValidationFailure list \<Rightarrow> Kind" where
  "classify_from hasType [] = (if hasType then KindTypeCoercion else KindSchemaValidation)"
| "classify_from hasType (f # fs) = (
     if F_Keyword f = ''format'' then KindFormatMismatch
     else classify_from (hasType \<or> F_Keyword f = ''type'') fs)"

definition classifyValidationFailures :: "ValidationFailure list \<Rightarrow> Kind" where
  "classifyValidationFailures fs = classify_from False fs"

definition classifyByContainedHints :: "string \<Rightarrow> Kind" where
  "classifyByContainedHints msg = (
     if list_ex (Contains msg) [''format '', ''is not valid date'', ''is not valid email'', ''is not valid uri'']
     then KindFormatMismatch
     else if list_ex (Contains msg) [''got string, want'', ''got number, want'', ''got integer, want'',
       ''got boolean, want'', ''got object, want array'', ''got array, want object'']
     then KindTypeCoercion
     else KindSchemaValidation)"

definition unrecoverable_phrases :: "string list" where
  "unrecoverable_phrases = [''permission denied'', ''forbidden'', ''unauthorized'', ''401'', ''403'',
     ''service not configured'', ''service not available'', ''service unavailable'', ''no mcp manager configured'',
     ''no tool client'', ''not yet implemented'', ''not_implemented'', ''context deadline exceeded'',
     ''context canceled'', ''connection refused'', ''no such host'']"

definition isUnrecoverableProse :: "string \<Rightarrow> bool" where
  "isUnrecoverableProse msg = list_ex (Contains msg) unrecoverable_phrases"

definition classify_prose :: "string \<Rightarrow> Kind" where
  "classify_prose msg = (
     if isUnrecoverableProse msg then KindNone
     else if list_ex (Contains msg) [''not addressable through card_show'',
       ''is not on the passive-renderable allow-list'', ''no schema registered for envelope type'',
       ''unknown envelope type''] then KindWrongCardType
     else if Contains msg ''data does not match the'' \<and> Contains msg ''schema'' then classifyByContainedHints msg
     else if Contains msg ''envelope'' \<and> Contains msg ''failed schema validation'' then classifyByContainedHints msg
     else if list_ex (Contains msg) [''schema validation'', ''missing properties'', ''additional properties'', ''expected'']
     then classifyByContainedHints msg
     else KindNone)"

definition Classify_tool :: "tool_env \<Rightarrow> tool_error \<Rightarrow> Kind" where
  "Classify_tool E e = (case as_recoverable e of Some (r, _) \<Rightarrow> R_Kind r
     | None \<Rightarrow> (case as_invalid e of Some (_, ds) \<Rightarrow> classifyValidationFailures ds
        | None \<Rightarrow> if te_flatten E e \<noteq> [] then classifyValidationFailures (te_flatten E e)
            else classify_prose (ToLower (te_lower E) (err_text e))))"

definition enrich :: "tool_env \<Rightarrow> tool_error \<Rightarrow> RecoverableError \<Rightarrow> RecoverableError" where
  "enrich E e r = (case as_invalid e of
       Some (s, ds) \<Rightarrow>
         let r1 = (if ds \<noteq> [] then r\<lparr>R_SchemaURI := F_SchemaURI (hd ds)\<rparr> else r);
             leaves = FlattenSchemaError E (Invalid s ds)
         in if leaves \<noteq> [] then r1\<lparr>R_ErrorPath := SE_Path (hd leaves), R_ErrorReason := SE_Reason (hd leaves),
              R_Suggestion := SE_Suggestion (hd leaves)\<rparr> else r1
     | None \<Rightarrow> r\<lparr>R_ErrorReason := err_text e\<rparr>)"

definition Wrap_tool :: "tool_env \<Rightarrow> tool_error \<Rightarrow> string \<Rightarrow> args \<Rightarrow> tool_error" where
  "Wrap_tool E e toolName sentArgs = (case as_recoverable e of
       Some (r, x) \<Rightarrow> Recoverable (r\<lparr>R_ToolName := (if R_ToolName r = [] then toolName else R_ToolName r),
          R_SentArgs := (if R_SentArgs r = None then sentArgs else R_SentArgs r)\<rparr>) x
     | None \<Rightarrow> if \<not> IsRecoverable (Classify_tool E e) then e
         else Recoverable (enrich E e \<lparr>R_Kind = Classify_tool E e, R_ToolName = toolName, R_SentArgs = sentArgs,
           R_SchemaURI = [], R_ErrorPath = [], R_ErrorReason = [], R_Suggestion = []\<rparr>) e)"

section \<open>The repair call\<close>

definition DefaultRepairModel :: string where "DefaultRepairModel = ''claude-haiku-4-5''"
definition DefaultRepairTimeout :: duration where "DefaultRepairTimeout = 5000 * 1000000"
definition DefaultRepairMaxTokens :: int where "DefaultRepairMaxTokens = 4096"
definition MaxArgsBytes :: nat where "MaxArgsBytes = 16 * 1024"
definition MaxSchemaBytes :: nat where "MaxSchemaBytes = 32 * 1024"

record RepairOutcome =
  O_RepairedArgs :: args
  O_MissingRequired :: "string list option"
  O_LessonHint :: string

definition missing :: "RepairOutcome \<Rightarrow> string list" where
  "missing o1 = (case O_MissingRequired o1 of None \<Rightarrow> [] | Some ms \<Rightarrow> ms)"

definition HasRepair :: "RepairOutcome \<Rightarrow> bool" where
  "HasRepair o1 = (O_RepairedArgs o1 \<noteq> None \<and> missing o1 = [])"

text \<open>\<^verbatim>\<open>json.MarshalIndent\<close> with two blanks per level.\<close>

fun Encode_indent :: "string \<Rightarrow> json \<Rightarrow> string" where
  "Encode_indent ind (JArr vs) = (if vs = [] then ''[]'' else
     let ind' = ind @ ''  '' in
     ''['' @ CHR 0x0A # Join (map (\<lambda>v. ind' @ Encode_indent ind' v) vs) ('','' @ [CHR 0x0A]) @ CHR 0x0A # ind @ '']'')"
| "Encode_indent ind (JObj ms) = (if ms = [] then ''{}'' else
     let ind' = ind @ ''  '' in
     ''{'' @ CHR 0x0A # Join (map (\<lambda>(k, v). ind' @ quote_str k @ '': '' @ Encode_indent ind' v) ms) ('','' @ [CHR 0x0A])
       @ CHR 0x0A # ind @ ''}'')"
| "Encode_indent ind v = Encode v"

definition args_json :: "args \<Rightarrow> json" where
  "args_json a = (case a of None \<Rightarrow> JNull | Some ms \<Rightarrow> JObj ms)"

definition marshalCapped :: "args \<Rightarrow> nat \<Rightarrow> string" where
  "marshalCapped v limit = (let raw = Encode_indent [] (args_json v) in
     if length raw \<le> limit then raw else take limit raw @ CHR 0x0A # ''/* ...truncated */'')"

definition line :: "string \<Rightarrow> string" where
  "line s = s @ [CHR 0x0A]"

definition buildRepairUserMessage :: "RecoverableError \<Rightarrow> args \<Rightarrow> string" where
  "buildRepairUserMessage r schemaDoc =
     line (''tool_name: '' @ R_ToolName r) @ line []
     @ line (''error_kind: '' @ Kind_String (R_Kind r))
     @ (if R_ErrorPath r \<noteq> [] then line (''error_path: '' @ R_ErrorPath r) else [])
     @ (if R_ErrorReason r \<noteq> [] then line (''error_reason: '' @ R_ErrorReason r) else [])
     @ (if R_Suggestion r \<noteq> [] then line (''validator_suggestion: '' @ R_Suggestion r) else [])
     @ line []
     @ line ''sent_args:'' @ line (marshalCapped (R_SentArgs r) MaxArgsBytes) @ line []
     @ (if schemaDoc \<noteq> None then line ''schema:'' @ line (marshalCapped schemaDoc MaxSchemaBytes)
        else if R_SchemaURI r \<noteq> [] then line (''schema_uri: '' @ R_SchemaURI r
          @ '' (full schema not loaded; reason as best you can from the error path)'')
        else [])"

text \<open>
  The scan for the end of an object: how many bytes up to and with the brace that closes it.
\<close>

fun object_end :: "int \<Rightarrow> bool \<Rightarrow> bool \<Rightarrow> string \<Rightarrow> nat option" where
  "object_end d inString escape [] = None"
| "object_end d inString escape (c # r) = (
     if escape then map_option Suc (object_end d inString False r)
     else if c = CHR 0x5C then map_option Suc (object_end d inString True r)
     else if c = CHR 0x22 then map_option Suc (object_end d (\<not> inString) False r)
     else if inString then map_option Suc (object_end d inString False r)
     else if c = CHR ''{'' then map_option Suc (object_end (d + 1) inString False r)
     else if c = CHR ''}'' then
       (if d - 1 = 0 then Some 1 else map_option Suc (object_end (d - 1) inString False r))
     else map_option Suc (object_end d inString False r))"

definition extractJSONObject :: "string \<Rightarrow> string" where
  "extractJSONObject raw = (case Index raw ''{'' of None \<Rightarrow> []
     | Some start \<Rightarrow> (case object_end 0 False False (drop start raw) of None \<Rightarrow> []
        | Some n \<Rightarrow> take n (drop start raw)))"

definition fence :: string where "fence = ''```''"

definition blanks :: string where "blanks = [CHR 0x20, CHR 0x09, CHR 0x0D, CHR 0x0A]"

definition stripCodeFence :: "string \<Rightarrow> string" where
  "stripCodeFence raw = (let trimmed = TrimSpace raw in
     case Index trimmed fence of None \<Rightarrow> raw
     | Some idx \<Rightarrow> let after = drop (idx + 3) trimmed in
         (case Index after [CHR 0x0A] of None \<Rightarrow> raw
          | Some nl \<Rightarrow>
             let inner = TrimRight (drop (nl + 1) after) blanks;
                 inner2 = (if HasSuffix inner fence then TrimRight (take (length inner - 3) inner) blanks else inner)
             in if inner2 = [] then raw else inner2))"

definition trimForLog :: "string \<Rightarrow> nat \<Rightarrow> string" where
  "trimForLog s n = (if length s \<le> n then s else take n s @ [CHR 0xE2, CHR 0x80, CHR 0xA6])"

text \<open>
  Values of type \<^verbatim>\<open>any\<close>: numbers become floating point numbers (\<open>te_float\<close>, \<^const>\<open>None\<close> where the
  number is out of range), and an object becomes a map, where the last of equal keys counts.
\<close>

fun obj_set :: "string \<Rightarrow> 'v \<Rightarrow> (string \<times> 'v) list \<Rightarrow> (string \<times> 'v) list" where
  "obj_set k v [] = [(k, v)]"
| "obj_set k v ((a, b) # m) = (if k < a then (k, v) # (a, b) # m
     else if k = a then (k, v) # m else (a, b) # obj_set k v m)"

definition set_all :: "(string \<times> 'v) list \<Rightarrow> (string \<times> 'v) list \<Rightarrow> (string \<times> 'v) list" where
  "set_all ms acc = foldl (\<lambda>acc (k, v). obj_set k v acc) acc ms"

fun collect :: "'a option list \<Rightarrow> 'a list option" where
  "collect [] = Some []"
| "collect (None # xs) = None"
| "collect (Some x # xs) = map_option ((#) x) (collect xs)"

fun to_any :: "tool_env \<Rightarrow> json \<Rightarrow> json option" where
  "to_any E (JArr vs) = map_option JArr (collect (map (to_any E) vs))"
| "to_any E (JObj ms) = map_option (\<lambda>xs. JObj (set_all xs []))
     (collect (map (\<lambda>(k, v). map_option (Pair k) (to_any E v)) ms))"
| "to_any E (JNum i) = te_float E (JNum i)"
| "to_any E (JFrac s) = te_float E (JFrac s)"
| "to_any E v = Some v"

definition any_members :: "tool_env \<Rightarrow> (string \<times> json) list \<Rightarrow> (string \<times> json) list option" where
  "any_members E ms = collect (map (\<lambda>(k, v). map_option (Pair k) (to_any E v)) ms)"

text \<open>One member of the response, stored into its field; \<^const>\<open>None\<close> is a value of a wrong type.\<close>

definition elem_string :: "json \<Rightarrow> string option" where
  "elem_string v = (case v of JStr s \<Rightarrow> Some s | JNull \<Rightarrow> Some [] | _ \<Rightarrow> None)"

definition fill_outcome :: "tool_env \<Rightarrow> RepairOutcome \<Rightarrow> string \<times> json \<Rightarrow> RepairOutcome option" where
  "fill_outcome E o1 kv = (case kv of (k, v) \<Rightarrow>
     if te_fold E k = te_fold E ''repaired_args'' then (case v of
         JNull \<Rightarrow> Some (o1\<lparr>O_RepairedArgs := None\<rparr>)
       | JObj ms \<Rightarrow> map_option (\<lambda>xs. o1\<lparr>O_RepairedArgs :=
            Some (set_all xs (case O_RepairedArgs o1 of None \<Rightarrow> [] | Some m \<Rightarrow> m))\<rparr>) (any_members E ms)
       | _ \<Rightarrow> None)
     else if te_fold E k = te_fold E ''missing_required'' then (case v of
         JNull \<Rightarrow> Some (o1\<lparr>O_MissingRequired := None\<rparr>)
       | JArr vs \<Rightarrow> map_option (\<lambda>xs. o1\<lparr>O_MissingRequired := Some xs\<rparr>) (collect (map elem_string vs))
       | _ \<Rightarrow> None)
     else if te_fold E k = te_fold E ''lesson_hint'' then (case v of
         JNull \<Rightarrow> Some o1 | JStr s \<Rightarrow> Some (o1\<lparr>O_LessonHint := s\<rparr>) | _ \<Rightarrow> None)
     else Some o1)"

definition no_outcome :: RepairOutcome where
  "no_outcome = \<lparr>O_RepairedArgs = None, O_MissingRequired = None, O_LessonHint = []\<rparr>"

definition read_outcome :: "tool_env \<Rightarrow> (string \<times> json) list \<Rightarrow> RepairOutcome option" where
  "read_outcome E ms = foldl (\<lambda>acc kv. Option.bind acc (\<lambda>o1. fill_outcome E o1 kv)) (Some no_outcome) ms"

definition finish_outcome :: "RepairOutcome \<Rightarrow> RepairOutcome" where
  "finish_outcome o1 = o1\<lparr>O_LessonHint := TrimSpace (O_LessonHint o1),
     O_RepairedArgs := (if O_RepairedArgs o1 = Some [] then None else O_RepairedArgs o1)\<rparr>"

definition unmarshal_outcome :: "tool_env \<Rightarrow> string \<Rightarrow> RepairOutcome option" where
  "unmarshal_outcome E body = (case Decode Errorf body of
       Inr (JObj ms) \<Rightarrow> read_outcome E ms
     | _ \<Rightarrow> None)"

definition parseRepairResponse :: "tool_env \<Rightarrow> string \<Rightarrow> tool_error + RepairOutcome" where
  "parseRepairResponse E raw = (
     let defenced = stripCodeFence raw; body0 = extractJSONObject defenced;
         body = (if body0 = [] \<and> defenced \<noteq> raw then extractJSONObject raw else body0)
     in if body = [] then Inl (Plain (''repair LLM returned no JSON object: '' @ te_quote E (trimForLog raw 200)))
        else case unmarshal_outcome E body of
            None \<Rightarrow> Inl (Plain (''repair LLM JSON parse failed: '' @ te_json_error E body
              @ '' (body='' @ te_quote E (trimForLog body 200) @ '')''))
          | Some o1 \<Rightarrow> Inr (finish_outcome o1))"

text \<open>\<^verbatim>\<open>Repair\<close>: the model answers over the state of the world; an error stands for a timeout as well.\<close>

record RepairRequest =
  Q_Model :: string
  Q_User :: string
  Q_MaxTokens :: int
  Q_Timeout :: duration

type_synonym 's provider = "RepairRequest \<Rightarrow> 's \<Rightarrow> 's \<times> (tool_error + string)"

record 's RepairOptions =
  Opt_Provider :: "'s provider option"
  Opt_Model :: string
  Opt_Timeout :: duration
  Opt_MaxTokens :: int
  Opt_SchemaProvider :: "(string \<Rightarrow> args) option"

definition resolveRepairMaxTokens :: "'s RepairOptions \<Rightarrow> int" where
  "resolveRepairMaxTokens opts = (if Opt_MaxTokens opts > 0 then Opt_MaxTokens opts else DefaultRepairMaxTokens)"

definition repair_request :: "RecoverableError \<Rightarrow> 's RepairOptions \<Rightarrow> RepairRequest" where
  "repair_request r opts = \<lparr>
     Q_Model = (if Opt_Model opts = [] then DefaultRepairModel else Opt_Model opts),
     Q_User = buildRepairUserMessage r (case Opt_SchemaProvider opts of None \<Rightarrow> None | Some f \<Rightarrow> f (R_ToolName r)),
     Q_MaxTokens = resolveRepairMaxTokens opts,
     Q_Timeout = (if Opt_Timeout opts \<le> 0 then DefaultRepairTimeout else Opt_Timeout opts)\<rparr>"

definition Repair :: "tool_env \<Rightarrow> RecoverableError \<Rightarrow> 's RepairOptions \<Rightarrow> 's \<Rightarrow> 's \<times> (tool_error + RepairOutcome)" where
  "Repair E r opts s = (case Opt_Provider opts of
       None \<Rightarrow> (s, Inl (Plain ''recover.Repair: nil provider''))
     | Some complete \<Rightarrow> (case complete (repair_request r opts) s of
          (s1, Inl e) \<Rightarrow> (s1, Inl (Around ''repair LLM call failed: '' e))
        | (s1, Inr raw) \<Rightarrow> (s1, parseRepairResponse E raw)))"

section \<open>Running a tool\<close>

record ToolResult =
  T_Output :: string
  T_IsError :: bool

definition failed_tool :: "string \<Rightarrow> ToolResult" where
  "failed_tool out = \<lparr>T_Output = out, T_IsError = True\<rparr>"

text \<open>\<open>RC_Pref\<close> reads the user's \<^verbatim>\<open>auto_repair_pref\<close>, \<^const>\<open>None\<close> if that fails.\<close>

record 's RepairConfig =
  RC_Provider :: "'s provider option"
  RC_Model :: string
  RC_Timeout :: duration
  RC_Pref :: "('s \<Rightarrow> string option) option"

record 's toolServiceImpl =
  transport :: "(string \<Rightarrow> string \<Rightarrow> args \<Rightarrow> 's \<Rightarrow> 's \<times> (tool_error + string)) option"
  repairConfig :: "'s RepairConfig option"
  tool_schemas :: "string \<Rightarrow> args"

definition opt_member :: "string \<Rightarrow> string \<Rightarrow> (string \<times> json) list" where
  "opt_member k s = (if s \<noteq> [] then [(k, JStr s)] else [])"

definition buildAgentErrorEnvelope :: "RecoverableError \<Rightarrow> string" where
  "buildAgentErrorEnvelope r = Encode (JObj (
     [(''kind'', JStr (Kind_String (R_Kind r)))] @ opt_member ''path'' (R_ErrorPath r)
     @ opt_member ''reason'' (R_ErrorReason r) @ [(''recoverable_error'', JBool True)]
     @ opt_member ''schema_uri'' (R_SchemaURI r) @ opt_member ''suggestion'' (R_Suggestion r)
     @ [(''tool'', JStr (R_ToolName r))]))"

definition buildMissingRequiredEnvelope :: "RecoverableError \<Rightarrow> RepairOutcome \<Rightarrow> string" where
  "buildMissingRequiredEnvelope r o1 = Encode (JObj (
     [(''kind'', JStr (Kind_String (R_Kind r)))] @ opt_member ''lesson_hint'' (O_LessonHint o1)
     @ [(''missing_required'', case O_MissingRequired o1 of None \<Rightarrow> JNull | Some ms \<Rightarrow> JArr (map JStr ms))]
     @ opt_member ''path'' (R_ErrorPath r) @ opt_member ''reason'' (R_ErrorReason r)
     @ [(''recoverable_error'', JBool True)] @ opt_member ''schema_uri'' (R_SchemaURI r)
     @ [(''tool'', JStr (R_ToolName r))]))"

definition wrapWithRepairNote :: "tool_env \<Rightarrow> string \<Rightarrow> RecoverableError \<Rightarrow> args \<Rightarrow> RepairOutcome \<Rightarrow> string" where
  "wrapWithRepairNote E toolOutput r originalArgs o1 = Encode (JObj [
     (''repair_note'', JObj ([(''kind'', JStr (Kind_String (R_Kind r))), (''lesson_hint'', JStr (O_LessonHint o1)),
        (''original_args'', args_json originalArgs)] @ opt_member ''path'' (R_ErrorPath r)
        @ [(''repaired_args'', args_json (O_RepairedArgs o1)), (''tool'', JStr (R_ToolName r))])),
     (case Decode Errorf toolOutput of
        Inr v \<Rightarrow> (case to_any E v of Some x \<Rightarrow> (''result'', x) | None \<Rightarrow> (''result_text'', JStr toolOutput))
      | Inl _ \<Rightarrow> (''result_text'', JStr toolOutput))])"

text \<open>\<open>env\<close> is the value of \<^verbatim>\<open>NANITE_AUTO_REPAIR\<close>.\<close>

definition autoRepairEnvEnabled :: "tool_env \<Rightarrow> string \<Rightarrow> bool" where
  "autoRepairEnvEnabled E env = (ToLower (te_lower E) (TrimSpace env) \<notin> {''0'', ''false'', ''no'', ''off''})"

definition pref_never :: "'s RepairConfig \<Rightarrow> 's \<Rightarrow> bool" where
  "pref_never rc s = (case RC_Pref rc of None \<Rightarrow> False | Some f \<Rightarrow> f s = Some ''never'')"

text \<open>\<^verbatim>\<open>Inr None\<close> is \<^verbatim>\<open>errNoTransport\<close>.\<close>

definition callTransport :: "'s toolServiceImpl \<Rightarrow> string \<Rightarrow> string \<Rightarrow> args \<Rightarrow> 's \<Rightarrow> 's \<times> (tool_error + string option)" where
  "callTransport S agentID toolName input s = (case transport S of None \<Rightarrow> (s, Inr None)
     | Some f \<Rightarrow> (case f agentID toolName input s of (s1, Inl e) \<Rightarrow> (s1, Inl e) | (s1, Inr out) \<Rightarrow> (s1, Inr (Some out))))"

definition repair_options :: "'s toolServiceImpl \<Rightarrow> 's RepairConfig \<Rightarrow> 's RepairOptions" where
  "repair_options S rc = \<lparr>Opt_Provider = RC_Provider rc, Opt_Model = RC_Model rc, Opt_Timeout = RC_Timeout rc,
     Opt_MaxTokens = 0, Opt_SchemaProvider = Some (tool_schemas S)\<rparr>"

definition retry_once :: "tool_env \<Rightarrow> 's toolServiceImpl \<Rightarrow> string \<Rightarrow> string \<Rightarrow> args \<Rightarrow> RecoverableError \<Rightarrow> RepairOutcome
    \<Rightarrow> 's \<Rightarrow> 's \<times> ToolResult" where
  "retry_once E S agentID toolName input r o1 s = (case callTransport S agentID toolName (O_RepairedArgs o1) s of
       (s1, Inr (Some out)) \<Rightarrow> (s1, \<lparr>T_Output = wrapWithRepairNote E out r input o1, T_IsError = False\<rparr>)
     | (s1, _) \<Rightarrow> (s1, failed_tool (buildAgentErrorEnvelope r)))"

definition attemptRepair :: "tool_env \<Rightarrow> string \<Rightarrow> 's toolServiceImpl \<Rightarrow> string \<Rightarrow> string \<Rightarrow> args \<Rightarrow> tool_error
    \<Rightarrow> 's \<Rightarrow> 's \<times> ToolResult" where
  "attemptRepair E env S agentID toolName input origErr s = (
     if \<not> IsRecoverable (Classify_tool E origErr) then (s, failed_tool (''Error: '' @ err_text origErr))
     else case as_recoverable (Wrap_tool E origErr toolName input) of
         None \<Rightarrow> (s, failed_tool (''Error: '' @ err_text origErr))
       | Some (r, _) \<Rightarrow>
           if \<not> autoRepairEnvEnabled E env then (s, failed_tool (buildAgentErrorEnvelope r))
           else case repairConfig S of None \<Rightarrow> (s, failed_tool (buildAgentErrorEnvelope r))
             | Some rc \<Rightarrow>
                 if RC_Provider rc = None \<or> pref_never rc s then (s, failed_tool (buildAgentErrorEnvelope r))
                 else (case Repair E r (repair_options S rc) s of
                     (s1, Inl _) \<Rightarrow> (s1, failed_tool (buildAgentErrorEnvelope r))
                   | (s1, Inr o1) \<Rightarrow>
                       if \<not> HasRepair o1 then (s1, failed_tool (buildMissingRequiredEnvelope r o1))
                       else retry_once E S agentID toolName input r o1 s1))"

definition Execute :: "tool_env \<Rightarrow> string \<Rightarrow> 's toolServiceImpl \<Rightarrow> string \<Rightarrow> string \<Rightarrow> args \<Rightarrow> 's \<Rightarrow> 's \<times> ToolResult" where
  "Execute E env S agentID toolName input s = (case callTransport S agentID toolName input s of
       (s1, Inr (Some out)) \<Rightarrow> (s1, \<lparr>T_Output = out, T_IsError = False\<rparr>)
     | (s1, Inr None) \<Rightarrow> (s1, failed_tool ''Error: no tool client or MCP manager configured'')
     | (s1, Inl e) \<Rightarrow> attemptRepair E env S agentID toolName input e s1)"

definition classifyAndFormatToolError :: "tool_env \<Rightarrow> tool_error \<Rightarrow> string \<Rightarrow> args \<Rightarrow> ToolResult" where
  "classifyAndFormatToolError E e toolName input = (
     if \<not> IsRecoverable (Classify_tool E e) then failed_tool (''Error: '' @ err_text e)
     else case as_recoverable (Wrap_tool E e toolName input) of
         None \<Rightarrow> failed_tool (''Error: '' @ err_text e)
       | Some (r, _) \<Rightarrow> failed_tool (buildAgentErrorEnvelope r))"

section \<open>Finding an object in a text\<close>

text \<open>The scan passes over \<open>s\<close>: it is in the same state behind it.\<close>

definition passed :: "int \<Rightarrow> bool \<Rightarrow> string \<Rightarrow> bool" where
  "passed d i s \<longleftrightarrow> (\<forall>t. object_end d i False (s @ t) = map_option (\<lambda>n. length s + n) (object_end d i False t))"

lemma passed_Nil [simp]: "passed d i []"
  by (simp add: passed_def option.map_ident)

lemma passed_app: "passed d i a \<Longrightarrow> passed d i b \<Longrightarrow> passed d i (a @ b)"
  by (simp add: passed_def option.map_comp comp_def add.assoc)

definition plain :: "char \<Rightarrow> bool" where
  "plain c = (c \<noteq> CHR 0x5C \<and> c \<noteq> CHR 0x22)"

lemma passed_plain: "plain c \<Longrightarrow> i \<or> c \<noteq> CHR ''{'' \<and> c \<noteq> CHR ''}'' \<Longrightarrow> passed d i [c]"
  by (auto simp: passed_def plain_def Suc_eq_plus1_left [symmetric] intro!: option.map_cong)

lemma passed_all: "list_all (\<lambda>c. plain c \<and> (i \<or> c \<noteq> CHR ''{'' \<and> c \<noteq> CHR ''}'')) s \<Longrightarrow> passed d i s"
proof (induction s)
  case (Cons c s)
  then have "passed d i ([c] @ s)" by (intro passed_app) (simp_all add: passed_plain)
  then show ?case by simp
qed simp

lemma passed_escape: "passed d i [CHR 0x5C, c]"
  by (simp add: passed_def option.map_comp comp_def)

lemma passed_quoted:
  assumes "passed d True s"
  shows "passed d False (CHR 0x22 # s @ [CHR 0x22])"
  using assms by (simp add: passed_def option.map_comp comp_def)

lemma passed_object:
  assumes "passed (d + 1) False s" "1 \<le> d"
  shows "passed d False (CHR ''{'' # s @ [CHR ''}''])"
  using assms by (simp add: passed_def option.map_comp comp_def)

lemma passed_Join: "(\<And>x. x \<in> set xs \<Longrightarrow> passed d i x) \<Longrightarrow> passed d i sep \<Longrightarrow> passed d i (Join xs sep)"
proof (induction xs)
  case (Cons x xs)
  then show ?case by (auto simp: Join_Cons intro!: passed_app)
qed simp

lemma high_plain: "128 \<le> (of_char c :: nat) \<Longrightarrow> plain c"
  by (auto simp: plain_def)

lemma wide_rune:
  assumes "rune_len r = length r" "1 < length r"
  shows "list_all (\<lambda>c. 128 \<le> (of_char c :: nat)) r"
  using assms
  by (cases r; cases "tl r"; cases "tl (tl r)"; cases "tl (tl (tl r))")
    (auto simp: rune_len_def two_def three_def four_def between_def ascii_byte_lt split: if_splits)

lemma hex_plain: "n < 16 \<Longrightarrow> plain (hex_digit n)"
proof -
  assume "n < 16"
  then have "(of_char (hex_digit n) :: nat) = (if n < 10 then 48 + n else 87 + n)"
    by (simp add: hex_digit_def of_char_of)
  then show "plain (hex_digit n)" using \<open>n < 16\<close> by (auto simp: plain_def split: if_splits)
qed

lemma passed_esc:
  assumes "rune_len r = length r" "r \<noteq> []"
  shows "passed d True (esc r)"
proof (cases "length r = 1")
  case True
  then obtain c where c: "r = [c]" by (cases r) auto
  have lt: "(of_char c :: nat) < 128" using assms(1) c by (simp add: rune_len_def ascii_byte_lt split: if_splits)
  have u: "passed d True (CHR 0x5C # ''u00'' @ [hex_digit (of_char c div 16), hex_digit (of_char c mod 16)])"
  proof -
    have "passed d True ([CHR 0x5C, CHR ''u''] @ ''00'' @ [hex_digit (of_char c div 16), hex_digit (of_char c mod 16)])"
      using hex_plain [of "of_char c div 16"] hex_plain [of "of_char c mod 16"] lt
      by (intro passed_app passed_escape passed_all) (simp_all add: plain_def)
    then show ?thesis by simp
  qed
  have p: "passed d True [c]" if "c \<noteq> CHR 0x22" "c \<noteq> CHR 0x5C" using that by (simp add: passed_plain plain_def)
  show ?thesis
    unfolding c esc_def using u by (simp add: passed_escape p)
next
  case False
  then have all: "list_all (\<lambda>c. 128 \<le> (of_char c :: nat)) r" using assms by (intro wide_rune) (cases r; auto)+
  have "passed d True ([CHR 0x5C, CHR ''u''] @ x)" if "list_all plain x" for x
    using that by (intro passed_app passed_escape passed_all) (simp add: list_all_iff)
  from this [of "''2028''"] this [of "''2029''"]
  have u: "passed d True (CHR 0x5C # ''u2028'')" "passed d True (CHR 0x5C # ''u2029'')"
    by (simp_all add: plain_def)
  have "passed d True r" using all by (intro passed_all) (auto simp: list_all_iff high_plain)
  moreover obtain x y r' where r: "r = x # y # r'" using False assms(2) by (cases r; cases "tl r") auto
  have "esc r = (if r = [CHR 0xE2, CHR 0x80, CHR 0xA8] then CHR 0x5C # ''u2028''
      else if r = [CHR 0xE2, CHR 0x80, CHR 0xA9] then CHR 0x5C # ''u2029'' else r)"
    unfolding r esc_def list.case ..
  ultimately show ?thesis using u by (simp only: split: if_split) blast
qed

lemma passed_esc_n: "passed d True (esc_n n s)"
proof (induction n arbitrary: s)
  case (Suc n)
  show ?case
  proof (cases "s = [] \<or> rune_len s = 0")
    case True
    have "passed d True ([CHR 0x5C, CHR ''u''] @ ''fffd'')"
      by (intro passed_app passed_escape passed_all) (simp add: plain_def)
    then have "passed d True ((CHR 0x5C # ''ufffd'') @ esc_n n (tl s))" using Suc.IH by (intro passed_app) simp_all
    with True show ?thesis by auto
  next
    case False
    then have "passed d True (esc (take (rune_len s) s))"
      using rune_take [of s] rune_len_le [of s] by (intro passed_esc) auto
    with False show ?thesis using Suc.IH by (auto intro: passed_app)
  qed
qed simp

lemma passed_quote_str: "passed d False (quote_str s)"
  unfolding quote_str_def by (intro passed_quoted passed_esc_n)

lemma digits_plain: "list_all digit_char s \<Longrightarrow> list_all (\<lambda>c. plain c \<and> (i \<or> c \<noteq> CHR ''{'' \<and> c \<noteq> CHR ''}'')) s"
  by (auto simp: list_all_iff digit_char_def between_def plain_def)

lemma passed_show_int: "passed d False (show_int i)"
proof -
  have "passed d False (show_nat n)" for n by (intro passed_all digits_plain) simp
  then have "passed d False ([CHR ''-''] @ show_nat n)" for n
    by (intro passed_app) (simp_all add: passed_plain plain_def)
  with \<open>\<And>n. passed d False (show_nat n)\<close> show ?thesis by (simp add: show_int_def)
qed

lemma passed_Encode: "utf8_json v \<Longrightarrow> 1 \<le> d \<Longrightarrow> passed d False (Encode v)"
proof (induction v arbitrary: d rule: Encode.induct)
  case (2 b)
  show ?case by (intro passed_all) (simp add: plain_def)
next
  case (6 vs)
  have "passed d False (''['' @ Join (map Encode vs) '','' @ '']'')"
    using 6 by (intro passed_app passed_Join) (auto simp: list_all_iff passed_plain plain_def)
  then show ?case by simp
next
  case (7 ms)
  have "passed (d + 1) False (Encode v)" if "(k, v) \<in> set ms" for k v
    using 7 that by (fastforce simp: list_all_iff)
  then have "passed (d + 1) False (quote_str k @ '':'' @ Encode v)" if "(k, v) \<in> set ms" for k v
    using that by (intro passed_app passed_quote_str) (auto simp: passed_plain plain_def)
  then have "passed (d + 1) False (Join (map (\<lambda>(k, v). quote_str k @ '':'' @ Encode v) ms) '','')"
    by (intro passed_Join) (auto simp: passed_plain plain_def)
  from passed_object [OF this 7(3)] show ?case by simp
qed (simp_all add: passed_show_int passed_quote_str passed_all plain_def)

lemma object_end_Encode:
  assumes "utf8_json (JObj ms)"
  shows "object_end 0 False False (Encode (JObj ms) @ t) = Some (length (Encode (JObj ms)))"
proof -
  let ?inner = "Join (map (\<lambda>(k, v). quote_str k @ '':'' @ Encode v) ms) '',''"
  have "passed 1 False (quote_str k @ '':'' @ Encode v)" if "(k, v) \<in> set ms" for k v
    using assms that by (intro passed_app passed_quote_str passed_Encode) (auto simp: list_all_iff passed_plain plain_def)
  then have "passed 1 False ?inner"
    by (intro passed_Join) (auto simp: passed_plain plain_def)
  then have "object_end 1 False False (?inner @ CHR ''}'' # t) = Some (Suc (length ?inner))"
    unfolding passed_def by simp
  then show ?thesis by simp
qed

lemma Index_skip: "c \<notin> set a \<Longrightarrow> Index (a @ c # b) (c # p) = (case Index (c # b) (c # p) of None \<Rightarrow> None | Some i \<Rightarrow> Some (length a + i))"
  by (induction a) (auto simp: Index.simps [of "_ # _"] split: option.splits)

lemma extract_found:
  assumes "utf8_json (JObj ms)" "CHR ''{'' \<notin> set pre"
  shows "extractJSONObject (pre @ Encode (JObj ms) @ post) = Encode (JObj ms)"
proof -
  obtain r where r: "Encode (JObj ms) = CHR ''{'' # r" by simp
  have "Index (pre @ CHR ''{'' # r @ post) ''{'' = Some (length pre)"
    using Index_skip [OF assms(2), of "r @ post" "[]"] by (simp add: Index.simps [of "_ # _"])
  with object_end_Encode [OF assms(1), of post] r show ?thesis
    by (simp add: extractJSONObject_def del: Encode.simps object_end.simps)
qed

section \<open>Trimming around a text\<close>

definition solid :: "char \<Rightarrow> bool" where
  "solid c = (ascii_byte c \<and> \<not> ascii_space c)"

lemma wide_high: "w \<in> set wide_spaces \<Longrightarrow> list_all (\<lambda>c. \<not> ascii_byte c) w \<and> w \<noteq> []"
  by (auto simp: wide_spaces_def ascii_byte_def)

lemma space_at_inside:
  assumes "solid c"
  shows "space_at (a @ c # b) \<le> length a"
proof (cases a)
  case Nil
  have "\<not> prefix w (c # b)" if "w \<in> set wide_spaces" for w
    using wide_high [OF that] assms by (cases w) (auto simp: solid_def)
  then have "find (\<lambda>w. prefix w (c # b)) wide_spaces = None" by (simp add: find_None_iff)
  with assms Nil show ?thesis by (simp add: space_at_def solid_def)
next
  case (Cons x a')
  show ?thesis
  proof (cases "find (\<lambda>w. prefix w (a @ c # b)) wide_spaces")
    case None
    with Cons show ?thesis by (simp add: space_at_def)
  next
    case (Some w)
    then have w: "prefix w (a @ c # b)" "w \<in> set wide_spaces" by (auto simp: find_Some_iff)
    have "length w \<le> length a"
    proof (rule ccontr)
      assume "\<not> length w \<le> length a"
      then have "c \<in> set w" using w(1) by (auto simp: prefix_def append_eq_append_conv2 Cons_eq_append_conv)
      with wide_high [OF w(2)] assms show False by (auto simp: solid_def list_all_iff)
    qed
    with Cons Some show ?thesis by (simp add: space_at_def)
  qed
qed

lemma space_end_inside:
  assumes "solid c"
  shows "space_end (a @ c # b) \<le> length b"
proof (cases b rule: rev_cases)
  case Nil
  have "\<not> suffix w (a @ [c])" if "w \<in> set wide_spaces" for w
    using wide_high [OF that] assms by (cases w rule: rev_cases) (auto simp: solid_def)
  then have "find (\<lambda>w. suffix w (a @ [c])) wide_spaces = None" by (simp add: find_None_iff)
  with assms Nil show ?thesis by (simp add: space_end_def solid_def)
next
  case (snoc b' x)
  show ?thesis
  proof (cases "find (\<lambda>w. suffix w (a @ c # b)) wide_spaces")
    case None
    with snoc show ?thesis by (simp add: space_end_def)
  next
    case (Some w)
    then have w: "suffix w (a @ c # b)" "w \<in> set wide_spaces" by (auto simp: find_Some_iff)
    have "length w \<le> length b"
    proof (rule ccontr)
      assume "\<not> length w \<le> length b"
      then have "c \<in> set w" using w(1) by (auto simp: suffix_def append_eq_append_conv2 Cons_eq_append_conv append_eq_Cons_conv)
      with wide_high [OF w(2)] assms show False by (auto simp: solid_def list_all_iff)
    qed
    with snoc Some show ?thesis by (simp add: space_end_def)
  qed
qed

lemma trim_left_keeps:
  assumes "solid c"
  shows "\<exists>a'. suffix a' a \<and> trim_left_n n (a @ c # b) = a' @ c # b"
proof (induction n arbitrary: a)
  case (Suc n)
  show ?case
  proof (cases "space_at (a @ c # b) = 0")
    case False
    let ?k = "space_at (a @ c # b)"
    obtain a' where "suffix a' (drop ?k a)" "trim_left_n n (drop ?k a @ c # b) = a' @ c # b" using Suc by blast
    moreover have "drop ?k (a @ c # b) = drop ?k a @ c # b" using space_at_inside [OF assms, of a b] by simp
    moreover have "suffix (drop ?k a) a" by (rule suffix_drop)
    ultimately show ?thesis using False suffix_order.trans by auto
  qed auto
qed auto

lemma trim_right_keeps:
  assumes "solid c"
  shows "\<exists>b'. prefix b' b \<and> trim_right_n n (a @ c # b) = a @ c # b'"
proof (induction n arbitrary: b)
  case (Suc n)
  show ?case
  proof (cases "space_end (a @ c # b) = 0")
    case False
    let ?k = "space_end (a @ c # b)"
    obtain b' where "prefix b' (take (length b - ?k) b)" "trim_right_n n (a @ c # take (length b - ?k) b) = a @ c # b'"
      using Suc by blast
    moreover have "take (length (a @ c # b) - ?k) (a @ c # b) = a @ c # take (length b - ?k) b"
      using space_end_inside [OF assms, of a b] by (simp add: Suc_diff_le)
    moreover have "prefix (take (length b - ?k) b) b" by (rule take_is_prefix)
    ultimately show ?thesis using False prefix_order.trans by auto
  qed auto
qed auto

lemma TrimSpace_around:
  assumes "solid c" "solid d" "x = c # u" "x = v @ [d]"
  shows "\<exists>a' b'. suffix a' a \<and> prefix b' b \<and> TrimSpace (a @ x @ b) = a' @ x @ b'"
proof -
  obtain a' where a': "suffix a' a" "trim_left_n (length (a @ x @ b)) (a @ x @ b) = a' @ x @ b"
    using trim_left_keeps [OF assms(1), of a "length (a @ x @ b)" "u @ b"] assms(3) by auto
  obtain b' where "prefix b' b" "trim_right_n (length (a' @ x @ b)) (a' @ x @ b) = a' @ x @ b'"
    using trim_right_keeps [OF assms(2), of b "length (a' @ x @ b)" "a' @ v"] assms(4) by auto
  with a' show ?thesis by (auto simp: TrimSpace_def Let_def)
qed

lemma TrimRight_keeps: "c \<notin> set cs \<Longrightarrow> \<exists>b'. prefix b' b \<and> TrimRight (a @ c # b) cs = a @ c # b'"
proof (induction b rule: rev_induct)
  case (snoc x b)
  show ?case
  proof (cases "x \<in> set cs")
    case True
    then have "TrimRight (a @ c # b @ [x]) cs = TrimRight (a @ c # b) cs" by (simp add: TrimRight_def)
    with snoc show ?thesis by (metis prefix_snoc)
  qed (auto simp: TrimRight_def)
qed (auto simp: TrimRight_def)

lemma trimmed_sublist: "sublist (trim_left_n n s) s" "sublist (trim_right_n n s) s"
proof (induction n arbitrary: s)
  case (Suc n)
  { case 1 from Suc(1) [of "drop (space_at s) s"] show ?case using sublist_drop sublist_order.order_trans by fastforce }
  { case 2 from Suc(2) [of "take (length s - space_end s) s"] show ?case using sublist_take sublist_order.order_trans by fastforce }
qed simp_all

lemma no_fence_kept: "\<not> Contains raw fence \<Longrightarrow> stripCodeFence raw = raw"
proof -
  assume "\<not> Contains raw fence"
  moreover have "sublist (TrimSpace raw) raw"
    unfolding TrimSpace_def Let_def using trimmed_sublist sublist_order.order_trans by blast
  ultimately have "\<not> Contains (TrimSpace raw) fence"
    unfolding Contains_iff_sublist using sublist_order.order_trans by blast
  then show ?thesis by (simp add: stripCodeFence_def Contains_def Let_def)
qed

lemma Encode_obj_ends: "\<exists>u v. Encode (JObj ms) = CHR ''{'' # u \<and> Encode (JObj ms) = v @ [CHR ''}'']"
  by simp

lemma solid_simps: "solid (CHR ''`'')" "solid (CHR ''}'')" "solid (CHR ''{'')"
  by (simp_all add: solid_def ascii_byte_def ascii_space_def)

text \<open>An object in a code fence: what is left starts with the object.\<close>

lemma fence_stripped:
  assumes "CHR ''`'' \<notin> set pre" "CHR 0x0A \<notin> set tag"
  shows "\<exists>post'. stripCodeFence (pre @ fence @ tag @ CHR 0x0A # Encode (JObj ms) @ post) = Encode (JObj ms) @ post'"
proof -
  let ?o = "Encode (JObj ms)" and ?x = "fence @ tag @ CHR 0x0A # Encode (JObj ms)"
  obtain v where v: "?o = v @ [CHR ''}'']" using Encode_obj_ends by blast
  obtain a b where ab: "suffix a pre" "TrimSpace (pre @ ?x @ post) = a @ ?x @ b"
    using TrimSpace_around [of "CHR ''`''" "CHR ''}''" ?x "''``'' @ tag @ CHR 0x0A # ?o" "fence @ tag @ CHR 0x0A # v" pre post]
      solid_simps v by (auto simp: fence_def)
  have "CHR ''`'' \<notin> set a" using assms(1) ab(1) set_mono_suffix by blast
  then have i: "Index (a @ ?x @ b) fence = Some (length a)"
    using Index_skip [of "CHR ''`''" a "''``'' @ tag @ CHR 0x0A # ?o @ b" "''``''"]
    by (simp add: fence_def Index.simps [of "_ # _"])
  have j: "Index (tag @ CHR 0x0A # ?o @ b) [CHR 0x0A] = Some (length tag)"
    using Index_skip [OF assms(2), of "?o @ b" "[]"] by (simp add: Index.simps [of "_ # _"])
  obtain b1 where b1: "TrimRight (?o @ b) blanks = ?o @ b1"
    using TrimRight_keeps [of "CHR ''}''" blanks b v] v by (auto simp: blanks_def)
  obtain b3 where b3: "(if HasSuffix (?o @ b1) fence then TrimRight (take (length (?o @ b1) - 3) (?o @ b1)) blanks else ?o @ b1) = ?o @ b3"
  proof (cases "HasSuffix (?o @ b1) fence")
    case True
    then obtain p where p: "v @ CHR ''}'' # b1 = p @ ''```''" using v by (auto simp: HasSuffix_def suffix_def fence_def)
    have "length b1 \<ge> 3"
    proof (rule ccontr)
      assume "\<not> length b1 \<ge> 3"
      moreover have "length v + Suc (length b1) = length p + 3" using arg_cong [OF p, of length] by simp
      ultimately have "drop (length p) (v @ CHR ''}'' # b1) = drop (length p) v @ CHR ''}'' # b1" by simp
      with p show False by (cases "drop (length p) v"; cases "tl (drop (length p) v)"; cases "tl (tl (drop (length p) v))") auto
    qed
    then obtain n where "length b1 = 3 + n" using le_Suc_ex by blast
    then have "take (length (?o @ b1) - 3) (?o @ b1) = v @ CHR ''}'' # take (length b1 - 3) b1"
      unfolding v by simp
    moreover obtain b2 where "TrimRight (v @ CHR ''}'' # take (length b1 - 3) b1) blanks = v @ CHR ''}'' # b2"
      using TrimRight_keeps [of "CHR ''}''" blanks "take (length b1 - 3) b1" v] by (auto simp: blanks_def)
    ultimately show ?thesis using that [of b2] True v by simp
  qed (use that in simp)
  have after: "drop (length a + 3) (a @ ?x @ b) = tag @ CHR 0x0A # ?o @ b" by (simp add: fence_def)
  have inner: "drop (length tag + 1) (tag @ CHR 0x0A # ?o @ b) = ?o @ b" by (simp del: Encode.simps)
  have "stripCodeFence (pre @ ?x @ post) = ?o @ b3"
    unfolding stripCodeFence_def Let_def ab(2) i option.case after j inner b1 b3 using v by (simp del: Encode.simps)
  then show ?thesis by (auto simp del: Encode.simps)
qed

lemma parse_of_body:
  assumes "utf8_json (JObj ms)" "depth (JObj ms) \<le> max_depth" "read_outcome E ms = Some o1"
    and "extractJSONObject (stripCodeFence raw) = Encode (JObj ms)"
  shows "parseRepairResponse E raw = Inr (finish_outcome o1)"
proof -
  have "Decode Errorf (Encode (JObj ms)) = Inr (JObj ms)" using assms(1,2) by (rule Decode_Encode)
  with assms(3,4) show ?thesis
    using Encode_obj_ends [of ms] by (auto simp: parseRepairResponse_def Let_def unmarshal_outcome_def simp del: Encode.simps)
qed

section \<open>Classification is stable\<close>

lemma enrich_kind: "R_Kind (enrich E e r) = R_Kind r" "R_ToolName (enrich E e r) = R_ToolName r" "R_SentArgs (enrich E e r) = R_SentArgs r"
  by (auto simp: enrich_def Let_def split: option.splits)

lemma wrap_recoverable:
  assumes "IsRecoverable (Classify_tool E e)"
  shows "\<exists>r x. as_recoverable (Wrap_tool E e n a) = Some (r, x) \<and> R_Kind r = Classify_tool E e"
  using assms by (auto simp: Wrap_tool_def Classify_tool_def enrich_kind split: option.splits)

lemma classify_wrap: "Classify_tool E (Wrap_tool E e n a) = Classify_tool E e"
proof (cases "as_recoverable e")
  case None
  then show ?thesis
    by (cases "IsRecoverable (Classify_tool E e)") (simp_all add: Wrap_tool_def Classify_tool_def [of E "Recoverable _ _"] enrich_kind)
qed (auto simp: Wrap_tool_def Classify_tool_def)

section \<open>The calls of one execution\<close>

text \<open>The same service with every call of the tool and of the model recorded.\<close>

datatype act = ToolCall args | ModelCall RepairRequest "tool_error + string"

definition log_tool :: "(string \<Rightarrow> string \<Rightarrow> args \<Rightarrow> 's \<Rightarrow> 's \<times> (tool_error + string))
    \<Rightarrow> string \<Rightarrow> string \<Rightarrow> args \<Rightarrow> act list \<times> 's \<Rightarrow> (act list \<times> 's) \<times> (tool_error + string)" where
  "log_tool f ag tn a w = (case f ag tn a (snd w) of (s, r) \<Rightarrow> ((fst w @ [ToolCall a], s), r))"

definition log_model :: "'s provider \<Rightarrow> (act list \<times> 's) provider" where
  "log_model f q w = (case f q (snd w) of (s, r) \<Rightarrow> ((fst w @ [ModelCall q r], s), r))"

definition logged_config :: "'s RepairConfig \<Rightarrow> (act list \<times> 's) RepairConfig" where
  "logged_config rc = \<lparr>RC_Provider = map_option log_model (RC_Provider rc), RC_Model = RC_Model rc,
     RC_Timeout = RC_Timeout rc, RC_Pref = map_option (\<lambda>f w. f (snd w)) (RC_Pref rc)\<rparr>"

definition logged :: "'s toolServiceImpl \<Rightarrow> (act list \<times> 's) toolServiceImpl" where
  "logged S = \<lparr>transport = map_option log_tool (transport S),
     repairConfig = map_option logged_config (repairConfig S), tool_schemas = tool_schemas S\<rparr>"

text \<open>The answer of the model, and the outcome read from it, for one repair.\<close>

definition repair_answer :: "RecoverableError \<Rightarrow> 's RepairOptions \<Rightarrow> 's \<Rightarrow> tool_error + string" where
  "repair_answer r opts s = (case Opt_Provider opts of None \<Rightarrow> Inl (Plain [])
     | Some f \<Rightarrow> snd (f (repair_request r opts) s))"

lemma logged_call:
  "callTransport (logged S) ag tn a (tr, s) = (case callTransport S ag tn a s of
     (s1, r) \<Rightarrow> ((if transport S = None then tr else tr @ [ToolCall a], s1), r))"
  by (auto simp: callTransport_def logged_def log_tool_def split: option.splits prod.splits sum.splits)

lemma logged_repair:
  assumes "RC_Provider rc = Some f"
  shows "Repair E r (repair_options (logged S) (logged_config rc)) (tr, s)
    = (case Repair E r (repair_options S rc) s of (s1, x) \<Rightarrow>
        ((tr @ [ModelCall (repair_request r (repair_options S rc)) (repair_answer r (repair_options S rc) s)], s1), x))"
  using assms by (auto simp: Repair_def repair_options_def logged_def logged_config_def log_model_def repair_request_def
      repair_answer_def resolveRepairMaxTokens_def split: prod.splits sum.splits)

lemma repair_from_answer:
  assumes "Repair E r opts s = (s1, Inr o1)"
  shows "\<exists>raw. repair_answer r opts s = Inr raw \<and> parseRepairResponse E raw = Inr o1"
  using assms by (auto simp: Repair_def repair_answer_def split: option.splits prod.splits sum.splits)

lemma logged_provider: "RC_Provider (logged_config rc) = map_option log_model (RC_Provider rc)"
  by (simp add: logged_config_def)

lemma logged_pref: "pref_never (logged_config rc) (tr, s) = pref_never rc s"
  by (auto simp: pref_never_def logged_config_def split: option.splits)


section \<open>One retry\<close>

text \<open>
  The calls one execution may make: the tool with the arguments it was given, then the model, then
  the tool with the arguments read from the model's answer.
\<close>

definition repaired_by :: "tool_env \<Rightarrow> tool_error + string \<Rightarrow> args \<Rightarrow> bool" where
  "repaired_by E ans b = (case ans of Inl _ \<Rightarrow> False
     | Inr raw \<Rightarrow> (case parseRepairResponse E raw of Inl _ \<Rightarrow> False
        | Inr o1 \<Rightarrow> b = O_RepairedArgs o1 \<and> b \<noteq> None \<and> missing o1 = []))"

inductive one_retry :: "tool_env \<Rightarrow> args \<Rightarrow> act list \<Rightarrow> bool" for E input where
  no_call: "one_retry E input []"
| plain_call: "one_retry E input [ToolCall input]"
| asked: "one_retry E input [ToolCall input, ModelCall q ans]"
| retried: "repaired_by E ans b \<Longrightarrow> one_retry E input [ToolCall input, ModelCall q ans, ToolCall b]"

text \<open>The repair of a tool error as one equation over the log.\<close>

lemma logged_attempt:
  assumes "transport S \<noteq> None" "attemptRepair E env S ag tn input e s = (s1, res)"
  shows "\<exists>tr. attemptRepair E env (logged S) ag tn input e ([ToolCall input], s) = ((tr, s1), res)
    \<and> one_retry E input tr
    \<and> (T_IsError res \<or> length tr = 3)
    \<and> (\<not> IsRecoverable (Classify_tool E e) \<longrightarrow> tr = [ToolCall input] \<and> res = failed_tool (''Error: '' @ err_text e))
    \<and> (\<not> autoRepairEnvEnabled E env \<or> repairConfig S = None \<longrightarrow> tr = [ToolCall input])
    \<and> (IsRecoverable (Classify_tool E e) \<and> T_IsError res \<longrightarrow> (\<exists>r x. as_recoverable (Wrap_tool E e tn input) = Some (r, x)
        \<and> (T_Output res = buildAgentErrorEnvelope r \<or> (\<exists>o1. \<not> HasRepair o1 \<and> T_Output res = buildMissingRequiredEnvelope r o1))))"
proof (cases "IsRecoverable (Classify_tool E e)")
  case False
  with assms show ?thesis by (auto simp: attemptRepair_def one_retry.intros failed_tool_def)
next
  case True
  then obtain r x where rx: "as_recoverable (Wrap_tool E e tn input) = Some (r, x)" using wrap_recoverable by blast
  show ?thesis
  proof (cases "autoRepairEnvEnabled E env \<and> (\<exists>rc f. repairConfig S = Some rc \<and> RC_Provider rc = Some f \<and> \<not> pref_never rc s)")
    case False
    with True rx assms show ?thesis
      by (auto simp: attemptRepair_def one_retry.intros failed_tool_def logged_def logged_pref logged_provider
          split: option.splits if_splits)
  next
    case gates: True
    then obtain rc f where rc: "repairConfig S = Some rc" "RC_Provider rc = Some f" "\<not> pref_never rc s" by blast
    have rc': "repairConfig (logged S) = Some (logged_config rc)" "RC_Provider (logged_config rc) \<noteq> None"
      "\<not> pref_never (logged_config rc) ([ToolCall input], s)"
      using rc by (simp_all add: logged_def logged_pref logged_provider)
    obtain s2 y where y: "Repair E r (repair_options S rc) s = (s2, y)" by fastforce
    note step = True rx gates rc rc' y logged_repair [OF rc(2), of E r S "[ToolCall input]" s]
    show ?thesis
    proof (cases "\<exists>o1. y = Inr o1 \<and> HasRepair o1")
      case False
      with step assms show ?thesis
        by (auto simp: attemptRepair_def one_retry.intros failed_tool_def split: sum.splits if_splits)
    next
      case True
      then obtain o1 where o1: "y = Inr o1" "HasRepair o1" by blast
      then have "repaired_by E (repair_answer r (repair_options S rc) s) (O_RepairedArgs o1)"
        using repair_from_answer y by (fastforce simp: repaired_by_def HasRepair_def)
      then show ?thesis using step o1 assms
        by (auto simp: attemptRepair_def retry_once_def logged_call one_retry.intros failed_tool_def
            split: prod.splits sum.splits option.splits)
    qed
  qed
qed


section \<open>Examples\<close>

definition repair_sample_env :: tool_env where
  "repair_sample_env = \<lparr>te_lower = id, te_flatten = (\<lambda>e. []), te_fold = id, te_float = Some, te_json_error = id, te_quote = id\<rparr>"

definition repair_sample_fix :: "(string \<times> json) list" where
  "repair_sample_fix = [(''repaired_args'', JObj [(''q'', JStr ''a}{b'')]), (''lesson_hint'', JStr ''quote it'')]"

definition repair_sample_service :: "nat toolServiceImpl" where
  "repair_sample_service = \<lparr>
     transport = Some (\<lambda>ag tn a n. (n + 1, if n = 0 then Inl (Plain ''missing properties: q'') else Inr ''done'')),
     repairConfig = Some \<lparr>RC_Provider = Some (\<lambda>q n. (n + 10, Inr (''Sure: '' @ Encode (JObj repair_sample_fix)))), RC_Model = [],
       RC_Timeout = 0, RC_Pref = None\<rparr>,
     tool_schemas = (\<lambda>n. None)\<rparr>"

lemma repair_sample_read:
  "read_outcome repair_sample_env repair_sample_fix
    = Some \<lparr>O_RepairedArgs = Some [(''q'', JStr ''a}{b'')], O_MissingRequired = None, O_LessonHint = ''quote it''\<rparr>"
  by code_simp

lemma repair_sample_shape: "utf8_json (JObj repair_sample_fix)" "depth (JObj repair_sample_fix) \<le> max_depth"
  "\<not> Contains (''Sure: '' @ Encode (JObj repair_sample_fix)) fence"
  by code_simp+



end
