(* ===== verification/McpRegistry.thy ===== *)
theory McpRegistry
  imports ToolRepair
begin

text \<open>
  The registry of tools of package \<^verbatim>\<open>internal/mcp\<close>: the checks of \<^verbatim>\<open>validate.go\<close>, the names of \<^verbatim>\<open>naming.go\<close>,
  and the manager of \<^verbatim>\<open>manager.go\<close> and \<^verbatim>\<open>manifest_plugin_tools.go\<close> with its servers, the discovery of their tools
  under names without a server prefix, and the routing of calls.

  The Go code keeps pointers to entries in a list and in an index and renames entries through the index. The
  model has the same sharing: entries live in a heap, and the list and the index hold addresses. A transport
  is a record of functions over the state of the world. Spans, logs and the metrics of \<^verbatim>\<open>ScanInjection\<close> are
  not modelled; each operation holds the manager's lock as a whole, except that a call leaves it before it
  reaches the transport.
\<close>

section \<open>Checks\<close>

type_synonym TrustTier = string

definition TierBuiltin :: TrustTier where "TierBuiltin = ''builtin''"
definition TierPluginStdio :: TrustTier where "TierPluginStdio = ''plugin_stdio''"
definition TierPluginHTTP :: TrustTier where "TierPluginHTTP = ''plugin_http''"
definition TierThirdPartyHTTP :: TrustTier where "TierThirdPartyHTTP = ''third_party_http''"

record Limits =
  MaxToolNameLen :: int
  MaxDescriptionLen :: int
  MaxInputSchemaBytes :: int
  MaxResultBytes :: int
  MaxToolsPerServer :: int

definition LimitsFor :: "TrustTier \<Rightarrow> Limits" where
  "LimitsFor tier = (
     if tier = TierBuiltin then \<lparr>MaxToolNameLen = 256, MaxDescriptionLen = 32 * 1024,
       MaxInputSchemaBytes = 512 * 1024, MaxResultBytes = 10 * 1024 * 1024, MaxToolsPerServer = 2000\<rparr>
     else if tier = TierPluginStdio then \<lparr>MaxToolNameLen = 256, MaxDescriptionLen = 32 * 1024,
       MaxInputSchemaBytes = 256 * 1024, MaxResultBytes = 8 * 1024 * 1024, MaxToolsPerServer = 1000\<rparr>
     else if tier = TierPluginHTTP then \<lparr>MaxToolNameLen = 256, MaxDescriptionLen = 24 * 1024,
       MaxInputSchemaBytes = 128 * 1024, MaxResultBytes = 4 * 1024 * 1024, MaxToolsPerServer = 500\<rparr>
     else \<lparr>MaxToolNameLen = 256, MaxDescriptionLen = 16 * 1024,
       MaxInputSchemaBytes = 64 * 1024, MaxResultBytes = 2 * 1024 * 1024, MaxToolsPerServer = 200\<rparr>)"

record ValidationError =
  V_Field :: string
  V_Value :: string
  V_Reason :: string

definition WarnInvalidToolName :: string where "WarnInvalidToolName = ''invalid_tool_name''"
definition WarnDescriptionTooLong :: string where "WarnDescriptionTooLong = ''description_too_long''"
definition WarnSchemaSizeExceeded :: string where "WarnSchemaSizeExceeded = ''schema_size_exceeded''"
definition WarnToolCountHigh :: string where "WarnToolCountHigh = ''tool_count_high''"
definition WarnDuplicateToolName :: string where "WarnDuplicateToolName = ''duplicate_tool_name''"
definition WarnResultSizeExceeded :: string where "WarnResultSizeExceeded = ''result_size_exceeded''"

text \<open>A tool as a server lists it; its schema is a map or nil, its annotations a map.\<close>

record Tool =
  Tl_Name :: string
  Tl_Description :: string
  Tl_InputSchema :: args
  Tl_Annotations :: "(string \<times> json) list"

definition truncateForLog :: "string \<Rightarrow> nat \<Rightarrow> string" where
  "truncateForLog s maxLen = (if length s \<le> maxLen then s else take maxLen s @ [CHR 0xE2, CHR 0x80, CHR 0xA6])"

definition tool_name_char :: "char \<Rightarrow> bool" where
  "tool_name_char c = (between c 97 122 \<or> between c 65 90 \<or> between c 48 57 \<or> c = CHR ''_'' \<or> c = CHR ''-'')"

definition reValidToolNameStrict :: "string \<Rightarrow> bool" where
  "reValidToolNameStrict s = (s \<noteq> [] \<and> list_all tool_name_char s)"

definition name_errors :: "Limits \<Rightarrow> Tool \<Rightarrow> ValidationError list" where
  "name_errors limits tool = (
     if Tl_Name tool = [] then [\<lparr>V_Field = WarnInvalidToolName, V_Value = [], V_Reason = ''empty tool name''\<rparr>]
     else if int (length (Tl_Name tool)) > MaxToolNameLen limits then
       [\<lparr>V_Field = WarnInvalidToolName, V_Value = truncateForLog (Tl_Name tool) 64,
         V_Reason = ''tool name exceeds '' @ show_int (MaxToolNameLen limits) @ '' characters ('' @ show_nat (length (Tl_Name tool)) @ '')''\<rparr>]
     else if \<not> reValidToolNameStrict (Tl_Name tool) then
       [\<lparr>V_Field = WarnInvalidToolName, V_Value = truncateForLog (Tl_Name tool) 64,
         V_Reason = ''tool name contains invalid characters (allowed: a-zA-Z0-9_-)''\<rparr>]
     else [])"

definition ValidateToolMeta :: "TrustTier \<Rightarrow> Tool \<Rightarrow> ValidationError list" where
  "ValidateToolMeta tier tool = (let limits = LimitsFor tier in
     name_errors limits tool
     @ (if int (length (Tl_Description tool)) > MaxDescriptionLen limits then
         [\<lparr>V_Field = WarnDescriptionTooLong, V_Value = truncateForLog (Tl_Name tool) 64,
           V_Reason = ''description exceeds '' @ show_int (MaxDescriptionLen limits) @ '' bytes (''
             @ show_nat (length (Tl_Description tool)) @ '')''\<rparr>] else [])
     @ (case Tl_InputSchema tool of None \<Rightarrow> [] | Some ms \<Rightarrow>
         let n = int (length (Encode (JObj ms))) in
         if n > MaxInputSchemaBytes limits then
           [\<lparr>V_Field = WarnSchemaSizeExceeded, V_Value = truncateForLog (Tl_Name tool) 64,
             V_Reason = ''input schema exceeds '' @ show_int (MaxInputSchemaBytes limits) @ '' bytes ('' @ show_int n @ '')''\<rparr>]
         else []))"

fun duplicate_errors :: "string list \<Rightarrow> Tool list \<Rightarrow> ValidationError list" where
  "duplicate_errors seen [] = []"
| "duplicate_errors seen (t # ts) = (if Tl_Name t \<in> set seen
     then \<lparr>V_Field = WarnDuplicateToolName, V_Value = truncateForLog (Tl_Name t) 64,
            V_Reason = ''duplicate tool name within server''\<rparr> # duplicate_errors seen ts
     else duplicate_errors (Tl_Name t # seen) ts)"

definition ValidateToolSet :: "TrustTier \<Rightarrow> Tool list \<Rightarrow> ValidationError list" where
  "ValidateToolSet tier tools = (let limits = LimitsFor tier in
     (if int (length tools) > MaxToolsPerServer limits then
        [\<lparr>V_Field = WarnToolCountHigh, V_Value = [], V_Reason = ''server advertises '' @ show_nat (length tools)
          @ '' tools, above the '' @ show_int (MaxToolsPerServer limits)
          @ '' advisory threshold for this tier '' @ [CHR 0xE2, CHR 0x80, CHR 0x94]
          @ '' consider whether this server belongs in your active tool set''\<rparr>] else [])
     @ duplicate_errors [] tools)"

definition ValidateResultSize :: "TrustTier \<Rightarrow> int \<Rightarrow> ValidationError option" where
  "ValidateResultSize tier totalBytes = (if totalBytes > MaxResultBytes (LimitsFor tier)
     then Some \<lparr>V_Field = WarnResultSizeExceeded, V_Value = [], V_Reason = ''result '' @ show_int totalBytes
       @ '' bytes exceeds tier cap '' @ show_int (MaxResultBytes (LimitsFor tier))\<rparr>
     else None)"

definition V_Error :: "(string \<Rightarrow> string) \<Rightarrow> ValidationError \<Rightarrow> string" where
  "V_Error quote v = (if V_Value v = [] then V_Field v @ '': '' @ V_Reason v
     else V_Field v @ '' ('' @ quote (V_Value v) @ ''): '' @ V_Reason v)"

record ToolContent =
  Ct_Type :: string
  Ct_Text :: string

record ToolCallResult =
  Rs_Content :: "ToolContent list"
  Rs_IsError :: bool

definition ValidateBlockType :: "ToolContent \<Rightarrow> bool" where
  "ValidateBlockType block = (Ct_Type block \<in> {''text'', ''image'', ''resource''})"

text \<open>
  The escape sequences of \<^verbatim>\<open>reANSI\<close> at the start of a text: how many bytes the first alternative that
  matches takes. The classes of the first alternative are disjoint, so greedy matching finds its only match.
\<close>

definition ansi_at :: "string \<Rightarrow> nat option" where
  "ansi_at s = (case s of
       a # b # r \<Rightarrow>
         if a = CHR 0x1B \<and> b = CHR ''['' then
           (let ps = takeWhile (\<lambda>c. between c 48 63) r; r1 = dropWhile (\<lambda>c. between c 48 63) r;
                is = takeWhile (\<lambda>c. between c 32 47) r1; r2 = dropWhile (\<lambda>c. between c 32 47) r1
            in case r2 of c # _ \<Rightarrow> if between c 64 126 then Some (2 + length ps + length is + 1) else None
               | [] \<Rightarrow> None)
         else if a = CHR 0x1B \<and> b = CHR '']'' then
           (let body = takeWhile (\<lambda>c. c \<noteq> CHR 0x07 \<and> c \<noteq> CHR 0x1B) r; r1 = dropWhile (\<lambda>c. c \<noteq> CHR 0x07 \<and> c \<noteq> CHR 0x1B) r
            in case r1 of
                 c # r2 \<Rightarrow> if c = CHR 0x07 then Some (2 + length body + 1)
                   else (case r2 of d # _ \<Rightarrow> if d = CHR 0x5C then Some (2 + length body + 2) else None | [] \<Rightarrow> None)
               | [] \<Rightarrow> None)
         else None
     | _ \<Rightarrow> None)"

lemma ansi_at_pos: "ansi_at s = Some n \<Longrightarrow> 0 < n"
  by (auto simp: ansi_at_def Let_def split: list.splits if_splits)

function strip_from :: "string \<Rightarrow> string" where
  "strip_from [] = []"
| "strip_from (c # r) = (case ansi_at (c # r) of
       Some n \<Rightarrow> strip_from (drop n (c # r))
     | None \<Rightarrow> c # strip_from r)"
  by pat_completeness auto

termination strip_from
  by (relation "measure length") (auto dest: ansi_at_pos)

definition StripANSI :: "string \<Rightarrow> string" where
  "StripANSI s = (if CHR 0x1B \<notin> set s then s else strip_from s)"

section \<open>Names\<close>

definition LegacyPrefix :: string where "LegacyPrefix = ''mcp__''"
definition SelfServerName :: string where "SelfServerName = ''self''"

definition UniformToolName :: "string \<Rightarrow> string \<Rightarrow> string" where
  "UniformToolName server tool = (let t = TrimSpace tool in
     if t = [] then []
     else if HasPrefix t LegacyPrefix then
       (let rest = TrimPrefix t LegacyPrefix in
        if rest = [] then t
        else case Index rest ''__'' of None \<Rightarrow> t
          | Some idx \<Rightarrow> if idx + 2 < length rest then drop (idx + 2) rest else t)
     else t)"

definition DisambiguatedToolName :: "string \<Rightarrow> string \<Rightarrow> string" where
  "DisambiguatedToolName server tool = (let t = UniformToolName server tool; s = TrimSpace server in
     if t = [] then [] else if s = [] then t else s @ ''_'' @ t)"

definition IsReservedSelfToolName :: "string \<Rightarrow> string \<Rightarrow> bool" where
  "IsReservedSelfToolName server toolName = (TrimSpace toolName \<noteq> [] \<and> server = SelfServerName)"

section \<open>The manager\<close>

record 's transport =
  tr_list :: "'s \<Rightarrow> 's \<times> (tool_error + Tool list)"
  tr_call :: "string \<Rightarrow> args \<Rightarrow> 's \<Rightarrow> 's \<times> (tool_error + ToolCallResult)"
  tr_effect :: "(string \<Rightarrow> string option) option"

record DiscoveryWarning =
  Dw_ServerName :: string
  Dw_ToolName :: string
  Dw_Reason :: string

type_synonym addr = nat

record toolEntry =
  E_serverName :: string
  E_uniformName :: string
  E_tool :: Tool

text \<open>
  The servers are a map, as a list of pairs in no particular order. \<open>heap\<close> holds the entries ever made, \<open>reg_tools\<close>
  and \<open>uniformIndex\<close> their addresses.
\<close>

record 's McpManager =
  servers :: "(string \<times> 's transport) list"
  serverTiers :: "string \<rightharpoonup> TrustTier"
  firstPartyBuiltinNames :: "string \<Rightarrow> bool"
  pluginServers :: "string \<Rightarrow> string list"
  heap :: "toolEntry list"
  reg_tools :: "addr list"
  uniformIndex :: "string \<rightharpoonup> addr"
  discoveryWarnings :: "DiscoveryWarning list"
  pluginToolLoadTypes :: "string \<rightharpoonup> string"
  toolLoadPreferences :: "(string \<rightharpoonup> string) option"
  LoadChecker :: "(string \<Rightarrow> bool) option"

definition NewMcpManager :: "'s McpManager" where
  "NewMcpManager = \<lparr>servers = [], serverTiers = Map.empty, firstPartyBuiltinNames = (\<lambda>_. False),
     pluginServers = (\<lambda>_. []), heap = [], reg_tools = [], uniformIndex = Map.empty, discoveryWarnings = [],
     pluginToolLoadTypes = Map.empty, toolLoadPreferences = None, LoadChecker = None\<rparr>"

definition entry_at :: "'s McpManager \<Rightarrow> addr \<Rightarrow> toolEntry" where
  "entry_at m a = heap m ! a"

definition lookup_entry :: "'s McpManager \<Rightarrow> string \<Rightarrow> toolEntry option" where
  "lookup_entry m n = map_option (entry_at m) (uniformIndex m n)"

definition HasServer :: "'s McpManager \<Rightarrow> string \<Rightarrow> bool" where
  "HasServer m name = (map_of (servers m) name \<noteq> None)"

definition AddServer :: "(string \<Rightarrow> string) \<Rightarrow> string \<Rightarrow> 's transport option \<Rightarrow> TrustTier \<Rightarrow> 's McpManager
    \<Rightarrow> 's McpManager \<times> tool_error option" where
  "AddServer quote name tr0 tier m = (
     if name = [] then (m, Some (Plain ''mcp: AddServer: name is required''))
     else case tr0 of
         None \<Rightarrow> (m, Some (Plain (''mcp: AddServer '' @ quote name @ '': transport is nil'')))
       | Some tr \<Rightarrow>
           if HasServer m name then (m, Some (Plain (''mcp: AddServer '' @ quote name @ '': server already registered'')))
           else (m\<lparr>servers := (name, tr) # servers m, serverTiers := (serverTiers m)(name \<mapsto> tier)\<rparr>, None))"

definition AddBuiltinServer :: "(string \<Rightarrow> string) \<Rightarrow> string \<Rightarrow> 's transport option \<Rightarrow> 's McpManager
    \<Rightarrow> 's McpManager \<times> tool_error option" where
  "AddBuiltinServer quote name tr0 m = (case AddServer quote name tr0 TierBuiltin m of
       (m1, Some e) \<Rightarrow> (m1, Some e)
     | (m1, None) \<Rightarrow> (m1\<lparr>firstPartyBuiltinNames := (firstPartyBuiltinNames m1)(name := True)\<rparr>, None))"

definition AddPluginServer :: "(string \<Rightarrow> string) \<Rightarrow> string \<Rightarrow> string \<Rightarrow> 's transport option \<Rightarrow> 's McpManager
    \<Rightarrow> 's McpManager \<times> tool_error option" where
  "AddPluginServer quote pluginID name tr0 m = (
     if name = [] then (m, Some (Plain ''mcp: AddPluginServer: name is required''))
     else if tr0 = None then (m, Some (Plain (''mcp: AddPluginServer '' @ quote name @ '': transport is nil'')))
     else case AddServer quote name tr0 TierPluginStdio m of
         (m1, Some e) \<Rightarrow> (m1, Some e)
       | (m1, None) \<Rightarrow> (if pluginID = [] then m1
            else m1\<lparr>pluginServers := (pluginServers m1)(pluginID := pluginServers m1 pluginID @ [name])\<rparr>, None))"

definition forget_names :: "string list \<Rightarrow> (string \<rightharpoonup> addr) \<Rightarrow> (string \<rightharpoonup> addr)" where
  "forget_names ns idx = foldl (\<lambda>i n. i(n := None)) idx ns"

definition RemoveServer :: "string \<Rightarrow> 's McpManager \<Rightarrow> 's McpManager" where
  "RemoveServer name m = (
     if \<not> HasServer m name then m
     else m\<lparr>servers := filter (\<lambda>x. fst x \<noteq> name) (servers m),
        serverTiers := (serverTiers m)(name := None),
        pluginToolLoadTypes := (pluginToolLoadTypes m)(name := None),
        firstPartyBuiltinNames := (firstPartyBuiltinNames m)(name := False),
        reg_tools := filter (\<lambda>a. E_serverName (entry_at m a) \<noteq> name) (reg_tools m),
        uniformIndex := forget_names (map (\<lambda>a. E_uniformName (entry_at m a))
          (filter (\<lambda>a. E_serverName (entry_at m a) = name) (reg_tools m))) (uniformIndex m)\<rparr>)"

definition RemoveServersByPlugin :: "string \<Rightarrow> 's McpManager \<Rightarrow> 's McpManager \<times> nat" where
  "RemoveServersByPlugin pluginID m = (
     if pluginID = [] then (m, 0)
     else let names = pluginServers m pluginID in
       (foldl (\<lambda>m n. RemoveServer n m) (m\<lparr>pluginServers := (pluginServers m)(pluginID := [])\<rparr>) names, length names))"

definition tierForLocked :: "'s McpManager \<Rightarrow> string \<Rightarrow> TrustTier" where
  "tierForLocked m name = (case serverTiers m name of
     Some t \<Rightarrow> if t \<noteq> [] then t else TierThirdPartyHTTP | None \<Rightarrow> TierThirdPartyHTTP)"

definition isFirstPartyBuiltinServerLocked :: "'s McpManager \<Rightarrow> string \<Rightarrow> bool" where
  "isFirstPartyBuiltinServerLocked m name = firstPartyBuiltinNames m name"

text \<open>An entry moves from one name to another, through its address.\<close>

definition rename_entry :: "string \<Rightarrow> addr \<Rightarrow> string \<Rightarrow> 's McpManager \<Rightarrow> 's McpManager" where
  "rename_entry bare a d m = m\<lparr>uniformIndex := (uniformIndex m)(bare := None, d \<mapsto> a),
     heap := (heap m)[a := (entry_at m a)\<lparr>E_uniformName := d\<rparr>]\<rparr>"

definition add_warning :: "string \<Rightarrow> string \<Rightarrow> string \<Rightarrow> 's McpManager \<Rightarrow> 's McpManager" where
  "add_warning server tool reason m = m\<lparr>discoveryWarnings := discoveryWarnings m
     @ [\<lparr>Dw_ServerName = server, Dw_ToolName = tool, Dw_Reason = reason\<rparr>]\<rparr>"

definition reserved_server :: "'s McpManager \<Rightarrow> string \<Rightarrow> string \<Rightarrow> bool" where
  "reserved_server m server tool = (IsReservedSelfToolName server tool \<or> isFirstPartyBuiltinServerLocked m server)"

definition claim_bare :: "string \<Rightarrow> string \<Rightarrow> 's McpManager \<Rightarrow> 's McpManager \<times> string" where
  "claim_bare serverName bare m = (case uniformIndex m bare of
       None \<Rightarrow> (m, bare)
     | Some a \<Rightarrow> let existing = entry_at m a in
         if E_serverName existing \<noteq> serverName \<and> \<not> isFirstPartyBuiltinServerLocked m (E_serverName existing) then
           (let d = DisambiguatedToolName (E_serverName existing) (Tl_Name (E_tool existing)) in
            if uniformIndex m d \<noteq> None \<and> E_uniformName existing \<noteq> d then (m, [])
            else (add_warning (E_serverName existing) (Tl_Name (E_tool existing)) ''uniform_name_collision_disambiguated''
                   (rename_entry bare a d m), bare))
         else (m, bare))"

definition assignUniformNameLocked :: "string \<Rightarrow> string \<Rightarrow> 's McpManager \<Rightarrow> 's McpManager \<times> string" where
  "assignUniformNameLocked serverName toolName m = (let bare = UniformToolName serverName toolName in
     if bare = [] then (m, [])
     else if reserved_server m serverName toolName then claim_bare serverName bare m
     else case uniformIndex m bare of
         None \<Rightarrow> (m, bare)
       | Some a \<Rightarrow>
           let existing = entry_at m a; mine = DisambiguatedToolName serverName toolName in
           if reserved_server m (E_serverName existing) (Tl_Name (E_tool existing)) then
             (if uniformIndex m mine \<noteq> None then (m, []) else (m, mine))
           else if E_serverName existing = serverName then (m, [])
           else let d = DisambiguatedToolName (E_serverName existing) (Tl_Name (E_tool existing)) in
             if uniformIndex m d \<noteq> None \<and> E_uniformName existing \<noteq> d then (m, [])
             else if uniformIndex m mine \<noteq> None then (m, [])
             else (add_warning serverName toolName ''uniform_name_collision_disambiguated''
                    (add_warning (E_serverName existing) (Tl_Name (E_tool existing)) ''uniform_name_collision_disambiguated''
                      (rename_entry bare a d m)), mine))"

definition insert_entry :: "toolEntry \<Rightarrow> 's McpManager \<Rightarrow> 's McpManager" where
  "insert_entry e m = m\<lparr>heap := heap m @ [e], reg_tools := reg_tools m @ [length (heap m)],
     uniformIndex := (uniformIndex m)(E_uniformName e \<mapsto> length (heap m))\<rparr>"

definition register_tool :: "string \<Rightarrow> Tool \<Rightarrow> 's McpManager \<Rightarrow> 's McpManager" where
  "register_tool name t m = (case assignUniformNameLocked name (Tl_Name t) m of (m1, uniform) \<Rightarrow>
     if uniform = [] then add_warning name (Tl_Name t) ''uniform_name_collision'' m1
     else insert_entry \<lparr>E_serverName = name, E_uniformName = uniform, E_tool = t\<rparr>
       (if uniform \<noteq> Tl_Name t \<and> name = SelfServerName then add_warning name (Tl_Name t) ''self_tool_renamed'' m1 else m1))"

definition warn_all :: "(ValidationError \<Rightarrow> string) \<Rightarrow> string \<Rightarrow> ValidationError list \<Rightarrow> 's McpManager \<Rightarrow> 's McpManager" where
  "warn_all tool server ves m = foldl (\<lambda>m v. add_warning server (tool v) (V_Field v) m) m ves"

definition discover_tool :: "string \<Rightarrow> TrustTier \<Rightarrow> 's McpManager \<times> string list \<Rightarrow> Tool \<Rightarrow> 's McpManager \<times> string list" where
  "discover_tool name tier ms t = (case ms of (m, seen) \<Rightarrow>
     if Tl_Name t \<in> set seen then (m, seen)
     else (if ValidateToolMeta tier t \<noteq> [] then warn_all (\<lambda>_. Tl_Name t) name (ValidateToolMeta tier t) m
           else register_tool name t m, Tl_Name t # seen))"

definition discover_listed :: "string \<Rightarrow> Tool list \<Rightarrow> 's McpManager \<Rightarrow> 's McpManager" where
  "discover_listed name ts m = (let tier = tierForLocked m name in
     fst (foldl (discover_tool name tier) (warn_all V_Value name (ValidateToolSet tier ts) m, []) ts))"

definition discover_server :: "'s McpManager \<times> 's \<Rightarrow> string \<Rightarrow> 's McpManager \<times> 's" where
  "discover_server ms name = (case ms of (m, s) \<Rightarrow> (case map_of (servers m) name of None \<Rightarrow> (m, s)
     | Some tr \<Rightarrow> (case tr_list tr s of
          (s1, Inl _) \<Rightarrow> (m, s1)
        | (s1, Inr ts) \<Rightarrow> (discover_listed name ts m, s1))))"

definition DiscoverTools :: "'s McpManager \<Rightarrow> 's \<Rightarrow> 's McpManager \<times> 's" where
  "DiscoverTools m s = foldl discover_server
     (m\<lparr>reg_tools := [], uniformIndex := Map.empty, discoveryWarnings := []\<rparr>, s) (sort (map fst (servers m)))"

definition GetDiscoveryWarnings :: "'s McpManager \<Rightarrow> DiscoveryWarning list" where
  "GetDiscoveryWarnings m = discoveryWarnings m"

subsection \<open>Load types and listings\<close>

definition SetToolLoadPreferences :: "(string \<rightharpoonup> string) \<Rightarrow> 's McpManager \<Rightarrow> 's McpManager" where
  "SetToolLoadPreferences preferences m = m\<lparr>toolLoadPreferences := Some (\<lambda>n. case preferences n of
     Some v \<Rightarrow> if v = ''auto'' \<or> v = ''opt-in'' then Some v else None | None \<Rightarrow> None)\<rparr>"

definition nonempty :: "string option \<Rightarrow> string option" where
  "nonempty x = (case x of Some v \<Rightarrow> if v \<noteq> [] then Some v else None | None \<Rightarrow> None)"

definition toolLoadTypeLocked :: "'s McpManager \<Rightarrow> string \<Rightarrow> string \<times> string" where
  "toolLoadTypeLocked m name = (
     case Option.bind (toolLoadPreferences m) (\<lambda>snap. nonempty (snap name)) of
       Some value \<Rightarrow> (value, ''user'')
     | None \<Rightarrow> (case Option.bind (lookup_entry m name) (\<lambda>e. nonempty (pluginToolLoadTypes m (E_serverName e))) of
          Some value \<Rightarrow> (value, ''manifest'')
        | None \<Rightarrow> (''auto'', ''default'')))"

definition opt_in :: "'s McpManager \<Rightarrow> string \<Rightarrow> bool" where
  "opt_in m name = (fst (toolLoadTypeLocked m name) = ''opt-in'')"

record ToolDefinition =
  TD_Name :: string
  TD_Description :: string
  TD_InputSchema :: args

definition entry_def :: "toolEntry \<Rightarrow> ToolDefinition" where
  "entry_def e = \<lparr>TD_Name = E_uniformName e, TD_Description = Tl_Description (E_tool e), TD_InputSchema = Tl_InputSchema (E_tool e)\<rparr>"

definition getAllToolsLocked :: "'s McpManager \<Rightarrow> ToolDefinition list" where
  "getAllToolsLocked m = map entry_def (filter (\<lambda>e. \<not> opt_in m (E_uniformName e)
     \<and> (case LoadChecker m of None \<Rightarrow> True | Some enabled \<Rightarrow> enabled (E_uniformName e))) (map (entry_at m) (reg_tools m)))"

definition GetAllToolsUnfiltered :: "'s McpManager \<Rightarrow> ToolDefinition list" where
  "GetAllToolsUnfiltered m = map (entry_def \<circ> entry_at m) (reg_tools m)"

definition LookupToolInputSchema :: "'s McpManager \<Rightarrow> string \<Rightarrow> args option" where
  "LookupToolInputSchema m n = map_option (\<lambda>e. Tl_InputSchema (E_tool e)) (lookup_entry m n)"

definition DiscoverServerTools :: "(string \<Rightarrow> string) \<Rightarrow> 's McpManager \<Rightarrow> string \<Rightarrow> 's \<Rightarrow> 's \<times> (tool_error + Tool list)" where
  "DiscoverServerTools quote m serverName s = (
     if pluginToolLoadTypes m serverName \<noteq> None then
       (s, Inr (map E_tool (filter (\<lambda>e. E_serverName e = serverName \<and> \<not> opt_in m (E_uniformName e)) (map (entry_at m) (reg_tools m)))))
     else case map_of (servers m) serverName of
         None \<Rightarrow> (s, Inl (Plain (''server '' @ quote serverName @ '' not found'')))
       | Some tr \<Rightarrow> tr_list tr s)"

definition PluginToolDefinitions :: "'s McpManager \<Rightarrow> string \<Rightarrow> Tool list" where
  "PluginToolDefinitions m pluginID = map (\<lambda>e. \<lparr>Tl_Name = E_uniformName e, Tl_Description = Tl_Description (E_tool e),
      Tl_InputSchema = None, Tl_Annotations = []\<rparr>)
     (filter (\<lambda>e. E_serverName e \<in> set (pluginServers m pluginID)) (map (entry_at m) (reg_tools m)))"

text \<open>\<open>made\<close> is what \<^verbatim>\<open>newManifestPluginTransport\<close> returns for the declarations, with the tools it lists.\<close>

definition AddPluginTools :: "(string \<Rightarrow> string) \<Rightarrow> string \<Rightarrow> string option \<Rightarrow> string \<Rightarrow> tool_error + 's transport \<times> Tool list
    \<Rightarrow> 's McpManager \<Rightarrow> 's McpManager \<times> tool_error option" where
  "AddPluginTools quote pluginID child loadType made m = (
     if pluginID = [] \<or> child \<noteq> Some pluginID then (m, Some (Plain ''plugin tools require an owner and child''))
     else if loadType \<notin> {[], ''auto'', ''opt-in''} then (m, Some (Plain ''invalid plugin tool load type''))
     else case made of
         Inl e \<Rightarrow> (m, Some e)
       | Inr (tr, ts) \<Rightarrow> let server = ''plugin_'' @ pluginID in
           if HasServer m server then (m, Some (Plain ''plugin tool namespace already registered''))
           else case find (\<lambda>t. uniformIndex m (Tl_Name t) \<noteq> None) ts of
               Some t \<Rightarrow> (m, Some (Plain (''plugin tool '' @ quote (Tl_Name t) @ '' conflicts with an existing owner'')))
             | None \<Rightarrow> (foldl (\<lambda>m t. insert_entry \<lparr>E_serverName = server, E_uniformName = Tl_Name t, E_tool = t\<rparr> m)
                 (m\<lparr>servers := (server, tr) # servers m, serverTiers := (serverTiers m)(server \<mapsto> TierPluginStdio),
                    pluginServers := (pluginServers m)(pluginID := pluginServers m pluginID @ [server]),
                    pluginToolLoadTypes := (pluginToolLoadTypes m)(server \<mapsto> loadType)\<rparr>) ts, None))"

subsection \<open>What a tool does\<close>

definition ToolEffectHints :: "string \<Rightarrow> (bool \<times> bool) option" where
  "ToolEffectHints effect = (if effect = ''read'' then Some (True, False)
     else if effect = ''write'' then Some (False, False)
     else if effect = ''destructive'' then Some (False, True) else None)"

definition reviewed_effect :: "'s McpManager \<Rightarrow> toolEntry \<Rightarrow> string option" where
  "reviewed_effect m e = Option.bind (map_of (servers m) (E_serverName e))
     (\<lambda>tr. Option.bind (tr_effect tr) (\<lambda>f. f (Tl_Name (E_tool e))))"

definition declared_hint :: "toolEntry \<Rightarrow> string \<Rightarrow> bool option" where
  "declared_hint e key = (case map_of (Tl_Annotations (E_tool e)) key of Some (JBool b) \<Rightarrow> Some b | _ \<Rightarrow> None)"

definition ToolBehavior :: "'s McpManager \<Rightarrow> string \<Rightarrow> (bool \<times> bool) option" where
  "ToolBehavior m n = (case lookup_entry m n of None \<Rightarrow> None
     | Some e \<Rightarrow> (case reviewed_effect m e of
          Some effect \<Rightarrow> ToolEffectHints effect
        | None \<Rightarrow> if Tl_Annotations (E_tool e) = [] then None
            else Some (declared_hint e ''readOnlyHint'' = Some True, declared_hint e ''destructiveHint'' = Some True)))"

definition ToolDeclaredHints :: "'s McpManager \<Rightarrow> string \<Rightarrow> bool option \<times> bool option" where
  "ToolDeclaredHints m n = (case lookup_entry m n of None \<Rightarrow> (None, None)
     | Some e \<Rightarrow> (case Option.bind (reviewed_effect m e) ToolEffectHints of
          Some (r, d) \<Rightarrow> (Some r, Some d)
        | None \<Rightarrow> (declared_hint e ''readOnlyHint'', declared_hint e ''destructiveHint'')))"

definition ToolAttribution :: "'s McpManager \<Rightarrow> string \<Rightarrow> (string \<times> string) option" where
  "ToolAttribution m n = map_option (\<lambda>e. (E_serverName e, Tl_Name (E_tool e))) (lookup_entry m n)"

definition ResolveToolServer :: "'s McpManager \<Rightarrow> string \<Rightarrow> string \<times> string" where
  "ResolveToolServer m n = (case lookup_entry m n of Some e \<Rightarrow> (E_serverName e, E_uniformName e) | None \<Rightarrow> ([], []))"

subsection \<open>Calls\<close>

definition add_block :: "string \<Rightarrow> ToolContent \<Rightarrow> string" where
  "add_block sb c = (if \<not> ValidateBlockType c \<or> Ct_Type c \<noteq> ''text'' \<or> Ct_Text c = [] then sb
     else (if sb \<noteq> [] then sb @ [CHR 0x0A] else sb) @ StripANSI (Ct_Text c))"

definition assembleToolResultText :: "ToolCallResult \<Rightarrow> tool_error + string" where
  "assembleToolResultText r = (let text = foldl add_block [] (Rs_Content r) in
     if Rs_IsError r then Inl (Plain (''tool error: '' @ text)) else Inr text)"

definition processCallToolResult :: "(string \<Rightarrow> string) \<Rightarrow> string \<Rightarrow> string \<Rightarrow> TrustTier \<Rightarrow> ToolCallResult \<Rightarrow> tool_error + string" where
  "processCallToolResult quote serverName toolName tier r = (case assembleToolResultText r of
       Inl e \<Rightarrow> Inl e
     | Inr out \<Rightarrow> (case ValidateResultSize tier (int (length out)) of
          Some v \<Rightarrow> Inl (Around (''call tool '' @ toolName @ '' on '' @ serverName @ '': '') (Plain (V_Error quote v)))
        | None \<Rightarrow> Inr out))"

definition call_on :: "(string \<Rightarrow> string) \<Rightarrow> 's McpManager \<Rightarrow> string \<Rightarrow> string \<Rightarrow> args \<Rightarrow> 's \<Rightarrow> 's \<times> (tool_error + string)" where
  "call_on quote m serverName toolName input s = (case map_of (servers m) serverName of
       None \<Rightarrow> (s, Inl (Plain (''unknown MCP server: '' @ serverName)))
     | Some tr \<Rightarrow> (case tr_call tr toolName input s of
          (s1, Inl e) \<Rightarrow> (s1, Inl (Around (''call tool '' @ toolName @ '' on '' @ serverName @ '': '') e))
        | (s1, Inr r) \<Rightarrow> (s1, processCallToolResult quote serverName toolName (tierForLocked m serverName) r)))"

definition ExecuteTool :: "(string \<Rightarrow> string) \<Rightarrow> 's McpManager \<Rightarrow> string \<Rightarrow> args \<Rightarrow> 's \<Rightarrow> 's \<times> (tool_error + string)" where
  "ExecuteTool quote m name input s = (case lookup_entry m name of
       None \<Rightarrow> (s, Inl (Plain (''unknown MCP tool: '' @ name)))
     | Some e \<Rightarrow> if opt_in m name then (s, Inl (Plain (''plugin tool '' @ quote name @ '' requires explicit opt-in'')))
         else call_on quote m (E_serverName e) (Tl_Name (E_tool e)) input s)"

definition ExecuteToolOnServer :: "(string \<Rightarrow> string) \<Rightarrow> 's McpManager \<Rightarrow> string \<Rightarrow> string \<Rightarrow> args \<Rightarrow> 's \<Rightarrow> 's \<times> (tool_error + string)" where
  "ExecuteToolOnServer quote m serverName toolName input s = (
     if toolName = [] then (s, Inl (Plain ''mcp: ExecuteToolOnServer: empty tool name''))
     else if pluginToolLoadTypes m serverName \<noteq> None
       \<and> list_ex (\<lambda>e. E_serverName e = serverName \<and> Tl_Name (E_tool e) = toolName \<and> opt_in m (E_uniformName e))
           (map (entry_at m) (reg_tools m))
     then (s, Inl (Plain (''plugin tool '' @ quote toolName @ '' requires explicit opt-in'')))
     else call_on quote m serverName toolName input s)"

record ServerInfo =
  SI_Name :: string
  SI_ToolCount :: nat
  SI_Connected :: bool
  SI_TrustTier :: string
  SI_Warnings :: "DiscoveryWarning list"

definition ListServers :: "'s McpManager \<Rightarrow> ServerInfo list" where
  "ListServers m = map (\<lambda>name. \<lparr>SI_Name = name,
      SI_ToolCount = length (filter (\<lambda>a. E_serverName (entry_at m a) = name) (reg_tools m)), SI_Connected = True,
      SI_TrustTier = tierForLocked m name,
      SI_Warnings = filter (\<lambda>w. Dw_ServerName w = name) (discoveryWarnings m)\<rparr>) (map fst (servers m))"

section \<open>The registry is consistent\<close>

text \<open>
  Every name of the index leads to a listed entry that bears that name, and every listed entry belongs to a
  registered server. Entries that lost their name stay listed.
\<close>

definition reg_ok :: "'s McpManager \<Rightarrow> bool" where
  "reg_ok m \<longleftrightarrow> distinct (map fst (servers m)) \<and> distinct (reg_tools m)
     \<and> (\<forall>a\<in>set (reg_tools m). a < length (heap m) \<and> E_serverName (entry_at m a) \<in> fst ` set (servers m))
     \<and> (\<forall>n a. uniformIndex m n = Some a \<longrightarrow> a \<in> set (reg_tools m) \<and> E_uniformName (entry_at m a) = n)"

lemma reg_okI [intro?]:
  assumes "distinct (map fst (servers m))" "distinct (reg_tools m)"
    and "\<And>a. a \<in> set (reg_tools m) \<Longrightarrow> a < length (heap m) \<and> E_serverName (entry_at m a) \<in> fst ` set (servers m)"
    and "\<And>n a. uniformIndex m n = Some a \<Longrightarrow> a \<in> set (reg_tools m) \<and> E_uniformName (entry_at m a) = n"
  shows "reg_ok m"
  using assms by (auto simp: reg_ok_def)

lemma reg_okD:
  assumes "reg_ok m"
  shows "distinct (map fst (servers m))" "distinct (reg_tools m)"
    and "a \<in> set (reg_tools m) \<Longrightarrow> a < length (heap m) \<and> E_serverName (entry_at m a) \<in> fst ` set (servers m)"
    and "uniformIndex m n = Some a \<Longrightarrow> a \<in> set (reg_tools m) \<and> E_uniformName (entry_at m a) = n"
  using assms by (auto simp: reg_ok_def)

lemma entry_at_simps [simp]:
  "entry_at (m\<lparr>discoveryWarnings := ws\<rparr>) = entry_at m" "entry_at (m\<lparr>reg_tools := ts\<rparr>) = entry_at m"
  "entry_at (m\<lparr>uniformIndex := i\<rparr>) = entry_at m"
  by (simp_all add: entry_at_def fun_eq_iff)

lemma warning_frame [simp]:
  "servers (add_warning a b c m) = servers m" "heap (add_warning a b c m) = heap m"
  "reg_tools (add_warning a b c m) = reg_tools m" "uniformIndex (add_warning a b c m) = uniformIndex m"
  "entry_at (add_warning a b c m) = entry_at m" "serverTiers (add_warning a b c m) = serverTiers m"
  "firstPartyBuiltinNames (add_warning a b c m) = firstPartyBuiltinNames m"
  "pluginToolLoadTypes (add_warning a b c m) = pluginToolLoadTypes m"
  "discoveryWarnings (add_warning a b c m) = discoveryWarnings m @ [\<lparr>Dw_ServerName = a, Dw_ToolName = b, Dw_Reason = c\<rparr>]"
  by (simp_all add: add_warning_def)

lemma reg_ok_warning [simp]: "reg_ok (add_warning a b c m) = reg_ok m"
  by (simp add: reg_ok_def)

lemma rename_frame [simp]:
  "servers (rename_entry b a d m) = servers m" "reg_tools (rename_entry b a d m) = reg_tools m"
  "serverTiers (rename_entry b a d m) = serverTiers m"
  "firstPartyBuiltinNames (rename_entry b a d m) = firstPartyBuiltinNames m"
  "discoveryWarnings (rename_entry b a d m) = discoveryWarnings m"
  "length (heap (rename_entry b a d m)) = length (heap m)"
  "uniformIndex (rename_entry b a d m) = (uniformIndex m)(b := None, d \<mapsto> a)"
  by (simp_all add: rename_entry_def)

lemma entry_at_rename:
  "a < length (heap m) \<Longrightarrow> entry_at (rename_entry b a d m) x = (if x = a then (entry_at m a)\<lparr>E_uniformName := d\<rparr> else entry_at m x)"
  by (simp add: rename_entry_def entry_at_def nth_list_update)

lemma reg_ok_rename:
  assumes "reg_ok m" "uniformIndex m b = Some a" "uniformIndex m d = None \<or> d = b"
  shows "reg_ok (rename_entry b a d m)"
proof
  have a: "a \<in> set (reg_tools m)" "a < length (heap m)" using reg_okD [OF assms(1)] assms(2) by blast+
  show "distinct (map fst (servers (rename_entry b a d m)))" "distinct (reg_tools (rename_entry b a d m))"
    using reg_okD [OF assms(1)] by simp_all
  show "x < length (heap (rename_entry b a d m)) \<and> E_serverName (entry_at (rename_entry b a d m) x) \<in> fst ` set (servers (rename_entry b a d m))"
    if "x \<in> set (reg_tools (rename_entry b a d m))" for x
    using that reg_okD(3) [OF assms(1), of x] a by (auto simp: entry_at_rename)
  show "x \<in> set (reg_tools (rename_entry b a d m)) \<and> E_uniformName (entry_at (rename_entry b a d m) x) = n"
    if "uniformIndex (rename_entry b a d m) n = Some x" for n x
    using that reg_okD(4) [OF assms(1)] assms(2) a by (auto simp: entry_at_rename split: if_splits)
qed

lemma entry_at_insert: "entry_at (insert_entry e m) a = (if a < length (heap m) then entry_at m a else ([e] ! (a - length (heap m))))"
  by (simp add: insert_entry_def entry_at_def nth_append)

lemma insert_frame [simp]:
  "servers (insert_entry e m) = servers m" "serverTiers (insert_entry e m) = serverTiers m"
  "firstPartyBuiltinNames (insert_entry e m) = firstPartyBuiltinNames m"
  "discoveryWarnings (insert_entry e m) = discoveryWarnings m" "heap (insert_entry e m) = heap m @ [e]"
  "reg_tools (insert_entry e m) = reg_tools m @ [length (heap m)]"
  "uniformIndex (insert_entry e m) = (uniformIndex m)(E_uniformName e \<mapsto> length (heap m))"
  by (simp_all add: insert_entry_def)

lemma reg_ok_insert:
  assumes "reg_ok m" "E_serverName e \<in> fst ` set (servers m)"
  shows "reg_ok (insert_entry e m)"
proof
  have lt: "x < length (heap m)" if "x \<in> set (reg_tools m)" for x using reg_okD(3) [OF assms(1) that] by simp
  show "distinct (map fst (servers (insert_entry e m)))" "distinct (reg_tools (insert_entry e m))"
    using reg_okD [OF assms(1)] lt by auto
  show "x < length (heap (insert_entry e m)) \<and> E_serverName (entry_at (insert_entry e m) x) \<in> fst ` set (servers (insert_entry e m))"
    if "x \<in> set (reg_tools (insert_entry e m))" for x
    using that reg_okD(3) [OF assms(1), of x] assms(2)
    by (cases "x = length (heap m)") (simp_all add: entry_at_insert less_SucI)
  show "x \<in> set (reg_tools (insert_entry e m)) \<and> E_uniformName (entry_at (insert_entry e m) x) = n"
    if "uniformIndex (insert_entry e m) n = Some x" for n x
    using that reg_okD(4) [OF assms(1), of n x] lt by (auto simp: entry_at_insert split: if_splits)
qed

section \<open>Discovery extends the registry\<close>

text \<open>A name is held if it leads to an entry of a reserved server.\<close>

definition held :: "'s McpManager \<Rightarrow> string \<Rightarrow> bool" where
  "held m n = (\<exists>e. lookup_entry m n = Some e \<and> reserved_server m (E_serverName e) (Tl_Name (E_tool e)))"

definition extends :: "string set \<Rightarrow> 's McpManager \<Rightarrow> 's McpManager \<Rightarrow> bool" where
  "extends X m m' \<longleftrightarrow> servers m' = servers m \<and> serverTiers m' = serverTiers m
     \<and> firstPartyBuiltinNames m' = firstPartyBuiltinNames m \<and> reg_ok m'
     \<and> (\<forall>n. n \<notin> X \<longrightarrow> held m n \<longrightarrow> held m' n) \<and> set (discoveryWarnings m) \<subseteq> set (discoveryWarnings m')"

lemma extends_refl: "reg_ok m \<Longrightarrow> extends X m m"
  by (simp add: extends_def)

lemma extends_trans: "extends X m m1 \<Longrightarrow> extends X m1 m2 \<Longrightarrow> extends X m m2"
  by (auto simp: extends_def)

lemma extends_mono: "extends X m m' \<Longrightarrow> X \<subseteq> Y \<Longrightarrow> extends Y m m'"
  by (auto simp: extends_def)

lemma extends_restore: "extends {b} m m' \<Longrightarrow> held m' b \<Longrightarrow> extends {} m m'"
  by (auto simp: extends_def)

lemma reserved_cong: "firstPartyBuiltinNames m' = firstPartyBuiltinNames m \<Longrightarrow> reserved_server m' = reserved_server m"
  by (simp add: reserved_server_def isFirstPartyBuiltinServerLocked_def fun_eq_iff)

lemma held_warning [simp]: "held (add_warning a b c m) n = held m n"
  by (simp add: held_def lookup_entry_def reserved_server_def isFirstPartyBuiltinServerLocked_def)

lemma extends_warning: "reg_ok m \<Longrightarrow> extends X m (add_warning a b c m)"
  by (auto simp: extends_def)

lemma extends_warnings: "reg_ok m \<Longrightarrow> extends X m (warn_all f s ves m)"
proof (induction ves arbitrary: m)
  case (Cons v ves)
  have "extends X m (add_warning s (f v) (V_Field v) m)" using Cons(2) by (rule extends_warning)
  moreover have "extends X (add_warning s (f v) (V_Field v) m) (warn_all f s ves (add_warning s (f v) (V_Field v) m))"
    using Cons by simp
  ultimately have "extends X m (warn_all f s ves (add_warning s (f v) (V_Field v) m))" by (rule extends_trans)
  then show ?case by (simp add: warn_all_def)
qed (simp add: warn_all_def extends_refl)

lemma held_at: "held m n \<longleftrightarrow> (\<exists>a. uniformIndex m n = Some a
    \<and> reserved_server m (E_serverName (entry_at m a)) (Tl_Name (E_tool (entry_at m a))))"
  by (auto simp: held_def lookup_entry_def)

lemma extends_rename:
  assumes "reg_ok m" "uniformIndex m b = Some a" "uniformIndex m d = None \<or> d = b"
    and "\<not> held m b \<or> b \<in> X"
  shows "extends X m (rename_entry b a d m)"
proof -
  have a: "a < length (heap m)" using reg_okD [OF assms(1)] assms(2) by blast
  have "held (rename_entry b a d m) n" if n: "held m n" "n \<notin> X" for n
  proof -
    from n(1) obtain x where x: "uniformIndex m n = Some x" "reserved_server m (E_serverName (entry_at m x)) (Tl_Name (E_tool (entry_at m x)))"
      by (auto simp: held_at)
    have "uniformIndex (rename_entry b a d m) n = Some x" using assms n x by auto
    then show ?thesis using x a
      by (auto simp: held_at entry_at_rename reserved_cong [of "rename_entry b a d m" m])
  qed
  then show ?thesis using reg_ok_rename [OF assms(1-3)] by (simp add: extends_def)
qed

lemma extends_insert:
  assumes "reg_ok m" "E_serverName e \<in> fst ` set (servers m)"
    and "\<not> held m (E_uniformName e) \<or> E_uniformName e \<in> X"
  shows "extends X m (insert_entry e m)"
proof -
  have "held (insert_entry e m) n" if n: "held m n" "n \<notin> X" for n
  proof -
    from n(1) obtain x where x: "uniformIndex m n = Some x" "reserved_server m (E_serverName (entry_at m x)) (Tl_Name (E_tool (entry_at m x)))"
      by (auto simp: held_at)
    have "x < length (heap m)" using reg_okD [OF assms(1)] x(1) by blast
    with x n assms(3) show ?thesis
      by (auto simp: held_at entry_at_insert reserved_cong [of "insert_entry e m" m])
  qed
  then show ?thesis using reg_ok_insert [OF assms(1,2)] by (simp add: extends_def)
qed

lemma held_inserted:
  assumes "reserved_server m (E_serverName e) (Tl_Name (E_tool e))"
  shows "held (insert_entry e m) (E_uniformName e)"
  using assms by (auto simp: held_at entry_at_insert reserved_cong [of "insert_entry e m" m])

text \<open>What \<^verbatim>\<open>assignUniformNameLocked\<close> gives: an extended registry and a name that may be taken.\<close>

lemma own_name:
  assumes "reg_ok m" "uniformIndex m bare = Some a" "uniformIndex m d = None \<or> E_uniformName (entry_at m a) = d"
  shows "uniformIndex m d = None \<or> d = bare"
  using reg_okD(4) [OF assms(1,2)] assms(3) by auto

lemma renamed_extends:
  assumes "reg_ok m" "uniformIndex m b = Some a" "uniformIndex m d = None \<or> E_uniformName (entry_at m a) = d"
    and "\<not> held m b \<or> b \<in> X"
  shows "extends X m (add_warning p q r (rename_entry b a d m))"
proof -
  have "extends X m (rename_entry b a d m)"
    using assms own_name [OF assms(1-3)] by (intro extends_rename)
  moreover from this have "extends X (rename_entry b a d m) (add_warning p q r (rename_entry b a d m))"
    by (intro extends_warning) (simp add: extends_def)
  ultimately show ?thesis by (rule extends_trans)
qed

lemma claim_bare_extends:
  assumes "reg_ok m" "claim_bare srv bare m = (m1, u)"
  shows "extends {bare} m m1 \<and> (u = [] \<or> u = bare) \<and> (u = [] \<longrightarrow> bare = [] \<or> m1 = m)"
  using assms renamed_extends [OF assms(1), of bare]
  by (auto simp: claim_bare_def Let_def extends_refl split: option.splits if_splits)

lemma assign_reserved:
  assumes "reg_ok m" "assignUniformNameLocked srv tool m = (m1, u)" "reserved_server m srv tool"
  shows "extends {UniformToolName srv tool} m m1 \<and> (u = UniformToolName srv tool \<or> u = [] \<and> m1 = m)"
  using assms claim_bare_extends [OF assms(1)]
  by (auto simp: assignUniformNameLocked_def Let_def extends_refl split: if_splits)

lemma not_held_free: "uniformIndex m n = None \<Longrightarrow> \<not> held m n"
  by (simp add: held_at)

lemma disambiguated_Nil: "DisambiguatedToolName srv tool = [] \<longleftrightarrow> UniformToolName srv tool = []"
  by (auto simp: DisambiguatedToolName_def Let_def UniformToolName_def)

lemma HasServer_iff: "HasServer m name \<longleftrightarrow> name \<in> fst ` set (servers m)"
  by (simp add: HasServer_def map_of_eq_None_iff)

lemma assign_other:
  assumes "reg_ok m" "assignUniformNameLocked srv tool m = (m1, u)" "\<not> reserved_server m srv tool"
  shows "extends {} m m1 \<and> (u = [] \<or> \<not> held m1 u)"
proof (cases "uniformIndex m (UniformToolName srv tool)")
  case None
  with assms show ?thesis
    by (auto simp: assignUniformNameLocked_def Let_def extends_refl not_held_free split: if_splits)
next
  case (Some a)
  let ?bare = "UniformToolName srv tool" and ?e = "entry_at m a"
  let ?d = "DisambiguatedToolName (E_serverName ?e) (Tl_Name (E_tool ?e))" and ?mine = "DisambiguatedToolName srv tool"
  show ?thesis
  proof (cases "u = [] \<or> reserved_server m (E_serverName ?e) (Tl_Name (E_tool ?e))")
    case True
    with assms Some show ?thesis
      by (auto simp: assignUniformNameLocked_def Let_def extends_refl not_held_free disambiguated_Nil split: if_splits)
  next
    case False
    define m2 where "m2 = add_warning (E_serverName ?e) (Tl_Name (E_tool ?e)) ''uniform_name_collision_disambiguated''
      (rename_entry ?bare a ?d m)"
    from False assms Some have u: "u = ?mine" "uniformIndex m ?mine = None"
      "uniformIndex m ?d = None \<or> E_uniformName ?e = ?d"
      "m1 = add_warning srv tool ''uniform_name_collision_disambiguated'' m2"
      by (auto simp: assignUniformNameLocked_def Let_def m2_def split: if_splits)
    have nh: "\<not> held m ?bare" using False Some by (simp add: held_at)
    then have 1: "extends {} m m2" unfolding m2_def using assms(1) Some u(3) by (intro renamed_extends) simp_all
    then have "extends {} m2 m1" unfolding u(4) by (intro extends_warning) (simp add: extends_def)
    with 1 have "extends {} m m1" by (rule extends_trans)
    moreover have "a < length (heap m)" using reg_okD [OF assms(1)] Some by blast
    then have "\<not> held m1 u" using u False
      by (auto simp: held_at m2_def entry_at_rename reserved_cong [of m1 m] rename_entry_def [THEN arg_cong, of firstPartyBuiltinNames]
          reserved_server_def isFirstPartyBuiltinServerLocked_def split: if_splits)
    ultimately show ?thesis by blast
  qed
qed

lemma register_extends:
  assumes ok: "reg_ok m" and reg: "HasServer m name"
  shows "extends {} m (register_tool name t m)"
    and "reserved_server m name (Tl_Name t) \<Longrightarrow> held (register_tool name t m) (UniformToolName name (Tl_Name t))
      \<or> \<lparr>Dw_ServerName = name, Dw_ToolName = Tl_Name t, Dw_Reason = ''uniform_name_collision''\<rparr>
          \<in> set (discoveryWarnings (register_tool name t m))"
proof -
  let ?bare = "UniformToolName name (Tl_Name t)"
  obtain m1 u where a: "assignUniformNameLocked name (Tl_Name t) m = (m1, u)" by fastforce
  define m2 where "m2 = (if u \<noteq> Tl_Name t \<and> name = SelfServerName then add_warning name (Tl_Name t) ''self_tool_renamed'' m1 else m1)"
  define e where "e = \<lparr>E_serverName = name, E_uniformName = u, E_tool = t\<rparr>"
  have r: "register_tool name t m = (if u = [] then add_warning name (Tl_Name t) ''uniform_name_collision'' m1 else insert_entry e m2)"
    using a by (simp add: register_tool_def m2_def e_def)
  have ext: "extends X m m2 \<and> reg_ok m1 \<and> reg_ok m2" if "extends X m m1" for X
    using that extends_warning [of m1 X] by (auto simp: m2_def extends_def)
  have srv: "E_serverName e \<in> fst ` set (servers m2)" if "extends X m m1" for X
    using that reg unfolding e_def m2_def extends_def HasServer_iff by (cases "name = SelfServerName") simp_all
  have drop: "extends {} m (add_warning name (Tl_Name t) ''uniform_name_collision'' m1)" if "extends {} m m1"
    using that extends_trans extends_warning ext by blast
  have in1: "held (insert_entry e m2) u" if "extends X m m1" "reserved_server m name (Tl_Name t)" for X
    using that held_inserted [of m2 e] reserved_cong [of m2 m] by (simp add: m2_def e_def extends_def)
  show "extends {} m (register_tool name t m)"
  proof (cases "reserved_server m name (Tl_Name t)")
    case True
    from assign_reserved [OF ok a True] have m1: "extends {?bare} m m1" "u = ?bare \<or> u = [] \<and> m1 = m" by blast+
    show ?thesis
    proof (cases "u = []")
      case u: True
      with a ok m1(2) have "m1 = m" by (auto simp: assignUniformNameLocked_def Let_def)
      then show ?thesis using u ok by (simp add: r extends_warning)
    next
      case False
      then have "extends {?bare} m2 (insert_entry e m2)"
        using m1 ext [OF m1(1)] srv [OF m1(1)] by (intro extends_insert) (auto simp: e_def)
      then have "extends {?bare} m (insert_entry e m2)" using ext [OF m1(1)] extends_trans by blast
      then show ?thesis using in1 [OF m1(1) True] False m1(2) extends_restore by (simp add: r)
    qed
  next
    case False
    from assign_other [OF ok a False] have m1: "extends {} m m1" "u = [] \<or> \<not> held m1 u" by blast+
    have "extends {} m2 (insert_entry e m2)" if "u \<noteq> []"
      using that m1 ext [OF m1(1)] srv [OF m1(1)] by (intro extends_insert) (auto simp: e_def m2_def)
    then show ?thesis using drop [OF m1(1)] ext [OF m1(1)] extends_trans by (auto simp: r)
  qed
  show "held (register_tool name t m) ?bare \<or> \<lparr>Dw_ServerName = name, Dw_ToolName = Tl_Name t, Dw_Reason = ''uniform_name_collision''\<rparr>
          \<in> set (discoveryWarnings (register_tool name t m))" if "reserved_server m name (Tl_Name t)"
    using assign_reserved [OF ok a that] in1 [OF _ that] by (auto simp: r)
qed

lemma discover_tool_extends:
  assumes "reg_ok m" "HasServer m name"
  shows "extends {} m (fst (discover_tool name tier (m, seen) t))"
  using assms by (simp add: discover_tool_def extends_refl extends_warnings register_extends)

lemma extends_HasServer: "extends X m m' \<Longrightarrow> HasServer m' = HasServer m"
  by (simp add: extends_def HasServer_def fun_eq_iff)

lemma extends_ok: "extends X m m' \<Longrightarrow> reg_ok m'"
  by (simp add: extends_def)

lemma discover_tools_extends:
  assumes "reg_ok m" "HasServer m name"
  shows "extends {} m (fst (foldl (discover_tool name tier) (m, seen) ts))"
  using assms
proof (induction ts arbitrary: m seen)
  case (Cons t ts)
  obtain m1 seen1 where d: "discover_tool name tier (m, seen) t = (m1, seen1)" by fastforce
  then have 1: "extends {} m m1" using discover_tool_extends [OF Cons(2,3), of tier seen t] by simp
  then have "extends {} m1 (fst (foldl (discover_tool name tier) (m1, seen1) ts))"
    using Cons extends_ok extends_HasServer by metis
  with 1 d show ?case using extends_trans by fastforce
qed (simp add: extends_refl)

lemma discover_listed_extends:
  assumes "reg_ok m" "HasServer m name"
  shows "extends {} m (discover_listed name ts m)"
proof -
  have "extends {} m (warn_all V_Value name (ValidateToolSet (tierForLocked m name) ts) m)" (is "extends {} m ?m1")
    using assms(1) by (rule extends_warnings)
  moreover from this have "extends {} ?m1 (discover_listed name ts m)"
    unfolding discover_listed_def Let_def using assms(2)
    by (intro discover_tools_extends) (auto dest: extends_ok extends_HasServer)
  ultimately show ?thesis by (rule extends_trans)
qed

lemma discover_server_extends:
  assumes "reg_ok m"
  shows "extends {} m (fst (discover_server (m, s) name))"
  using assms discover_listed_extends [OF assms, of name]
  by (auto simp: discover_server_def extends_refl HasServer_def split: option.splits prod.splits sum.splits)

lemma discover_servers_extends:
  assumes "reg_ok m"
  shows "extends {} m (fst (foldl discover_server (m, s) names))"
  using assms
proof (induction names arbitrary: m s)
  case (Cons n names)
  obtain m1 s1 where d: "discover_server (m, s) n = (m1, s1)" by fastforce
  then have 1: "extends {} m m1" using discover_server_extends [OF Cons(2), of s n] by simp
  with Cons(1) [of m1 s1] d show ?case using extends_ok extends_trans by fastforce
qed (simp add: extends_refl)

text \<open>The tool of a reserved server keeps its name or is reported as dropped, from its registration on.\<close>

definition kept :: "'s McpManager \<Rightarrow> string \<Rightarrow> string \<Rightarrow> bool" where
  "kept m name tool \<longleftrightarrow> held m (UniformToolName name tool)
     \<or> \<lparr>Dw_ServerName = name, Dw_ToolName = tool, Dw_Reason = ''uniform_name_collision''\<rparr> \<in> set (discoveryWarnings m)"

lemma kept_mono: "extends {} m m' \<Longrightarrow> kept m name tool \<Longrightarrow> kept m' name tool"
  by (auto simp: extends_def kept_def)

lemma seen_after: "set (snd (foldl (discover_tool name tier) (m, seen) ts)) = set seen \<union> Tl_Name ` set ts"
proof (induction ts arbitrary: m seen)
  case (Cons t ts)
  obtain m1 seen1 where d: "discover_tool name tier (m, seen) t = (m1, seen1)" by fastforce
  then have "set seen1 = insert (Tl_Name t) (set seen)" by (auto simp: discover_tool_def split: if_splits)
  with Cons d show ?case by auto
qed simp

lemma listed_kept:
  assumes "reg_ok m" "HasServer m name" "distinct (map Tl_Name ts)" "t \<in> set ts"
    and "reserved_server m name (Tl_Name t)" "ValidateToolMeta (tierForLocked m name) t = []"
  shows "kept (discover_listed name ts m) name (Tl_Name t)"
proof -
  let ?tier = "tierForLocked m name"
  obtain xs ys where ts: "ts = xs @ t # ys" using assms(4) by (meson split_list)
  define m1 where "m1 = warn_all V_Value name (ValidateToolSet ?tier ts) m"
  obtain m2 seen where d: "foldl (discover_tool name ?tier) (m1, []) xs = (m2, seen)" by fastforce
  have e1: "extends {} m m1" unfolding m1_def using assms(1) by (rule extends_warnings)
  have e2: "extends {} m1 m2"
    using discover_tools_extends [of m1 name ?tier "[]" xs] e1 assms(2) d by (metis extends_HasServer extends_ok fst_conv)
  then have m2: "reg_ok m2" "HasServer m2 name" "reserved_server m2 name (Tl_Name t)"
    using extends_trans [OF e1 e2] assms(2,5) reserved_cong [of m2 m] by (auto simp: extends_def HasServer_def)
  have "Tl_Name t \<notin> set seen" using seen_after [of name ?tier m1 "[]" xs] d assms(3) ts by auto
  then have s: "discover_tool name ?tier (m2, seen) t = (register_tool name t m2, Tl_Name t # seen)"
    using assms(6) by (simp add: discover_tool_def)
  have "extends {} (register_tool name t m2) (fst (foldl (discover_tool name ?tier) (register_tool name t m2, Tl_Name t # seen) ys))"
    using register_extends(1) [OF m2(1,2), of t] m2(2) by (intro discover_tools_extends) (auto dest: extends_ok extends_HasServer)
  moreover have "kept (register_tool name t m2) name (Tl_Name t)"
    using register_extends(2) [OF m2(1,2,3)] by (simp add: kept_def)
  ultimately have "kept (fst (foldl (discover_tool name ?tier) (register_tool name t m2, Tl_Name t # seen) ys)) name (Tl_Name t)"
    by (rule kept_mono)
  then show ?thesis using d s by (simp add: discover_listed_def Let_def ts m1_def [symmetric])
      (simp add: m1_def ts)
qed

definition cleared :: "'s McpManager \<Rightarrow> 's McpManager" where
  "cleared m = m\<lparr>reg_tools := [], uniformIndex := Map.empty, discoveryWarnings := []\<rparr>"

lemma DiscoverTools_cleared: "DiscoverTools m s = foldl discover_server (cleared m, s) (sort (map fst (servers m)))"
  by (simp add: DiscoverTools_def cleared_def)

lemma reg_ok_cleared: "reg_ok m \<Longrightarrow> reg_ok (cleared m)"
  by (simp add: reg_ok_def cleared_def)

lemma cleared_frame [simp]:
  "servers (cleared m) = servers m" "serverTiers (cleared m) = serverTiers m"
  "firstPartyBuiltinNames (cleared m) = firstPartyBuiltinNames m" "HasServer (cleared m) = HasServer m"
  by (simp_all add: cleared_def HasServer_def fun_eq_iff)

lemma discovered_extends: "reg_ok m \<Longrightarrow> extends {} (cleared m) (fst (DiscoverTools m s))"
  unfolding DiscoverTools_cleared by (rule discover_servers_extends) (rule reg_ok_cleared)

lemma discovered_kept:
  assumes "reg_ok m" "map_of (servers m) b = Some tr" "\<And>s0. \<exists>s1. tr_list tr s0 = (s1, Inr ts)"
    and "distinct (map Tl_Name ts)" "t \<in> set ts" "ValidateToolMeta (tierForLocked m b) t = []"
    and "reserved_server m b (Tl_Name t)"
  shows "kept (fst (DiscoverTools m s)) b (Tl_Name t)"
proof -
  have "b \<in> set (sort (map fst (servers m)))" using assms(2) by (force dest: map_of_SomeD)
  then obtain xs ys where names: "sort (map fst (servers m)) = xs @ b # ys" by (meson split_list)
  obtain m1 s1 where d: "foldl discover_server (cleared m, s) xs = (m1, s1)" by fastforce
  have e: "extends {} (cleared m) m1"
    using discover_servers_extends [OF reg_ok_cleared [OF assms(1)], of s xs] d by simp
  then have eq: "servers m1 = servers m" "serverTiers m1 = serverTiers m" "firstPartyBuiltinNames m1 = firstPartyBuiltinNames m" "reg_ok m1"
    by (simp_all add: extends_def)
  obtain s2 where s2: "tr_list tr s1 = (s2, Inr ts)" using assms(3) by blast
  have l: "discover_server (m1, s1) b = (discover_listed b ts m1, s2)"
    using eq(1) assms(2) s2 by (simp add: discover_server_def)
  have "kept (discover_listed b ts m1) b (Tl_Name t)"
    using eq assms by (intro listed_kept) (auto simp: HasServer_def tierForLocked_def reserved_cong [OF eq(3)])
  moreover have "extends {} (discover_listed b ts m1) (fst (foldl discover_server (discover_listed b ts m1, s2) ys))"
    using eq assms(2) by (intro discover_servers_extends extends_ok [OF discover_listed_extends]) (auto simp: HasServer_def)
  ultimately show ?thesis using kept_mono d l by (simp add: DiscoverTools_cleared names)
qed

section \<open>Histories\<close>

datatype 's mcp_op =
    OpAddServer string "'s transport option" TrustTier
  | OpAddBuiltin string "'s transport option"
  | OpAddPlugin string string "'s transport option"
  | OpPluginTools string "string option" string "tool_error + 's transport \<times> Tool list"
  | OpRemove string
  | OpRemovePlugin string
  | OpPreferences "string \<rightharpoonup> string"
  | OpDiscover

fun mcp_apply :: "(string \<Rightarrow> string) \<Rightarrow> 's McpManager \<times> 's \<Rightarrow> 's mcp_op \<Rightarrow> 's McpManager \<times> 's" where
  "mcp_apply q (m, s) (OpAddServer n tr tier) = (fst (AddServer q n tr tier m), s)"
| "mcp_apply q (m, s) (OpAddBuiltin n tr) = (fst (AddBuiltinServer q n tr m), s)"
| "mcp_apply q (m, s) (OpAddPlugin p n tr) = (fst (AddPluginServer q p n tr m), s)"
| "mcp_apply q (m, s) (OpPluginTools p c l made) = (fst (AddPluginTools q p c l made m), s)"
| "mcp_apply q (m, s) (OpRemove n) = (RemoveServer n m, s)"
| "mcp_apply q (m, s) (OpRemovePlugin p) = (fst (RemoveServersByPlugin p m), s)"
| "mcp_apply q (m, s) (OpPreferences f) = (SetToolLoadPreferences f m, s)"
| "mcp_apply q (m, s) OpDiscover = DiscoverTools m s"

lemma reg_ok_fields [simp]:
  "reg_ok (m\<lparr>serverTiers := x1\<rparr>) = reg_ok m" "reg_ok (m\<lparr>firstPartyBuiltinNames := x2\<rparr>) = reg_ok m"
  "reg_ok (m\<lparr>pluginServers := x3\<rparr>) = reg_ok m" "reg_ok (m\<lparr>pluginToolLoadTypes := x4\<rparr>) = reg_ok m"
  "reg_ok (m\<lparr>toolLoadPreferences := x5\<rparr>) = reg_ok m"
  by (simp_all add: reg_ok_def entry_at_def)

lemma reg_ok_new_server: "reg_ok m \<Longrightarrow> \<not> HasServer m n \<Longrightarrow> reg_ok (m\<lparr>servers := (n, tr) # servers m\<rparr>)"
  by (auto simp: reg_ok_def HasServer_iff entry_at_def)

lemma reg_ok_AddServer: "reg_ok m \<Longrightarrow> AddServer q n tr tier m = (m', e) \<Longrightarrow> reg_ok m'"
  by (auto simp: AddServer_def reg_ok_new_server split: option.splits if_splits)

lemma reg_ok_AddBuiltinServer: "reg_ok m \<Longrightarrow> reg_ok (fst (AddBuiltinServer q n tr m))"
  by (auto simp: AddBuiltinServer_def split: prod.splits option.splits dest: reg_ok_AddServer)

lemma reg_ok_AddPluginServer: "reg_ok m \<Longrightarrow> reg_ok (fst (AddPluginServer q p n tr m))"
  by (auto simp: AddPluginServer_def split: prod.splits option.splits dest: reg_ok_AddServer)

lemma forget_names_apply: "forget_names ns idx n = (if n \<in> set ns then None else idx n)"
  by (induction ns arbitrary: idx) (auto simp: forget_names_def)

lemma distinct_fst_filter: "distinct (map fst xs) \<Longrightarrow> distinct (map fst (filter P xs))"
  by (induction xs) auto

lemma reg_ok_RemoveServer:
  assumes "reg_ok m"
  shows "reg_ok (RemoveServer n m)"
proof (cases "HasServer m n")
  case True
  let ?m = "RemoveServer n m"
  have f: "servers ?m = filter (\<lambda>x. fst x \<noteq> n) (servers m)" "heap ?m = heap m"
    "reg_tools ?m = filter (\<lambda>a. E_serverName (entry_at m a) \<noteq> n) (reg_tools m)" "entry_at ?m = entry_at m"
    "\<And>k a. uniformIndex ?m k = Some a \<Longrightarrow> uniformIndex m k = Some a
      \<and> k \<notin> (\<lambda>a. E_uniformName (entry_at m a)) ` {a \<in> set (reg_tools m). E_serverName (entry_at m a) = n}"
    using True by (auto simp: RemoveServer_def forget_names_apply entry_at_def split: if_splits)
  show ?thesis
  proof
    show "distinct (map fst (servers ?m))" "distinct (reg_tools ?m)"
      using reg_okD(1,2) [OF assms] by (simp_all add: f distinct_fst_filter)
    show "a < length (heap ?m) \<and> E_serverName (entry_at ?m a) \<in> fst ` set (servers ?m)" if "a \<in> set (reg_tools ?m)" for a
      using that reg_okD(3) [OF assms, of a] by (force simp: f(1-4))
    show "a \<in> set (reg_tools ?m) \<and> E_uniformName (entry_at ?m a) = k" if "uniformIndex ?m k = Some a" for k a
      using f(5) [OF that] reg_okD(4) [OF assms, of k a] by (auto simp: f(3,4))
  qed
qed (simp add: RemoveServer_def assms)

lemma reg_ok_removes: "reg_ok m \<Longrightarrow> reg_ok (foldl (\<lambda>m n. RemoveServer n m) m ns)"
  by (induction ns arbitrary: m) (auto simp: reg_ok_RemoveServer)

lemma reg_ok_RemoveServersByPlugin: "reg_ok m \<Longrightarrow> reg_ok (fst (RemoveServersByPlugin p m))"
  by (simp add: RemoveServersByPlugin_def Let_def reg_ok_removes)

lemma reg_ok_inserts:
  "reg_ok m \<Longrightarrow> srv \<in> fst ` set (servers m)
    \<Longrightarrow> reg_ok (foldl (\<lambda>m t. insert_entry \<lparr>E_serverName = srv, E_uniformName = Tl_Name t, E_tool = t\<rparr> m) m ts)"
  by (induction ts arbitrary: m) (simp_all add: reg_ok_insert)

lemma reg_ok_AddPluginTools: "reg_ok m \<Longrightarrow> reg_ok (fst (AddPluginTools q p c l made m))"
  by (auto simp: AddPluginTools_def Let_def reg_ok_new_server split: sum.splits option.splits intro!: reg_ok_inserts)

lemma reg_ok_DiscoverTools: "reg_ok m \<Longrightarrow> reg_ok (fst (DiscoverTools m s))"
  by (rule extends_ok [OF discovered_extends])

interpretation mcp: invariant_machine "(NewMcpManager, s)" "mcp_apply q" "\<lambda>_. True" "\<lambda>ms. reg_ok (fst ms)" for s q
proof
  show "reg_ok (fst (NewMcpManager, s))" by (simp add: NewMcpManager_def reg_ok_def)
  show "reg_ok (fst (mcp_apply q ms x))" if "reg_ok (fst ms)" for ms x
    using that
    by (cases ms; cases x) (auto simp: reg_ok_AddBuiltinServer reg_ok_AddPluginServer reg_ok_AddPluginTools reg_ok_RemoveServer
        reg_ok_RemoveServersByPlugin SetToolLoadPreferences_def reg_ok_DiscoverTools intro: reg_ok_AddServer prod.collapse [symmetric])
qed

lemma tool_name_char_solid: "tool_name_char c \<Longrightarrow> solid c"
  by (auto simp: tool_name_char_def solid_def ascii_byte_lt ascii_space_def between_def)

lemma TrimSpace_name:
  assumes "list_all tool_name_char s"
  shows "TrimSpace s = s"
proof (cases "s = []")
  case True
  then show ?thesis by (simp add: TrimSpace_def)
next
  case False
  then obtain c u v d where s: "s = c # u" "s = v @ [d]" by (metis neq_Nil_conv rev_exhaust)
  then have "solid c" "solid d" using assms tool_name_char_solid by (metis list.pred_inject(2), metis list_all_append list.pred_inject(2))
  from TrimSpace_around [OF this s, of "[]" "[]"] show ?thesis by simp
qed

lemma valid_reserved:
  assumes "ValidateToolMeta tier t = []" "firstPartyBuiltinNames m b \<or> b = SelfServerName"
  shows "reserved_server m b (Tl_Name t)"
proof -
  have "Tl_Name t \<noteq> []" "list_all tool_name_char (Tl_Name t)"
    using assms(1) by (auto simp: ValidateToolMeta_def name_errors_def reValidToolNameStrict_def Let_def split: if_splits)
  then show ?thesis using assms(2)
    by (auto simp: reserved_server_def IsReservedSelfToolName_def isFirstPartyBuiltinServerLocked_def TrimSpace_name)
qed

text \<open>
  C37. The registry leads every call to the server that published the tool. After any history of servers added and
  removed, plugins loaded and unloaded, preferences set and discoveries, a name that is not in the index is refused
  without a call; a name in the index leads to a listed entry of that name whose server is registered, a tool
  behind an opt-in is refused without a call, any other call is one call of that server's transport under
  the tool's own name, and a result is no longer than the server's tier allows.
\<close>

theorem registry_routes:
  "case foldl (mcp_apply q) (NewMcpManager, s0) ops of (m, s) \<Rightarrow>
     (case lookup_entry m name of
        None \<Rightarrow> ExecuteTool q m name input s = (s, Inl (Plain (''unknown MCP tool: '' @ name)))
      | Some e \<Rightarrow> E_uniformName e = name \<and> e \<in> entry_at m ` set (reg_tools m)
          \<and> (case map_of (servers m) (E_serverName e) of
               None \<Rightarrow> False
             | Some tr \<Rightarrow> if opt_in m name
                 then ExecuteTool q m name input s = (s, Inl (Plain (''plugin tool '' @ q name @ '' requires explicit opt-in'')))
                 else fst (ExecuteTool q m name input s) = fst (tr_call tr (Tl_Name (E_tool e)) input s)
                   \<and> (case snd (ExecuteTool q m name input s) of Inl _ \<Rightarrow> True
                      | Inr out \<Rightarrow> int (length out) \<le> MaxResultBytes (LimitsFor (tierForLocked m (E_serverName e))))))"
proof -
  obtain m s where h: "foldl (mcp_apply q) (NewMcpManager, s0) ops = (m, s)" by fastforce
  have ok: "reg_ok m" using mcp.inv_run [of ops q s0] h by simp
  show ?thesis
  proof (cases "uniformIndex m name")
    case None
    then show ?thesis by (simp add: h lookup_entry_def ExecuteTool_def)
  next
    case (Some a)
    from reg_okD(4) [OF ok this] have a: "a \<in> set (reg_tools m)" "E_uniformName (entry_at m a) = name" by blast+
    with reg_okD(3) [OF ok] have "E_serverName (entry_at m a) \<in> fst ` set (servers m)" by blast
    then obtain tr where tr: "map_of (servers m) (E_serverName (entry_at m a)) = Some tr"
      by (metis map_of_eq_None_iff not_None_eq)
    have "fst (call_on q m (E_serverName (entry_at m a)) tn input s) = fst (tr_call tr tn input s)
      \<and> (case snd (call_on q m (E_serverName (entry_at m a)) tn input s) of Inl _ \<Rightarrow> True
         | Inr out \<Rightarrow> int (length out) \<le> MaxResultBytes (LimitsFor (tierForLocked m (E_serverName (entry_at m a)))))" for tn
      using tr by (auto simp: call_on_def processCallToolResult_def ValidateResultSize_def split: prod.splits sum.splits option.splits if_splits)
    then show ?thesis using a tr Some by (simp add: h lookup_entry_def ExecuteTool_def)
  qed
qed

text \<open>
  C38. The names of built-in tools are defended. Whatever servers are registered and whatever they list, in any order,
  after a discovery the name of every valid tool that a built-in server or the server \<^verbatim>\<open>self\<close> lists (always the same
  tools, without duplicates) leads to
  a built-in server or \<^verbatim>\<open>self\<close>, or that tool was dropped and the discovery reports its collision.
\<close>

theorem builtin_names_kept:
  assumes "foldl (mcp_apply q) (NewMcpManager, s0) ops = (m, s)" "DiscoverTools m s = (m', s')"
    and "firstPartyBuiltinNames m b \<or> b = SelfServerName" "map_of (servers m) b = Some tr"
    and "\<And>s1. \<exists>s2. tr_list tr s1 = (s2, Inr ts)" "distinct (map Tl_Name ts)" "t \<in> set ts"
    and "ValidateToolMeta (tierForLocked m b) t = []"
  shows "(\<exists>e. lookup_entry m' (UniformToolName b (Tl_Name t)) = Some e
        \<and> (firstPartyBuiltinNames m (E_serverName e) \<or> E_serverName e = SelfServerName))
    \<or> \<lparr>Dw_ServerName = b, Dw_ToolName = Tl_Name t, Dw_Reason = ''uniform_name_collision''\<rparr> \<in> set (GetDiscoveryWarnings m')"
proof -
  have ok: "reg_ok m" using mcp.inv_run [of ops q s0] assms(1) by simp
  have "kept m' b (Tl_Name t)"
    using discovered_kept [OF ok assms(4-8) valid_reserved [OF assms(8,3)], of s] assms(2) by simp
  moreover have "firstPartyBuiltinNames m' = firstPartyBuiltinNames m"
    using discovered_extends [OF ok, of s] assms(2) by (simp add: extends_def)
  ultimately show ?thesis
    by (auto simp: kept_def held_def reserved_server_def IsReservedSelfToolName_def isFirstPartyBuiltinServerLocked_def GetDiscoveryWarnings_def)
qed

section \<open>Examples\<close>

definition named_tool :: "string \<Rightarrow> Tool" where
  "named_tool n = \<lparr>Tl_Name = n, Tl_Description = [], Tl_InputSchema = None, Tl_Annotations = []\<rparr>"

definition lists :: "string list \<Rightarrow> unit transport" where
  "lists ns = \<lparr>tr_list = (\<lambda>s. (s, Inr (map named_tool ns))), tr_call = (\<lambda>n a s. (s, Inr \<lparr>Rs_Content = [], Rs_IsError = False\<rparr>)),
     tr_effect = None\<rparr>"

definition mcp_sample :: "unit McpManager \<times> unit" where
  "mcp_sample = foldl (mcp_apply id) (NewMcpManager, ()) [OpAddServer ''aaa'' (Some (lists [''dev_bash''])) [],
     OpAddBuiltin ''dev'' (Some (lists [''dev_bash'', ''read'']))]"

theorem builtin_names_kept_witness:
  "\<exists>m' s'. DiscoverTools (fst mcp_sample) () = (m', s') \<and> ((\<exists>e. lookup_entry m' (UniformToolName ''dev'' ''dev_bash'') = Some e
      \<and> (firstPartyBuiltinNames (fst mcp_sample) (E_serverName e) \<or> E_serverName e = SelfServerName))
    \<or> \<lparr>Dw_ServerName = ''dev'', Dw_ToolName = ''dev_bash'', Dw_Reason = ''uniform_name_collision''\<rparr> \<in> set (GetDiscoveryWarnings m'))"
proof -
  obtain m' s' where d: "DiscoverTools (fst mcp_sample) () = (m', s')" by (metis surj_pair)
  have run: "foldl (mcp_apply id) (NewMcpManager, ()) [OpAddServer ''aaa'' (Some (lists [''dev_bash''])) [],
      OpAddBuiltin ''dev'' (Some (lists [''dev_bash'', ''read'']))] = (fst mcp_sample, ())"
    by (simp add: mcp_sample_def)
  have v: "ValidateToolMeta (tierForLocked (fst mcp_sample) ''dev'') (named_tool ''dev_bash'') = []" by code_simp
  have f: "firstPartyBuiltinNames (fst mcp_sample) ''dev''" by code_simp
  have l: "map_of (servers (fst mcp_sample)) ''dev'' = Some (lists [''dev_bash'', ''read''])"
    by (simp add: mcp_sample_def AddServer_def AddBuiltinServer_def NewMcpManager_def HasServer_def)
  have "(\<exists>e. lookup_entry m' (UniformToolName ''dev'' (Tl_Name (named_tool ''dev_bash''))) = Some e
      \<and> (firstPartyBuiltinNames (fst mcp_sample) (E_serverName e) \<or> E_serverName e = SelfServerName))
    \<or> \<lparr>Dw_ServerName = ''dev'', Dw_ToolName = Tl_Name (named_tool ''dev_bash''), Dw_Reason = ''uniform_name_collision''\<rparr>
        \<in> set (GetDiscoveryWarnings m')"
    by (rule builtin_names_kept [OF run d _ l, where ts = "[named_tool ''dev_bash'', named_tool ''read'']"])
      (use f v in \<open>simp_all add: lists_def named_tool_def\<close>)
  with d show ?thesis by (auto simp: named_tool_def)
qed

lemma incumbent_prefixed:
  "map_option E_serverName (lookup_entry (fst (DiscoverTools (fst mcp_sample) ())) ''dev_bash'') = Some ''dev''
   \<and> map_option E_serverName (lookup_entry (fst (DiscoverTools (fst mcp_sample) ())) ''aaa_dev_bash'') = Some ''aaa''"
  by code_simp

text \<open>
  A server that lists a built-in name together with its own prefixed form keeps the name: the built-in tool is dropped.
\<close>

lemma builtin_name_lost:
  "map_option E_serverName (lookup_entry (fst (DiscoverTools (fst (foldl (mcp_apply id) (NewMcpManager, ())
      [OpAddServer ''aaa'' (Some (lists [''dev_bash'', ''aaa_dev_bash''])) [], OpAddBuiltin ''dev'' (Some (lists [''dev_bash'']))])) ())) ''dev_bash'')
    = Some ''aaa''"
  by code_simp

text \<open>Stripping escape sequences can put a new one together.\<close>

lemma strip_leaves_sequence:
  "StripANSI ([CHR 0x1B] @ CHR 0x1B # ''[0m'' @ ''[31mred'') = CHR 0x1B # ''[31mred''"
  by code_simp

end
