(* ===== verification/ToolGrants.thy ===== *)
theory ToolGrants
  imports Complex_Main McpRegistry
begin

text \<open>
  Which tools an agent is offered and which it may call: package \<^verbatim>\<open>internal/toolclient\<close>, the rest of
  \<^verbatim>\<open>internal/service/tool.go\<close> and \<^verbatim>\<open>tool_execution_rules.go\<close>, the chat surface of \<^verbatim>\<open>internal/dispatch\<close>, the registry of
  \<^verbatim>\<open>internal/describer\<close>, and the grants, bindings and catalogue rows in \<^verbatim>\<open>internal/store\<close> they read.

  The tables are lists of rows; a flag per query says whether it fails. The marshalled form of a tool definition,
  floating point products, \<^verbatim>\<open>sort.Slice\<close> on equal scores, the Unicode tables, the verb \<^verbatim>\<open>%q\<close> and the validation of actor
  names are the fields of \<open>grant_env\<close>. The extracted intent of a message is passed along but decides nothing and is
  left out, as are log lines.
\<close>

section \<open>The rows\<close>

record KnownTool =
  KT_ID :: string
  KT_Name :: string
  KT_Status :: string
  KT_ConcurrencySafe :: "bool option"
  KT_AlwaysIncluded :: bool

record AgentProfile =
  AP_ID :: string
  AP_Slug :: string
  AP_MCPServers :: string
  AP_ParentDispatchAllowlist :: string

record actor_binding =
  B_actor :: string
  B_host :: string
  B_receipt :: string
  B_enabled :: bool

record grant_store =
  known_tools :: "KnownTool list"
  actor_granted_tools :: "(string \<times> string) list"
  agent_actor_bindings :: "actor_binding list"
  enabled_hosts :: "string list"
  host_agents :: "string \<rightharpoonup> AgentProfile"
  valid_actor :: "string \<Rightarrow> bool"
  bad_grants :: bool
  bad_always :: bool
  bad_known :: bool
  bad_bindings :: bool

definition ErrVerifiedActorRequired :: tool_error where
  "ErrVerifiedActorRequired = Plain ''verified actor binding is required''"

text \<open>SQL's \<^verbatim>\<open>trim\<close> removes blanks only.\<close>

definition sql_trim :: "string \<Rightarrow> string" where
  "sql_trim s = TrimRight (TrimLeft s [CHR 0x20]) [CHR 0x20]"

definition bound_row :: "grant_store \<Rightarrow> string \<Rightarrow> actor_binding \<Rightarrow> bool" where
  "bound_row st actor b = (B_actor b = actor \<and> B_enabled b \<and> B_host b \<in> set (enabled_hosts st))"

definition GetAgentForActor :: "grant_store \<Rightarrow> string \<Rightarrow> tool_error + AgentProfile" where
  "GetAgentForActor st actor = (
     if \<not> valid_actor st actor then Inl ErrVerifiedActorRequired
     else if bad_bindings st then Inl (Plain ''query failed'')
     else case find (bound_row st actor) (agent_actor_bindings st) of
         None \<Rightarrow> Inl ErrVerifiedActorRequired
       | Some b \<Rightarrow> if TrimSpace (B_receipt b) = [] then Inl ErrVerifiedActorRequired
           else (case host_agents st (B_host b) of None \<Rightarrow> Inl (Plain ''agent not found'')
             | Some p \<Rightarrow> Inr (p\<lparr>AP_ID := actor\<rparr>)))"

definition ListAgentToolNames :: "grant_store \<Rightarrow> string \<Rightarrow> string list option" where
  "ListAgentToolNames st agent = (if bad_grants st then None else Some (sort (concat (map (\<lambda>(a, tid).
     if a = agent \<and> list_ex (\<lambda>b. bound_row st agent b \<and> sql_trim (B_receipt b) \<noteq> []) (agent_actor_bindings st)
     then map KT_Name (filter (\<lambda>k. KT_ID k = tid) (known_tools st)) else []) (actor_granted_tools st)))))"

definition ListAlwaysIncludedKnownTools :: "grant_store \<Rightarrow> KnownTool list option" where
  "ListAlwaysIncludedKnownTools st = (if bad_always st then None
     else Some (sort_key KT_Name (filter KT_AlwaysIncluded (known_tools st))))"

definition GetKnownToolByName :: "grant_store \<Rightarrow> string \<Rightarrow> KnownTool option" where
  "GetKnownToolByName st name = (if bad_known st then None else find (\<lambda>k. KT_Name k = name) (known_tools st))"

section \<open>The tool client\<close>

record CallerAgent =
  CA_ID :: string
  CA_Slug :: string
  CA_DispatchAllowlist :: "string list"

type_synonym describers = "string \<rightharpoonup> (CallerAgent \<Rightarrow> string)"

definition Register_describer :: "string \<Rightarrow> (CallerAgent \<Rightarrow> string) option \<Rightarrow> describers \<Rightarrow> describers" where
  "Register_describer toolName d fns = (if toolName = [] \<or> d = None then fns else fns(toolName := d))"

text \<open>Built-in tools by category, the categories in no particular order.\<close>

type_synonym BuiltinToolRegistry = "(string \<times> ToolDefinition list) list"

definition RegisterBuiltins :: "string \<Rightarrow> ToolDefinition list \<Rightarrow> BuiltinToolRegistry \<Rightarrow> BuiltinToolRegistry" where
  "RegisterBuiltins category ts r = (category, ts) # filter (\<lambda>x. fst x \<noteq> category) r"

definition GetBuiltins :: "BuiltinToolRegistry \<Rightarrow> ToolDefinition list" where
  "GetBuiltins r = concat (map (\<lambda>c. case map_of r c of None \<Rightarrow> [] | Some ts \<Rightarrow> ts) (sort (map fst r)))"

definition GetBuiltinsByCategory :: "BuiltinToolRegistry \<Rightarrow> string \<Rightarrow> ToolDefinition list" where
  "GetBuiltinsByCategory r c = (case map_of r c of None \<Rightarrow> [] | Some ts \<Rightarrow> ts)"

definition Has_builtin :: "BuiltinToolRegistry \<Rightarrow> string \<Rightarrow> bool" where
  "Has_builtin r name = list_ex (\<lambda>(c, ts). list_ex (\<lambda>t. TD_Name t = name) ts) r"

record Config =
  ToolTokenBudgetPct :: rat
  ContextWindowTokens :: int

definition DefaultToolTokenBudgetPct :: rat where "DefaultToolTokenBudgetPct = 1 / 5"
definition DefaultContextWindowTokens :: int where "DefaultContextWindowTokens = 200000"
definition DefaultConfig :: Config where
  "DefaultConfig = \<lparr>ToolTokenBudgetPct = DefaultToolTokenBudgetPct, ContextWindowTokens = DefaultContextWindowTokens\<rparr>"
definition MaxSelectedTools :: nat where "MaxSelectedTools = 15"
definition MinIntentScore :: int where "MinIntentScore = 1"
definition DefaultMaxIntentResults :: nat where "DefaultMaxIntentResults = 10"

record grant_env =
  ge_lower :: "string \<Rightarrow> string"
  ge_quote :: "string \<Rightarrow> string"
  ge_marshal :: "ToolDefinition \<Rightarrow> string option"
  ge_scale :: "rat \<Rightarrow> int \<Rightarrow> int"
  ge_rank :: "(ToolDefinition \<times> int) list \<Rightarrow> (ToolDefinition \<times> int) list"

record 's ToolClient =
  tc_MCPManager :: "'s McpManager option"
  tc_Store :: "grant_store option"
  tc_Config :: Config
  tc_Builtins :: "BuiltinToolRegistry option"
  registeredTools :: "ToolDefinition list"
  Describers :: "describers option"

definition New_client :: "'s McpManager option \<Rightarrow> grant_store option \<Rightarrow> Config option \<Rightarrow> 's ToolClient" where
  "New_client mgr st cfg = \<lparr>tc_MCPManager = mgr, tc_Store = st, tc_Config = (case cfg of None \<Rightarrow> DefaultConfig | Some c \<Rightarrow> c),
     tc_Builtins = Some [], registeredTools = [], Describers = Some Map.empty\<rparr>"

definition RegisterTools :: "ToolDefinition list \<Rightarrow> 's ToolClient \<Rightarrow> 's ToolClient" where
  "RegisterTools ts tb = tb\<lparr>registeredTools := registeredTools tb @ ts\<rparr>"

definition render_one :: "describers \<Rightarrow> CallerAgent \<Rightarrow> ToolDefinition \<Rightarrow> ToolDefinition" where
  "render_one fns caller t = (case fns (TD_Name t) of None \<Rightarrow> t
     | Some d \<Rightarrow> if d caller = [] then t else t\<lparr>TD_Description := d caller\<rparr>)"

definition RenderDescriptions :: "'s ToolClient \<Rightarrow> ToolDefinition list \<Rightarrow> CallerAgent \<Rightarrow> ToolDefinition list" where
  "RenderDescriptions tb ts caller = (case Describers tb of None \<Rightarrow> ts | Some fns \<Rightarrow> map (render_one fns caller) ts)"

definition IsBuiltinTool :: "'s ToolClient \<Rightarrow> string \<Rightarrow> bool" where
  "IsBuiltinTool tb name = (case tc_Builtins tb of None \<Rightarrow> False | Some r \<Rightarrow> Has_builtin r name)"

text \<open>The loops that skip a tool whose name has been seen; they return the names seen as well.\<close>

fun add_unseen :: "string list \<Rightarrow> ToolDefinition list \<Rightarrow> string list \<times> ToolDefinition list" where
  "add_unseen seen [] = (seen, [])"
| "add_unseen seen (t # ts) = (if TD_Name t \<in> set seen then add_unseen seen ts
     else case add_unseen (TD_Name t # seen) ts of (s, r) \<Rightarrow> (s, t # r))"

definition manager_tools :: "'s ToolClient \<Rightarrow> ToolDefinition list" where
  "manager_tools tb = (case tc_MCPManager tb of None \<Rightarrow> [] | Some m \<Rightarrow> getAllToolsLocked m)"

definition catalogTools :: "'s ToolClient \<Rightarrow> ToolDefinition list" where
  "catalogTools tb = snd (add_unseen [] (registeredTools tb @ manager_tools tb))"

definition ListTools :: "'s ToolClient \<Rightarrow> ToolDefinition list" where
  "ListTools tb = (case tc_Builtins tb of None \<Rightarrow> [] | Some r \<Rightarrow> GetBuiltins r) @ manager_tools tb"

definition GetAllToolsUnfiltered_client :: "'s ToolClient \<Rightarrow> ToolDefinition list" where
  "GetAllToolsUnfiltered_client tb = (case tc_Builtins tb of None \<Rightarrow> [] | Some r \<Rightarrow> GetBuiltins r)
     @ (case tc_MCPManager tb of None \<Rightarrow> [] | Some m \<Rightarrow> GetAllToolsUnfiltered m)"

definition GetToolsByNames :: "'s ToolClient \<Rightarrow> string list \<Rightarrow> ToolDefinition list" where
  "GetToolsByNames tb names = filter (\<lambda>t. TD_Name t \<in> set names) (ListTools tb)"

record ToolSummary =
  TS_Name :: string
  TS_Description :: string
  TS_Server :: string

definition ListToolSummaries :: "'s ToolClient \<Rightarrow> ToolSummary list" where
  "ListToolSummaries tb = map (\<lambda>t. \<lparr>TS_Name = TD_Name t, TS_Description = TD_Description t, TS_Server = []\<rparr>) (ListTools tb)"

subsection \<open>Budget\<close>

definition toolTokenBudget :: "grant_env \<Rightarrow> 's ToolClient \<Rightarrow> int \<Rightarrow> int \<times> int" where
  "toolTokenBudget E tb windowSize = (
     let pct = (if ToolTokenBudgetPct (tc_Config tb) \<le> 0 then DefaultToolTokenBudgetPct else ToolTokenBudgetPct (tc_Config tb));
         w1 = (if windowSize \<le> 0 then ContextWindowTokens (tc_Config tb) else windowSize);
         ctxWindow = (if w1 \<le> 0 then DefaultContextWindowTokens else w1)
     in (ge_scale E pct ctxWindow, ctxWindow))"

definition marshal_tokens :: "string \<Rightarrow> nat" where
  "marshal_tokens data = (let n = length data div 4 in if n = 0 then 1 else n)"

definition def_tokens :: "grant_env \<Rightarrow> ToolDefinition \<Rightarrow> nat" where
  "def_tokens E t = (case ge_marshal E t of
       None \<Rightarrow> (let n = length (TD_Name t) + length (TD_Description t) in if n = 0 then 1 else n div 4)
     | Some data \<Rightarrow> marshal_tokens data)"

definition EstimateToolDefTokens :: "grant_env \<Rightarrow> ToolDefinition list \<Rightarrow> nat" where
  "EstimateToolDefTokens E ts = sum_list (map (def_tokens E) ts)"

fun prune :: "grant_env \<Rightarrow> int \<Rightarrow> int \<Rightarrow> ToolDefinition list \<Rightarrow> ToolDefinition list" where
  "prune E budget tot (t # u # rest) = (
     if tot > budget then
       prune E budget (tot - int (marshal_tokens (case ge_marshal E t of None \<Rightarrow> [] | Some data \<Rightarrow> data))) (u # rest)
     else t # u # rest)"
| "prune E budget tot ts = ts"

definition PruneToolDefsToTokenBudget :: "grant_env \<Rightarrow> ToolDefinition list \<Rightarrow> int \<Rightarrow> ToolDefinition list" where
  "PruneToolDefsToTokenBudget E ts budgetTokens = (
     let tot = int (EstimateToolDefTokens E ts) in
     if ts = [] \<or> tot \<le> budgetTokens then ts
     else rev (prune E budgetTokens tot (rev ts)))"

definition FinalizeToolSelection :: "grant_env \<Rightarrow> 's ToolClient \<Rightarrow> ToolDefinition list \<Rightarrow> int \<Rightarrow> ToolDefinition list" where
  "FinalizeToolSelection E tb ts windowSize =
     PruneToolDefsToTokenBudget E (take MaxSelectedTools ts) (fst (toolTokenBudget E tb windowSize))"

definition SelectTools :: "grant_env \<Rightarrow> 's ToolClient \<Rightarrow> int \<Rightarrow> ToolDefinition list" where
  "SelectTools E tb windowSize = FinalizeToolSelection E tb (catalogTools tb) windowSize"

definition SelectToolsAsProvider :: "'s ToolClient \<Rightarrow> string \<Rightarrow> tool_error + ToolDefinition list" where
  "SelectToolsAsProvider tb agentID = (
     case (case tc_Store tb of None \<Rightarrow> None | Some st \<Rightarrow> (case GetAgentForActor st agentID of Inl e \<Rightarrow> Some e | Inr _ \<Rightarrow> None)) of
       Some e \<Rightarrow> Inl e
     | None \<Rightarrow> Inr ((case tc_Builtins tb of None \<Rightarrow> [] | Some r \<Rightarrow> GetBuiltins r) @ catalogTools tb))"

subsection \<open>Calls\<close>

text \<open>\<open>gate\<close> is the gate of a native view, if the context carries one.\<close>

definition isToolGrantedToAgent :: "(string \<Rightarrow> bool) option \<Rightarrow> 's ToolClient \<Rightarrow> string \<Rightarrow> string \<Rightarrow> bool" where
  "isToolGrantedToAgent gate tb agentID toolName = (case gate of Some g \<Rightarrow> g toolName
     | None \<Rightarrow> (case tc_Store tb of None \<Rightarrow> True
        | Some st \<Rightarrow> (case GetAgentForActor st agentID of Inl _ \<Rightarrow> False
           | Inr _ \<Rightarrow> if (case ListAgentToolNames st agentID of None \<Rightarrow> False | Some names \<Rightarrow> toolName \<in> set names) then True
               else (case ListAlwaysIncludedKnownTools st of None \<Rightarrow> False
                 | Some ks \<Rightarrow> list_ex (\<lambda>k. KT_Name k = toolName \<and> KT_Status k = ''available'') ks))))"

definition CallTool :: "(string \<Rightarrow> string) \<Rightarrow> (string \<Rightarrow> bool) option \<Rightarrow> 's ToolClient \<Rightarrow> string \<Rightarrow> string \<Rightarrow> args \<Rightarrow> 's
    \<Rightarrow> 's \<times> (tool_error + string)" where
  "CallTool quote gate tb agentID toolName input s = (
     if \<not> isToolGrantedToAgent gate tb agentID toolName
     then (s, Inl (Plain (''permission denied: tool '' @ quote toolName @ '' not permitted for agent '' @ quote agentID)))
     else case tc_MCPManager tb of
         None \<Rightarrow> (s, Inl (Plain ''no MCP manager configured''))
       | Some m \<Rightarrow> ExecuteTool quote m toolName input s)"

fun valueContainsEscalation :: "json \<Rightarrow> bool" where
  "valueContainsEscalation (JStr s) = Contains s ''..''"
| "valueContainsEscalation (JArr vs) = list_ex valueContainsEscalation vs"
| "valueContainsEscalation (JObj ms) = list_ex (\<lambda>(k, v). valueContainsEscalation v) ms"
| "valueContainsEscalation v = False"

definition ArgsContainEscalationPattern :: "args \<Rightarrow> bool" where
  "ArgsContainEscalationPattern input = (case input of None \<Rightarrow> False | Some ms \<Rightarrow> list_ex (\<lambda>(k, v). valueContainsEscalation v) ms)"

definition CallToolWithPolicyCheck :: "(string \<Rightarrow> string) \<Rightarrow> (string \<Rightarrow> bool) option \<Rightarrow> 's ToolClient \<Rightarrow> string \<Rightarrow> string \<Rightarrow> args \<Rightarrow> 's
    \<Rightarrow> 's \<times> (tool_error + string)" where
  "CallToolWithPolicyCheck quote gate tb agentID toolName input s = (
     if ArgsContainEscalationPattern input
     then (s, Inl (Plain (''permission denied: tool '' @ quote toolName @ '' arguments contain escalation pattern ('' @ [CHR 0x22]
       @ ''..'' @ [CHR 0x22] @ '')'')))
     else CallTool quote gate tb agentID toolName input s)"

section \<open>Requested tools\<close>

definition intentScoreStopWords :: "string list" where
  "intentScoreStopWords = [''the'', ''and'', ''for'', ''are'', ''but'', ''not'', ''you'', ''all'', ''can'', ''her'', ''was'',
     ''one'', ''our'', ''out'', ''has'', ''its'', ''let'', ''get'', ''make'', ''like'', ''just'', ''want'',
     ''need'', ''from'', ''with'', ''this'', ''that'', ''have'', ''will'', ''what'', ''when'', ''how'',
     ''who'', ''which'', ''where'', ''why'', ''been'', ''being'', ''would'', ''could'', ''should'',
     ''about'', ''into'', ''some'', ''any'']"

definition intent_marks :: string where
  "intent_marks = '',.!?;:'' @ [CHR 0x27, CHR 0x22] @ ''()[]{}''"

fun keep_words :: "string list \<Rightarrow> string list \<Rightarrow> string list" where
  "keep_words seen [] = []"
| "keep_words seen (w # ws) = (if length w < 3 \<or> w \<in> set intentScoreStopWords \<or> w \<in> set seen then keep_words seen ws
     else w # keep_words (w # seen) ws)"

definition tokeniseIntent :: "grant_env \<Rightarrow> string \<Rightarrow> string list" where
  "tokeniseIntent E intent = keep_words [] (Fields
     (map (\<lambda>c. if c \<in> set intent_marks then CHR 0x20 else c) (ToLower (ge_lower E) intent)))"

definition scoreToolAgainstIntent :: "grant_env \<Rightarrow> ToolDefinition \<Rightarrow> string list \<Rightarrow> int" where
  "scoreToolAgainstIntent E t words = sum_list (map (\<lambda>w.
     (if Contains (ToLower (ge_lower E) (TD_Name t)) w then 2 else 0)
     + (if Contains (ToLower (ge_lower E) (TD_Description t)) w then 1 else 0)) words)"

definition selectByIntent :: "grant_env \<Rightarrow> 's ToolClient \<Rightarrow> string \<Rightarrow> nat \<Rightarrow> (string \<Rightarrow> bool) option \<Rightarrow> ToolDefinition list" where
  "selectByIntent E tb intent maxTools allowed = (
     let words = tokeniseIntent E intent;
         scored = map (\<lambda>t. (t, scoreToolAgainstIntent E t words))
           (filter (\<lambda>t. case allowed of None \<Rightarrow> True | Some f \<Rightarrow> f (TD_Name t)) (ListTools tb));
         ranked = ge_rank E (filter (\<lambda>x. snd x \<ge> MinIntentScore) scored)
     in if ListTools tb = [] \<or> intent = [] \<or> words = [] then []
        else map fst (if maxTools > 0 then take maxTools ranked else ranked))"

definition request_tools_description :: string where
  "request_tools_description =
     ''Load additional tool schemas into context by name or by intent description, then call them.'' @ [CHR 0x0A]
     @ [CHR 0x0A]
     @ ''**When to use:** When you need a tool that is not currently in your context window (progressive discovery). Call with tool_names for exact lookups, or intent for semantic search when you''
     @ [CHR 0x27] @ ''re not sure of the exact name.'' @ [CHR 0x0A] @ [CHR 0x0A]
     @ ''**When NOT to use:** Do not call this if the tool you want is already available in your context '' @ [CHR 0xE2]
     @ [CHR 0x80] @ [CHR 0x94]
     @ '' calling request_tools for tools already loaded is a no-op and wastes a round-trip. Do not use intent search for tools you know by name.''
     @ [CHR 0x0A] @ [CHR 0x0A] @ ''**Output shape:** Summary line ('' @ [CHR 0x22] @ ''Loaded N tool(s): name1, name2''
     @ [CHR 0x22]
     @ '') followed by a JSON array of {name, description, input_schema} objects. You can call any returned tool immediately after.''
     @ [CHR 0x0A] @ [CHR 0x0A]
     @ ''**Chaining:** This tool loads schemas; immediately follow with the actual tool call once the schema is returned.''"

definition RequestToolsMetaTool :: ToolDefinition where
  "RequestToolsMetaTool = \<lparr>TD_Name = ''request_tools'', TD_Description = request_tools_description, TD_InputSchema = Some [
     (''additionalProperties'', JBool False),
     (''properties'', JObj [
       (''intent'', JObj [(''description'', JStr (''Describe what you want to do '' @ [CHR 0xE2, CHR 0x80, CHR 0x94]
          @ '' the broker will find the most relevant tools'')), (''type'', JStr ''string'')]),
       (''tool_names'', JObj [(''description'', JStr ''Specific tool names to load (exact match)''),
          (''items'', JObj [(''type'', JStr ''string'')]), (''type'', JStr ''array'')])]),
     (''type'', JStr ''object'')]\<rparr>"

definition input_value :: "args \<Rightarrow> string \<Rightarrow> json option" where
  "input_value input key = (case input of None \<Rightarrow> None | Some ms \<Rightarrow> map_of ms key)"

definition requested_names :: "args \<Rightarrow> string list" where
  "requested_names input = (case input_value input ''tool_names'' of
     Some (JArr vs) \<Rightarrow> concat (map (\<lambda>v. case v of JStr s \<Rightarrow> [s] | _ \<Rightarrow> []) vs) | _ \<Rightarrow> [])"

definition tool_info :: "ToolDefinition \<Rightarrow> json" where
  "tool_info t = JObj [(''name'', JStr (TD_Name t)), (''description'', JStr (TD_Description t)),
     (''input_schema'', args_json (TD_InputSchema t))]"

definition handleRequestTools :: "grant_env \<Rightarrow> 's ToolClient \<Rightarrow> args \<Rightarrow> (string \<Rightarrow> bool) option \<Rightarrow> ToolDefinition list \<times> string" where
  "handleRequestTools E tb input allowed = (
     let byName = (if requested_names input = [] then [] else GetToolsByNames tb (requested_names input));
         byIntent = (case input_value input ''intent'' of
            Some (JStr s) \<Rightarrow> if s \<noteq> [] then selectByIntent E tb s DefaultMaxIntentResults allowed else [] | _ \<Rightarrow> []);
         merged = snd (add_unseen [] (byName @ byIntent))
     in (merged, if merged = [] then ''No matching tools found.''
          else ''Loaded '' @ show_nat (length merged) @ '' tool(s): '' @ Join (map TD_Name merged) '', '' @ [CHR 0x0A, CHR 0x0A]
            @ Encode (JArr (map tool_info merged))))"

definition visible_names :: "grant_store \<Rightarrow> string \<Rightarrow> string list" where
  "visible_names st agentID =
     (case ListAgentToolNames st agentID of None \<Rightarrow> [] | Some names \<Rightarrow> names)
     @ (case ListAlwaysIncludedKnownTools st of None \<Rightarrow> []
        | Some ks \<Rightarrow> map KT_Name (filter (\<lambda>k. KT_Status k = ''available'') ks))"

definition request_allowed :: "'s ToolClient \<Rightarrow> string \<Rightarrow> string \<Rightarrow> bool" where
  "request_allowed tb agentID name = (case tc_Store tb of None \<Rightarrow> True
     | Some st \<Rightarrow> name = ''fetch_tool_result'' \<or> name = ''search_tool_result'' \<or> name \<in> set (visible_names st agentID))"

definition HandleRequestToolsForAgent :: "grant_env \<Rightarrow> 's ToolClient \<Rightarrow> string \<Rightarrow> args \<Rightarrow> ToolDefinition list \<times> string" where
  "HandleRequestToolsForAgent E tb agentID input = (
     if (case tc_Store tb of None \<Rightarrow> False | Some st \<Rightarrow> isl (GetAgentForActor st agentID))
     then ([], ''permission denied: verified actor binding required'')
     else if ArgsContainEscalationPattern input
     then ([], ''permission denied: request_tools arguments contain escalation pattern ('' @ [CHR 0x22] @ ''..'' @ [CHR 0x22]
       @ '') for agent '' @ ge_quote E agentID)
     else let allowed = request_allowed tb agentID;
              (merged, summary) = handleRequestTools E tb input (Some allowed);
              permitted = filter (\<lambda>t. allowed (TD_Name t)) merged;
              denied = map TD_Name (filter (\<lambda>t. \<not> allowed (TD_Name t)) merged)
       in if merged = [] then (merged, summary)
          else if denied = [] then (permitted, summary)
          else if permitted = [] then (permitted, ''permission denied: no requested tools permitted for agent '' @ ge_quote E agentID
            @ '' (denied: '' @ Join denied '', '' @ '')'')
          else (permitted, ''Loaded '' @ show_nat (length permitted) @ '' tool(s) for agent '' @ ge_quote E agentID @ '': ''
            @ Join (map TD_Name permitted) '', '' @ ''. Denied: '' @ Join denied '', '' @ ''.''))"

section \<open>The chat surface\<close>

record ChatToolSurface =
  ExcludedTools :: "string list"
  IncludedAdditions :: "string list"

definition DefaultChatToolSurface :: ChatToolSurface where
  "DefaultChatToolSurface = \<lparr>ExcludedTools = [''tool_describe'', ''tool_validate'', ''lesson_capture'', ''card_show''],
     IncludedAdditions = []\<rparr>"

definition Filter_surface :: "ChatToolSurface option \<Rightarrow> string \<Rightarrow> bool" where
  "Filter_surface s toolName = (case s of None \<Rightarrow> True
     | Some c \<Rightarrow> toolName \<in> set (IncludedAdditions c) \<or> toolName \<notin> set (ExcludedTools c))"

definition applyChatSurfaceFilter :: "ToolDefinition list \<Rightarrow> ChatToolSurface option \<Rightarrow> ToolDefinition list" where
  "applyChatSurfaceFilter ts surface = (if surface = None \<or> ts = [] then ts
     else filter (\<lambda>t. Filter_surface surface (TD_Name t)) ts)"

section \<open>Selection for an agent\<close>

definition chatRoleAgentSlug :: string where "chatRoleAgentSlug = ''default''"
definition ProgressiveDiscoveryThreshold :: nat where "ProgressiveDiscoveryThreshold = 10"

record ToolSelection =
  Sel_Tools :: "ToolDefinition list"
  Sel_Catalog :: string
  Sel_Progressive :: bool

record 's tool_select =
  sv_client :: "'s ToolClient option"
  sv_mcp :: "'s McpManager option"
  sv_agents :: "(string \<Rightarrow> tool_error + AgentProfile) option"

definition resolveToolActor :: "'s tool_select \<Rightarrow> string \<Rightarrow> tool_error + AgentProfile" where
  "resolveToolActor S actor = (case sv_agents S of None \<Rightarrow> Inl ErrVerifiedActorRequired | Some f \<Rightarrow> f actor)"

definition countMCPOriginTools :: "'s ToolClient option \<Rightarrow> ToolDefinition list \<Rightarrow> nat" where
  "countMCPOriginTools tc ts = (case tc of None \<Rightarrow> length ts
     | Some tb \<Rightarrow> length (filter (\<lambda>t. \<not> IsBuiltinTool tb (TD_Name t)) ts))"

text \<open>The strings read from a JSON array, and whether there was no error; a value of a wrong type leaves an empty string.\<close>

definition parseJSONStrings :: "string \<Rightarrow> string list \<times> bool" where
  "parseJSONStrings raw = (if raw = [] then ([], True) else case Decode Errorf raw of
       Inl _ \<Rightarrow> ([], False)
     | Inr JNull \<Rightarrow> ([], True)
     | Inr (JArr vs) \<Rightarrow> (map (\<lambda>v. case v of JStr s \<Rightarrow> s | _ \<Rightarrow> []) vs, list_all (\<lambda>v. elem_string v \<noteq> None) vs)
     | Inr _ \<Rightarrow> ([], False))"

definition parseParentDispatchAllowlist :: "string \<Rightarrow> string list" where
  "parseParentDispatchAllowlist raw = (if raw = [] \<or> raw = ''[]'' then []
     else case parseJSONStrings raw of (ss, ok) \<Rightarrow> if ok then ss else [])"

definition server_def :: "string \<Rightarrow> Tool \<Rightarrow> ToolDefinition" where
  "server_def srv t = \<lparr>TD_Name = UniformToolName srv (Tl_Name t), TD_Description = Tl_Description t, TD_InputSchema = Tl_InputSchema t\<rparr>"

definition discover_one :: "(string \<Rightarrow> string) \<Rightarrow> 's McpManager \<Rightarrow> (ToolDefinition list \<times> string list) \<times> 's \<Rightarrow> string
    \<Rightarrow> (ToolDefinition list \<times> string list) \<times> 's" where
  "discover_one quote m acc srv = (case acc of ((ts, seen), s) \<Rightarrow> (case DiscoverServerTools quote m srv s of
       (s1, Inl _) \<Rightarrow> ((ts, seen), s1)
     | (s1, Inr listed) \<Rightarrow> (case add_unseen seen (filter (\<lambda>d. TD_Name d \<noteq> []) (map (server_def srv) listed)) of
          (seen', new) \<Rightarrow> ((ts @ new, seen'), s1))))"

definition discoverAgentMCPTools :: "(string \<Rightarrow> string) \<Rightarrow> 's McpManager \<Rightarrow> string \<Rightarrow> ToolDefinition list \<Rightarrow> string list \<Rightarrow> 's
    \<Rightarrow> ToolDefinition list \<times> 's" where
  "discoverAgentMCPTools quote m serversJSON ts seen s = (
     case foldl (discover_one quote m) ((ts, seen), s) (fst (parseJSONStrings serversJSON)) of ((ts', _), s') \<Rightarrow> (ts', s'))"

definition agentToolsStore :: "'s tool_select \<Rightarrow> grant_store option" where
  "agentToolsStore S = Option.bind (sv_client S) tc_Store"

definition filterToolsByAgentTools :: "grant_store option \<Rightarrow> string \<Rightarrow> ToolDefinition list \<Rightarrow> ToolDefinition list" where
  "filterToolsByAgentTools st agentID ts = (case st of None \<Rightarrow> ts
     | Some db \<Rightarrow> if ts = [] then ts else (case ListAgentToolNames db agentID of None \<Rightarrow> []
        | Some granted \<Rightarrow> if granted = [] then [] else filter (\<lambda>t. TD_Name t \<in> set granted) ts))"

definition resolveAlwaysIncludedTools :: "'s tool_select \<Rightarrow> ToolDefinition list" where
  "resolveAlwaysIncludedTools S = (case agentToolsStore S of None \<Rightarrow> []
     | Some st \<Rightarrow> (case ListAlwaysIncludedKnownTools st of None \<Rightarrow> []
        | Some rows \<Rightarrow>
            let byName = map_of (rev (map (\<lambda>t. (TD_Name t, t)) (case sv_client S of None \<Rightarrow> [] | Some tb \<Rightarrow> ListTools tb)))
            in concat (map (\<lambda>k. if KT_Status k \<noteq> ''available'' then []
                 else case byName (KT_Name k) of Some d \<Rightarrow> [d]
                   | None \<Rightarrow> if KT_Name k = ''request_tools'' then [RequestToolsMetaTool] else []) rows)))"

definition unionToolsByName :: "ToolDefinition list \<Rightarrow> ToolDefinition list \<Rightarrow> ToolDefinition list" where
  "unionToolsByName base extra = base @ snd (add_unseen (map TD_Name base) extra)"

definition BuildToolCatalog :: "ToolSummary list \<Rightarrow> string" where
  "BuildToolCatalog summaries = (if summaries = [] then []
     else line ''Available tools (use request_tools to get full details):''
       @ concat (map (\<lambda>t. line (''- '' @ TS_Name t @ '': '' @ (if length (TS_Description t) > 80
            then take 80 (TS_Description t) @ ''...'' else TS_Description t))) summaries))"

definition surface_for :: "AgentProfile \<Rightarrow> ToolDefinition list \<Rightarrow> ToolDefinition list" where
  "surface_for agent ts = (if AP_Slug agent = chatRoleAgentSlug then applyChatSurfaceFilter ts (Some DefaultChatToolSurface) else ts)"

definition caller_of :: "string \<Rightarrow> AgentProfile \<Rightarrow> CallerAgent" where
  "caller_of agentID agent = \<lparr>CA_ID = agentID, CA_Slug = AP_Slug agent,
     CA_DispatchAllowlist = parseParentDispatchAllowlist (AP_ParentDispatchAllowlist agent)\<rparr>"

definition candidate_tools :: "grant_env \<Rightarrow> 's tool_select \<Rightarrow> string \<Rightarrow> AgentProfile \<Rightarrow> 's \<Rightarrow> ToolDefinition list \<times> 's" where
  "candidate_tools E S agentID agent s = (
     let (seen, ts) = (case sv_client S of None \<Rightarrow> ([], [])
           | Some tb \<Rightarrow> (case SelectToolsAsProvider tb agentID of Inl _ \<Rightarrow> ([], []) | Inr defs \<Rightarrow> add_unseen [] defs))
     in case sv_mcp S of None \<Rightarrow> (ts, s)
        | Some m \<Rightarrow> if countMCPOriginTools (sv_client S) ts = 0
            then discoverAgentMCPTools (ge_quote E) m (AP_MCPServers agent) ts seen s else (ts, s))"

definition progressive_tools :: "'s tool_select \<Rightarrow> 's ToolClient \<Rightarrow> string \<Rightarrow> AgentProfile \<Rightarrow> ToolDefinition list \<Rightarrow> ToolDefinition list" where
  "progressive_tools S tb agentID agent ts = RenderDescriptions tb
     (unionToolsByName (RequestToolsMetaTool # filter (\<lambda>t. IsBuiltinTool tb (TD_Name t)) ts)
       (surface_for agent (resolveAlwaysIncludedTools S))) (caller_of agentID agent)"

definition direct_tools :: "grant_env \<Rightarrow> 's tool_select \<Rightarrow> string \<Rightarrow> AgentProfile \<Rightarrow> int \<Rightarrow> ToolDefinition list \<Rightarrow> ToolDefinition list" where
  "direct_tools E S agentID agent windowSize ts = (case sv_client S of None \<Rightarrow> ts
     | Some tb \<Rightarrow> RenderDescriptions tb (unionToolsByName (FinalizeToolSelection E tb ts windowSize)
         (surface_for agent (resolveAlwaysIncludedTools S))) (caller_of agentID agent))"

definition SelectForAgent :: "grant_env \<Rightarrow> 's tool_select \<Rightarrow> string \<Rightarrow> int \<Rightarrow> 's \<Rightarrow> 's \<times> (tool_error + ToolSelection)" where
  "SelectForAgent E S agentID windowSize s = (case resolveToolActor S agentID of
       Inl e \<Rightarrow> (s, Inl e)
     | Inr agent \<Rightarrow> (case candidate_tools E S agentID agent s of (ts0, s1) \<Rightarrow>
         let ts = surface_for agent (filterToolsByAgentTools (agentToolsStore S) agentID ts0) in
         (s1, Inr (case sv_client S of
            Some tb \<Rightarrow> if countMCPOriginTools (Some tb) ts > ProgressiveDiscoveryThreshold
              then \<lparr>Sel_Tools = progressive_tools S tb agentID agent ts, Sel_Catalog = BuildToolCatalog (ListToolSummaries tb), Sel_Progressive = True\<rparr>
              else \<lparr>Sel_Tools = direct_tools E S agentID agent windowSize ts, Sel_Catalog = [], Sel_Progressive = False\<rparr>
          | None \<Rightarrow> \<lparr>Sel_Tools = direct_tools E S agentID agent windowSize ts, Sel_Catalog = [], Sel_Progressive = False\<rparr>))))"

definition HandleRequestTools :: "grant_env \<Rightarrow> 's tool_select \<Rightarrow> string \<Rightarrow> args \<Rightarrow> (ToolDefinition list \<times> string) \<times> tool_error option" where
  "HandleRequestTools E S agentID input = (case sv_client S of
       None \<Rightarrow> (([], ''No tool client configured.''), Some (Plain ''no tool client configured''))
     | Some tb \<Rightarrow> (case resolveToolActor S agentID of
          Inl e \<Rightarrow> (([], ''Verified actor binding required for tool discovery.''), Some e)
        | Inr agent \<Rightarrow> (case HandleRequestToolsForAgent E tb agentID input of (ts, summary) \<Rightarrow>
            let filtered = surface_for agent ts;
                summary' = (if AP_Slug agent = chatRoleAgentSlug \<and> length filtered \<noteq> length ts
                  then ''Loaded tools: '' @ Join (map TD_Name filtered) '', ''
                    @ ''. Tools excluded from this agent'' @ [CHR 0x27] @ ''s chat surface were not loaded.'' else summary)
            in ((RenderDescriptions tb filtered (caller_of agentID agent), summary'), None))))"

definition ListSummaries :: "'s tool_select \<Rightarrow> ToolSummary list" where
  "ListSummaries S = (case sv_client S of None \<Rightarrow> [] | Some tb \<Rightarrow> ListToolSummaries tb)"

definition GetToolSchema :: "'s tool_select \<Rightarrow> string \<Rightarrow> args" where
  "GetToolSchema S toolName = (case sv_client S of None \<Rightarrow> None
     | Some tb \<Rightarrow> (case find (\<lambda>t. TD_Name t = toolName) (ListTools tb) of None \<Rightarrow> None | Some t \<Rightarrow> TD_InputSchema t))"

definition NativeToolDefinitions :: "'s tool_select \<Rightarrow> string list \<Rightarrow> ToolDefinition list" where
  "NativeToolDefinitions S names = (case sv_client S of None \<Rightarrow> [] | Some tb \<Rightarrow> GetToolsByNames tb names)"

subsection \<open>Safety metadata\<close>

record ToolMetaInfo =
  IsReadOnly :: bool
  IsDestructive :: bool
  IsConcurrencySafe :: bool
  ReadOnlyDeclared :: bool
  WriteDeclared :: bool
  MaxIterations :: int

definition declaredConcurrencySafe :: "'s tool_select \<Rightarrow> string \<Rightarrow> bool" where
  "declaredConcurrencySafe S toolName = (case agentToolsStore S of None \<Rightarrow> False
     | Some st \<Rightarrow> (case GetKnownToolByName st toolName of None \<Rightarrow> False | Some row \<Rightarrow> KT_ConcurrencySafe row = Some True))"

definition name_reads :: "string \<Rightarrow> bool" where
  "name_reads n = (if HasSuffix n ''_mark_read'' \<or> HasSuffix n ''_mark_as_read'' then False
     else list_ex (HasSuffix n) [''_read'', ''_glob'', ''_grep'', ''_search'', ''_list'', ''_get'']
       \<or> Contains n ''web_fetch'' \<or> Contains n ''web_search'')"

definition name_destroys :: "string \<Rightarrow> bool" where
  "name_destroys n = list_ex (Contains n) [''delete'', ''remove'', ''shell'', ''bash'', ''drop'', ''reset'']"

definition GetToolMeta :: "'s tool_select \<Rightarrow> string \<Rightarrow> ToolMetaInfo" where
  "GetToolMeta S toolName = (case Option.bind (sv_mcp S) (\<lambda>m. map_option (Pair m) (ToolBehavior m toolName)) of
       Some (m, (readOnly, destructive)) \<Rightarrow> (case ToolDeclaredHints m toolName of (ro, d) \<Rightarrow>
         \<lparr>IsReadOnly = readOnly, IsDestructive = destructive, IsConcurrencySafe = False, ReadOnlyDeclared = (ro = Some True),
          WriteDeclared = (ro = Some False \<or> d = Some True), MaxIterations = 0\<rparr>)
     | None \<Rightarrow> \<lparr>IsReadOnly = name_reads toolName, IsDestructive = name_destroys toolName,
          IsConcurrencySafe = declaredConcurrencySafe S toolName, ReadOnlyDeclared = False, WriteDeclared = False, MaxIterations = 0\<rparr>)"

section \<open>Execution rules of the chat service\<close>

text \<open>
  A turn of a native view, if the context is one, with the authorization of its live capability if there is one and
  native grants are wired; \<open>rules_store\<close> is the store if it resolves actors, \<open>has_cache\<close> and \<open>has_tools\<close> say what is wired.
\<close>

record rules_ctx =
  cognitive :: bool
  capability :: "(string \<Rightarrow> bool \<times> string) option"
  has_cache :: bool
  has_tools :: bool
  rules_store :: "grant_store option"

definition rules_unavailable :: "bool \<times> string" where
  "rules_unavailable = (False, ''verified tool authorization unavailable'')"

definition enforceExecutionRulesViaAgentTools :: "grant_store \<Rightarrow> string \<Rightarrow> string \<Rightarrow> bool \<times> string" where
  "enforceExecutionRulesViaAgentTools st agentID toolName = (case ListAgentToolNames st agentID of
       None \<Rightarrow> rules_unavailable
     | Some granted \<Rightarrow> if toolName \<in> set granted then (True, [])
         else (case ListAlwaysIncludedKnownTools st of
            None \<Rightarrow> rules_unavailable
          | Some ks \<Rightarrow> if list_ex (\<lambda>k. KT_Name k = toolName \<and> KT_Status k = ''available'') ks then (True, [])
              else (False, ''tool not in agent'' @ [CHR 0x27] @ ''s allowed tool set'')))"

definition enforceExecutionRules :: "rules_ctx \<Rightarrow> string \<Rightarrow> string \<Rightarrow> bool \<times> string" where
  "enforceExecutionRules C agentID toolName = (
     if cognitive C then
       (if has_cache C \<and> (toolName = ''fetch_tool_result'' \<or> toolName = ''search_tool_result'') then (True, [])
        else case capability C of Some authorize \<Rightarrow> authorize toolName
          | None \<Rightarrow> (False, ''verified actor tool grants are unavailable for this native view''))
     else if \<not> has_tools C then rules_unavailable
     else case rules_store C of None \<Rightarrow> rules_unavailable
       | Some st \<Rightarrow> (case GetAgentForActor st agentID of Inl _ \<Rightarrow> rules_unavailable
          | Inr _ \<Rightarrow> enforceExecutionRulesViaAgentTools st agentID toolName))"

section \<open>The grants of an agent\<close>

lemma add_unseen_subset: "set (snd (add_unseen seen ts)) \<subseteq> set ts"
proof (induction ts arbitrary: seen)
  case (Cons t ts)
  from Cons [of seen] Cons [of "TD_Name t # seen"] show ?case
    by (cases "TD_Name t \<in> set seen") (auto split: prod.splits)
qed simp

lemma add_unseen_props:
  "set (fst (add_unseen seen ts)) = set seen \<union> TD_Name ` set ts"
  "distinct (map TD_Name (snd (add_unseen seen ts)))"
  "set seen \<inter> TD_Name ` set (snd (add_unseen seen ts)) = {}"
  "TD_Name ` set (snd (add_unseen seen ts)) = TD_Name ` set ts - set seen"
proof (induction ts arbitrary: seen)
  case (Cons t ts)
  { case 1 from Cons(1) [of seen] Cons(1) [of "TD_Name t # seen"] show ?case by (auto split: prod.splits) }
  { case 2 from Cons(2) [of seen] Cons(2,4) [of "TD_Name t # seen"] show ?case by (auto split: prod.splits) }
  { case 3 from Cons(3) [of seen] Cons(3) [of "TD_Name t # seen"] show ?case by (auto split: prod.splits) }
  { case 4 from Cons(4) [of seen] Cons(4) [of "TD_Name t # seen"] show ?case by (auto split: prod.splits) }
qed simp_all

lemma add_unseen_append:
  assumes "distinct (map TD_Name ts)" "TD_Name ` set ts \<subseteq> set seen" "add_unseen seen xs = (seen', new)"
  shows "distinct (map TD_Name (ts @ new)) \<and> TD_Name ` set (ts @ new) \<subseteq> set seen'"
proof -
  have "distinct (map TD_Name new)" "set seen \<inter> TD_Name ` set new = {}" "TD_Name ` set new = TD_Name ` set xs - set seen"
    "set seen' = set seen \<union> TD_Name ` set xs"
    using add_unseen_props [of seen xs] assms(3) by simp_all
  moreover from this(2) assms(2) have "TD_Name ` set ts \<inter> TD_Name ` set new = {}" by blast
  ultimately show ?thesis using assms(1,2) by auto
qed

lemma granted_iff:
  assumes "tc_Store tb = Some st"
  shows "isToolGrantedToAgent None tb ag n \<longleftrightarrow> \<not> isl (GetAgentForActor st ag) \<and> n \<in> set (visible_names st ag)"
  using assms by (auto simp: isToolGrantedToAgent_def visible_names_def list_ex_iff split: sum.splits option.splits)

lemma filter_granted: "d \<in> set (filterToolsByAgentTools (Some st) ag ts) \<Longrightarrow> TD_Name d \<in> set (visible_names st ag) \<and> d \<in> set ts"
  by (auto simp: filterToolsByAgentTools_def visible_names_def split: option.splits if_splits)

lemma TD_Name_meta [simp]: "TD_Name RequestToolsMetaTool = ''request_tools''"
  by (simp add: RequestToolsMetaTool_def)

lemma by_name: "map_of (rev (map (\<lambda>t. (TD_Name t, t)) ts)) n = Some d \<Longrightarrow> TD_Name d = n"
  by (auto dest: map_of_SomeD)

lemma always_granted:
  assumes "agentToolsStore S = Some st" "d \<in> set (resolveAlwaysIncludedTools S)"
  shows "TD_Name d \<in> set (visible_names st ag)"
proof -
  obtain rows where rows: "ListAlwaysIncludedKnownTools st = Some rows"
    using assms by (cases "ListAlwaysIncludedKnownTools st") (auto simp: resolveAlwaysIncludedTools_def)
  obtain k where k: "k \<in> set rows" "KT_Status k = ''available''" "TD_Name d = KT_Name k"
    using assms rows
    by (auto simp: resolveAlwaysIncludedTools_def Let_def split: if_splits option.splits dest: by_name [OF sym] by_name)
  with rows show ?thesis by (auto simp: visible_names_def)
qed

lemma surface_subset: "set (surface_for agent ts) \<subseteq> set ts"
  by (auto simp: surface_for_def applyChatSurfaceFilter_def)

lemma surface_excludes:
  "AP_Slug agent = chatRoleAgentSlug \<Longrightarrow> d \<in> set (surface_for agent ts) \<Longrightarrow> TD_Name d \<notin> set (ExcludedTools DefaultChatToolSurface)"
  by (auto simp: surface_for_def applyChatSurfaceFilter_def Filter_surface_def DefaultChatToolSurface_def split: if_splits)

lemma surface_distinct: "distinct (map TD_Name ts) \<Longrightarrow> distinct (map TD_Name (surface_for agent ts))"
  by (simp add: surface_for_def applyChatSurfaceFilter_def distinct_map_filter)

lemma prune_suffix: "suffix (prune E budget tot ts) ts"
  by (induction E budget tot ts rule: prune.induct) (auto intro: suffix_ConsI)

lemma pruned_prefix: "prefix (PruneToolDefsToTokenBudget E ts budget) ts"
  using prune_suffix [of E budget "int (EstimateToolDefTokens E ts)" "rev ts"]
  by (simp add: PruneToolDefsToTokenBudget_def Let_def suffix_to_prefix)

lemma finalized_prefix: "prefix (FinalizeToolSelection E tb ts w) ts"
  unfolding FinalizeToolSelection_def using pruned_prefix take_is_prefix prefix_order.trans by blast

lemma names_rendered [simp]: "map TD_Name (RenderDescriptions tb ts c) = map TD_Name ts"
  by (auto simp: RenderDescriptions_def render_one_def split: option.splits)

lemma names_set_rendered [simp]: "TD_Name ` set (RenderDescriptions tb ts c) = TD_Name ` set ts"
  using names_rendered [of tb ts c] by (metis list.set_map)

lemma names_union: "TD_Name ` set (unionToolsByName a b) = TD_Name ` set a \<union> TD_Name ` set b"
  using add_unseen_props(4) [of "map TD_Name a" b] by (auto simp: unionToolsByName_def)

lemma distinct_union: "distinct (map TD_Name a) \<Longrightarrow> distinct (map TD_Name (unionToolsByName a b))"
  using add_unseen_props(2,3) [of "map TD_Name a" b] by (auto simp: unionToolsByName_def)

lemma discover_one_distinct:
  assumes "distinct (map TD_Name ts)" "TD_Name ` set ts \<subseteq> set seen" "discover_one q m ((ts, seen), s) srv = ((ts', seen'), s')"
  shows "distinct (map TD_Name ts') \<and> TD_Name ` set ts' \<subseteq> set seen'"
proof -
  obtain s1 r where r: "DiscoverServerTools q m srv s = (s1, r)" by fastforce
  show ?thesis
  proof (cases r)
    case (Inr listed)
    obtain seen2 new where new: "add_unseen seen (filter (\<lambda>d. TD_Name d \<noteq> []) (map (server_def srv) listed)) = (seen2, new)"
      by fastforce
    from add_unseen_append [OF assms(1,2) new] show ?thesis using assms(3) Inr new r by (auto simp: discover_one_def)
  qed (use assms r in \<open>simp add: discover_one_def\<close>)
qed

lemma discover_distinct:
  "distinct (map TD_Name ts) \<Longrightarrow> TD_Name ` set ts \<subseteq> set seen
    \<Longrightarrow> foldl (discover_one q m) ((ts, seen), s) srvs = ((ts', seen'), s') \<Longrightarrow> distinct (map TD_Name ts')"
proof (induction srvs arbitrary: ts seen s)
  case (Cons srv srvs)
  obtain ts1 seen1 s1 where d: "discover_one q m ((ts, seen), s) srv = ((ts1, seen1), s1)" by (metis surj_pair)
  from discover_one_distinct [OF Cons(2,3) d] Cons(1) [of ts1 seen1 s1] Cons(4) d show ?case by simp
qed simp

lemma distinct_discovered:
  "distinct (map TD_Name ts) \<Longrightarrow> TD_Name ` set ts \<subseteq> set seen
    \<Longrightarrow> distinct (map TD_Name (fst (discoverAgentMCPTools q m raw ts seen s)))"
  by (auto simp: discoverAgentMCPTools_def split: prod.splits intro: discover_distinct)

lemma distinct_candidates: "distinct (map TD_Name (fst (candidate_tools E S ag agent s)))"
proof -
  define base where "base = (case sv_client S of None \<Rightarrow> ([], [])
    | Some tb \<Rightarrow> (case SelectToolsAsProvider tb ag of Inl _ \<Rightarrow> ([], []) | Inr defs \<Rightarrow> add_unseen [] defs))"
  obtain seen ts where st: "base = (seen, ts)" by fastforce
  then have d: "distinct (map TD_Name ts)" "TD_Name ` set ts \<subseteq> set seen"
    using add_unseen_append [of "[]" "[]"] by (fastforce simp: base_def split: option.splits sum.splits)+
  have "fst (candidate_tools E S ag agent s) = (case sv_mcp S of None \<Rightarrow> ts | Some m \<Rightarrow> if countMCPOriginTools (sv_client S) ts = 0
      then fst (discoverAgentMCPTools (ge_quote E) m (AP_MCPServers agent) ts seen s) else ts)"
    unfolding candidate_tools_def base_def [symmetric] st by (simp split: option.splits)
  then show ?thesis using d by (auto split: option.splits intro: distinct_discovered)
qed

text \<open>A selection is one of two lists over the granted candidates.\<close>

definition granted_candidates :: "grant_env \<Rightarrow> 's tool_select \<Rightarrow> grant_store \<Rightarrow> string \<Rightarrow> AgentProfile \<Rightarrow> 's \<Rightarrow> ToolDefinition list" where
  "granted_candidates E S st ag agent s = surface_for agent (filterToolsByAgentTools (Some st) ag (fst (candidate_tools E S ag agent s)))"

lemma selection_cases:
  assumes "sv_client S = Some tb" "tc_Store tb = Some st" "resolveToolActor S ag = Inr agent" "SelectForAgent E S ag w s = (s', Inr sel)"
  shows "Sel_Progressive sel \<and> Sel_Tools sel = progressive_tools S tb ag agent (granted_candidates E S st ag agent s)
    \<or> \<not> Sel_Progressive sel \<and> Sel_Tools sel = direct_tools E S ag agent w (granted_candidates E S st ag agent s)"
proof -
  have st: "agentToolsStore S = Some st" using assms(1,2) by (simp add: agentToolsStore_def)
  show ?thesis using assms(1,3,4)
    by (auto simp: SelectForAgent_def st granted_candidates_def Let_def split: prod.splits if_splits)
qed

lemma granted_candidates_props:
  "TD_Name ` set (granted_candidates E S st ag agent s) \<subseteq> set (visible_names st ag)"
  "distinct (map TD_Name (granted_candidates E S st ag agent s))"
  "AP_Slug agent = chatRoleAgentSlug \<Longrightarrow> TD_Name ` set (granted_candidates E S st ag agent s) \<inter> set (ExcludedTools DefaultChatToolSurface) = {}"
proof -
  show "TD_Name ` set (granted_candidates E S st ag agent s) \<subseteq> set (visible_names st ag)"
    using surface_subset filter_granted by (fastforce simp: granted_candidates_def)
  show "distinct (map TD_Name (granted_candidates E S st ag agent s))"
    using distinct_candidates [of E S ag agent s]
    by (auto simp: granted_candidates_def filterToolsByAgentTools_def distinct_map_filter split: option.splits intro!: surface_distinct)
  show "TD_Name ` set (granted_candidates E S st ag agent s) \<inter> set (ExcludedTools DefaultChatToolSurface) = {}"
    if "AP_Slug agent = chatRoleAgentSlug"
    using surface_excludes [OF that] by (auto simp: granted_candidates_def)
qed

text \<open>What both lists add to the candidates.\<close>

lemma offered_names:
  assumes "sv_client S = Some tb"
  shows "TD_Name ` set (progressive_tools S tb ag agent ts)
      \<subseteq> insert ''request_tools'' (TD_Name ` set ts \<union> TD_Name ` set (surface_for agent (resolveAlwaysIncludedTools S)))"
    and "TD_Name ` set (direct_tools E S ag agent w ts) \<subseteq> TD_Name ` set ts \<union> TD_Name ` set (surface_for agent (resolveAlwaysIncludedTools S))"
  using assms set_mono_prefix [OF finalized_prefix [of E tb ts w]]
  by (auto simp: progressive_tools_def direct_tools_def names_union)

lemma selected_from:
  assumes "sv_client S = Some tb" "tc_Store tb = Some st" "resolveToolActor S ag = Inr agent" "SelectForAgent E S ag w s = (s', Inr sel)"
    and "TD_Name ` set (granted_candidates E S st ag agent s) \<subseteq> X" "TD_Name ` set (surface_for agent (resolveAlwaysIncludedTools S)) \<subseteq> X"
    and "d \<in> set (Sel_Tools sel)"
  shows "TD_Name d \<in> X \<or> Sel_Progressive sel \<and> TD_Name d = ''request_tools''"
  using selection_cases [OF assms(1-4)]
proof (elim disjE conjE)
  assume p: "Sel_Progressive sel" "Sel_Tools sel = progressive_tools S tb ag agent (granted_candidates E S st ag agent s)"
  have "TD_Name d \<in> insert ''request_tools'' (TD_Name ` set (granted_candidates E S st ag agent s)
      \<union> TD_Name ` set (surface_for agent (resolveAlwaysIncludedTools S)))"
    using offered_names(1) [OF assms(1)] assms(7) unfolding p(2) by blast
  then show ?thesis using assms(5,6) p(1) by blast
next
  assume p: "\<not> Sel_Progressive sel" "Sel_Tools sel = direct_tools E S ag agent w (granted_candidates E S st ag agent s)"
  have "TD_Name d \<in> TD_Name ` set (granted_candidates E S st ag agent s) \<union> TD_Name ` set (surface_for agent (resolveAlwaysIncludedTools S))"
    using offered_names(2) [OF assms(1)] assms(7) unfolding p(2) by blast
  then show ?thesis using assms(5,6) by blast
qed

lemma offered_distinct:
  assumes "sv_client S = Some tb" "distinct (map TD_Name ts)"
  shows "\<not> IsBuiltinTool tb ''request_tools'' \<Longrightarrow> distinct (map TD_Name (progressive_tools S tb ag agent ts))"
    and "distinct (map TD_Name (direct_tools E S ag agent w ts))"
proof -
  have "distinct (map TD_Name (FinalizeToolSelection E tb ts w))"
    using finalized_prefix [of E tb ts w] assms(2) by (metis distinct_append map_append prefix_def)
  then show "distinct (map TD_Name (direct_tools E S ag agent w ts))"
    using assms(1) by (simp add: direct_tools_def distinct_union)
  show "distinct (map TD_Name (progressive_tools S tb ag agent ts))" if "\<not> IsBuiltinTool tb ''request_tools''"
    using assms(2) that by (auto simp: progressive_tools_def distinct_map_filter intro!: distinct_union)
qed

lemma requested_names_allowed:
  "d \<in> set (fst (HandleRequestToolsForAgent E tb ag input)) \<Longrightarrow> request_allowed tb ag (TD_Name d)
    \<and> (case tc_Store tb of None \<Rightarrow> True | Some st \<Rightarrow> \<not> isl (GetAgentForActor st ag))"
  by (auto simp: HandleRequestToolsForAgent_def Let_def split: if_splits prod.splits option.splits)

lemma requested_offered:
  assumes "sv_client S = Some tb" "tc_Store tb = Some st" "resolveToolActor S ag = Inr agent"
    and "d \<in> set (fst (fst (HandleRequestTools E S ag input)))"
  shows "TD_Name d \<in> set (visible_names st ag) \<or> TD_Name d \<in> {''fetch_tool_result'', ''search_tool_result''}"
proof -
  let ?ts = "fst (HandleRequestToolsForAgent E tb ag input)"
  have "fst (fst (HandleRequestTools E S ag input)) = RenderDescriptions tb (surface_for agent ?ts) (caller_of ag agent)"
    using assms(1,3) by (simp add: HandleRequestTools_def Let_def split: prod.splits)
  then have "TD_Name d \<in> TD_Name ` set (surface_for agent ?ts)" using assms(4) names_set_rendered by (metis imageI)
  then obtain d' where d': "d' \<in> set ?ts" "TD_Name d = TD_Name d'" using surface_subset by blast
  from requested_names_allowed [OF d'(1)] show ?thesis unfolding d'(2) using assms(2) by (auto simp: request_allowed_def)
qed

text \<open>
  C35. An agent is offered only tools it may call. Over a store of grants, every tool definition that \<^verbatim>\<open>SelectForAgent\<close> returns
  passes the gate of \<^verbatim>\<open>CallTool\<close>, except the tool that requests others, which progressive discovery adds; its
  names are distinct unless a built-in tool bears the name of that tool; the chat agent is never offered a tool
  its surface excludes. What a request for more tools returns passes the same gate, except the two readers of
  cached results, which the chat service supplies itself.
\<close>

theorem offered_tools_callable:
  assumes "sv_client S = Some tb" "tc_Store tb = Some st" "sv_agents S = Some (GetAgentForActor st)"
    and "GetAgentForActor st ag = Inr agent" "SelectForAgent E S ag w s = (s', Inr sel)"
  shows "(\<forall>d\<in>set (Sel_Tools sel). isToolGrantedToAgent None tb ag (TD_Name d)
          \<or> Sel_Progressive sel \<and> TD_Name d = ''request_tools'')
    \<and> (distinct (map TD_Name (Sel_Tools sel)) \<or> Sel_Progressive sel \<and> IsBuiltinTool tb ''request_tools'')
    \<and> (AP_Slug agent = chatRoleAgentSlug \<longrightarrow> (\<forall>d\<in>set (Sel_Tools sel). TD_Name d \<notin> set (ExcludedTools DefaultChatToolSurface)))
    \<and> (\<forall>d\<in>set (fst (fst (HandleRequestTools E S ag input))). isToolGrantedToAgent None tb ag (TD_Name d)
          \<or> TD_Name d \<in> {''fetch_tool_result'', ''search_tool_result''})"
proof -
  have agent: "resolveToolActor S ag = Inr agent" using assms(3,4) by (simp add: resolveToolActor_def)
  have st: "agentToolsStore S = Some st" using assms(1,2) by (simp add: agentToolsStore_def)
  let ?ts = "granted_candidates E S st ag agent s" and ?always = "surface_for agent (resolveAlwaysIncludedTools S)"
  note sel = selection_cases [OF assms(1,2) agent assms(5)] and cand = granted_candidates_props [where E = E and S = S and st = st and ag = ag and agent = agent and s = s]
  have granted: "isToolGrantedToAgent None tb ag n \<longleftrightarrow> n \<in> set (visible_names st ag)" for n
    using granted_iff [OF assms(2)] assms(4) by simp
  have always: "TD_Name ` set ?always \<subseteq> set (visible_names st ag)"
    using surface_subset always_granted [OF st] by fastforce
  note origin = selected_from [OF assms(1,2) agent assms(5)]
  have 1: "\<forall>d\<in>set (Sel_Tools sel). isToolGrantedToAgent None tb ag (TD_Name d) \<or> Sel_Progressive sel \<and> TD_Name d = ''request_tools''"
    unfolding granted using origin [OF cand(1) always] by blast
  have 2: "distinct (map TD_Name (Sel_Tools sel)) \<or> Sel_Progressive sel \<and> IsBuiltinTool tb ''request_tools''"
    using sel offered_distinct [OF assms(1) cand(2)] by metis
  have 3: "TD_Name d \<notin> set (ExcludedTools DefaultChatToolSurface)" if slug: "AP_Slug agent = chatRoleAgentSlug" and d: "d \<in> set (Sel_Tools sel)" for d
  proof -
    let ?X = "set (ExcludedTools DefaultChatToolSurface)"
    have "TD_Name ` set ?always \<subseteq> - ?X" using surface_excludes [OF slug] by auto
    moreover have "TD_Name ` set ?ts \<subseteq> - ?X" using cand(3) [OF slug] by blast
    moreover have "''request_tools'' \<in> - ?X" by (simp add: DefaultChatToolSurface_def)
    ultimately have "TD_Name d \<in> - ?X" using origin [of "- ?X", OF _ _ d] by auto
    then show ?thesis by simp
  qed
  have 4: "\<forall>d\<in>set (fst (fst (HandleRequestTools E S ag input))). isToolGrantedToAgent None tb ag (TD_Name d)
          \<or> TD_Name d \<in> {''fetch_tool_result'', ''search_tool_result''}"
    unfolding granted using requested_offered [OF assms(1,2) agent] by blast
  from 1 2 3 4 show ?thesis by blast
qed

lemma always_unread: "ListAlwaysIncludedKnownTools st = None \<longleftrightarrow> bad_always st"
  by (simp add: ListAlwaysIncludedKnownTools_def)

lemma always_read:
  assumes "ListAlwaysIncludedKnownTools st = Some ks"
  shows "list_ex (\<lambda>k. KT_Name k = x \<and> KT_Status k = ''available'') ks
    \<longleftrightarrow> (\<exists>k. k \<in> set (known_tools st) \<and> KT_AlwaysIncluded k \<and> KT_Status k = ''available'' \<and> KT_Name k = x)"
  using assms by (auto simp: ListAlwaysIncludedKnownTools_def list_ex_iff split: if_splits)

lemma rules_agree:
  assumes "tc_Store tb = Some st" "rules_store C = Some st" "\<not> cognitive C" "has_tools C"
  shows "\<not> bad_grants st \<Longrightarrow> fst (enforceExecutionRules C ag n) = isToolGrantedToAgent None tb ag n"
    and "fst (enforceExecutionRules C ag n) \<Longrightarrow> isToolGrantedToAgent None tb ag n"
proof -
  have rules: "enforceExecutionRules C ag n = (case GetAgentForActor st ag of Inl _ \<Rightarrow> rules_unavailable
      | Inr _ \<Rightarrow> enforceExecutionRulesViaAgentTools st ag n)"
    using assms by (simp add: enforceExecutionRules_def)
  have via: "fst (enforceExecutionRulesViaAgentTools st ag n) \<longleftrightarrow> (\<exists>names. ListAgentToolNames st ag = Some names
      \<and> (n \<in> set names \<or> (\<exists>ks. ListAlwaysIncludedKnownTools st = Some ks \<and> list_ex (\<lambda>k. KT_Name k = n \<and> KT_Status k = ''available'') ks)))"
    by (simp add: enforceExecutionRulesViaAgentTools_def rules_unavailable_def split: option.splits)
  have client: "isToolGrantedToAgent None tb ag n \<longleftrightarrow> \<not> isl (GetAgentForActor st ag) \<and> ((\<exists>names. ListAgentToolNames st ag = Some names \<and> n \<in> set names)
      \<or> (\<exists>ks. ListAlwaysIncludedKnownTools st = Some ks \<and> list_ex (\<lambda>k. KT_Name k = n \<and> KT_Status k = ''available'') ks))"
    by (simp add: isToolGrantedToAgent_def assms(1) split: option.splits sum.splits)
  have chat: "fst (enforceExecutionRules C ag n) \<longleftrightarrow> \<not> isl (GetAgentForActor st ag) \<and> fst (enforceExecutionRulesViaAgentTools st ag n)"
    unfolding rules by (simp add: rules_unavailable_def split: sum.splits)
  show "isToolGrantedToAgent None tb ag n" if "fst (enforceExecutionRules C ag n)"
    using that unfolding chat via client by blast
  show "fst (enforceExecutionRules C ag n) = isToolGrantedToAgent None tb ag n" if "\<not> bad_grants st"
    unfolding chat via client using that by (auto simp: ListAgentToolNames_def)
qed

lemma selection_agrees:
  assumes "tc_Store tb = Some st" "t \<in> set ts"
  shows "isToolGrantedToAgent None tb ag (TD_Name t) \<longleftrightarrow> \<not> isl (GetAgentForActor st ag)
        \<and> (t \<in> set (filterToolsByAgentTools (Some st) ag ts)
          \<or> (\<exists>k. \<not> bad_always st \<and> k \<in> set (known_tools st) \<and> KT_AlwaysIncluded k \<and> KT_Status k = ''available'' \<and> KT_Name k = TD_Name t))"
proof (cases "GetAgentForActor st ag")
  case (Inr agent)
  have f: "t \<in> set (filterToolsByAgentTools (Some st) ag ts) \<longleftrightarrow>
      (case ListAgentToolNames st ag of None \<Rightarrow> False | Some names \<Rightarrow> TD_Name t \<in> set names)"
    using assms(2) by (cases "ListAgentToolNames st ag"; cases ts) (simp_all add: filterToolsByAgentTools_def, blast)
  have g: "isToolGrantedToAgent None tb ag (TD_Name t) \<longleftrightarrow> t \<in> set (filterToolsByAgentTools (Some st) ag ts)
      \<or> (case ListAlwaysIncludedKnownTools st of None \<Rightarrow> False
          | Some ks \<Rightarrow> list_ex (\<lambda>k. KT_Name k = TD_Name t \<and> KT_Status k = ''available'') ks)"
    unfolding f by (simp add: isToolGrantedToAgent_def Inr assms(1))
  show ?thesis
  proof (cases "ListAlwaysIncludedKnownTools st")
    case None
    then have "bad_always st" by (simp add: always_unread [symmetric])
    then show ?thesis using g None Inr by simp
  next
    case (Some ks)
    then have "\<not> bad_always st" by (simp add: always_unread [symmetric])
    then show ?thesis using g Some Inr always_read [OF Some, of "TD_Name t"] by simp
  qed
qed (use assms(1) in \<open>simp add: isToolGrantedToAgent_def\<close>)

text \<open>
  C36. The three gates agree. The toolbox and the execution rules read one store of grants, and the rules apply (there is a
  tool service, and the call does not come from the cognitive layer). For a verified agent the tools that selection
  keeps, together with the always included ones, are exactly those that \<^verbatim>\<open>CallTool\<close> lets through; the rules the chat service checks again before a call
  decide the same while the grants can be read, and allow nothing more where they cannot.
\<close>

theorem gates_agree:
  assumes "tc_Store tb = Some st" "rules_store C = Some st" "\<not> cognitive C" "has_tools C"
  shows "(\<not> bad_grants st \<longrightarrow> fst (enforceExecutionRules C ag n) = isToolGrantedToAgent None tb ag n)
    \<and> (fst (enforceExecutionRules C ag n) \<longrightarrow> isToolGrantedToAgent None tb ag n)
    \<and> (\<forall>t\<in>set ts. isToolGrantedToAgent None tb ag (TD_Name t) \<longleftrightarrow> \<not> isl (GetAgentForActor st ag)
        \<and> (t \<in> set (filterToolsByAgentTools (Some st) ag ts)
          \<or> (\<exists>k. \<not> bad_always st \<and> k \<in> set (known_tools st) \<and> KT_AlwaysIncluded k \<and> KT_Status k = ''available'' \<and> KT_Name k = TD_Name t)))"
  using rules_agree [OF assms] selection_agrees [OF assms(1)] by simp

section \<open>A refused tool is not called\<close>

definition denial :: "(string \<Rightarrow> string) \<Rightarrow> string \<Rightarrow> string \<Rightarrow> string" where
  "denial quote tn ag = ''permission denied: tool '' @ quote tn @ '' not permitted for agent '' @ quote ag"

lemma lower_denial:
  assumes "list_all ascii_byte (denial quote tn ag)"
  shows "Contains (ToLower ul (denial quote tn ag)) ''permission denied''"
proof -
  have "prefix ''permission denied'' (map ascii_lower (denial quote tn ag))"
    by (simp add: denial_def ascii_lower_def Let_def)
  then show ?thesis using assms prefix_imp_sublist by (simp add: ToLower_def Contains_iff_sublist)
qed

lemma denial_unrecoverable:
  assumes "list_all ascii_byte (denial quote tn ag)" "te_flatten E (Plain (denial quote tn ag)) = []"
  shows "\<not> IsRecoverable (Classify_tool E (Plain (denial quote tn ag)))"
  using assms lower_denial [OF assms(1), of "te_lower E"]
  by (simp add: Classify_tool_def classify_prose_def isUnrecoverableProse_def unrecoverable_phrases_def IsRecoverable_def)

text \<open>
  C34. A tool that is not granted is not called. Where the gate of \<^verbatim>\<open>CallTool\<close> refuses an agent, running the tool through the
  service reaches no server and no model: the state of the world is what it was, whatever the repair is
  configured to do, and the agent reads the refusal; no answer of a model can turn it into a call. The premises on the
  refusal's text say that it is ASCII and that it is not taken for a schema error.
\<close>

theorem ungranted_tool_not_called:
  assumes "\<not> isToolGrantedToAgent gate tb ag tn" "transport S = Some (CallTool quote gate tb)"
    and "list_all ascii_byte (denial quote tn ag)" "te_flatten E (Plain (denial quote tn ag)) = []"
  shows "Execute E env S ag tn input s = (s, failed_tool (''Error: '' @ denial quote tn ag))"
proof -
  have "callTransport S ag tn input s = (s, Inl (Plain (denial quote tn ag)))"
    using assms(1,2) by (simp add: callTransport_def CallTool_def denial_def)
  then show ?thesis using denial_unrecoverable [OF assms(3,4)] by (simp add: Execute_def attemptRepair_def)
qed

section \<open>Examples\<close>

definition grant_sample_agent :: AgentProfile where
  "grant_sample_agent = \<lparr>AP_ID = ''u'', AP_Slug = ''default'', AP_MCPServers = ''[]'', AP_ParentDispatchAllowlist = []\<rparr>"

definition grant_sample_store :: grant_store where
  "grant_sample_store = \<lparr>known_tools = [\<lparr>KT_ID = ''1'', KT_Name = ''dev_read'', KT_Status = ''available'', KT_ConcurrencySafe = None, KT_AlwaysIncluded = False\<rparr>,
       \<lparr>KT_ID = ''2'', KT_Name = ''request_tools'', KT_Status = ''available'', KT_ConcurrencySafe = None, KT_AlwaysIncluded = True\<rparr>],
     actor_granted_tools = [(''u'', ''1'')], agent_actor_bindings = [\<lparr>B_actor = ''u'', B_host = ''h'', B_receipt = ''r'', B_enabled = True\<rparr>],
     enabled_hosts = [''h''], host_agents = (\<lambda>_. Some grant_sample_agent), valid_actor = (\<lambda>_. True),
     bad_grants = False, bad_always = False, bad_known = False, bad_bindings = False\<rparr>"

definition grant_sample_client :: "unit ToolClient" where
  "grant_sample_client = (New_client None (Some grant_sample_store) None)\<lparr>tc_Builtins := Some [(''dev'',
     [\<lparr>TD_Name = ''dev_read'', TD_Description = [], TD_InputSchema = None\<rparr>, \<lparr>TD_Name = ''dev_bash'', TD_Description = [], TD_InputSchema = None\<rparr>])]\<rparr>"

definition grant_sample_env :: grant_env where
  "grant_sample_env = \<lparr>ge_lower = id, ge_quote = id, ge_marshal = (\<lambda>d. Some (TD_Name d)), ge_scale = (\<lambda>p w. 1000), ge_rank = id\<rparr>"

definition grant_sample_service :: "unit tool_select" where
  "grant_sample_service = \<lparr>sv_client = Some grant_sample_client, sv_mcp = None, sv_agents = Some (GetAgentForActor grant_sample_store)\<rparr>"

lemma select_verified: "resolveToolActor S ag = Inr agent \<Longrightarrow> \<exists>s' sel. SelectForAgent E S ag w s = (s', Inr sel)"
  by (cases "candidate_tools E S ag agent s") (simp add: SelectForAgent_def Let_def)

lemma grant_sample_verified: "GetAgentForActor grant_sample_store ''u'' = Inr grant_sample_agent"
  by code_simp

lemma grant_sample_parts:
  "tc_Store grant_sample_client = Some grant_sample_store" "sv_client grant_sample_service = Some grant_sample_client"
  "sv_agents grant_sample_service = Some (GetAgentForActor grant_sample_store)"
  by (simp_all add: grant_sample_client_def New_client_def grant_sample_service_def)

theorem offered_tools_callable_witness:
  "\<exists>s' sel. SelectForAgent grant_sample_env grant_sample_service ''u'' 0 () = (s', Inr sel)
    \<and> list_all (\<lambda>d. isToolGrantedToAgent None grant_sample_client ''u'' (TD_Name d) \<or> Sel_Progressive sel \<and> TD_Name d = ''request_tools'') (Sel_Tools sel)"
proof -
  have "resolveToolActor grant_sample_service ''u'' = Inr grant_sample_agent"
    by (simp add: resolveToolActor_def grant_sample_parts grant_sample_verified)
  then obtain s' sel where sel: "SelectForAgent grant_sample_env grant_sample_service ''u'' 0 () = (s', Inr sel)"
    using select_verified by metis
  from offered_tools_callable [OF grant_sample_parts(2,1,3) grant_sample_verified sel] sel show ?thesis
    by (auto simp: list_all_iff)
qed

text \<open>The granted tool and the tool that requests others are offered, the ungranted one is not.\<close>

lemma grant_sample_offers:
  "map_sum id (map TD_Name \<circ> Sel_Tools) (snd (SelectForAgent grant_sample_env grant_sample_service ''u'' 0 ())) = Inr [''dev_read'', ''request_tools'']"
  by code_simp

theorem gates_agree_witness:
  "fst (enforceExecutionRules \<lparr>cognitive = False, capability = None, has_cache = False, has_tools = True, rules_store = Some grant_sample_store\<rparr> ''u'' ''dev_read'')
      = isToolGrantedToAgent None grant_sample_client ''u'' ''dev_read''
    \<and> isToolGrantedToAgent None grant_sample_client ''u'' ''dev_read'' \<and> \<not> isToolGrantedToAgent None grant_sample_client ''u'' ''dev_bash''"
proof -
  have "isToolGrantedToAgent None grant_sample_client ''u'' ''dev_read''" "\<not> isToolGrantedToAgent None grant_sample_client ''u'' ''dev_bash''"
    by code_simp+
  moreover have "\<not> bad_grants grant_sample_store" by (simp add: grant_sample_store_def)
  ultimately show ?thesis
    using gates_agree [OF grant_sample_parts(1), of "\<lparr>cognitive = False, capability = None, has_cache = False, has_tools = True,
      rules_store = Some grant_sample_store\<rparr>" "''u''" "''dev_read''" "[]"] by simp
qed

theorem ungranted_tool_not_called_witness:
  "Execute repair_sample_env [] \<lparr>transport = Some (CallTool id None grant_sample_client), repairConfig = None, tool_schemas = (\<lambda>_. None)\<rparr>
      ''u'' ''dev_bash'' None () = ((), failed_tool (''Error: '' @ denial id ''dev_bash'' ''u''))
    \<and> \<not> isToolGrantedToAgent None grant_sample_client ''u'' ''dev_bash''"
proof -
  have d: "\<not> isToolGrantedToAgent None grant_sample_client ''u'' ''dev_bash''" by code_simp
  have a: "list_all ascii_byte (denial id ''dev_bash'' ''u'')" by code_simp
  have f: "te_flatten repair_sample_env (Plain (denial id ''dev_bash'' ''u'')) = []" by (simp add: repair_sample_env_def)
  show ?thesis using ungranted_tool_not_called [OF d _ a f] d by simp
qed

end
