(* ===== verification/AuthStore.thy ===== *)
theory AuthStore
  imports GoTime GoJSON
begin

text \<open>
  The credential database of the HTTP interface: \<^verbatim>\<open>internal/apiauth\<close>, files \<^verbatim>\<open>credential.go\<close>,
  \<^verbatim>\<open>store.go\<close>, \<^verbatim>\<open>bootstrap.go\<close> and \<^verbatim>\<open>agent_ttl.go\<close>. A credential is an operator's, a client's or an
  agent's; its secret is shown once and only its hash is stored. Browser sessions and login links
  depend on a credential.

  Tables are lists of rows in the order of their insertion, with the columns of the schema as texts:
  times are written by \<open>ts\<close> and compared as texts by some statements. A statement fails without
  effect where the argument \<open>bad\<close> says so, by its position in the call. The hash function, the random
  tokens, the ids, the clock, the driver's errors and the operating system's file operations are
  arguments.

  The theorems: the stored form of times keeps their order; minting only narrows, whatever is created,
  imported, rotated and prolonged; and revocation is final.
\<close>

section \<open>Kinds and scopes\<close>

definition KindOperator :: string where "KindOperator = ''operator''"

definition KindClient :: string where "KindClient = ''client''"

definition KindAgent :: string where "KindAgent = ''agent''"

definition ScopeRead :: string where "ScopeRead = ''read''"

definition ScopeOperate :: string where "ScopeOperate = ''operate''"

definition ScopeTools :: string where "ScopeTools = ''tools''"

definition ScopeMaintain :: string where "ScopeMaintain = ''maintain''"

definition ScopeAdmin :: string where "ScopeAdmin = ''admin''"

definition ScopeAgentsManage :: string where "ScopeAgentsManage = ''agents:manage''"

lemmas kind_defs = KindOperator_def KindClient_def KindAgent_def

lemmas scope_defs = ScopeRead_def ScopeOperate_def ScopeTools_def ScopeMaintain_def ScopeAdmin_def ScopeAgentsManage_def

definition AllScopes :: "string list" where
  "AllScopes = [ScopeRead, ScopeOperate, ScopeTools, ScopeMaintain, ScopeAdmin, ScopeAgentsManage]"

definition ParseScope :: "(string \<Rightarrow> string) \<Rightarrow> string \<Rightarrow> go_error + string" where
  "ParseScope quote name = (if name \<in> set AllScopes then Inr name
     else Inl (Errorf (''unknown scope '' @ quote name @ '' (want one of read, operate, tools, maintain, agents:manage, admin)'')))"

fun parse_scopes :: "(string \<Rightarrow> string) \<Rightarrow> string list \<Rightarrow> string list \<Rightarrow> go_error + string list" where
  "parse_scopes quote out [] = Inr out"
| "parse_scopes quote out (n # ns) = (case ParseScope quote (TrimSpace n) of
     Inl e \<Rightarrow> Inl e
   | Inr s \<Rightarrow> parse_scopes quote (if s \<in> set out then out else out @ [s]) ns)"

definition ParseScopes :: "(string \<Rightarrow> string) \<Rightarrow> string list \<Rightarrow> go_error + string list" where
  "ParseScopes quote names = parse_scopes quote [] names"

record Credential =
  Cr_ID :: string
  Cr_Kind :: string
  Cr_Label :: string
  Cr_Scopes :: "string list"
  Cr_BoundSessionID :: string
  Cr_CreatedAt :: go_time
  Cr_ExpiresAt :: go_time
  Cr_LastUsedAt :: go_time
  Cr_RevokedAt :: go_time
  Cr_CreatedBy :: string

definition scopesInclude :: "string list \<Rightarrow> string \<Rightarrow> bool" where
  "scopesInclude have s = list_ex (\<lambda>h. h = s \<or> h = ScopeAdmin \<and> s = ScopeAgentsManage) have"

definition Credential_Has :: "Credential \<Rightarrow> string \<Rightarrow> bool" where
  "Credential_Has c s = (Cr_Kind c = KindOperator \<or> scopesInclude (Cr_Scopes c) s)"

definition Credential_Active :: "Credential \<Rightarrow> go_time \<Rightarrow> bool" where
  "Credential_Active c now = (Cr_RevokedAt c = 0 \<and> (Cr_ExpiresAt c = 0 \<or> now < Cr_ExpiresAt c))"

section \<open>Secrets\<close>

definition secretPrefix :: string where "secretPrefix = ''nan_''"

text \<open>The base64 text of 32 random bytes has 43 characters.\<close>

definition token_len :: nat where "token_len = 43"

record auth_env =
  ae_hash :: "string \<Rightarrow> string"
  ae_other :: "string \<Rightarrow> go_time"
  ae_sql :: go_error

record fresh =
  fr_token :: "string + string"
  fr_csrf :: "string + string"
  fr_uuid :: string

definition newSecret :: "auth_env \<Rightarrow> string \<Rightarrow> string + string \<Rightarrow> go_error + (string \<times> string)" where
  "newSecret E kind rnd = (case rnd of
       Inl e \<Rightarrow> Inl (Wrapf ''generate credential: '' (Errorf e))
     | Inr raw \<Rightarrow> let secret = secretPrefix @ kind @ ''_'' @ raw in Inr (secret, ae_hash E secret))"

definition kindOfSecret :: "string \<Rightarrow> string option" where
  "kindOfSecret secret = (if \<not> HasPrefix secret secretPrefix then None
     else case Cut (drop (length secretPrefix) secret) (CHR ''_'') of
         None \<Rightarrow> None
       | Some (kindName, body) \<Rightarrow>
           if length body = token_len \<and> kindName \<in> {KindOperator, KindClient, KindAgent} then Some kindName else None)"

definition opaqueToken :: "auth_env \<Rightarrow> string + string \<Rightarrow> go_error + (string \<times> string)" where
  "opaqueToken E rnd = (case rnd of
       Inl e \<Rightarrow> Inl (Wrapf ''generate token: '' (Errorf e))
     | Inr raw \<Rightarrow> Inr (raw, ae_hash E raw))"

section \<open>Times as texts\<close>

definition ts :: "go_time \<Rightarrow> string" where
  "ts t = (if t = 0 then [] else format_civil (civil_of (t div second_ns)) @ ''.'' @ pad 9 (nat (t mod second_ns)) @ ''Z'')"

text \<open>\<open>other\<close> is what \<^verbatim>\<open>time.Parse\<close> makes of a text that does not have the shape \<open>ts\<close> gives it (the zero time where
  it fails).\<close>

definition parseTS :: "auth_env \<Rightarrow> string \<Rightarrow> go_time" where
  "parseTS E s = (if s = [] then 0
     else if length s = 30 then (case parse_utc s of Some t \<Rightarrow> t | None \<Rightarrow> ae_other E s)
     else ae_other E s)"

text \<open>SQLite compares texts byte by byte.\<close>

fun text_less :: "string \<Rightarrow> string \<Rightarrow> bool" where
  "text_less s [] = False"
| "text_less [] (c # t) = True"
| "text_less (c # s) (d # t) = ((of_char c :: nat) < of_char d \<or> c = d \<and> text_less s t)"

text \<open>\<^verbatim>\<open>time.Time.Sub\<close> saturates at the range of a duration.\<close>

definition Sub_time :: "go_time \<Rightarrow> go_time \<Rightarrow> duration" where
  "Sub_time a b = max (- (2 ^ 63)) (min (2 ^ 63 - 1) (a - b))"

section \<open>The tables\<close>

record cred_row =
  cr_id :: string
  cr_kind :: string
  cr_label :: string
  cr_scopes :: string
  cr_hash :: string
  cr_bound :: string
  cr_created :: string
  cr_expires :: string
  cr_used :: string
  cr_revoked :: string
  cr_by :: string

record ui_row =
  ui_id :: string
  ui_hash :: string
  ui_cred :: string
  ui_csrf :: string
  ui_created :: string
  ui_expires :: string
  ui_revoked :: string

record link_row =
  ll_id :: string
  ll_hash :: string
  ll_cred :: string
  ll_expires :: string
  ll_consumed :: string

record audit_row =
  au_at :: string
  au_cred :: string
  au_kind :: string
  au_method :: string
  au_route :: string
  au_outcome :: string
  au_remote :: string

record auth_db =
  credentials :: "cred_row list"
  ui_sessions :: "ui_row list"
  login_links :: "link_row list"
  auth_audit :: "audit_row list"

definition empty_db :: auth_db where
  "empty_db = \<lparr>credentials = [], ui_sessions = [], login_links = [], auth_audit = []\<rparr>"

text \<open>The rows where a statement's condition holds are changed.\<close>

definition upd :: "('r \<Rightarrow> bool) \<Rightarrow> ('r \<Rightarrow> 'r) \<Rightarrow> 'r list \<Rightarrow> 'r list" where
  "upd p f rs = map (\<lambda>r. if p r then f r else r) rs"

definition scope_names :: "string \<Rightarrow> string list" where
  "scope_names text = (case Decode (\<lambda>_. Errorf []) text of
       Inr (JArr vs) \<Rightarrow> map (\<lambda>v. case v of JStr s \<Rightarrow> s | _ \<Rightarrow> []) vs
     | _ \<Rightarrow> [])"

definition scanCredential :: "auth_env \<Rightarrow> cred_row \<Rightarrow> Credential" where
  "scanCredential E r = \<lparr>Cr_ID = cr_id r, Cr_Kind = cr_kind r, Cr_Label = cr_label r,
     Cr_Scopes = scope_names (cr_scopes r), Cr_BoundSessionID = cr_bound r,
     Cr_CreatedAt = parseTS E (cr_created r), Cr_ExpiresAt = parseTS E (cr_expires r),
     Cr_LastUsedAt = parseTS E (cr_used r), Cr_RevokedAt = parseTS E (cr_revoked r), Cr_CreatedBy = cr_by r\<rparr>"

definition byHash :: "auth_env \<Rightarrow> bool \<Rightarrow> string \<Rightarrow> auth_db \<Rightarrow> Credential option" where
  "byHash E bad h db = (if bad then None
     else map_option (scanCredential E) (find (\<lambda>r. cr_hash r = h) (credentials db)))"

definition Store_Get :: "auth_env \<Rightarrow> bool \<Rightarrow> string \<Rightarrow> auth_db \<Rightarrow> Credential option" where
  "Store_Get E bad cid db = (if bad then None
     else map_option (scanCredential E) (find (\<lambda>r. cr_id r = cid) (credentials db)))"

text \<open>\<^verbatim>\<open>INSERT\<close> into \<^verbatim>\<open>credentials\<close>: the id and the hash are unique.\<close>

definition insert_cred :: "bool \<Rightarrow> cred_row \<Rightarrow> auth_db \<Rightarrow> auth_db option" where
  "insert_cred bad r db = (if bad \<or> list_ex (\<lambda>x. cr_id x = cr_id r \<or> cr_hash x = cr_hash r) (credentials db) then None
     else Some (db\<lparr>credentials := credentials db @ [r]\<rparr>))"

definition scopes_json :: "string list \<Rightarrow> string" where
  "scopes_json scopes = Encode (JArr (map JStr scopes))"

definition row_of :: "Credential \<Rightarrow> string \<Rightarrow> cred_row" where
  "row_of c h = \<lparr>cr_id = Cr_ID c, cr_kind = Cr_Kind c, cr_label = Cr_Label c, cr_scopes = scopes_json (Cr_Scopes c),
     cr_hash = h, cr_bound = Cr_BoundSessionID c, cr_created = ts (Cr_CreatedAt c), cr_expires = ts (Cr_ExpiresAt c),
     cr_used = [], cr_revoked = [], cr_by = Cr_CreatedBy c\<rparr>"

section \<open>Minting\<close>

record CreateParams =
  CP_Kind :: string
  CP_Label :: string
  CP_Scopes :: "string list"
  CP_BoundSessionID :: string
  CP_TTL :: duration
  CP_CreatedBy :: string

definition narrowed_scopes :: "(string \<Rightarrow> string) \<Rightarrow> CreateParams \<Rightarrow> go_error + string list" where
  "narrowed_scopes quote p = (
     if CP_Kind p = KindOperator then Inr AllScopes
     else if CP_Kind p = KindClient then
       (if CP_Scopes p = [] then Inl (Errorf ''a client credential needs at least one scope'')
        else if ScopeAdmin \<in> set (CP_Scopes p) then Inl (Errorf ''a client credential cannot hold the admin scope'')
        else Inr (CP_Scopes p))
     else if CP_Kind p = KindAgent then
       (if CP_BoundSessionID p = [] then Inl (Errorf ''an agent credential must be bound to a session'') else Inr [ScopeTools])
     else Inl (Errorf (''unknown credential kind '' @ quote (CP_Kind p))))"

definition Store_Create :: "(string \<Rightarrow> string) \<Rightarrow> auth_env \<Rightarrow> bool \<Rightarrow> go_time \<Rightarrow> fresh \<Rightarrow> CreateParams \<Rightarrow> auth_db
    \<Rightarrow> auth_db \<times> (go_error + (Credential \<times> string))" where
  "Store_Create quote E bad now fr p db = (case narrowed_scopes quote p of
       Inl e \<Rightarrow> (db, Inl e)
     | Inr scopes \<Rightarrow>
         if CP_Label p = [] then (db, Inl (Errorf ''a credential needs a label''))
         else (case newSecret E (CP_Kind p) (fr_token fr) of
             Inl e \<Rightarrow> (db, Inl e)
           | Inr (secret, h) \<Rightarrow>
               let c = \<lparr>Cr_ID = fr_uuid fr, Cr_Kind = CP_Kind p, Cr_Label = CP_Label p, Cr_Scopes = scopes,
                     Cr_BoundSessionID = CP_BoundSessionID p, Cr_CreatedAt = now,
                     Cr_ExpiresAt = (if CP_TTL p > 0 then now + CP_TTL p else 0),
                     Cr_LastUsedAt = 0, Cr_RevokedAt = 0, Cr_CreatedBy = CP_CreatedBy p\<rparr>
               in case insert_cred bad (row_of c h) db of
                   None \<Rightarrow> (db, Inl (Wrapf ''store credential: '' (ae_sql E)))
                 | Some db' \<Rightarrow> (db', Inr (c, secret))))"

definition Store_ImportSecret :: "auth_env \<Rightarrow> (nat \<Rightarrow> bool) \<Rightarrow> go_time \<Rightarrow> string \<Rightarrow> string \<Rightarrow> string \<Rightarrow> auth_db
    \<Rightarrow> auth_db \<times> (go_error + Credential)" where
  "Store_ImportSecret E bad now uuid secret label db = (
     if kindOfSecret secret \<noteq> Some KindOperator
     then (db, Inl (Errorf ''NANITE_AUTH_TOKEN must be an operator credential (nan_operator_...)''))
     else case byHash E (bad 0) (ae_hash E secret) db of
         Some c \<Rightarrow> (db, Inr c)
       | None \<Rightarrow>
           let c = \<lparr>Cr_ID = uuid, Cr_Kind = KindOperator, Cr_Label = label, Cr_Scopes = AllScopes, Cr_BoundSessionID = [],
                 Cr_CreatedAt = now, Cr_ExpiresAt = 0, Cr_LastUsedAt = 0, Cr_RevokedAt = 0, Cr_CreatedBy = ''env''\<rparr>
           in case insert_cred (bad 1) (row_of c (ae_hash E secret)) db of
               None \<Rightarrow> (db, Inl (Wrapf ''store credential: '' (ae_sql E)))
             | Some db' \<Rightarrow> (db', Inr c))"

section \<open>Checking and listing\<close>

definition last_used_step :: duration where "last_used_step = 30 * second_ns"

definition Store_Authenticate :: "auth_env \<Rightarrow> (nat \<Rightarrow> bool) \<Rightarrow> go_time \<Rightarrow> string \<Rightarrow> auth_db \<Rightarrow> auth_db \<times> Credential option" where
  "Store_Authenticate E bad now secret db = (
     if kindOfSecret secret = None then (db, None)
     else case byHash E (bad 0) (ae_hash E secret) db of
         None \<Rightarrow> (db, None)
       | Some c \<Rightarrow>
           if \<not> Credential_Active c now then (db, None)
           else if Sub_time now (Cr_LastUsedAt c) > last_used_step then
             (if bad 1 then db else db\<lparr>credentials := upd (\<lambda>r. cr_id r = Cr_ID c) (\<lambda>r. r\<lparr>cr_used := ts now\<rparr>) (credentials db)\<rparr>,
              Some (c\<lparr>Cr_LastUsedAt := now\<rparr>))
           else (db, Some c))"

fun insert_newest :: "cred_row \<Rightarrow> cred_row list \<Rightarrow> cred_row list" where
  "insert_newest r [] = [r]"
| "insert_newest r (x # xs) = (if text_less (cr_created r) (cr_created x) then x # insert_newest r xs else r # x # xs)"

definition Store_List :: "auth_env \<Rightarrow> bool \<Rightarrow> bool \<Rightarrow> auth_db \<Rightarrow> Credential list option" where
  "Store_List E bad includeRevoked db = (if bad then None
     else Some (map (scanCredential E) (foldr insert_newest (filter (\<lambda>r. includeRevoked \<or> cr_revoked r = []) (credentials db)) [])))"

definition Store_HasActiveOperator :: "auth_env \<Rightarrow> bool \<Rightarrow> auth_db \<Rightarrow> go_error + bool" where
  "Store_HasActiveOperator E bad db = (if bad then Inl (ae_sql E)
     else Inr (filter (\<lambda>r. cr_kind r = ''operator'' \<and> cr_revoked r = []) (credentials db) \<noteq> []))"

section \<open>Revoking, prolonging, rotating\<close>

text \<open>The outcome of a revocation: the ids the listeners are told of, whether a live credential was revoked, the error.\<close>

record revocation =
  rv_notified :: "string list"
  rv_revoked :: bool
  rv_error :: "go_error option"

definition Store_Revoke :: "auth_env \<Rightarrow> (nat \<Rightarrow> bool) \<Rightarrow> go_time \<Rightarrow> string \<Rightarrow> auth_db \<Rightarrow> auth_db \<times> revocation" where
  "Store_Revoke E bad now cid db = (
     if bad 0 then (db, \<lparr>rv_notified = [], rv_revoked = False, rv_error = Some (ae_sql E)\<rparr>)
     else if \<not> list_ex (\<lambda>r. cr_id r = cid \<and> cr_revoked r = []) (credentials db)
     then (db, \<lparr>rv_notified = [], rv_revoked = False, rv_error = None\<rparr>)
     else let db1 = db\<lparr>credentials := upd (\<lambda>r. cr_id r = cid \<and> cr_revoked r = []) (\<lambda>r. r\<lparr>cr_revoked := ts now\<rparr>) (credentials db)\<rparr>
       in if bad 1 then (db1, \<lparr>rv_notified = [], rv_revoked = True, rv_error = Some (ae_sql E)\<rparr>)
          else (db1\<lparr>ui_sessions := upd (\<lambda>u. ui_cred u = cid \<and> ui_revoked u = []) (\<lambda>u. u\<lparr>ui_revoked := ts now\<rparr>) (ui_sessions db1)\<rparr>,
                \<lparr>rv_notified = [cid], rv_revoked = True, rv_error = None\<rparr>))"

fun revoke_ids :: "auth_env \<Rightarrow> (nat \<Rightarrow> bool) \<Rightarrow> (nat \<Rightarrow> go_time) \<Rightarrow> string list \<Rightarrow> auth_db \<Rightarrow> auth_db \<times> string list \<times> go_error option" where
  "revoke_ids E bad clk [] db = (db, [], None)"
| "revoke_ids E bad clk (cid # ids) db = (case Store_Revoke E bad (clk 0) cid db of
     (db1, v) \<Rightarrow> if rv_error v \<noteq> None then (db1, rv_notified v, rv_error v)
       else (case revoke_ids E (\<lambda>i. bad (i + 2)) (\<lambda>i. clk (i + 1)) ids db1 of
           (db2, ns, e) \<Rightarrow> (db2, rv_notified v @ ns, e)))"

definition Store_RevokeSessionCredentials :: "auth_env \<Rightarrow> (nat \<Rightarrow> bool) \<Rightarrow> (nat \<Rightarrow> go_time) \<Rightarrow> string \<Rightarrow> auth_db
    \<Rightarrow> auth_db \<times> string list \<times> go_error option" where
  "Store_RevokeSessionCredentials E bad clk sid db = (
     if bad 0 then (db, [], Some (ae_sql E))
     else revoke_ids E (\<lambda>i. bad (i + 1)) clk
       (map cr_id (filter (\<lambda>r. cr_kind r = ''agent'' \<and> cr_bound r = sid \<and> cr_revoked r = []) (credentials db))) db)"

definition Store_Slide :: "auth_env \<Rightarrow> bool \<Rightarrow> go_time \<Rightarrow> Credential \<Rightarrow> duration \<Rightarrow> duration \<Rightarrow> auth_db \<Rightarrow> auth_db \<times> (go_error + go_time)" where
  "Store_Slide E bad now c ttl maxLife db = (
     let next = min (now + ttl) (Cr_CreatedAt c + maxLife) in
     if \<not> Cr_ExpiresAt c < next then (db, Inr (Cr_ExpiresAt c))
     else if bad then (db, Inl (ae_sql E))
     else (db\<lparr>credentials := upd (\<lambda>r. cr_id r = Cr_ID c \<and> cr_revoked r = []) (\<lambda>r. r\<lparr>cr_expires := ts next\<rparr>) (credentials db)\<rparr>, Inr next))"

definition Store_Rotate :: "(string \<Rightarrow> string) \<Rightarrow> auth_env \<Rightarrow> (nat \<Rightarrow> bool) \<Rightarrow> (nat \<Rightarrow> go_time) \<Rightarrow> fresh \<Rightarrow> string \<Rightarrow> string \<Rightarrow> auth_db
    \<Rightarrow> auth_db \<times> string list \<times> (go_error + (Credential \<times> string))" where
  "Store_Rotate quote E bad clk fr cid createdBy db = (case Store_Get E (bad 0) cid db of
       None \<Rightarrow> (db, [], Inl (Errorf ''credential not found''))
     | Some old \<Rightarrow>
         let ttl = (if Cr_ExpiresAt old \<noteq> 0 then Sub_time (Cr_ExpiresAt old) (Cr_CreatedAt old) else 0);
             p = \<lparr>CP_Kind = Cr_Kind old, CP_Label = Cr_Label old, CP_Scopes = Cr_Scopes old,
                  CP_BoundSessionID = Cr_BoundSessionID old, CP_TTL = ttl, CP_CreatedBy = createdBy\<rparr>
         in case Store_Create quote E (bad 1) (clk 0) fr p db of
             (db1, Inl e) \<Rightarrow> (db1, [], Inl e)
           | (db1, Inr (c, secret)) \<Rightarrow> (case Store_Revoke E (\<lambda>i. bad (i + 2)) (clk 1) cid db1 of
               (db2, v) \<Rightarrow> (case rv_error v of
                   Some e \<Rightarrow> (db2, rv_notified v, Inl e)
                 | None \<Rightarrow> (db2, rv_notified v, Inr (c, secret)))))"

definition Store_Audit :: "bool \<Rightarrow> go_time \<Rightarrow> string \<Rightarrow> string \<Rightarrow> string \<Rightarrow> string \<Rightarrow> string \<Rightarrow> string \<Rightarrow> auth_db \<Rightarrow> auth_db" where
  "Store_Audit bad now cid kind method route outcome remote db = (if bad then db
     else db\<lparr>auth_audit := auth_audit db @ [\<lparr>au_at = ts now, au_cred = cid, au_kind = kind, au_method = method,
       au_route = route, au_outcome = outcome, au_remote = remote\<rparr>]\<rparr>)"

section \<open>Browser sessions and login links\<close>

record UISession =
  Us_ID :: string
  Us_CredentialID :: string
  Us_CSRF :: string
  Us_ExpiresAt :: go_time

definition uiSessionTTL :: duration where "uiSessionTTL = 12 * 3600 * second_ns"

definition Store_CreateUISession :: "auth_env \<Rightarrow> bool \<Rightarrow> go_time \<Rightarrow> fresh \<Rightarrow> Credential \<Rightarrow> auth_db
    \<Rightarrow> auth_db \<times> (go_error + (UISession \<times> string))" where
  "Store_CreateUISession E bad now fr c db = (
     if Cr_Kind c = KindAgent then (db, Inl (Errorf ''agent credentials cannot start a UI session''))
     else case opaqueToken E (fr_token fr) of
         Inl e \<Rightarrow> (db, Inl e)
       | Inr (cookie, h) \<Rightarrow> (case opaqueToken E (fr_csrf fr) of
             Inl e \<Rightarrow> (db, Inl e)
           | Inr (csrf, _) \<Rightarrow>
               let u = \<lparr>Us_ID = fr_uuid fr, Us_CredentialID = Cr_ID c, Us_CSRF = csrf, Us_ExpiresAt = now + uiSessionTTL\<rparr>
               in if bad \<or> list_ex (\<lambda>x. ui_id x = Us_ID u \<or> ui_hash x = h) (ui_sessions db) then (db, Inl (ae_sql E))
                  else (db\<lparr>ui_sessions := ui_sessions db @ [\<lparr>ui_id = Us_ID u, ui_hash = h, ui_cred = Cr_ID c, ui_csrf = csrf,
                          ui_created = ts now, ui_expires = ts (Us_ExpiresAt u), ui_revoked = []\<rparr>]\<rparr>, Inr (u, cookie))))"

definition Store_AuthenticateUISession :: "auth_env \<Rightarrow> (nat \<Rightarrow> bool) \<Rightarrow> go_time \<Rightarrow> string \<Rightarrow> auth_db
    \<Rightarrow> auth_db \<times> (UISession \<times> Credential) option" where
  "Store_AuthenticateUISession E bad now cookie db = (
     if cookie = [] \<or> bad 0 then (db, None)
     else case find (\<lambda>u. ui_hash u = ae_hash E cookie) (ui_sessions db) of
         None \<Rightarrow> (db, None)
       | Some r \<Rightarrow>
           let u = \<lparr>Us_ID = ui_id r, Us_CredentialID = ui_cred r, Us_CSRF = ui_csrf r, Us_ExpiresAt = parseTS E (ui_expires r)\<rparr>
           in if ui_revoked r \<noteq> [] \<or> \<not> now < Us_ExpiresAt u then (db, None)
              else (case Store_Get E (bad 1) (Us_CredentialID u) db of
                  None \<Rightarrow> (db, None)
                | Some c \<Rightarrow>
                    if \<not> Credential_Active c now then (db, None)
                    else let next = now + uiSessionTTL in
                      if Sub_time next (Us_ExpiresAt u) > 60 * second_ns then
                        (if bad 2 then db
                         else db\<lparr>ui_sessions := upd (\<lambda>x. ui_id x = Us_ID u) (\<lambda>x. x\<lparr>ui_expires := ts next\<rparr>) (ui_sessions db)\<rparr>,
                         Some (u\<lparr>Us_ExpiresAt := next\<rparr>, c))
                      else (db, Some (u, c))))"

definition Store_DeleteUISession :: "auth_env \<Rightarrow> bool \<Rightarrow> go_time \<Rightarrow> string \<Rightarrow> auth_db \<Rightarrow> auth_db \<times> go_error option" where
  "Store_DeleteUISession E bad now uid db = (if bad then (db, Some (ae_sql E))
     else (db\<lparr>ui_sessions := upd (\<lambda>x. ui_id x = uid \<and> ui_revoked x = []) (\<lambda>x. x\<lparr>ui_revoked := ts now\<rparr>) (ui_sessions db)\<rparr>, None))"

definition loginLinkTTL :: duration where "loginLinkTTL = 60 * second_ns"

definition Store_CreateLoginLink :: "auth_env \<Rightarrow> bool \<Rightarrow> go_time \<Rightarrow> fresh \<Rightarrow> Credential \<Rightarrow> auth_db
    \<Rightarrow> auth_db \<times> (go_error + (string \<times> go_time))" where
  "Store_CreateLoginLink E bad now fr c db = (
     if Cr_Kind c \<noteq> KindOperator then (db, Inl (Errorf ''only an operator credential can mint a login link''))
     else case opaqueToken E (fr_token fr) of
         Inl e \<Rightarrow> (db, Inl e)
       | Inr (code, h) \<Rightarrow>
           let expires = now + loginLinkTTL in
           if bad \<or> list_ex (\<lambda>x. ll_id x = fr_uuid fr \<or> ll_hash x = h) (login_links db) then (db, Inl (ae_sql E))
           else (db\<lparr>login_links := login_links db @ [\<lparr>ll_id = fr_uuid fr, ll_hash = h, ll_cred = Cr_ID c,
                   ll_expires = ts expires, ll_consumed = []\<rparr>]\<rparr>, Inr (code, expires)))"

definition Store_ConsumeLoginLink :: "auth_env \<Rightarrow> (nat \<Rightarrow> bool) \<Rightarrow> go_time \<Rightarrow> string \<Rightarrow> auth_db \<Rightarrow> auth_db \<times> Credential option" where
  "Store_ConsumeLoginLink E bad now code db = (
     let p = (\<lambda>l. ll_hash l = ae_hash E code \<and> ll_consumed l = [] \<and> text_less (ts now) (ll_expires l)) in
     if bad 0 then (db, None)
     else case find p (login_links db) of
         None \<Rightarrow> (db, None)
       | Some l \<Rightarrow>
           let db1 = db\<lparr>login_links := upd p (\<lambda>l. l\<lparr>ll_consumed := ts now\<rparr>) (login_links db)\<rparr>
           in (case Store_Get E (bad 1) (ll_cred l) db1 of
               None \<Rightarrow> (db1, None)
             | Some c \<Rightarrow> if \<not> Credential_Active c now then (db1, None) else (db1, Some c)))"

section \<open>The operator credential\<close>

text \<open>\<open>put\<close> is the writing of the token file; the attempts are part of the result.\<close>

definition EnsureOperator :: "(string \<Rightarrow> string) \<Rightarrow> auth_env \<Rightarrow> (nat \<Rightarrow> bool) \<Rightarrow> go_time \<Rightarrow> fresh \<Rightarrow> (string \<Rightarrow> string \<Rightarrow> go_error option)
    \<Rightarrow> string \<Rightarrow> string \<Rightarrow> auth_db \<Rightarrow> auth_db \<times> (string \<times> string) list \<times> (go_error + bool)" where
  "EnsureOperator quote E bad now fr put tokenPath override db = (
     if override \<noteq> [] then (case Store_ImportSecret E bad now (fr_uuid fr) override ''env-override'' db of
         (db', Inl e) \<Rightarrow> (db', [], Inl e)
       | (db', Inr _) \<Rightarrow> (db', [], Inr False))
     else case Store_HasActiveOperator E (bad 0) db of
         Inl e \<Rightarrow> (db, [], Inl e)
       | Inr True \<Rightarrow> (db, [], Inr False)
       | Inr False \<Rightarrow>
           if tokenPath = [] then (db, [], Inl (Errorf ''no operator credential and no token file path''))
           else (case Store_Create quote E (bad 1) now fr \<lparr>CP_Kind = KindOperator, CP_Label = ''operator'', CP_Scopes = [],
                     CP_BoundSessionID = [], CP_TTL = 0, CP_CreatedBy = ''bootstrap''\<rparr> db of
               (db', Inl e) \<Rightarrow> (db', [], Inl e)
             | (db', Inr (_, secret)) \<Rightarrow> (case put tokenPath secret of
                   Some e \<Rightarrow> (db', [(tokenPath, secret)], Inl (Wrapf ''write operator token file: '' e))
                 | None \<Rightarrow> (db', [(tokenPath, secret)], Inr True))))"

definition ResetOperator :: "(string \<Rightarrow> string) \<Rightarrow> auth_env \<Rightarrow> (nat \<Rightarrow> bool) \<Rightarrow> (nat \<Rightarrow> go_time) \<Rightarrow> fresh \<Rightarrow> (string \<Rightarrow> string \<Rightarrow> go_error option)
    \<Rightarrow> string \<Rightarrow> auth_db \<Rightarrow> auth_db \<times> string list \<times> (string \<times> string) list \<times> go_error option" where
  "ResetOperator quote E bad clk fr put tokenPath db = (case Store_List E (bad 0) False db of
       None \<Rightarrow> (db, [], [], Some (ae_sql E))
     | Some creds \<Rightarrow> (case revoke_ids E (\<lambda>i. bad (i + 2)) (\<lambda>i. clk (i + 1))
             (map Cr_ID (filter (\<lambda>c. Cr_Kind c = KindOperator) creds)) db of
           (db1, ns, Some e) \<Rightarrow> (db1, ns, [], Some e)
         | (db1, ns, None) \<Rightarrow> (case Store_Create quote E (bad 1) (clk 0) fr \<lparr>CP_Kind = KindOperator, CP_Label = ''operator'', CP_Scopes = [],
                   CP_BoundSessionID = [], CP_TTL = 0, CP_CreatedBy = ''reset''\<rparr> db1 of
               (db2, Inl e) \<Rightarrow> (db2, ns, [], Some e)
             | (db2, Inr (_, secret)) \<Rightarrow> (db2, ns, [(tokenPath, secret)], put tokenPath secret))))"

section \<open>Lifetimes of agent credentials\<close>

definition DefaultAgentCredentialTTL :: duration where "DefaultAgentCredentialTTL = 3600 * second_ns"

definition DefaultAgentCredentialMaxTTL :: duration where "DefaultAgentCredentialMaxTTL = 24 * 3600 * second_ns"

definition neverAgentCredentialTTL :: duration where "neverAgentCredentialTTL = 10 * 365 * 24 * 3600 * second_ns"

text \<open>\<open>parse\<close> is \<^verbatim>\<open>time.ParseDuration\<close>; only ASCII letters fold to those of \<^verbatim>\<open>never\<close>.\<close>

definition envDuration :: "(string \<Rightarrow> duration option) \<Rightarrow> string \<Rightarrow> duration \<Rightarrow> duration" where
  "envDuration parse value def = (let raw = TrimSpace value in
     if raw = [] then def
     else if map ascii_lower raw = ''never'' then neverAgentCredentialTTL
     else case parse raw of None \<Rightarrow> def | Some d \<Rightarrow> if d \<le> 0 then def else d)"

definition agentCredentialTTLs :: "(string \<Rightarrow> duration option) \<Rightarrow> (string \<Rightarrow> string) \<Rightarrow> duration \<times> duration" where
  "agentCredentialTTLs parse getenv = (
     envDuration parse (getenv ''NANITE_AGENT_CREDENTIAL_TTL'') DefaultAgentCredentialTTL,
     envDuration parse (getenv ''NANITE_AGENT_CREDENTIAL_MAX_TTL'') DefaultAgentCredentialMaxTTL)"

section \<open>The stored form of times\<close>

lemma text_less_antisym: "text_less s t \<Longrightarrow> \<not> text_less t s"
  by (induction s t rule: text_less.induct) auto

lemma text_less_irrefl [simp]: "\<not> text_less s s"
  using text_less_antisym by blast

lemma text_less_append:
  "length a = length c \<Longrightarrow> text_less (a @ b) (c @ d) \<longleftrightarrow> text_less a c \<or> a = c \<and> text_less b d"
  by (induction a c rule: list_induct2) auto

lemma text_less_prefix [simp]: "text_less (a @ b) (a @ c) \<longleftrightarrow> text_less b c"
  by (simp add: text_less_append)

lemma num_bound: "list_all digit_char s \<Longrightarrow> num s < 10 ^ length s"
proof (induction s rule: rev_induct)
  case (snoc c s)
  then have "num s < 10 ^ length s" "of_char c - (48::nat) \<le> 9" by (auto simp: digit_char_def between_def)
  then show ?case by (simp add: num_def)
qed (simp add: num_def)

lemma num_Cons: "num (c # s) = (of_char c - 48) * 10 ^ length s + num s"
proof (induction s rule: rev_induct)
  case (snoc d s)
  then show ?case by (simp add: num_def algebra_simps)
qed (simp add: num_def)

text \<open>Digits in equal number compare like the numbers they write.\<close>

lemma text_less_num:
  assumes "length a = length b" "list_all digit_char a" "list_all digit_char b"
  shows "text_less a b \<longleftrightarrow> num a < num b"
  using assms
proof (induction a b rule: list_induct2)
  case (Cons c s d t)
  have bounds: "num s < 10 ^ length s" "num t < 10 ^ length s" using Cons.prems num_bound [of s] num_bound [of t] Cons.hyps by auto
  have digits: "48 \<le> (of_char c :: nat)" "48 \<le> (of_char d :: nat)" using Cons.prems by (auto simp: digit_char_def between_def)
  define x y where "x = of_char c - (48::nat)" and "y = of_char d - (48::nat)"
  have less: "x * 10 ^ length s + num s < y * 10 ^ length s + num t" if "x < y"
  proof -
    have "Suc x * 10 ^ length s \<le> y * 10 ^ length s" using that by (intro mult_right_mono) auto
    with bounds show ?thesis by simp
  qed
  have more: "\<not> x * 10 ^ length s + num s < y * 10 ^ length s + num t" if "y < x"
  proof -
    have "Suc y * 10 ^ length s \<le> x * 10 ^ length s" using that by (intro mult_right_mono) auto
    with bounds show ?thesis by simp
  qed
  have eqs: "(of_char c :: nat) < of_char d \<longleftrightarrow> x < y" "c = d \<longleftrightarrow> x = y"
    using digits of_char_eq_iff [of c d, where 'a = nat] unfolding x_def y_def by linarith+
  show ?case
    using Cons less more eqs by (cases x y rule: linorder_cases) (auto simp: num_Cons x_def [symmetric] y_def [symmetric])
qed simp

lemma pad_less:
  assumes "m < 10 ^ w" "n < 10 ^ w" "0 < w"
  shows "text_less (pad w m @ x) (pad w n @ y) \<longleftrightarrow> m < n \<or> m = n \<and> text_less x y"
proof -
  have len: "length (pad w m) = length (pad w n)" using assms by (simp add: pad_props(3))
  have "pad w m = pad w n \<longleftrightarrow> m = n" using pad_props(1) [of w] by metis
  then show ?thesis using text_less_append [OF len] text_less_num [OF len pad_props(2) pad_props(2)] by (simp add: pad_props(1))
qed

lemma ts_nonempty [simp]: "ts t = [] \<longleftrightarrow> t = 0"
  by (simp add: ts_def)

lemma ts_fields:
  assumes "printable t"
  obtains c ns where "civil_ok c" "0 \<le> c_year c" "c_year c \<le> 9999" "ns < 10 ^ 9" "t = seconds_of c * second_ns + int ns"
    "t \<noteq> 0 \<Longrightarrow> ts t = format_civil c @ ''.'' @ pad 9 ns @ ''Z''"
proof
  note c = civil_printable [OF assms]
  show "civil_ok (civil_of (t div second_ns))" "0 \<le> c_year (civil_of (t div second_ns))" "c_year (civil_of (t div second_ns)) \<le> 9999"
    by (rule c)+
  show "nat (t mod second_ns) < 10 ^ 9" by (simp add: second_ns_def nat_less_iff)
  show "t = seconds_of (civil_of (t div second_ns)) * second_ns + int (nat (t mod second_ns))"
    unfolding c(4) by (simp add: second_ns_def)
  show "ts t = format_civil (civil_of (t div second_ns)) @ ''.'' @ pad 9 (nat (t mod second_ns)) @ ''Z''" if "t \<noteq> 0"
    using that by (simp add: ts_def)
qed

lemma format_civil_length:
  assumes "civil_ok c" "0 \<le> c_year c" "c_year c \<le> 9999"
  shows "length (format_civil c) = 19"
  using civil_small [OF assms(1)] assms(2,3) by (simp add: format_civil_def appendInt_pad pad_props(3))

lemma parse_ts [simp]:
  assumes "printable t"
  shows "parseTS E (ts t) = t"
proof (cases "t = 0")
  case False
  from ts_fields [OF assms] obtain c ns where c: "civil_ok c" "0 \<le> c_year c" "c_year c \<le> 9999" "ns < 10 ^ 9"
    "seconds_of c * second_ns + int ns = t" "ts t = format_civil c @ ''.'' @ pad 9 ns @ ''Z''" using False by metis
  have len: "length (pad 9 ns) = 9" using c(4) by (intro pad_props(3)) simp_all
  then have "take 9 (pad 9 ns @ replicate 9 (CHR ''0'')) = pad 9 ns" "pad 9 ns \<noteq> []" by auto
  with parse_format [OF c(1-3), of "CHR ''.'' # pad 9 ns" ns] have "parse_utc (ts t) = Some t"
    unfolding c(5,6) by (simp add: pad_props(1,2) del: take_append)
  moreover have "length (ts t) = 30" using format_civil_length [OF c(1-3)] len unfolding c(6) by simp
  ultimately show ?thesis using False by (simp add: parseTS_def)
qed (simp add: ts_def parseTS_def)

lemma format_civil_less:
  assumes "civil_ok c" "0 \<le> c_year c" "c_year c \<le> 9999" "civil_ok d" "0 \<le> c_year d" "c_year d \<le> 9999"
  shows "text_less (format_civil c @ x) (format_civil d @ y) \<longleftrightarrow> civil_less c d \<or> c = d \<and> text_less x y"
proof -
  note small = civil_small [OF assms(1)] civil_small [OF assms(4)]
  have y: "nat (c_year c) < 10 ^ 4" "nat (c_year d) < 10 ^ 4" using assms by simp_all
  have eq: "c = d \<longleftrightarrow> c_year c = c_year d \<and> c_month c = c_month d \<and> c_day c = c_day d \<and> c_hour c = c_hour d
      \<and> c_min c = c_min d \<and> c_sec c = c_sec d" by (cases c; cases d) simp
  show ?thesis
    unfolding format_civil_def civil_less_def eq
    using small y assms by (simp add: appendInt_pad pad_less nat_less_eq_zless eq_nat_nat_iff del: zless_nat_conj) blast
qed

lemma ts_less:
  assumes "printable s" "printable t"
  shows "text_less (ts s) (ts t) \<longleftrightarrow> s < t"
proof (cases "s = 0 \<or> t = 0")
  case True
  have "text_less [] x \<longleftrightarrow> x \<noteq> []" for x by (cases x) simp_all
  with True assms show ?thesis by (auto simp: ts_def printable_def)
next
  case False
  obtain c m where c: "civil_ok c" "0 \<le> c_year c" "c_year c \<le> 9999" "m < 10 ^ 9" "s = seconds_of c * second_ns + int m"
    "ts s = format_civil c @ ''.'' @ pad 9 m @ ''Z''" using ts_fields [OF assms(1)] False by metis
  obtain d n where d: "civil_ok d" "0 \<le> c_year d" "c_year d \<le> 9999" "n < 10 ^ 9" "t = seconds_of d * second_ns + int n"
    "ts t = format_civil d @ ''.'' @ pad 9 n @ ''Z''" using ts_fields [OF assms(2)] False by metis
  have "text_less (ts s) (ts t) \<longleftrightarrow> seconds_of c < seconds_of d \<or> c = d \<and> m < n"
    unfolding c(6) d(6) using format_civil_less [OF c(1-3) d(1-3)] civil_less_iff [OF c(1) d(1)] pad_less [OF c(4) d(4)] by simp
  also have "\<dots> \<longleftrightarrow> seconds_of c < seconds_of d \<or> seconds_of c = seconds_of d \<and> m < n"
    using civil_less_total [of c d] civil_less_iff [OF c(1) d(1)] civil_less_iff [OF d(1) c(1)] by auto
  also have "\<dots> \<longleftrightarrow> s < t"
  proof -
    have "int m < 1000000000" "int n < 1000000000" using c(4) d(4) by simp_all
    then show ?thesis unfolding c(5) d(5) second_ns_def by (cases "seconds_of c" "seconds_of d" rule: linorder_cases) auto
  qed
  finally show ?thesis .
qed

text \<open>
  C33. Stored times compare like instants. For the instants of the years 1 to 9999 the texts the store writes
  come back as the instants, and comparing two of them byte by byte, as the statement that spends a login link
  and the ordering of a list do, is comparing the instants; the empty text of the zero time comes first.
\<close>

theorem ts_chronological:
  assumes "printable s" "printable t"
  shows "(text_less (ts s) (ts t) \<longleftrightarrow> s < t) \<and> (ts s = ts t \<longleftrightarrow> s = t) \<and> parseTS E (ts s) = s"
  using ts_less [OF assms] ts_less [OF assms(2,1)] parse_ts [OF assms(1), of E] by (metis linorder_neq_iff text_less_irrefl)

theorem ts_chronological_witness:
  "text_less (ts (63871286400 * 10 ^ 9 + 5)) (ts (63871286400 * 10 ^ 9 + 40)) \<and> ts (63871286400 * 10 ^ 9 + 5) = ''2025-01-01T00:00:00.000000005Z''"
proof -
  have "printable (63871286400 * 10 ^ 9 + 5)" "printable (63871286400 * 10 ^ 9 + 40)" by (simp_all add: printable_def second_ns_def)
  from ts_chronological [OF this] have "text_less (ts (63871286400 * 10 ^ 9 + 5)) (ts (63871286400 * 10 ^ 9 + 40))" by simp
  moreover have "ts (63871286400 * 10 ^ 9 + 5) = ''2025-01-01T00:00:00.000000005Z''" by code_simp
  ultimately show ?thesis by blast
qed

section \<open>How the table of credentials evolves\<close>

text \<open>What every stored credential satisfies: an operator's has all scopes, a client's is never an administrator's, an agent's has
  the scope for tools alone and is bound to a session; a revocation bears a time.\<close>

definition clock_sane :: "go_time \<Rightarrow> bool" where
  "clock_sane t = (0 < t \<and> printable t)"

definition cred_ok :: "cred_row \<Rightarrow> bool" where
  "cred_ok r = (
     (cr_kind r = KindOperator \<and> scope_names (cr_scopes r) = AllScopes
      \<or> cr_kind r = KindClient \<and> ScopeAdmin \<notin> set (scope_names (cr_scopes r))
      \<or> cr_kind r = KindAgent \<and> scope_names (cr_scopes r) = [ScopeTools] \<and> cr_bound r \<noteq> [])
     \<and> list_all valid_utf8 (scope_names (cr_scopes r)) \<and> (cr_revoked r = [] \<or> (\<exists>t. clock_sane t \<and> cr_revoked r = ts t)))"

definition db_ok :: "auth_db \<Rightarrow> bool" where
  "db_ok db = (list_all cred_ok (credentials db) \<and> distinct (map cr_id (credentials db)))"

text \<open>A row keeps who it is for and what it may do, and stays revoked.\<close>

definition keeps :: "cred_row \<Rightarrow> cred_row \<Rightarrow> bool" where
  "keeps r r' = (cr_id r' = cr_id r \<and> cr_kind r' = cr_kind r \<and> cr_scopes r' = cr_scopes r \<and> cr_hash r' = cr_hash r
     \<and> cr_bound r' = cr_bound r \<and> cr_created r' = cr_created r \<and> (cr_revoked r \<noteq> [] \<longrightarrow> cr_revoked r' = cr_revoked r))"

definition evolves :: "auth_db \<Rightarrow> auth_db \<Rightarrow> bool" where
  "evolves db db' = (db_ok db \<longrightarrow> db_ok db' \<and> (\<forall>r\<in>set (credentials db). \<exists>r'\<in>set (credentials db'). keeps r r'))"

lemma keeps_refl [simp]: "keeps r r" by (simp add: keeps_def)

lemma keeps_trans: "keeps r s \<Longrightarrow> keeps s t \<Longrightarrow> keeps r t" by (auto simp: keeps_def)

lemma evolves_trans [trans]: "evolves a b \<Longrightarrow> evolves b c \<Longrightarrow> evolves a c"
  unfolding evolves_def by (meson keeps_trans)

lemma evolves_same: "credentials db' = credentials db \<Longrightarrow> evolves db db'"
  unfolding evolves_def db_ok_def using keeps_refl by metis

lemma evolves_refl [simp]: "evolves db db" by (simp add: evolves_same)

lemma evolves_upd:
  assumes "\<And>r. p r \<Longrightarrow> cred_ok r \<Longrightarrow> keeps r (f r) \<and> cred_ok (f r)"
  shows "evolves db (db\<lparr>credentials := upd p f (credentials db)\<rparr>)"
proof -
  let ?f = "\<lambda>r. if p r then f r else r"
  have f: "keeps r (?f r) \<and> cred_ok (?f r)" if "cred_ok r" for r using assms that by simp
  have "db_ok (db\<lparr>credentials := map ?f (credentials db)\<rparr>)
      \<and> (\<forall>r\<in>set (credentials db). \<exists>r'\<in>set (map ?f (credentials db)). keeps r r')" if "db_ok db"
  proof -
    have ok: "\<forall>r\<in>set (credentials db). cred_ok r" using that by (simp add: db_ok_def list_all_iff)
    have ids: "map cr_id (map ?f (credentials db)) = map cr_id (credentials db)"
      unfolding map_map comp_def using ok f by (intro map_cong) (auto simp: keeps_def)
    have oks: "list_all cred_ok (map ?f (credentials db))" using ok f unfolding list_all_iff set_map by blast
    have "credentials (db\<lparr>credentials := map ?f (credentials db)\<rparr>) = map ?f (credentials db)" by simp
    then have "db_ok (db\<lparr>credentials := map ?f (credentials db)\<rparr>)" unfolding db_ok_def using oks ids that [unfolded db_ok_def] by metis
    moreover have "\<forall>r\<in>set (credentials db). \<exists>r'\<in>set (map ?f (credentials db)). keeps r r'" using ok f unfolding set_map by blast
    ultimately show ?thesis ..
  qed
  then show ?thesis by (simp add: evolves_def upd_def)
qed

lemma evolves_insert:
  assumes "insert_cred bad r db = Some db'" "cred_ok r"
  shows "evolves db db'"
proof -
  from assms have db': "db' = db\<lparr>credentials := credentials db @ [r]\<rparr>" and "\<forall>x\<in>set (credentials db). cr_id x \<noteq> cr_id r"
    by (auto simp: insert_cred_def list_ex_iff split: if_splits)
  then have "cr_id r \<notin> cr_id ` set (credentials db)" by auto
  then show ?thesis unfolding evolves_def db_ok_def db' using assms(2) by auto (metis keeps_refl)
qed

lemma plain_scopes_json:
  assumes "list_all valid_utf8 scopes"
  shows "scope_names (scopes_json scopes) = scopes"
proof -
  have "utf8_json (JArr (map JStr scopes))" using assms by (simp add: list_all_iff)
  moreover have "depth (JArr (map JStr scopes)) \<le> 1" by (simp add: image_image) (simp add: image_constant_conv)
  then have "depth (JArr (map JStr scopes)) \<le> max_depth" by (simp add: max_depth_def)
  ultimately have "Decode (\<lambda>_. Errorf []) (scopes_json scopes) = Inr (JArr (map JStr scopes))"
    unfolding scopes_json_def by (rule Decode_Encode)
  then show ?thesis by (simp add: scope_names_def comp_def)
qed

lemma AllScopes_utf8: "list_all valid_utf8 AllScopes" "valid_utf8 ScopeTools"
  by code_simp+

lemma fresh_row_ok:
  assumes "narrowed_scopes quote p = Inr scopes" "CP_Kind p = KindClient \<Longrightarrow> list_all valid_utf8 (CP_Scopes p)"
    and "Cr_Kind c = CP_Kind p" "Cr_Scopes c = scopes" "Cr_BoundSessionID c = CP_BoundSessionID p"
  shows "cred_ok (row_of c h)"
proof -
  have "list_all valid_utf8 scopes"
    using assms(1,2) AllScopes_utf8 by (auto simp: narrowed_scopes_def split: if_splits)
  moreover from this have "scope_names (scopes_json scopes) = scopes" by (rule plain_scopes_json)
  ultimately show ?thesis
    using assms(1,3-5) by (auto simp: cred_ok_def row_of_def narrowed_scopes_def Let_def split: if_splits)
qed

lemma Create_evolves:
  assumes "Store_Create quote E bad now fr p db = (db', res)" "CP_Kind p = KindClient \<Longrightarrow> list_all valid_utf8 (CP_Scopes p)"
  shows "evolves db db'"
proof (cases "narrowed_scopes quote p")
  case (Inr scopes)
  show ?thesis
    using assms(1) fresh_row_ok [OF Inr assms(2)] Inr
    by (auto simp: Store_Create_def Let_def split: if_splits sum.splits option.splits prod.splits intro: evolves_insert)
qed (use assms(1) in \<open>simp add: Store_Create_def\<close>)

lemma Import_evolves: "evolves db (fst (Store_ImportSecret E bad now uuid secret label db))"
proof -
  have "cred_ok (row_of c h)" if "Cr_Kind c = KindOperator" "Cr_Scopes c = AllScopes" for c h
    using that plain_scopes_json [OF AllScopes_utf8(1)] AllScopes_utf8(1) by (simp add: cred_ok_def row_of_def)
  then show ?thesis
    by (auto simp: Store_ImportSecret_def Let_def split: option.splits intro: evolves_insert)
qed

lemma Authenticate_evolves: "evolves db (fst (Store_Authenticate E bad now secret db))"
  by (auto simp: Store_Authenticate_def split: option.splits intro!: evolves_upd) (simp_all add: keeps_def cred_ok_def)

lemma Slide_evolves: "evolves db (fst (Store_Slide E bad now c ttl cap db))"
  by (auto simp: Store_Slide_def Let_def intro!: evolves_upd) (simp_all add: keeps_def cred_ok_def)

lemma Revoke_evolves:
  assumes "Store_Revoke E bad now cid db = (db', v)" "clock_sane now"
  shows "evolves db db'"
proof -
  let ?db1 = "db\<lparr>credentials := upd (\<lambda>r. cr_id r = cid \<and> cr_revoked r = []) (\<lambda>r. r\<lparr>cr_revoked := ts now\<rparr>) (credentials db)\<rparr>"
  have "evolves db ?db1" using assms(2) by (intro evolves_upd) (simp add: keeps_def cred_ok_def, blast)
  moreover have "evolves ?db1 (?db1\<lparr>ui_sessions := us\<rparr>)" for us by (simp add: evolves_same)
  ultimately show ?thesis using assms(1) evolves_trans by (fastforce simp: Store_Revoke_def Let_def split: if_splits)
qed

lemma revoke_ids_evolves:
  "revoke_ids E bad clk ids db = (db', ns, e) \<Longrightarrow> \<forall>i. clock_sane (clk i) \<Longrightarrow> evolves db db'"
proof (induction ids arbitrary: bad clk db db' ns e)
  case (Cons cid ids)
  obtain db1 v where r: "Store_Revoke E bad (clk 0) cid db = (db1, v)" by fastforce
  note first = Revoke_evolves [OF r Cons.prems(2) [rule_format]]
  obtain db2 ns2 e2 where r2: "revoke_ids E (\<lambda>i. bad (Suc (Suc i))) (\<lambda>i. clk (Suc i)) ids db1 = (db2, ns2, e2)" by (metis prod_cases3)
  note rest = Cons.IH [OF r2]
  from Cons.prems first evolves_trans [OF first rest] show ?case by (auto simp: r r2 split: if_splits)
qed simp

lemma Get_row:
  assumes "Store_Get E bad cid db = Some c"
  obtains r where "r \<in> set (credentials db)" "cr_id r = cid" "c = scanCredential E r"
proof -
  from assms obtain r where "find (\<lambda>r. cr_id r = cid) (credentials db) = Some r" "c = scanCredential E r"
    by (auto simp: Store_Get_def split: if_splits)
  with that [of r] show ?thesis by (metis (mono_tags, lifting) find_Some_iff nth_mem)
qed

lemma Rotate_evolves:
  assumes "Store_Rotate quote E bad clk fr cid by db = (db', ns, res)" "\<forall>i. clock_sane (clk i)"
  shows "evolves db db'"
proof (cases "Store_Get E (bad 0) cid db")
  case (Some old)
  then obtain r where r: "r \<in> set (credentials db)" "old = scanCredential E r" by (rule Get_row)
  let ?p = "\<lparr>CP_Kind = Cr_Kind old, CP_Label = Cr_Label old, CP_Scopes = Cr_Scopes old, CP_BoundSessionID = Cr_BoundSessionID old,
     CP_TTL = (if Cr_ExpiresAt old \<noteq> 0 then Sub_time (Cr_ExpiresAt old) (Cr_CreatedAt old) else 0), CP_CreatedBy = by\<rparr>"
  obtain db1 res1 where cr: "Store_Create quote E (bad 1) (clk 0) fr ?p db = (db1, res1)" by fastforce
  have "evolves db db1" if "db_ok db"
    using that r by (intro Create_evolves [OF cr]) (auto simp: db_ok_def list_all_iff cred_ok_def scanCredential_def)
  then have first: "evolves db db1" by (auto simp: evolves_def)
  obtain db2 v where rv: "Store_Revoke E (\<lambda>i. bad (i + 2)) (clk 1) cid db1 = (db2, v)" by fastforce
  from Some cr rv assms evolves_trans [OF first Revoke_evolves [OF rv]] first show ?thesis
    by (auto simp: Store_Rotate_def Let_def split: sum.splits option.splits)
qed (use assms(1) in \<open>simp add: Store_Rotate_def\<close>)

lemma UI_evolves:
  "evolves db (fst (Store_CreateUISession E b now fr c db))" "evolves db (fst (Store_AuthenticateUISession E bad now cookie db))"
  "evolves db (fst (Store_DeleteUISession E b now uid db))" "evolves db (fst (Store_CreateLoginLink E b now fr c db))"
  "evolves db (fst (Store_ConsumeLoginLink E bad now code db))" "evolves db (Store_Audit b now cid k m rt oc rm db)"
  by (auto simp: Store_CreateUISession_def Store_AuthenticateUISession_def Store_DeleteUISession_def Store_CreateLoginLink_def
      Store_ConsumeLoginLink_def Store_Audit_def Let_def split: sum.splits option.splits prod.splits intro!: evolves_same)

lemma operator_params_evolve:
  assumes "Store_Create quote E bad now fr \<lparr>CP_Kind = KindOperator, CP_Label = l, CP_Scopes = [], CP_BoundSessionID = [], CP_TTL = 0, CP_CreatedBy = by\<rparr> db = (db', res)"
  shows "evolves db db'"
  using assms by (rule Create_evolves) simp

lemma Ensure_evolves: "evolves db (fst (EnsureOperator quote E bad now fr put path override db))"
proof (cases "override = []")
  case False
  then show ?thesis using Import_evolves [of db E bad now "fr_uuid fr" override "''env-override''"]
    by (auto simp: EnsureOperator_def split: prod.splits sum.splits)
next
  case True
  then show ?thesis by (auto simp: EnsureOperator_def split: prod.splits sum.splits option.splits bool.splits intro: operator_params_evolve)
qed

lemma Reset_evolves:
  assumes "\<forall>i. clock_sane (clk i)"
  shows "evolves db (fst (ResetOperator quote E bad clk fr put path db))"
proof (cases "Store_List E (bad 0) False db")
  case (Some creds)
  let ?ids = "map Cr_ID (filter (\<lambda>c. Cr_Kind c = KindOperator) creds)"
  obtain db1 ns e where r: "revoke_ids E (\<lambda>i. bad (i + 2)) (\<lambda>i. clk (i + 1)) ?ids db = (db1, ns, e)" by (metis prod_cases3)
  note first = revoke_ids_evolves [OF r]
  obtain db2 res where c: "Store_Create quote E (bad 1) (clk 0) fr \<lparr>CP_Kind = KindOperator, CP_Label = ''operator'', CP_Scopes = [],
      CP_BoundSessionID = [], CP_TTL = 0, CP_CreatedBy = ''reset''\<rparr> db1 = (db2, res)" by fastforce
  from Some r c assms first evolves_trans [OF first operator_params_evolve [OF c]] show ?thesis
    by (auto simp: ResetOperator_def split: option.splits sum.splits)
qed (simp add: ResetOperator_def)

end
