(* ===== verification/ApiGuard.thy ===== *)
theory ApiGuard
  imports AuthStore
begin

text \<open>
  The guard in front of the HTTP interface: \<^verbatim>\<open>internal/apiauth\<close>, files \<^verbatim>\<open>routes.go\<close>, \<^verbatim>\<open>principal.go\<close>,
  \<^verbatim>\<open>registry.go\<close>, \<^verbatim>\<open>middleware.go\<close> and \<^verbatim>\<open>handlers.go\<close>. The table of routes says which scope a route
  needs; the middleware finds out who is calling, compares, and registers the request so that a
  revocation can cancel it; the handlers are the credential interface itself.

  The state is the credential database with the registry of open requests and the counters that limit the
  audit of refusals. The router, the check of the host, the liveness of sessions, the verifier of service
  tokens, the decoding of a request's body and the parsing of addresses are arguments.

  The theorems: what the middleware lets through; what an agent's credential can reach; that minting only
  narrows and that revocation is final, over every history of requests.
\<close>

section \<open>Routes\<close>

text \<open>The regular expressions of the table: literal text, any text without a line break, a placeholder in braces,
  alternatives, an optional part, the end of the text. \<open>rx\<close> gives what is left after each way to match.\<close>

datatype pitem = PLit string | PAny | PSeg | PAlt "pitem list list" | POpt "pitem list" | PEnd

fun any_rests :: "string \<Rightarrow> string list" where
  "any_rests [] = [[]]"
| "any_rests (c # s) = (c # s) # (if c = CHR 0x0A then [] else any_rests s)"

fun seg_rests :: "string \<Rightarrow> string list" where
  "seg_rests (c # d # s) = (if c = CHR ''{'' \<and> d \<noteq> CHR ''}'' then
     (case dropWhile (\<lambda>x. x \<noteq> CHR ''}'') s of [] \<Rightarrow> [] | _ # r \<Rightarrow> [r]) else [])"
| "seg_rests _ = []"

fun rx :: "pitem list \<Rightarrow> string \<Rightarrow> string list" where
  "rx [] s = [s]"
| "rx (PLit p # k) s = (if prefix p s then rx k (drop (length p) s) else [])"
| "rx (PAny # k) s = concat (map (rx k) (any_rests s))"
| "rx (PSeg # k) s = concat (map (rx k) (seg_rests s))"
| "rx (PAlt as # k) s = concat (map (\<lambda>a. concat (map (rx k) (rx a s))) as)"
| "rx (POpt a # k) s = concat (map (rx k) (rx a s)) @ rx k s"
| "rx (PEnd # k) s = (if s = [] then rx k s else [])"

definition MatchString :: "pitem list \<Rightarrow> string \<Rightarrow> bool" where
  "MatchString p s = (rx p s \<noteq> [])"

record routeRule =
  rr_methods :: "string list"
  rr_path :: "pitem list"
  rr_scope :: string
  rr_alt :: string

definition rule_of :: "string \<Rightarrow> pitem list \<Rightarrow> string \<Rightarrow> routeRule" where
  "rule_of methods path scope = \<lparr>rr_methods = (if methods = [] then [] else Split methods (CHR '','')), rr_path = path, rr_scope = scope, rr_alt = []\<rparr>"

definition altRule :: "string \<Rightarrow> pitem list \<Rightarrow> string \<Rightarrow> string \<Rightarrow> routeRule" where
  "altRule methods path scope alt = (rule_of methods path scope)\<lparr>rr_alt := alt\<rparr>"

definition rule_matches :: "routeRule \<Rightarrow> string \<Rightarrow> string \<Rightarrow> bool" where
  "rule_matches r method path = (MatchString (rr_path r) path
     \<and> (rr_methods r = [] \<or> list_ex (\<lambda>m. m = ''!GET'' \<and> method \<noteq> ''GET'' \<and> method \<noteq> ''HEAD'' \<or> m = method
          \<or> m = ''GET'' \<and> method = ''HEAD'') (rr_methods r)))"

text \<open>The tails \<^verbatim>\<open>(/|$)\<close> and \<^verbatim>\<open>(/.*)?$\<close>, and a choice of words.\<close>

definition slash_or_end :: "pitem list" where "slash_or_end = [PAlt [[PLit ''/''], [PEnd]]]"

definition below :: "pitem list" where "below = [POpt [PLit ''/'', PAny], PEnd]"

definition words :: "string list \<Rightarrow> pitem" where "words ws = PAlt (map (\<lambda>w. [PLit w]) ws)"

definition routeRules :: "routeRule list" where
  "routeRules = [
     rule_of ''GET'' [PLit ''/api/auth/session'', PEnd] ScopeRead,
     rule_of ''POST'' [PLit ''/api/auth/logout'', PEnd] ScopeRead,
     rule_of '''' (PLit ''/api/auth'' # slash_or_end) ScopeAdmin,
     rule_of '''' [PLit ''/api/admin/mcp'', PEnd] ScopeAgentsManage,
     rule_of '''' (PLit ''/api/admin'' # slash_or_end) ScopeAdmin,
     rule_of ''GET'' (PLit ''/api/native-authority'' # slash_or_end) ScopeAgentsManage,
     rule_of '''' (PLit ''/api/native-authority'' # slash_or_end) ScopeAdmin,
     rule_of ''POST'' [PLit ''/api/native-agents/'', PSeg, PLit ''/enroll'', PEnd] ScopeAdmin,
     rule_of '''' (PLit ''/api/'' # words [''agent-setup'', ''native-agents''] # slash_or_end) ScopeAgentsManage,
     altRule ''!GET'' (PLit ''/api/agent-host-settings'' # below) ScopeAgentsManage ScopeMaintain,
     rule_of ''POST'' [PLit ''/api/agent-reload'', PEnd] ScopeMaintain,
     rule_of ''!GET'' [PLit ''/api/agents/'', PSeg, PLit ''/'', words [''retire'', ''retirement-export''], PEnd] ScopeAdmin,
     rule_of ''POST'' [PLit ''/api/agents/'', PAlt [[PLit ''install''], [PSeg, PLit ''/sync''], [PLit ''provision/general-chat''],
       [PSeg, PLit ''/copy-to-managed'']], PEnd] ScopeAdmin,
     rule_of ''!GET'' [PLit ''/api/plugins/'', PAlt [[PLit ''install-archive''], [PLit ''install-local''], [PLit ''uninstall''], [PLit ''enable''],
       [PLit ''disable''], [PLit ''reload''], [PLit ''catalog/'', PAny]], PEnd] ScopeAdmin,
     rule_of ''POST'' [PLit ''/api/plugins/events'', PEnd] ScopeMaintain,
     rule_of ''!GET'' (PLit ''/api/mcp-servers'' # below) ScopeAdmin,
     rule_of ''GET'' (PLit ''/api/mcp-servers'' # below) ScopeMaintain,
     rule_of ''POST'' [PLit ''/api/providers/'', PSeg, PLit ''/test'', PEnd] ScopeMaintain,
     rule_of ''!GET'' (PLit ''/api/providers'' # below) ScopeAdmin,
     rule_of ''!GET'' [PLit ''/api/sessions/'', PSeg, PLit ''/'', words [''shell-exec'', ''shell-mode''], PEnd] ScopeAdmin,
     rule_of ''POST'' [PLit ''/api/commands/execute'', PEnd] ScopeAdmin,
     rule_of ''POST'' [PLit ''/api/processes/kill-stale'', PEnd] ScopeAdmin,
     rule_of ''PUT'' [PLit ''/api/permissions/mode'', PEnd] ScopeAdmin,
     rule_of ''GET'' (PLit ''/api/plugin-config'' # below) ScopeMaintain,
     rule_of '''' (PLit ''/api/plugin-host'' # below) ScopeMaintain,
     rule_of ''POST'' [PLit ''/api/tools/call'', PEnd] ScopeTools,
     rule_of ''!GET'' (PLit ''/api/tools'' # below) ScopeMaintain,
     rule_of '''' (PLit ''/api/agent/v1'' # below) ScopeOperate,
     rule_of ''!GET'' (PLit ''/api/'' # words [''sessions'', ''a2a'', ''echo'', ''workers'', ''work'', ''workflows'', ''stream'', ''messaging'', ''teams'',
       ''plans'', ''todos'', ''tasks'', ''memories'', ''projects'', ''loops'', ''goals'', ''handoffs'', ''pending'', ''documents'', ''artifacts'', ''items'',
       ''envelopes'', ''drawer-cards'', ''reflexes'', ''durable-agent-wake'', ''approvals'', ''metrics'', ''envelope''] # below) ScopeOperate,
     rule_of ''!GET'' (PLit ''/api/'' # words [''agents'', ''agent-host-settings'', ''agent-definitions'', ''agent-builder'', ''durable-agents'',
       ''durable-agent-recipes'', ''skills'', ''roles'', ''consumers'', ''schedules'', ''settings'', ''plugin-config'', ''plugins'', ''catalog'',
       ''models''] # below) ScopeMaintain,
     rule_of ''GET'' (PLit ''/api'' # below) ScopeRead]"

definition ScopesFor :: "string \<Rightarrow> string \<Rightarrow> string \<times> string \<times> bool" where
  "ScopesFor method pattern = (
     let (m, path) = (case Cut pattern (CHR '' '') of Some (m, p) \<Rightarrow> (if method = [] then m else method, p) | None \<Rightarrow> (method, pattern));
         m = (if m = [] then ''GET'' else m)
     in case find (\<lambda>r. rule_matches r m path) routeRules of
          Some r \<Rightarrow> (rr_scope r, rr_alt r, True)
        | None \<Rightarrow> if m = ''GET'' \<or> m = ''HEAD'' then (ScopeRead, [], False) else (ScopeAdmin, [], False))"

definition isPublic :: "string \<Rightarrow> string \<Rightarrow> bool" where
  "isPublic method path = ((method, path) \<in> {(''GET'', ''/api/health''), (''GET'', ''/api/agent/v1/initialize''),
     (''GET'', ''/.well-known/agent-card.json''), (''POST'', ''/api/auth/login''), (''GET'', ''/api/auth/link'')})"

definition handlerAuthenticated :: "string \<Rightarrow> string \<Rightarrow> bool" where
  "handlerAuthenticated method path = (method = ''GET'' \<and> HasPrefix path ''/api/plugin-host/query/''
     \<or> method = ''POST'' \<and> path = ''/api/plugin-host/durable-wake'')"

definition needsCredential :: "string \<Rightarrow> bool" where
  "needsCredential path = (path = ''/api'' \<or> HasPrefix path ''/api/'')"

section \<open>Principals and open requests\<close>

record Principal =
  Pr_CredentialID :: string
  Pr_Kind :: string
  Pr_Label :: string
  Pr_Scopes :: "string list"
  Pr_BoundSessionID :: string
  Pr_Cookie :: bool
  Pr_UISessionID :: string
  Pr_CSRF :: string

definition Principal_Has :: "Principal \<Rightarrow> string \<Rightarrow> bool" where
  "Principal_Has p s = (Pr_Kind p = KindOperator \<or> scopesInclude (Pr_Scopes p) s)"

definition Actor :: "Principal \<Rightarrow> string" where
  "Actor p = (if Pr_Label p \<noteq> [] then Pr_Kind p @ '':'' @ Pr_Label p else Pr_Kind p @ '':'' @ Pr_CredentialID p)"

text \<open>The registry lists the requests under their keys; \<open>gs_canceled\<close> are the requests whose context was canceled.\<close>

record guard_state =
  gs_db :: auth_db
  gs_reg :: "(string \<times> nat) list"
  gs_canceled :: "nat list"
  gs_denials :: int
  gs_window :: int

definition reg_add :: "nat \<Rightarrow> string list \<Rightarrow> guard_state \<Rightarrow> guard_state" where
  "reg_add rid keys g = g\<lparr>gs_reg := gs_reg g @ map (\<lambda>k. (k, rid)) (filter (\<lambda>k. k \<noteq> []) keys)\<rparr>"

definition reg_remove :: "nat \<Rightarrow> string list \<Rightarrow> guard_state \<Rightarrow> guard_state" where
  "reg_remove rid keys g = g\<lparr>gs_reg := filter (\<lambda>(k, r). \<not> (k \<in> set keys \<and> r = rid)) (gs_reg g)\<rparr>"

definition cancelKey :: "string \<Rightarrow> guard_state \<Rightarrow> guard_state" where
  "cancelKey key g = g\<lparr>gs_canceled := map snd (filter (\<lambda>x. fst x = key) (gs_reg g)) @ gs_canceled g\<rparr>"

text \<open>\<^verbatim>\<open>NewGuard\<close> makes every revocation cancel the requests registered under the credential.\<close>

definition notifyRevoked :: "string list \<Rightarrow> guard_state \<Rightarrow> guard_state" where
  "notifyRevoked ids g = foldl (\<lambda>g i. cancelKey i g) g ids"

definition EndUISession :: "auth_env \<Rightarrow> bool \<Rightarrow> go_time \<Rightarrow> string \<Rightarrow> guard_state \<Rightarrow> guard_state \<times> go_error option" where
  "EndUISession E bad now uid g = (case Store_DeleteUISession E bad now uid (gs_db g) of
     (db, e) \<Rightarrow> (cancelKey (''ui:'' @ uid) (g\<lparr>gs_db := db\<rparr>), e))"

section \<open>Requests and answers\<close>

record request =
  rq_method :: string
  rq_path :: string
  rq_host :: string
  rq_auth :: string
  rq_cookie :: "string option"
  rq_csrf :: string
  rq_origin :: string
  rq_remote :: string

datatype admin_code = AdminUnauthenticated | AdminForbidden

datatype body =
    EmptyBody
  | PlainText string
  | ErrorBody string string "(string \<times> string) list"
  | AdminError admin_code string
  | JSONBody json

record response =
  rs_status :: int
  rs_body :: body
  rs_cookie :: "(string \<times> go_time) option"
  rs_location :: string
  rs_www :: bool

definition answer :: "int \<Rightarrow> body \<Rightarrow> response" where
  "answer status b = \<lparr>rs_status = status, rs_body = b, rs_cookie = None, rs_location = [], rs_www = False\<rparr>"

definition writeErrorWith :: "request \<Rightarrow> int \<Rightarrow> string \<Rightarrow> string \<Rightarrow> (string \<times> string) list \<Rightarrow> response" where
  "writeErrorWith r status code message extra = (
     if rq_path r = ''/api/admin'' \<or> HasPrefix (rq_path r) ''/api/admin/''
     then answer status (AdminError (if status = 403 then AdminForbidden else AdminUnauthenticated) message)
     else answer status (ErrorBody code message extra))"

definition writeError :: "request \<Rightarrow> int \<Rightarrow> string \<Rightarrow> string \<Rightarrow> response" where
  "writeError r status code message = writeErrorWith r status code message []"

definition writeUnauthorized :: "request \<Rightarrow> response" where
  "writeUnauthorized r = (writeError r 401 ''unauthenticated'' ''Authentication is required.'')\<lparr>rs_www := True\<rparr>"

definition writeForbidden :: "request \<Rightarrow> string \<Rightarrow> response" where
  "writeForbidden r need = writeErrorWith r 403 ''forbidden'' ''The credential lacks the required scope.'' [(''required_scope'', need)]"

section \<open>The middleware\<close>

record guard_env =
  gv_auth :: auth_env
  gv_quote :: "string \<Rightarrow> string"
  gv_has_store :: bool
  gv_Pattern :: "(request \<Rightarrow> string) option"
  gv_HostAllowed :: "(string \<Rightarrow> bool) option"
  gv_SessionLive :: "(string \<Rightarrow> bool) option"
  gv_Insecure :: bool
  gv_ServiceTokens :: "(string \<Rightarrow> (string \<times> string) option) option"
  gv_duration :: "string \<Rightarrow> duration option"
  gv_getenv :: "string \<Rightarrow> string"
  gv_split_host :: "string \<Rightarrow> string option"
  gv_loopback_ip :: "string \<Rightarrow> bool"
  gv_fold :: "string \<Rightarrow> string \<Rightarrow> bool"

definition LoopbackHost :: "guard_env \<Rightarrow> string \<Rightarrow> bool" where
  "LoopbackHost G host = (
     let h = (case gv_split_host G host of Some hh \<Rightarrow> hh | None \<Rightarrow> host);
         h = TrimLeft (TrimRight h ''[]'') ''[]''
     in h = ''localhost'' \<or> HasSuffix h ''.localhost'' \<or> gv_loopback_ip G h)"

definition unsafeMethod :: "string \<Rightarrow> bool" where
  "unsafeMethod m = (m \<notin> {''GET'', ''HEAD'', ''OPTIONS''})"

definition remoteHost :: "guard_env \<Rightarrow> request \<Rightarrow> string" where
  "remoteHost G r = (case gv_split_host G (rq_remote r) of Some h \<Rightarrow> h | None \<Rightarrow> rq_remote r)"

text \<open>\<^verbatim>\<open>strings.EqualFold\<close>; \<open>gv_fold\<close> is its answer where a byte is not ASCII.\<close>

definition EqualFold :: "guard_env \<Rightarrow> string \<Rightarrow> string \<Rightarrow> bool" where
  "EqualFold G a b = (if list_all ascii_byte a \<and> list_all ascii_byte b then map ascii_lower a = map ascii_lower b else gv_fold G a b)"

definition originMatchesHost :: "guard_env \<Rightarrow> request \<Rightarrow> bool" where
  "originMatchesHost G r = (rq_origin r = []
     \<or> EqualFold G (case Index (rq_origin r) ''://'' of Some i \<Rightarrow> drop (i + 3) (rq_origin r) | None \<Rightarrow> rq_origin r) (rq_host r))"

text \<open>The second of an instant in Unix time.\<close>

definition unix_seconds :: "go_time \<Rightarrow> int" where
  "unix_seconds t = t div second_ns - 62135596800"

definition deny :: "guard_env \<Rightarrow> bool \<Rightarrow> go_time \<Rightarrow> request \<Rightarrow> string \<Rightarrow> guard_state \<Rightarrow> guard_state" where
  "deny G bad now r reason g = (
     let sec = unix_seconds now;
         n = (if gs_window g \<noteq> sec then 0 else gs_denials g) + 1;
         g1 = g\<lparr>gs_window := sec, gs_denials := n\<rparr>
     in if n > 20 then g1
        else g1\<lparr>gs_db := Store_Audit bad now [] [] (rq_method r) (rq_path r) (''denied:'' @ reason) (remoteHost G r) (gs_db g1)\<rparr>)"

definition audit :: "guard_env \<Rightarrow> bool \<Rightarrow> go_time \<Rightarrow> request \<Rightarrow> Principal \<Rightarrow> string \<Rightarrow> string \<Rightarrow> guard_state \<Rightarrow> guard_state" where
  "audit G bad now r p route outcome g = g\<lparr>gs_db := Store_Audit bad now (Pr_CredentialID p) (Pr_Kind p) (rq_method r) route outcome
     (remoteHost G r) (gs_db g)\<rparr>"

definition principal_of :: "Credential \<Rightarrow> Principal" where
  "principal_of c = \<lparr>Pr_CredentialID = Cr_ID c, Pr_Kind = Cr_Kind c, Pr_Label = Cr_Label c, Pr_Scopes = Cr_Scopes c,
     Pr_BoundSessionID = Cr_BoundSessionID c, Pr_Cookie = False, Pr_UISessionID = [], Pr_CSRF = []\<rparr>"

definition cookie_principal :: "UISession \<Rightarrow> Credential \<Rightarrow> Principal" where
  "cookie_principal u c = (principal_of c)\<lparr>Pr_BoundSessionID := [], Pr_Cookie := True, Pr_UISessionID := Us_ID u, Pr_CSRF := Us_CSRF u\<rparr>"

text \<open>\<open>verify\<close> is the verifier of signed tokens: the id and the display name of the caller.\<close>

definition serviceScopes :: "string list" where "serviceScopes = [ScopeRead, ScopeOperate, ScopeTools]"

definition VerifyServiceToken :: "(string \<Rightarrow> (string \<times> string) option) \<Rightarrow> string \<Rightarrow> Principal option" where
  "VerifyServiceToken verify token = (case verify token of
       None \<Rightarrow> None
     | Some (sid, display) \<Rightarrow> if sid = [] then None
         else Some \<lparr>Pr_CredentialID = ''tether:'' @ sid, Pr_Kind = KindClient, Pr_Label = ''tether/'' @ (if display = [] then sid else display),
           Pr_Scopes = serviceScopes, Pr_BoundSessionID = [], Pr_Cookie = False, Pr_UISessionID = [], Pr_CSRF = []\<rparr>)"

text \<open>\<^verbatim>\<open>authenticate\<close> with the \<^verbatim>\<open>Authorization\<close> header: the store first, then the verifier of service tokens. The
  credential's session has to be live if it is an agent's, whose lifetime slides.\<close>

definition authenticate_bearer :: "guard_env \<Rightarrow> (nat \<Rightarrow> bool) \<Rightarrow> (nat \<Rightarrow> go_time) \<Rightarrow> request \<Rightarrow> guard_state
    \<Rightarrow> guard_state \<times> (Principal \<times> go_time) option" where
  "authenticate_bearer G bad clk r g = (
     if \<not> HasPrefix (rq_auth r) ''Bearer '' then (deny G (bad 4) (clk 2) r ''bad-scheme'' g, None)
     else let secret = drop 7 (rq_auth r) in
       case Store_Authenticate (gv_auth G) bad (clk 0) secret (gs_db g) of
         (db, None) \<Rightarrow> (let g1 = g\<lparr>gs_db := db\<rparr> in
            case gv_ServiceTokens G of
              Some verify \<Rightarrow>
                if length (filter (\<lambda>x. x = CHR ''.'') secret) = 2 then
                  (case VerifyServiceToken verify secret of
                     Some p \<Rightarrow> (g1, Some (p, 0))
                   | None \<Rightarrow> (deny G (bad 4) (clk 2) r ''bad-service-token'' g1, None))
                else (deny G (bad 4) (clk 2) r ''bad-credential'' g1, None)
            | None \<Rightarrow> (deny G (bad 4) (clk 2) r ''bad-credential'' g1, None))
       | (db, Some c) \<Rightarrow> (let g1 = g\<lparr>gs_db := db\<rparr> in
            if Cr_Kind c = KindAgent then
              (if (case gv_SessionLive G of Some live \<Rightarrow> \<not> live (Cr_BoundSessionID c) | None \<Rightarrow> False)
               then (deny G (bad 4) (clk 2) r ''session-ended'' g1, None)
               else let (ttl, cap) = agentCredentialTTLs (gv_duration G) (gv_getenv G) in
                 case Store_Slide (gv_auth G) (bad 3) (clk 1) c ttl cap db of
                   (db2, Inr next) \<Rightarrow> (g1\<lparr>gs_db := db2\<rparr>, Some (principal_of c, next))
                 | (db2, Inl _) \<Rightarrow> (g1\<lparr>gs_db := db2\<rparr>, Some (principal_of c, Cr_ExpiresAt c)))
            else (g1, Some (principal_of c, Cr_ExpiresAt c))))"

definition authenticate :: "guard_env \<Rightarrow> (nat \<Rightarrow> bool) \<Rightarrow> (nat \<Rightarrow> go_time) \<Rightarrow> request \<Rightarrow> guard_state
    \<Rightarrow> guard_state \<times> (Principal \<times> go_time) option" where
  "authenticate G bad clk r g = (
     if \<not> gv_has_store G then (g, None)
     else if rq_auth r \<noteq> [] then authenticate_bearer G bad clk r g
     else case rq_cookie r of
         None \<Rightarrow> (deny G (bad 4) (clk 2) r ''no-credential'' g, None)
       | Some v \<Rightarrow> (case Store_AuthenticateUISession (gv_auth G) bad (clk 0) v (gs_db g) of
             (db, None) \<Rightarrow> (deny G (bad 4) (clk 2) r ''bad-session'' (g\<lparr>gs_db := db\<rparr>), None)
           | (db, Some (u, c)) \<Rightarrow> (g\<lparr>gs_db := db\<rparr>, Some (cookie_principal u c, Us_ExpiresAt u))))"

text \<open>What becomes of a request: an answer; the handler without a principal; the handler with a principal that is not
  registered; or the handler with a registered principal and the deadline of its context (\<open>0\<close>: none).\<close>

datatype admission = Refused response | Open_route | Insecure_as Principal | Admitted Principal go_time

definition insecure_dev :: Principal where
  "insecure_dev = \<lparr>Pr_CredentialID = ''insecure-dev'', Pr_Kind = KindOperator, Pr_Label = ''insecure-dev'', Pr_Scopes = AllScopes,
     Pr_BoundSessionID = [], Pr_Cookie = False, Pr_UISessionID = [], Pr_CSRF = []\<rparr>"

definition route_pattern :: "guard_env \<Rightarrow> request \<Rightarrow> string" where
  "route_pattern G r = (let p = (case gv_Pattern G of Some f \<Rightarrow> f r | None \<Rightarrow> []) in
     if p = [] then rq_method r @ '' '' @ rq_path r else p)"

definition authorize :: "guard_env \<Rightarrow> (nat \<Rightarrow> bool) \<Rightarrow> (nat \<Rightarrow> go_time) \<Rightarrow> request \<Rightarrow> Principal \<Rightarrow> guard_state \<Rightarrow> guard_state \<times> response option" where
  "authorize G bad clk r p g = (
     let pattern = route_pattern G r; (need, alt, _) = ScopesFor (rq_method r) pattern in
     if \<not> Principal_Has p need \<and> (alt = [] \<or> \<not> Principal_Has p alt)
     then (audit G (bad 5) (clk 3) r p pattern ''forbidden'' g, Some (writeForbidden r need))
     else if Pr_Cookie p \<and> unsafeMethod (rq_method r) \<and> \<not> originMatchesHost G r
     then (audit G (bad 5) (clk 3) r p pattern ''bad-origin'' g, Some (writeError r 403 ''forbidden'' ''Cross-origin request refused.''))
     else if Pr_Cookie p \<and> unsafeMethod (rq_method r) \<and> rq_csrf r \<noteq> Pr_CSRF p
     then (audit G (bad 5) (clk 3) r p pattern ''bad-csrf'' g, Some (writeError r 403 ''forbidden'' ''CSRF token required.''))
     else (if need = ScopeAdmin \<or> (need = ScopeMaintain \<or> need = ScopeAgentsManage) \<and> unsafeMethod (rq_method r)
           then audit G (bad 5) (clk 3) r p pattern ''allowed'' g else g, None))"

definition request_keys :: "Principal \<Rightarrow> string list" where
  "request_keys p = [Pr_CredentialID p, ''ui:'' @ Pr_UISessionID p]"

definition admit :: "guard_env \<Rightarrow> (nat \<Rightarrow> bool) \<Rightarrow> (nat \<Rightarrow> go_time) \<Rightarrow> request \<Rightarrow> guard_state \<Rightarrow> guard_state \<times> admission" where
  "admit G bad clk r g = (
     if \<not> (case gv_HostAllowed G of Some f \<Rightarrow> f (rq_host r) | None \<Rightarrow> LoopbackHost G (rq_host r))
     then (g, Refused (writeError r 403 ''forbidden'' ''Host not allowed.''))
     else if \<not> needsCredential (rq_path r) \<and> rq_path r \<noteq> ''/.well-known/agent-card.json'' then (g, Open_route)
     else if rq_method r = ''OPTIONS'' \<or> isPublic (rq_method r) (rq_path r) \<or> handlerAuthenticated (rq_method r) (rq_path r) then (g, Open_route)
     else if gv_Insecure G then (g, Insecure_as insecure_dev)
     else case authenticate G bad clk r g of
         (g1, None) \<Rightarrow> (g1, Refused (writeUnauthorized r))
       | (g1, Some (p, expires)) \<Rightarrow> (case authorize G bad clk r p g1 of
             (g2, Some resp) \<Rightarrow> (g2, Refused resp)
           | (g2, None) \<Rightarrow> (g2, Admitted p expires)))"

definition Middleware :: "guard_env \<Rightarrow> (nat \<Rightarrow> bool) \<Rightarrow> (nat \<Rightarrow> go_time) \<Rightarrow> nat \<Rightarrow> request \<Rightarrow> guard_state \<Rightarrow> guard_state \<times> admission" where
  "Middleware G bad clk rid r g = (case admit G bad clk r g of
       (g1, Admitted p expires) \<Rightarrow> (reg_add rid (request_keys p) g1, Admitted p expires)
     | x \<Rightarrow> x)"

section \<open>The credential interface\<close>

definition omitempty :: "string \<Rightarrow> string \<Rightarrow> (string \<times> json) list" where
  "omitempty k v = (if v = [] then [] else [(k, JStr v)])"

definition scopes_value :: "string list \<Rightarrow> json" where
  "scopes_value ss = (if ss = [] then JNull else JArr (map JStr ss))"

definition viewOf :: "Credential \<Rightarrow> string \<Rightarrow> string \<Rightarrow> json" where
  "viewOf c secret writtenTo = JObj ([(''id'', JStr (Cr_ID c)), (''kind'', JStr (Cr_Kind c)), (''label'', JStr (Cr_Label c)),
     (''scopes'', scopes_value (Cr_Scopes c))] @ omitempty ''bound_session_id'' (Cr_BoundSessionID c)
     @ [(''created_at'', JStr (ts (Cr_CreatedAt c)))] @ omitempty ''expires_at'' (ts (Cr_ExpiresAt c))
     @ omitempty ''last_used_at'' (ts (Cr_LastUsedAt c)) @ omitempty ''revoked_at'' (ts (Cr_RevokedAt c))
     @ omitempty ''created_by'' (Cr_CreatedBy c) @ omitempty ''secret'' secret @ omitempty ''written_to'' writtenTo)"

definition login :: "guard_env \<Rightarrow> (nat \<Rightarrow> bool) \<Rightarrow> (nat \<Rightarrow> go_time) \<Rightarrow> fresh \<Rightarrow> request \<Rightarrow> string option \<Rightarrow> guard_state
    \<Rightarrow> guard_state \<times> response" where
  "login G bad clk fr r token g = (
     if \<not> originMatchesHost G r then (g, writeError r 403 ''forbidden'' ''Cross-origin request refused.'')
     else case token of
         None \<Rightarrow> (g, writeError r 400 ''invalid_request'' ''Invalid request body.'')
       | Some t \<Rightarrow> (case Store_Authenticate (gv_auth G) bad (clk 0) (TrimSpace t) (gs_db g) of
             (db, None) \<Rightarrow> (deny G (bad 4) (clk 2) r ''bad-login'' (g\<lparr>gs_db := db\<rparr>), writeUnauthorized r)
           | (db, Some c) \<Rightarrow>
               if Cr_Kind c = KindAgent then (deny G (bad 4) (clk 2) r ''bad-login'' (g\<lparr>gs_db := db\<rparr>), writeUnauthorized r)
               else (case Store_CreateUISession (gv_auth G) (bad 2) (clk 1) fr c db of
                   (db1, Inl e) \<Rightarrow> (g\<lparr>gs_db := db1\<rparr>, writeError r 500 ''internal'' ''Could not start a session.'')
                 | (db1, Inr (u, cookie)) \<Rightarrow>
                     (g\<lparr>gs_db := Store_Audit (bad 3) (clk 2) (Cr_ID c) (Cr_Kind c) (rq_method r) ''/api/auth/login'' ''login'' (remoteHost G r) db1\<rparr>,
                      (answer 200 (JSONBody (JObj [(''csrf_token'', JStr (Us_CSRF u)), (''expires_at'', JStr (ts (Us_ExpiresAt u))),
                        (''principal'', viewOf c [] [])])))\<lparr>rs_cookie := Some (cookie, Us_ExpiresAt u)\<rparr>))))"

definition link :: "guard_env \<Rightarrow> (nat \<Rightarrow> bool) \<Rightarrow> (nat \<Rightarrow> go_time) \<Rightarrow> fresh \<Rightarrow> request \<Rightarrow> string \<Rightarrow> guard_state \<Rightarrow> guard_state \<times> response" where
  "link G bad clk fr r code g = (case Store_ConsumeLoginLink (gv_auth G) bad (clk 0) code (gs_db g) of
       (db, None) \<Rightarrow> (deny G (bad 4) (clk 2) r ''bad-link'' (g\<lparr>gs_db := db\<rparr>),
          answer 401 (PlainText ''This login link is invalid, expired or already used.''))
     | (db, Some c) \<Rightarrow> (case Store_CreateUISession (gv_auth G) (bad 2) (clk 1) fr c db of
           (db1, Inl e) \<Rightarrow> (g\<lparr>gs_db := db1\<rparr>, answer 500 (PlainText ''Could not start a session.''))
         | (db1, Inr (u, cookie)) \<Rightarrow>
             (g\<lparr>gs_db := Store_Audit (bad 3) (clk 2) (Cr_ID c) (Cr_Kind c) (rq_method r) ''/api/auth/link'' ''login-link'' (remoteHost G r) db1\<rparr>,
              (answer 303 EmptyBody)\<lparr>rs_cookie := Some (cookie, Us_ExpiresAt u), rs_location := ''/''\<rparr>)))"

definition scopesOf :: "Principal \<Rightarrow> string list" where
  "scopesOf p = (if Pr_Kind p = KindOperator then AllScopes else Pr_Scopes p)"

definition session_info :: "request \<Rightarrow> Principal option \<Rightarrow> response" where
  "session_info r p = (case p of None \<Rightarrow> writeUnauthorized r
     | Some p \<Rightarrow> answer 200 (JSONBody (JObj ([(''credential_id'', JStr (Pr_CredentialID p)), (''kind'', JStr (Pr_Kind p)), (''label'', JStr (Pr_Label p)),
         (''scopes'', scopes_value (scopesOf p)), (''cookie'', JBool (Pr_Cookie p))] @ (if Pr_Cookie p then [(''csrf_token'', JStr (Pr_CSRF p))] else [])))))"

definition logout :: "guard_env \<Rightarrow> bool \<Rightarrow> go_time \<Rightarrow> Principal option \<Rightarrow> guard_state \<Rightarrow> guard_state \<times> response" where
  "logout G bad now p g = (
     (case p of Some p \<Rightarrow> if Pr_Cookie p then fst (EndUISession (gv_auth G) bad now (Pr_UISessionID p) g) else g | None \<Rightarrow> g),
     (answer 204 EmptyBody)\<lparr>rs_cookie := Some ([], 62135596800 * second_ns)\<rparr>)"

definition list_credentials :: "guard_env \<Rightarrow> bool \<Rightarrow> request \<Rightarrow> string \<Rightarrow> guard_state \<Rightarrow> response" where
  "list_credentials G bad r include g = (case Store_List (gv_auth G) bad (include = ''true'') (gs_db g) of
       None \<Rightarrow> writeError r 500 ''internal'' ''Could not list credentials.''
     | Some cs \<Rightarrow> answer 200 (JSONBody (JObj [(''items'', JArr (map (\<lambda>c. viewOf c [] []) cs))])))"

definition clientTTL :: duration where "clientTTL = 30 * 24 * 3600 * second_ns"

definition wrap64 :: "int \<Rightarrow> int" where
  "wrap64 x = (x + 2 ^ 63) mod 2 ^ 64 - 2 ^ 63"

definition client_ttl :: "int \<Rightarrow> duration" where
  "client_ttl days = (if days > 0 then wrap64 (days * 24 * 3600 * second_ns) else clientTTL)"

record create_body =
  cb_kind :: string
  cb_label :: string
  cb_scopes :: "string list"
  cb_ttl_days :: int

fun error_text :: "go_error \<Rightarrow> string" where
  "error_text (Errorf s) = s"
| "error_text (Sentinel s) = s"
| "error_text (Wrapf p e) = p @ error_text e"

definition zero_principal :: Principal where
  "zero_principal = \<lparr>Pr_CredentialID = [], Pr_Kind = [], Pr_Label = [], Pr_Scopes = [], Pr_BoundSessionID = [], Pr_Cookie = False,
     Pr_UISessionID = [], Pr_CSRF = []\<rparr>"

definition create :: "guard_env \<Rightarrow> bool \<Rightarrow> go_time \<Rightarrow> fresh \<Rightarrow> request \<Rightarrow> Principal option \<Rightarrow> create_body option \<Rightarrow> guard_state
    \<Rightarrow> guard_state \<times> response" where
  "create G bad now fr r p body g = (case body of
       None \<Rightarrow> (g, writeError r 400 ''invalid_request'' ''Invalid request body.'')
     | Some b \<Rightarrow>
         if cb_kind b \<noteq> KindClient then (g, writeError r 400 ''invalid_request''
           ''Only client credentials can be created here; rotate the operator credential, and agent credentials are minted by the host.'')
         else (case ParseScopes (gv_quote G) (cb_scopes b) of
             Inl e \<Rightarrow> (g, writeError r 400 ''invalid_request'' (error_text e))
           | Inr scopes \<Rightarrow> (case Store_Create (gv_quote G) (gv_auth G) bad now fr
                   \<lparr>CP_Kind = KindClient, CP_Label = TrimSpace (cb_label b), CP_Scopes = scopes, CP_BoundSessionID = [],
                    CP_TTL = client_ttl (cb_ttl_days b), CP_CreatedBy = Actor (case p of Some p \<Rightarrow> p | None \<Rightarrow> zero_principal)\<rparr> (gs_db g) of
                 (db, Inl e) \<Rightarrow> (g\<lparr>gs_db := db\<rparr>, writeError r 400 ''invalid_request'' (error_text e))
               | (db, Inr (c, secret)) \<Rightarrow> (g\<lparr>gs_db := db\<rparr>, answer 201 (JSONBody (viewOf c secret []))))))"

definition revoke :: "guard_env \<Rightarrow> (nat \<Rightarrow> bool) \<Rightarrow> go_time \<Rightarrow> request \<Rightarrow> string \<Rightarrow> guard_state \<Rightarrow> guard_state \<times> response" where
  "revoke G bad now r cid g = (case Store_Get (gv_auth G) (bad 0) cid (gs_db g) of
       None \<Rightarrow> (g, writeError r 404 ''not_found'' ''No such credential.'')
     | Some target \<Rightarrow>
         if Cr_Kind target = KindOperator
           \<and> length (filter (\<lambda>c. Cr_Kind c = KindOperator) (case Store_List (gv_auth G) (bad 1) False (gs_db g) of Some cs \<Rightarrow> cs | None \<Rightarrow> [])) \<le> 1
         then (g, writeError r 409 ''conflict'' ''This is the last operator credential; rotate it instead of revoking it.'')
         else (case Store_Revoke (gv_auth G) (\<lambda>i. bad (i + 2)) now cid (gs_db g) of
             (db, v) \<Rightarrow> (notifyRevoked (rv_notified v) (g\<lparr>gs_db := db\<rparr>),
               if rv_error v \<noteq> None then writeError r 500 ''internal'' ''Could not revoke the credential.''
               else if \<not> rv_revoked v then writeError r 404 ''not_found'' ''No live credential with that id.''
               else answer 204 EmptyBody)))"

definition rotate_credential :: "guard_env \<Rightarrow> (nat \<Rightarrow> bool) \<Rightarrow> (nat \<Rightarrow> go_time) \<Rightarrow> fresh \<Rightarrow> (string \<Rightarrow> string \<Rightarrow> go_error option) \<Rightarrow> string \<Rightarrow> request
    \<Rightarrow> Principal option \<Rightarrow> string \<Rightarrow> guard_state \<Rightarrow> guard_state \<times> response" where
  "rotate_credential G bad clk fr put tokenPath r p cid g = (
     case Store_Rotate (gv_quote G) (gv_auth G) bad clk fr cid (Actor (case p of Some p \<Rightarrow> p | None \<Rightarrow> zero_principal)) (gs_db g) of
       (db, ns, res) \<Rightarrow> (notifyRevoked ns (g\<lparr>gs_db := db\<rparr>), case res of
           Inl e \<Rightarrow> writeError r 400 ''invalid_request'' (error_text e)
         | Inr (c, secret) \<Rightarrow> answer 200 (JSONBody (viewOf c secret
             (if Cr_Kind c = KindOperator \<and> tokenPath \<noteq> [] \<and> put tokenPath secret = None then tokenPath else [])))))"

definition loginLink :: "guard_env \<Rightarrow> (nat \<Rightarrow> bool) \<Rightarrow> go_time \<Rightarrow> fresh \<Rightarrow> string \<Rightarrow> request \<Rightarrow> Principal option \<Rightarrow> guard_state \<Rightarrow> guard_state \<times> response" where
  "loginLink G bad now fr publicURL r p g = (
     case Store_Get (gv_auth G) (bad 0) (Pr_CredentialID (case p of Some p \<Rightarrow> p | None \<Rightarrow> zero_principal)) (gs_db g) of
       None \<Rightarrow> (g, writeError r 403 ''forbidden'' ''Only an operator credential can mint a login link.'')
     | Some c \<Rightarrow> (case Store_CreateLoginLink (gv_auth G) (bad 1) now fr c (gs_db g) of
           (db, Inl e) \<Rightarrow> (g\<lparr>gs_db := db\<rparr>, writeError r 403 ''forbidden'' (error_text e))
         | (db, Inr (code, expires)) \<Rightarrow>
             let path = ''/api/auth/link?code='' @ code; base = TrimRight (TrimSpace publicURL) ''/'' in
             (g\<lparr>gs_db := db\<rparr>, answer 201 (JSONBody (JObj ([(''path'', JStr path), (''expires_at'', JStr (ts expires))]
               @ (if base \<noteq> [] then [(''url'', JStr (base @ path))] else [])))))))"

definition AdminAuthenticator :: "string \<Rightarrow> Principal option \<Rightarrow> string option" where
  "AdminAuthenticator need p = (case p of None \<Rightarrow> None
     | Some p \<Rightarrow> if \<not> Principal_Has p need then None else Some (if Pr_Label p \<noteq> [] then Pr_Label p else Pr_CredentialID p))"

text \<open>The host mints a credential for an agent's session (\<^verbatim>\<open>initServeAuth\<close>).\<close>

definition mint :: "guard_env \<Rightarrow> bool \<Rightarrow> go_time \<Rightarrow> fresh \<Rightarrow> string \<Rightarrow> guard_state \<Rightarrow> guard_state \<times> (go_error + string)" where
  "mint G bad now fr sid g = (case Store_Create (gv_quote G) (gv_auth G) bad now fr
       \<lparr>CP_Kind = KindAgent, CP_Label = take 24 (''agent-'' @ sid), CP_Scopes = [], CP_BoundSessionID = sid,
        CP_TTL = 3600 * second_ns, CP_CreatedBy = ''host''\<rparr> (gs_db g) of
     (db, Inl e) \<Rightarrow> (g\<lparr>gs_db := db\<rparr>, Inl e)
   | (db, Inr (_, secret)) \<Rightarrow> (g\<lparr>gs_db := db\<rparr>, Inr secret))"

section \<open>Histories\<close>

text \<open>What can happen to the guard, in any order: a request passes the middleware, a request ends, a handler runs, the host mints a
  credential or ends a session, the operator credential is ensured, or reset by another process. The failing statements, clocks, random tokens,
  requests and principals are arbitrary.\<close>

datatype guard_event =
    Arrive "nat \<Rightarrow> bool" "nat \<Rightarrow> go_time" nat request
  | Finish nat Principal
  | Do_login "nat \<Rightarrow> bool" "nat \<Rightarrow> go_time" fresh request "string option"
  | Do_link "nat \<Rightarrow> bool" "nat \<Rightarrow> go_time" fresh request string
  | Do_logout bool go_time "Principal option"
  | Do_create bool go_time fresh request "Principal option" "create_body option"
  | Do_revoke "nat \<Rightarrow> bool" go_time request string
  | Do_rotate "nat \<Rightarrow> bool" "nat \<Rightarrow> go_time" fresh "string \<Rightarrow> string \<Rightarrow> go_error option" string request "Principal option" string
  | Do_loginLink "nat \<Rightarrow> bool" go_time fresh string request "Principal option"
  | Mint bool go_time fresh string
  | End_session "nat \<Rightarrow> bool" "nat \<Rightarrow> go_time" string
  | Ensure "nat \<Rightarrow> bool" go_time fresh "string \<Rightarrow> string \<Rightarrow> go_error option" string string
  | Reset "nat \<Rightarrow> bool" "nat \<Rightarrow> go_time" fresh "string \<Rightarrow> string \<Rightarrow> go_error option" string

fun guard_apply :: "guard_env \<Rightarrow> guard_state \<Rightarrow> guard_event \<Rightarrow> guard_state" where
  "guard_apply G g (Arrive bad clk rid r) = fst (Middleware G bad clk rid r g)"
| "guard_apply G g (Finish rid p) = reg_remove rid (request_keys p) g"
| "guard_apply G g (Do_login bad clk fr r t) = fst (login G bad clk fr r t g)"
| "guard_apply G g (Do_link bad clk fr r code) = fst (link G bad clk fr r code g)"
| "guard_apply G g (Do_logout bad now p) = fst (logout G bad now p g)"
| "guard_apply G g (Do_create bad now fr r p b) = fst (create G bad now fr r p b g)"
| "guard_apply G g (Do_revoke bad now r cid) = fst (revoke G bad now r cid g)"
| "guard_apply G g (Do_rotate bad clk fr put path r p cid) = fst (rotate_credential G bad clk fr put path r p cid g)"
| "guard_apply G g (Do_loginLink bad now fr url r p) = fst (loginLink G bad now fr url r p g)"
| "guard_apply G g (Mint bad now fr sid) = fst (mint G bad now fr sid g)"
| "guard_apply G g (End_session bad clk sid) = (case Store_RevokeSessionCredentials (gv_auth G) bad clk sid (gs_db g) of
     (db, ns, _) \<Rightarrow> notifyRevoked ns (g\<lparr>gs_db := db\<rparr>))"
| "guard_apply G g (Ensure bad now fr put path override) =
     g\<lparr>gs_db := fst (EnsureOperator (gv_quote G) (gv_auth G) bad now fr put path override (gs_db g))\<rparr>"
| "guard_apply G g (Reset bad clk fr put path) =
     g\<lparr>gs_db := fst (ResetOperator (gv_quote G) (gv_auth G) bad clk fr put path (gs_db g))\<rparr>"

text \<open>The clock shows a time of the years 1 to 9999.\<close>

fun event_clock :: "guard_event \<Rightarrow> bool" where
  "event_clock (Do_revoke bad now r cid) = clock_sane now"
| "event_clock (Do_rotate bad clk fr put path r p cid) = (\<forall>i. clock_sane (clk i))"
| "event_clock (End_session bad clk sid) = (\<forall>i. clock_sane (clk i))"
| "event_clock (Reset bad clk fr put path) = (\<forall>i. clock_sane (clk i))"
| "event_clock _ = True"

definition first_state :: guard_state where
  "first_state = \<lparr>gs_db = empty_db, gs_reg = [], gs_canceled = [], gs_denials = 0, gs_window = 0\<rparr>"

section \<open>What a history keeps\<close>

text \<open>A step of the guard: the credentials evolve, and what was canceled stays canceled.\<close>

definition moves :: "guard_state \<Rightarrow> guard_state \<Rightarrow> bool" where
  "moves g g' = (evolves (gs_db g) (gs_db g') \<and> set (gs_canceled g) \<subseteq> set (gs_canceled g'))"

lemma state_moves_refl [simp]: "moves g g" by (simp add: moves_def)

lemma moves_trans [trans]: "moves a b \<Longrightarrow> moves b c \<Longrightarrow> moves a c"
  by (auto simp: moves_def intro: evolves_trans)

lemma moves_db: "evolves (gs_db g) db \<Longrightarrow> moves g (g\<lparr>gs_db := db\<rparr>)"
  by (simp add: moves_def)

lemma deny_moves: "moves g (deny G bad now r reason g)"
  by (simp add: deny_def Let_def moves_def UI_evolves)

lemma audit_moves: "moves g (audit G bad now r p rt oc g)"
  by (simp add: audit_def moves_def UI_evolves)

lemma notify_simps [simp]: "gs_db (notifyRevoked ids g) = gs_db g" "gs_reg (notifyRevoked ids g) = gs_reg g"
  "set (gs_canceled (notifyRevoked ids g)) = set (gs_canceled g) \<union> {rid. \<exists>k\<in>set ids. (k, rid) \<in> set (gs_reg g)}"
proof -
  have "gs_db (foldl (\<lambda>g i. cancelKey i g) g ids) = gs_db g \<and> gs_reg (foldl (\<lambda>g i. cancelKey i g) g ids) = gs_reg g
    \<and> set (gs_canceled (foldl (\<lambda>g i. cancelKey i g) g ids)) = set (gs_canceled g) \<union> {rid. \<exists>k\<in>set ids. (k, rid) \<in> set (gs_reg g)}"
    by (induction ids arbitrary: g) (auto simp: cancelKey_def image_iff)
  then show "gs_db (notifyRevoked ids g) = gs_db g" "gs_reg (notifyRevoked ids g) = gs_reg g"
    "set (gs_canceled (notifyRevoked ids g)) = set (gs_canceled g) \<union> {rid. \<exists>k\<in>set ids. (k, rid) \<in> set (gs_reg g)}"
    by (simp_all add: notifyRevoked_def)
qed

lemma notify_moves: "evolves (gs_db g) db \<Longrightarrow> moves g (notifyRevoked ids (g\<lparr>gs_db := db\<rparr>))"
  by (auto simp: moves_def)

lemma bearer_moves: "moves g (fst (authenticate_bearer G bad clk r g))"
proof -
  obtain db c where a: "Store_Authenticate (gv_auth G) bad (clk 0) (drop 7 (rq_auth r)) (gs_db g) = (db, c)" by fastforce
  have 1: "evolves (gs_db g) db" using Authenticate_evolves [of "gs_db g" "gv_auth G" bad "clk 0" "drop 7 (rq_auth r)"] a by simp
  obtain ttl cap where t: "agentCredentialTTLs (gv_duration G) (gv_getenv G) = (ttl, cap)" by fastforce
  have 2: "evolves (gs_db g) (fst (Store_Slide (gv_auth G) (bad 3) (clk 1) c' ttl cap db))" for c'
    by (rule evolves_trans [OF 1 Slide_evolves])
  have 3: "moves g (deny G (bad 4) (clk 2) r reason (g\<lparr>gs_db := db\<rparr>))" for reason
    by (rule moves_trans [OF moves_db [OF 1] deny_moves])
  show ?thesis
    using a t 2 by (auto simp: authenticate_bearer_def Let_def deny_moves 3 moves_db [OF 1] intro: moves_db
        split: option.splits prod.splits sum.splits) (metis fst_conv moves_db)+
qed

lemma deny_after: "evolves (gs_db g) db \<Longrightarrow> moves g (deny G bad now r reason (g\<lparr>gs_db := db\<rparr>))"
  by (rule moves_trans [OF moves_db deny_moves])

lemma authenticate_moves: "moves g (fst (authenticate G bad clk r g))"
proof (cases "rq_cookie r")
  case (Some v)
  obtain db a where x: "Store_AuthenticateUISession (gv_auth G) bad (clk 0) v (gs_db g) = (db, a)" by fastforce
  have "evolves (gs_db g) db" using UI_evolves(2) [of "gs_db g" "gv_auth G" bad "clk 0" v] x by simp
  then show ?thesis using Some x bearer_moves by (auto simp: authenticate_def deny_after moves_db split: option.splits)
qed (simp add: authenticate_def bearer_moves deny_moves)

lemma admit_moves: "moves g (fst (admit G bad clk r g))"
proof -
  obtain g1 a where a: "authenticate G bad clk r g = (g1, a)" by fastforce
  have 1: "moves g g1" using authenticate_moves [of g G bad clk r] a by simp
  have "moves g1 (fst (authorize G bad clk r p g1))" for p by (simp add: authorize_def Let_def audit_moves split: prod.splits)
  from moves_trans [OF 1 this] 1 a show ?thesis
    by (auto simp: admit_def split: option.splits prod.splits) (metis fst_conv)+
qed

lemma Middleware_moves: "moves g (fst (Middleware G bad clk rid r g))"
  using admit_moves [of g G bad clk r]
  by (auto simp: Middleware_def moves_def reg_add_def split: prod.splits admission.splits)

lemma session_started:
  assumes "Store_CreateUISession E b now fr c db = (db1, res)" "evolves d db"
  shows "evolves d db1" "evolves d (Store_Audit b' now' cid k m rt oc rm db1)"
proof -
  have "evolves db db1" using UI_evolves(1) [of db E b now fr c] assms(1) by simp
  with assms(2) show "evolves d db1" by (rule evolves_trans)
  then show "evolves d (Store_Audit b' now' cid k m rt oc rm db1)" using UI_evolves(6) by (rule evolves_trans)
qed

lemma login_moves: "moves g (fst (login G bad clk fr r t g))"
proof (cases t)
  case (Some s)
  obtain db c where a: "Store_Authenticate (gv_auth G) bad (clk 0) (TrimSpace s) (gs_db g) = (db, c)" by fastforce
  have "evolves (gs_db g) db" using Authenticate_evolves [of "gs_db g" "gv_auth G" bad "clk 0" "TrimSpace s"] a by simp
  with Some a show ?thesis
    by (auto simp: login_def deny_after split: option.splits prod.splits sum.splits intro!: moves_db intro: session_started)
qed (simp add: login_def)

lemma link_moves: "moves g (fst (link G bad clk fr r code g))"
proof -
  obtain db c where a: "Store_ConsumeLoginLink (gv_auth G) bad (clk 0) code (gs_db g) = (db, c)" by fastforce
  have "evolves (gs_db g) db" using UI_evolves(5) [of "gs_db g" "gv_auth G" bad "clk 0" code] a by simp
  with a show ?thesis
    by (auto simp: link_def deny_after split: option.splits prod.splits sum.splits intro!: moves_db intro: session_started)
qed

lemma logout_moves: "moves g (fst (logout G bad now p g))"
  using UI_evolves(3) [of "gs_db g" "gv_auth G" bad now]
  by (auto simp: logout_def EndUISession_def cancelKey_def moves_def split: option.splits prod.splits) (metis fst_conv)+

lemma parse_scopes_known: "parse_scopes quote out ns = Inr ss \<Longrightarrow> set out \<subseteq> set AllScopes \<Longrightarrow> set ss \<subseteq> set AllScopes"
  by (induction quote out ns rule: parse_scopes.induct) (auto simp: ParseScope_def split: sum.splits if_splits)

lemma create_moves: "moves g (fst (create G bad now fr r p b g))"
proof -
  have utf: "list_all valid_utf8 ss" if "ParseScopes (gv_quote G) ns = Inr ss" for ns ss
    using parse_scopes_known [of "gv_quote G" "[]" ns ss] that AllScopes_utf8(1) by (auto simp: ParseScopes_def list_all_iff)
  show ?thesis
    by (auto simp: create_def split: option.splits sum.splits prod.splits intro!: moves_db dest!: utf elim!: Create_evolves)
qed

lemma revoke_moves:
  assumes "clock_sane now"
  shows "moves g (fst (revoke G bad now r cid g))"
  using Revoke_evolves [OF _ assms] by (auto simp: revoke_def split: option.splits prod.splits intro!: notify_moves)

lemma rotate_moves:
  assumes "\<forall>i. clock_sane (clk i)"
  shows "moves g (fst (rotate_credential G bad clk fr put path r p cid g))"
  using Rotate_evolves [OF _ assms] by (auto simp: rotate_credential_def split: prod.splits intro!: notify_moves)

lemma loginLink_moves: "moves g (fst (loginLink G bad now fr url r p g))"
  using UI_evolves(4) by (auto simp: loginLink_def Let_def split: option.splits prod.splits sum.splits intro!: moves_db) (metis fst_conv)+

lemma mint_moves: "moves g (fst (mint G bad now fr sid g))"
  by (auto simp: mint_def kind_defs split: prod.splits sum.splits intro!: moves_db intro: Create_evolves)

lemma event_moves: "event_clock e \<Longrightarrow> moves g (guard_apply G g e)"
proof (induction G g e rule: guard_apply.induct)
  case (2 G g rid p)
  then show ?case by (simp add: reg_remove_def moves_def)
next
  case (11 G g bad clk sid)
  obtain db ns e where "Store_RevokeSessionCredentials (gv_auth G) bad clk sid (gs_db g) = (db, ns, e)" by (metis prod_cases3)
  moreover from this have "evolves (gs_db g) db"
    using 11 by (auto simp: Store_RevokeSessionCredentials_def split: if_splits dest: revoke_ids_evolves)
  ultimately show ?case by (simp add: notify_moves)
qed (simp_all add: Middleware_moves login_moves link_moves logout_moves create_moves revoke_moves rotate_moves loginLink_moves mint_moves
    moves_db Ensure_evolves Reset_evolves)

lemma run_moves: "list_all event_clock es \<Longrightarrow> moves g (foldl (guard_apply G) g es)"
  by (induction es arbitrary: g) (auto intro: moves_trans [OF event_moves])

interpretation guarded: invariant_machine first_state "guard_apply G" event_clock "\<lambda>g. db_ok (gs_db g)"
proof
  show "db_ok (gs_db first_state)" by (simp add: first_state_def empty_db_def db_ok_def)
  show "db_ok (gs_db (guard_apply G g e))" if "db_ok (gs_db g)" "event_clock e" for g e
    using event_moves [OF that(2)] that(1) by (auto simp: moves_def evolves_def)
qed

section \<open>Whom the guard lets through\<close>

lemma find_row:
  assumes "find P xs = Some x"
  shows "x \<in> set xs" "P x"
  using assms by (auto simp: find_Some_iff)

lemma Authenticate_row:
  assumes "Store_Authenticate E bad now secret db = (db', Some c)"
  obtains row where "row \<in> set (credentials db)" "cr_hash row = ae_hash E secret" "Credential_Active (scanCredential E row) now"
    "c = scanCredential E row \<or> c = (scanCredential E row)\<lparr>Cr_LastUsedAt := now\<rparr>"
proof -
  from assms obtain row where row: "find (\<lambda>r. cr_hash r = ae_hash E secret) (credentials db) = Some row" "Credential_Active (scanCredential E row) now"
    "c = scanCredential E row \<or> c = (scanCredential E row)\<lparr>Cr_LastUsedAt := now\<rparr>"
    by (auto simp: Store_Authenticate_def byHash_def split: option.splits if_splits)
  show ?thesis using that [OF find_row [OF row(1)] row(2,3)] .
qed

lemma UISession_row:
  assumes "Store_AuthenticateUISession E bad now v db = (db', Some (u, c))"
  obtains row x where "row \<in> set (credentials db)" "Credential_Active (scanCredential E row) now" "c = scanCredential E row"
    "v \<noteq> []" "x \<in> set (ui_sessions db)" "ui_hash x = ae_hash E v" "ui_revoked x = []" "now < parseTS E (ui_expires x)" "ui_cred x = cr_id row"
    "Us_CSRF u = ui_csrf x"
proof -
  from assms obtain x where x: "find (\<lambda>u. ui_hash u = ae_hash E v) (ui_sessions db) = Some x" "v \<noteq> []" "ui_revoked x = []"
    "now < parseTS E (ui_expires x)" "Store_Get E (bad 1) (ui_cred x) db = Some c" "Credential_Active c now" "Us_CSRF u = ui_csrf x"
    by (auto simp: Store_AuthenticateUISession_def Let_def split: option.splits if_splits)
  from x(5) obtain row where row: "row \<in> set (credentials db)" "cr_id row = ui_cred x" "c = scanCredential E row" by (rule Get_row)
  show ?thesis using that [OF row(1) _ row(3) x(2) find_row(1) [OF x(1)] _ x(3,4) row(2) [symmetric] x(7)] find_row(2) [OF x(1)] x(6) row(3) by simp
qed

text \<open>Who stands behind a principal: a live credential with the hash of the presented secret (an agent's with a live session), a
  live credential through a live browser session, or a verified service token.\<close>

definition bearer_backed :: "guard_env \<Rightarrow> request \<Rightarrow> go_time \<Rightarrow> auth_db \<Rightarrow> Principal \<Rightarrow> bool" where
  "bearer_backed G r now db p = (\<exists>row\<in>set (credentials db). \<exists>secret. rq_auth r = ''Bearer '' @ secret
     \<and> cr_hash row = ae_hash (gv_auth G) secret \<and> Credential_Active (scanCredential (gv_auth G) row) now
     \<and> p = principal_of (scanCredential (gv_auth G) row)
     \<and> (cr_kind row = KindAgent \<longrightarrow> (case gv_SessionLive G of Some live \<Rightarrow> live (cr_bound row) | None \<Rightarrow> True)))"

definition cookie_backed :: "guard_env \<Rightarrow> request \<Rightarrow> go_time \<Rightarrow> auth_db \<Rightarrow> Principal \<Rightarrow> bool" where
  "cookie_backed G r now db p = (\<exists>row\<in>set (credentials db). \<exists>x\<in>set (ui_sessions db). \<exists>v u. rq_auth r = [] \<and> rq_cookie r = Some v \<and> v \<noteq> []
     \<and> ui_hash x = ae_hash (gv_auth G) v \<and> ui_revoked x = [] \<and> now < parseTS (gv_auth G) (ui_expires x) \<and> ui_cred x = cr_id row
     \<and> Credential_Active (scanCredential (gv_auth G) row) now \<and> p = cookie_principal u (scanCredential (gv_auth G) row) \<and> Us_CSRF u = ui_csrf x)"

definition service_backed :: "guard_env \<Rightarrow> request \<Rightarrow> Principal \<Rightarrow> bool" where
  "service_backed G r p = (\<exists>verify secret. gv_ServiceTokens G = Some verify \<and> rq_auth r = ''Bearer '' @ secret \<and> VerifyServiceToken verify secret = Some p)"

lemma principal_of_used [simp]: "principal_of (c\<lparr>Cr_LastUsedAt := t\<rparr>) = principal_of c"
  by (simp add: principal_of_def)

lemma bearer_spec:
  assumes "authenticate_bearer G bad clk r g = (g', Some (p, e))"
  shows "bearer_backed G r (clk 0) (gs_db g) p \<or> service_backed G r p"
proof -
  from assms have "HasPrefix (rq_auth r) ''Bearer ''" by (auto simp: authenticate_bearer_def split: if_splits)
  then obtain secret where s: "rq_auth r = ''Bearer '' @ secret" by (auto simp: HasPrefix_def prefix_def)
  then have d: "drop 7 (rq_auth r) = secret" by simp
  obtain db res where a: "Store_Authenticate (gv_auth G) bad (clk 0) secret (gs_db g) = (db, res)" by fastforce
  show ?thesis
  proof (cases res)
    case None
    then have "service_backed G r p" using assms a d s
      by (auto simp: authenticate_bearer_def Let_def service_backed_def split: if_splits option.splits)
    then show ?thesis ..
  next
    case (Some c)
    with a have "Store_Authenticate (gv_auth G) bad (clk 0) secret (gs_db g) = (db, Some c)" by simp
    then obtain row where row: "row \<in> set (credentials (gs_db g))" "cr_hash row = ae_hash (gv_auth G) secret"
      "Credential_Active (scanCredential (gv_auth G) row) (clk 0)"
      "c = scanCredential (gv_auth G) row \<or> c = (scanCredential (gv_auth G) row)\<lparr>Cr_LastUsedAt := clk 0\<rparr>" by (rule Authenticate_row)
    from row(4) have c: "principal_of c = principal_of (scanCredential (gv_auth G) row)" "Cr_Kind c = cr_kind row" "Cr_BoundSessionID c = cr_bound row"
      by (auto, auto simp: scanCredential_def)
    have "p = principal_of c \<and> (Cr_Kind c = KindAgent \<longrightarrow> (case gv_SessionLive G of Some live \<Rightarrow> live (Cr_BoundSessionID c) | None \<Rightarrow> True))"
      using assms a d s Some by (auto simp: authenticate_bearer_def Let_def split: if_splits option.splits prod.splits sum.splits)
    then have "bearer_backed G r (clk 0) (gs_db g) p" unfolding bearer_backed_def using row(1-3) s c by metis
    then show ?thesis ..
  qed
qed

lemma authenticate_spec:
  assumes "authenticate G bad clk r g = (g', Some (p, e))"
  shows "bearer_backed G r (clk 0) (gs_db g) p \<or> cookie_backed G r (clk 0) (gs_db g) p \<or> service_backed G r p"
proof (cases "rq_auth r = []")
  case False
  with assms have "authenticate_bearer G bad clk r g = (g', Some (p, e))" by (auto simp: authenticate_def split: if_splits)
  then show ?thesis using bearer_spec by blast
next
  case True
  with assms obtain v db u c where v: "rq_cookie r = Some v" "Store_AuthenticateUISession (gv_auth G) bad (clk 0) v (gs_db g) = (db, Some (u, c))"
    "p = cookie_principal u c" by (auto simp: authenticate_def split: if_splits option.splits prod.splits)
  from v(2) have "cookie_backed G r (clk 0) (gs_db g) p"
    by (rule UISession_row) (unfold cookie_backed_def, use True v in blast)
  then show ?thesis by blast
qed

lemma admitted_cases:
  assumes "admit G bad clk r g = (g', Admitted p e)"
  obtains g1 where "authenticate G bad clk r g = (g1, Some (p, e))" "authorize G bad clk r p g1 = (g', None)" "\<not> gv_Insecure G"
  using assms by (auto simp: admit_def split: if_splits prod.splits option.splits)

lemma authorized:
  assumes "authorize G bad clk r p g1 = (g2, None)" "ScopesFor (rq_method r) (route_pattern G r) = (need, alt, b)"
  shows "Principal_Has p need \<or> alt \<noteq> [] \<and> Principal_Has p alt"
    "Pr_Cookie p \<and> unsafeMethod (rq_method r) \<longrightarrow> originMatchesHost G r \<and> rq_csrf r = Pr_CSRF p"
  using assms by (auto simp: authorize_def Let_def split: if_splits)

lemma error_status [simp]: "rs_status (writeErrorWith r st code msg extra) = st"
  by (simp add: writeErrorWith_def answer_def)

lemma refused_status:
  assumes "admit G bad clk r g = (g', Refused resp)"
  shows "rs_status resp = 401 \<or> rs_status resp = 403"
proof -
  have "rs_status resp = 403" if "authorize G bad clk r p g1 = (g2, Some resp)" for p g1 g2
    using that by (auto simp: authorize_def Let_def writeForbidden_def writeError_def split: prod.splits if_splits)
  then show ?thesis
    using assms by (auto simp: admit_def writeError_def writeUnauthorized_def split: if_splits prod.splits option.splits)
qed


section \<open>What each kind of credential can reach\<close>

lemma tools_rule:
  assumes "rr \<in> set routeRules"
  shows "rr_scope rr = ScopeTools \<Longrightarrow> rr = rule_of ''POST'' [PLit ''/api/tools/call'', PEnd] ScopeTools"
    and "rr_alt rr = [] \<or> rr_alt rr = ScopeMaintain" and "rr_scope rr = ScopeAdmin \<Longrightarrow> rr_alt rr = []"
proof -
  have "list_all (\<lambda>rr. (rr_scope rr = ScopeTools \<longrightarrow> rr = rule_of ''POST'' [PLit ''/api/tools/call'', PEnd] ScopeTools)
      \<and> (rr_alt rr = [] \<or> rr_alt rr = ScopeMaintain) \<and> (rr_scope rr = ScopeAdmin \<longrightarrow> rr_alt rr = [])) routeRules"
    unfolding routeRules_def by (simp add: rule_of_def altRule_def scope_defs)
  with assms show "rr_scope rr = ScopeTools \<Longrightarrow> rr = rule_of ''POST'' [PLit ''/api/tools/call'', PEnd] ScopeTools"
    "rr_alt rr = [] \<or> rr_alt rr = ScopeMaintain" "rr_scope rr = ScopeAdmin \<Longrightarrow> rr_alt rr = []" by (auto simp: list_all_iff)
qed

definition pattern_path :: "string \<Rightarrow> string" where
  "pattern_path pattern = (case Cut pattern (CHR '' '') of Some (_, p) \<Rightarrow> p | None \<Rightarrow> pattern)"

lemma scopes_for:
  assumes "ScopesFor m pattern = (need, alt, b)" "m \<noteq> []"
  shows "need = ScopeTools \<Longrightarrow> m = ''POST'' \<and> pattern_path pattern = ''/api/tools/call''"
    "alt = [] \<or> alt = ScopeMaintain" "need = ScopeAdmin \<Longrightarrow> alt = []"
proof -
  define path where "path = pattern_path pattern"
  have eq: "ScopesFor m pattern = (case find (\<lambda>r. rule_matches r m path) routeRules of
      Some r \<Rightarrow> (rr_scope r, rr_alt r, True)
    | None \<Rightarrow> if m = ''GET'' \<or> m = ''HEAD'' then (ScopeRead, [], False) else (ScopeAdmin, [], False))"
    using assms(2) by (auto simp: ScopesFor_def path_def pattern_path_def Let_def split: option.splits)
  show "alt = [] \<or> alt = ScopeMaintain" "need = ScopeAdmin \<Longrightarrow> alt = []"
    using assms(1) tools_rule(2,3) [OF find_row(1)] unfolding eq by (auto split: option.splits if_splits)
  assume t: "need = ScopeTools"
  then obtain rr where rr: "find (\<lambda>r. rule_matches r m path) routeRules = Some rr" "rr_scope rr = ScopeTools"
    using assms(1) unfolding eq by (auto simp: scope_defs split: option.splits if_splits)
  from tools_rule(1) [OF find_row(1) [OF rr(1)] rr(2)] find_row(2) [OF rr(1)]
  have "rule_matches (rule_of ''POST'' [PLit ''/api/tools/call'', PEnd] ScopeTools) m path" by simp
  then show "m = ''POST'' \<and> pattern_path pattern = ''/api/tools/call''"
    by (auto simp: rule_matches_def rule_of_def MatchString_def Split_def path_def [symmetric] prefix_def split: if_splits)
qed

lemma backed_row:
  assumes "bearer_backed G r now db p \<or> cookie_backed G r now db p"
  obtains row where "row \<in> set (credentials db)" "Credential_Active (scanCredential (gv_auth G) row) now"
    "Pr_CredentialID p = cr_id row" "Pr_Kind p = cr_kind row" "Pr_Scopes p = scope_names (cr_scopes row)"
proof -
  have "Pr_CredentialID (principal_of (scanCredential E row)) = cr_id row" "Pr_Kind (principal_of (scanCredential E row)) = cr_kind row"
    "Pr_Scopes (principal_of (scanCredential E row)) = scope_names (cr_scopes row)" for E row
    by (simp_all add: principal_of_def scanCredential_def)
  moreover have "Pr_CredentialID (cookie_principal u c) = Pr_CredentialID (principal_of c)" "Pr_Kind (cookie_principal u c) = Pr_Kind (principal_of c)"
    "Pr_Scopes (cookie_principal u c) = Pr_Scopes (principal_of c)" for u c
    by (simp_all add: cookie_principal_def)
  ultimately have "\<exists>row\<in>set (credentials db). Credential_Active (scanCredential (gv_auth G) row) now \<and> Pr_CredentialID p = cr_id row
      \<and> Pr_Kind p = cr_kind row \<and> Pr_Scopes p = scope_names (cr_scopes row)"
    using assms unfolding bearer_backed_def cookie_backed_def by (elim disjE bexE exE conjE) auto
  with that show ?thesis by blast
qed

lemma service_token:
  assumes "service_backed G r p"
  shows "Pr_Kind p = KindClient" "Pr_Scopes p = serviceScopes" "HasPrefix (Pr_CredentialID p) ''tether:''"
proof -
  from assms obtain verify t where "VerifyServiceToken verify t = Some p" unfolding service_backed_def by blast
  moreover from this obtain sid display where "verify t = Some (sid, display)" by (auto simp: VerifyServiceToken_def split: option.splits)
  ultimately have p: "Some p = (if sid = [] then None
         else Some \<lparr>Pr_CredentialID = ''tether:'' @ sid, Pr_Kind = KindClient, Pr_Label = ''tether/'' @ (if display = [] then sid else display),
           Pr_Scopes = serviceScopes, Pr_BoundSessionID = [], Pr_Cookie = False, Pr_UISessionID = [], Pr_CSRF = []\<rparr>)"
    by (simp add: VerifyServiceToken_def)
  then have "sid \<noteq> []" by (metis option.distinct(1))
  with p have "p = \<lparr>Pr_CredentialID = ''tether:'' @ sid, Pr_Kind = KindClient, Pr_Label = ''tether/'' @ (if display = [] then sid else display),
           Pr_Scopes = serviceScopes, Pr_BoundSessionID = [], Pr_Cookie = False, Pr_UISessionID = [], Pr_CSRF = []\<rparr>" by (simp only: if_False option.inject)
  then show "Pr_Kind p = KindClient" "Pr_Scopes p = serviceScopes" "HasPrefix (Pr_CredentialID p) ''tether:''" by (simp_all add: HasPrefix_def)
qed

lemma backed_ok:
  assumes "db_ok db" "bearer_backed G r now db p \<or> cookie_backed G r now db p \<or> service_backed G r p"
  shows "Pr_Kind p = KindOperator \<or> Pr_Kind p = KindClient \<and> ScopeAdmin \<notin> set (Pr_Scopes p) \<or> Pr_Kind p = KindAgent \<and> Pr_Scopes p = [ScopeTools]"
proof (cases "service_backed G r p")
  case True
  then have "Pr_Kind p = KindClient" "Pr_Scopes p = serviceScopes" by (rule service_token)+
  then show ?thesis by (simp add: serviceScopes_def scope_defs)
next
  case False
  with assms(2) have "bearer_backed G r now db p \<or> cookie_backed G r now db p" by blast
  then obtain row where "row \<in> set (credentials db)" "Pr_Kind p = cr_kind row" "Pr_Scopes p = scope_names (cr_scopes row)" by (rule backed_row)
  then show ?thesis using assms(1) by (auto simp: db_ok_def list_all_iff cred_ok_def)
qed

text \<open>
  C31. What a credential can reach is bounded by its kind. After any history of requests, logins, minting, rotation, revocation and
  bootstrap whose clock readings lie in the years the store can print, an admitted principal is an operator, a client or an agent; only an operator is admitted where the table asks for
  the admin scope; and an agent is admitted nowhere but at the route for tool calls, with the method \<^verbatim>\<open>POST\<close>.
\<close>

theorem admission_by_kind:
  assumes "list_all event_clock es" "admit G bad clk r (foldl (guard_apply G) first_state es) = (g', Admitted p e)" "rq_method r \<noteq> []"
  shows "Pr_Kind p \<in> {KindOperator, KindClient, KindAgent}
    \<and> (fst (ScopesFor (rq_method r) (route_pattern G r)) = ScopeAdmin \<longrightarrow> Pr_Kind p = KindOperator)
    \<and> (Pr_Kind p = KindAgent \<longrightarrow> rq_method r = ''POST'' \<and> pattern_path (route_pattern G r) = ''/api/tools/call'')"
proof -
  let ?g = "foldl (guard_apply G) first_state es"
  have ok: "db_ok (gs_db ?g)" using guarded.inv_run [of es G] assms(1) by (simp add: list_all_iff)
  obtain g1 where g1: "authenticate G bad clk r ?g = (g1, Some (p, e))" "authorize G bad clk r p g1 = (g', None)"
    using assms(2) by (rule admitted_cases)
  note kinds = backed_ok [OF ok authenticate_spec [OF g1(1)]]
  obtain need alt b where sf: "ScopesFor (rq_method r) (route_pattern G r) = (need, alt, b)" by (metis prod_cases3)
  note has = authorized(1) [OF g1(2) sf] and sf3 = scopes_for [OF sf assms(3)]
  have "Pr_Kind p = KindOperator" if "need = ScopeAdmin"
    using has sf3(3) that kinds by (auto simp: Principal_Has_def scopesInclude_def list_ex_iff scope_defs)
  moreover have "need = ScopeTools" if "Pr_Kind p = KindAgent"
    using that kinds has sf3(2) by (auto simp: Principal_Has_def scopesInclude_def scope_defs kind_defs)
  ultimately show ?thesis using kinds sf sf3(1) by auto
qed

section \<open>Revocation\<close>

lemma revoked_inactive:
  assumes "db_ok db" "row \<in> set (credentials db)" "cr_revoked row \<noteq> []" "row' \<in> set (credentials db)" "cr_id row' = cr_id row"
  shows "\<not> Credential_Active (scanCredential E row') now"
proof -
  have "row' = row" using assms(1,2,4,5) by (auto simp: db_ok_def distinct_map dest: inj_onD)
  moreover obtain t where "clock_sane t" "cr_revoked row = ts t" using assms(1-3) by (auto simp: db_ok_def list_all_iff cred_ok_def)
  ultimately show ?thesis by (auto simp: Credential_Active_def scanCredential_def clock_sane_def)
qed

lemma Consume_row:
  assumes "Store_ConsumeLoginLink E bad now code db = (db', Some c)"
  obtains row where "row \<in> set (credentials db)" "Credential_Active (scanCredential E row) now" "c = scanCredential E row"
proof -
  from assms obtain db1 l where x: "Store_Get E (bad 1) l db1 = Some c" "credentials db1 = credentials db" "Credential_Active c now"
    by (auto simp: Store_ConsumeLoginLink_def Let_def split: if_splits option.splits)
  from x(1) obtain row where "row \<in> set (credentials db1)" "c = scanCredential E row" by (rule Get_row)
  with that [of row] x(2,3) show ?thesis by simp
qed

lemma revoke_done:
  assumes "revoke G bad now r cid g = (g1, resp)" "rs_status resp = 204" "clock_sane now"
  shows "\<exists>row\<in>set (credentials (gs_db g1)). cr_id row = cid \<and> cr_revoked row \<noteq> []"
    and "(cid, rid) \<in> set (gs_reg g) \<Longrightarrow> rid \<in> set (gs_canceled g1)"
proof -
  obtain db v where v: "Store_Revoke (gv_auth G) (\<lambda>i. bad (i + 2)) now cid (gs_db g) = (db, v)" by fastforce
  have dn: "g1 = notifyRevoked (rv_notified v) (g\<lparr>gs_db := db\<rparr>)" "rv_error v = None" "rv_revoked v"
    using assms(1,2) v by (auto simp: revoke_def writeError_def answer_def split: option.splits if_splits)
  let ?f = "\<lambda>x. if cr_id x = cid \<and> cr_revoked x = [] then x\<lparr>cr_revoked := ts now\<rparr> else x"
  have rv: "list_ex (\<lambda>x. cr_id x = cid \<and> cr_revoked x = []) (credentials (gs_db g))" "rv_notified v = [cid]"
    "credentials db = map ?f (credentials (gs_db g))"
    using v dn(2,3) by (auto simp: Store_Revoke_def upd_def Let_def split: if_splits)
  from rv(1) obtain x where x: "x \<in> set (credentials (gs_db g))" "cr_id x = cid" "cr_revoked x = []" by (auto simp: list_ex_iff)
  have "?f x \<in> set (credentials db)" unfolding rv(3) set_map using x(1) by (rule imageI)
  moreover have "cr_id (?f x) = cid" "cr_revoked (?f x) \<noteq> []" using x(2,3) assms(3) by (simp_all add: clock_sane_def)
  ultimately show "\<exists>row\<in>set (credentials (gs_db g1)). cr_id row = cid \<and> cr_revoked row \<noteq> []" unfolding dn(1) notify_simps by auto
  show "(cid, rid) \<in> set (gs_reg g) \<Longrightarrow> rid \<in> set (gs_canceled g1)" unfolding dn(1) by (auto simp: rv(2))
qed

text \<open>
  C32. Revocation is final. When the handler has answered a revocation with success, the requests registered under the credential are
  canceled; and after any further history (logins, links, rotations, renewed bootstraps, sliding lifetimes; clock readings in the
  years the store can print) the credential authenticates no request, by its secret or by a browser session it had
  started, and opens no session by a login link. The principals of service tokens are not rows of the store: their ids begin
  with \<^verbatim>\<open>tether:\<close>, and a request is said not to authenticate as the credential unless its id begins so, too.
\<close>

theorem revocation_final:
  assumes "list_all event_clock es" "revoke G bad now r cid (foldl (guard_apply G) first_state es) = (g1, resp)" "rs_status resp = 204" "clock_sane now"
    and "list_all event_clock fs" "g2 = foldl (guard_apply G) g1 fs"
  shows "(\<forall>rid. (cid, rid) \<in> set (gs_reg (foldl (guard_apply G) first_state es)) \<longrightarrow> rid \<in> set (gs_canceled g2))
    \<and> (\<forall>bad clk rq g3 p e. authenticate G bad clk rq g2 = (g3, Some (p, e)) \<and> Pr_CredentialID p = cid \<longrightarrow> HasPrefix cid ''tether:'')
    \<and> (\<forall>bad t secret db c. Store_Authenticate (gv_auth G) bad t secret (gs_db g2) = (db, Some c) \<longrightarrow> Cr_ID c \<noteq> cid)
    \<and> (\<forall>bad t code db c. Store_ConsumeLoginLink (gv_auth G) bad t code (gs_db g2) = (db, Some c) \<longrightarrow> Cr_ID c \<noteq> cid)"
proof -
  let ?g = "foldl (guard_apply G) first_state es"
  have g1: "g1 = foldl (guard_apply G) first_state (es @ [Do_revoke bad now r cid])" using assms(2) by simp
  have "list_all event_clock (es @ [Do_revoke bad now r cid])" using assms(1,4) by simp
  with guarded.inv_run have ok1: "db_ok (gs_db g1)" unfolding g1 list_all_iff by blast
  have mv: "moves g1 g2" using run_moves assms(5,6) by blast
  then have ok2: "db_ok (gs_db g2)" using ok1 by (auto simp: moves_def evolves_def)
  from revoke_done(1) [OF assms(2-4)] obtain row where "row \<in> set (credentials (gs_db g1))" "cr_id row = cid" "cr_revoked row \<noteq> []" by blast
  then obtain row2 where row2: "row2 \<in> set (credentials (gs_db g2))" "cr_id row2 = cid" "cr_revoked row2 \<noteq> []"
    using mv ok1 unfolding moves_def evolves_def keeps_def by metis
  have dead: "cr_id x \<noteq> cid" if "x \<in> set (credentials (gs_db g2))" "Credential_Active (scanCredential E x) t" for x E t
    using revoked_inactive [OF ok2 row2(1,3) that(1)] that(2) row2(2) by metis
  have sid: "Cr_ID (scanCredential E x) = cr_id x" for E x by (simp add: scanCredential_def)
  have 1: "\<forall>rid. (cid, rid) \<in> set (gs_reg ?g) \<longrightarrow> rid \<in> set (gs_canceled g2)"
    using revoke_done(2) [OF assms(2-4)] mv by (auto simp: moves_def)
  have 2: "HasPrefix cid ''tether:''" if a: "authenticate G b k rq g2 = (g3, Some (p, e))" "Pr_CredentialID p = cid" for b k rq g3 p e
  proof -
    have "\<not> (bearer_backed G rq (k 0) (gs_db g2) p \<or> cookie_backed G rq (k 0) (gs_db g2) p)"
      using dead a(2) by (metis backed_row)
    with authenticate_spec [OF a(1)] have "service_backed G rq p" by blast
    then show ?thesis using service_token(3) a(2) by blast
  qed
  have 3: "Cr_ID c \<noteq> cid" if "Store_Authenticate (gv_auth G) b t secret (gs_db g2) = (db, Some c)" for b t secret db c
    using that by (rule Authenticate_row) (auto simp: sid dest: dead)
  have 4: "Cr_ID c \<noteq> cid" if "Store_ConsumeLoginLink (gv_auth G) b t code (gs_db g2) = (db, Some c)" for b t code db c
    using that by (rule Consume_row) (auto simp: sid dest: dead)
  show ?thesis using 1 2 3 4 by blast
qed

section \<open>Examples\<close>

definition auth_sample :: auth_env where
  "auth_sample = \<lparr>ae_hash = (\<lambda>s. s), ae_other = (\<lambda>_. 0), ae_sql = Errorf ''sql''\<rparr>"

definition guard_sample :: guard_env where
  "guard_sample = \<lparr>gv_auth = auth_sample, gv_quote = (\<lambda>s. s), gv_has_store = True, gv_Pattern = None, gv_HostAllowed = Some (\<lambda>_. True),
     gv_SessionLive = Some (\<lambda>s. s = ''s1''), gv_Insecure = False, gv_ServiceTokens = None, gv_duration = (\<lambda>_. None), gv_getenv = (\<lambda>_. []),
     gv_split_host = (\<lambda>_. None), gv_loopback_ip = (\<lambda>_. False), gv_fold = (\<lambda>_ _. False)\<rparr>"

definition auth_noon :: go_time where "auth_noon = 63871329600000000000"

definition agent_secret :: string where "agent_secret = ''nan_agent_'' @ replicate 43 (CHR ''a'')"

definition tool_request :: request where
  "tool_request = \<lparr>rq_method = ''POST'', rq_path = ''/api/tools/call'', rq_host = ''h'', rq_auth = ''Bearer '' @ agent_secret, rq_cookie = None,
     rq_csrf = [], rq_origin = [], rq_remote = ''r''\<rparr>"

definition minted :: "guard_event list" where
  "minted = [Mint False auth_noon \<lparr>fr_token = Inr (replicate 43 (CHR ''a'')), fr_csrf = Inr [], fr_uuid = ''u1''\<rparr> ''s1'']"

lemma minted_clock: "list_all event_clock minted" by (simp add: minted_def)

lemma tool_admitted:
  "\<exists>g' p e. admit guard_sample (\<lambda>_. False) (\<lambda>_. auth_noon) tool_request (foldl (guard_apply guard_sample) first_state minted) = (g', Admitted p e)
     \<and> Pr_Kind p = KindAgent"
proof -
  have "case snd (admit guard_sample (\<lambda>_. False) (\<lambda>_. auth_noon) tool_request (foldl (guard_apply guard_sample) first_state minted)) of
      Admitted p e \<Rightarrow> Pr_Kind p = KindAgent | _ \<Rightarrow> False" by code_simp
  then show ?thesis by (auto split: admission.splits simp: prod_eq_iff)
qed


theorem admission_by_kind_witness:
  "\<exists>g' p e. admit guard_sample (\<lambda>_. False) (\<lambda>_. auth_noon) tool_request (foldl (guard_apply guard_sample) first_state minted) = (g', Admitted p e)
     \<and> Pr_Kind p = KindAgent \<and> pattern_path (route_pattern guard_sample tool_request) = ''/api/tools/call''"
proof -
  obtain g' p e where a: "admit guard_sample (\<lambda>_. False) (\<lambda>_. auth_noon) tool_request (foldl (guard_apply guard_sample) first_state minted) = (g', Admitted p e)"
    "Pr_Kind p = KindAgent" using tool_admitted by blast
  have "rq_method tool_request \<noteq> []" by (simp add: tool_request_def)
  from admission_by_kind [OF minted_clock a(1) this] a show ?thesis by blast
qed

definition opened :: "guard_event list" where
  "opened = minted @ [Arrive (\<lambda>_. False) (\<lambda>_. auth_noon) 7 tool_request]"

definition opened_view :: "guard_state \<Rightarrow> (string \<times> nat) list \<times> (string \<times> string \<times> string) list" where
  "opened_view g = (gs_reg g, map (\<lambda>r. (cr_id r, cr_kind r, cr_revoked r)) (credentials (gs_db g)))"

theorem revocation_final_witness:
  "\<exists>g1. revoke guard_sample (\<lambda>_. False) auth_noon tool_request ''u1'' (foldl (guard_apply guard_sample) first_state opened) = (g1, answer 204 EmptyBody)
     \<and> 7 \<in> set (gs_canceled (guard_apply guard_sample g1 (Arrive (\<lambda>_. False) (\<lambda>_. auth_noon) 8 tool_request)))"
proof -
  let ?g = "foldl (guard_apply guard_sample) first_state opened"
  have E: "gv_auth guard_sample = auth_sample" by (simp add: guard_sample_def)
  have "opened_view ?g = ([(''u1'', 7), (''ui:'', 7)], [(''u1'', ''agent'', [])])" by code_simp
  then obtain row where reg: "(''u1'', 7) \<in> set (gs_reg ?g)" and row: "credentials (gs_db ?g) = [row]" "cr_id row = ''u1''" "cr_kind row = ''agent''" "cr_revoked row = []"
    by (auto simp: opened_view_def)
  have c: "Store_Get auth_sample False ''u1'' (gs_db ?g) = Some (scanCredential auth_sample row)" "Cr_Kind (scanCredential auth_sample row) = KindAgent"
    using row by (simp_all add: Store_Get_def scanCredential_def kind_defs)
  obtain db v where v: "Store_Revoke auth_sample (\<lambda>_. False) auth_noon ''u1'' (gs_db ?g) = (db, v)" by fastforce
  then have "rv_revoked v" "rv_error v = None" using row by (auto simp: Store_Revoke_def Let_def)
  then obtain g1 where r: "revoke guard_sample (\<lambda>_. False) auth_noon tool_request ''u1'' ?g = (g1, answer 204 EmptyBody)"
    using c v by (simp add: revoke_def E kind_defs)
  have ok: "list_all event_clock opened" "clock_sane auth_noon" "rs_status (answer 204 EmptyBody) = 204"
    "list_all event_clock [Arrive (\<lambda>_. False) (\<lambda>_. auth_noon) 8 tool_request]"
    by (simp_all add: opened_def minted_def clock_sane_def auth_noon_def printable_def second_ns_def answer_def)
  from revocation_final [OF ok(1) r ok(3,2,4) refl] reg
  have "7 \<in> set (gs_canceled (guard_apply guard_sample g1 (Arrive (\<lambda>_. False) (\<lambda>_. auth_noon) 8 tool_request)))" by simp
  with r show ?thesis by blast
qed

text \<open>A lifetime of more days than a duration can hold wraps around to a negative one, and the credential never expires.\<close>

lemma client_ttl_overflow: "client_ttl 106752 < 0"
  by (simp add: client_ttl_def wrap64_def second_ns_def)

end
