(* ===== verification/Spec2Isabelle.thy ===== *)
theory Spec2Isabelle
  imports PathGrants RecoveryBroker Background LoopHistory Elicitation Workers ToolGrants ApiGuard
begin

text \<open>
  A verification library for nanite, a runtime for software agents written in Go.

  \<^bold>\<open>The program.\<close> nanite is a server that runs chat sessions with language models. A message of
  the user is classified (\<^verbatim>\<open>internal/classify\<close>), the paths it mentions become permissions of
  its session (\<^verbatim>\<open>internal/permission\<close>), and the chat service drives tools, subagents, workers and
  workflows. Around that core are the parts that have to be right whatever the model does: the
  broker that restarts agents that died (\<^verbatim>\<open>internal/recovery/broker\<close>), the service for
  background jobs (\<^verbatim>\<open>internal/background\<close>), the loop engine that repeats a workflow until a goal
  is met or a budget is spent (\<^verbatim>\<open>internal/loop\<close> over \<^verbatim>\<open>internal/store\<close>), the coordination store and the
  tasks in it (\<^verbatim>\<open>internal/coordination\<close>, \<^verbatim>\<open>internal/task\<close>), the worker manager on top of both
  (\<^verbatim>\<open>internal/worker\<close>) and the questions a tool asks the user in the middle of a call
  (\<^verbatim>\<open>internal/elicitation\<close>); and the path of a tool call itself: the registry of tool servers
  (\<^verbatim>\<open>internal/mcp\<close>), the selection of tools by the agent's grants and the gates in front of a call
  (\<^verbatim>\<open>internal/toolclient\<close>, \<^verbatim>\<open>internal/service/tool.go\<close>), and the repair of failed calls by a model
  (\<^verbatim>\<open>internal/recover\<close>). In front of all of it stands the guard of the HTTP interface with its
  credentials (\<^verbatim>\<open>internal/apiauth\<close>). These parts are modelled here.

  \<^bold>\<open>How the code is translated.\<close> A struct is a record, a string enumeration is a set of string
  constants, a function is a definition with the branches of its source in their order, and an
  error is a value of type \<open>go_error\<close> (its text, or a text around the error it wraps, so that
  \<^verbatim>\<open>errors.Is\<close> is the function \<open>Is\<close>). Strings are lists of bytes. A Go \<^verbatim>\<open>int\<close> is an integer; where
  its width matters (timeouts, token counts, budgets) the bounds or the wrap-around are written
  out. Instants are nanoseconds since the zero time. What is not code of the repository (the
  operating system, the SQL driver, Badger, UUIDs, HMAC, Unicode tables, the model behind a
  prompt, other services) is an argument: a function, a record of functions, or the list of the
  answers it will give. Hypotheses about such arguments are locales (\<open>badger_laws\<close>) or named
  premises of a theorem, and each theorem with a premise is applied to concrete values by its
  \<open>_witness\<close>.

  Concurrent code is a machine: a state, and one event for every atomic step of the source (what
  happens under a mutex, a channel operation, a call of another component). A run is any list of
  possible events, so a theorem about runs is about all interleavings. Locales of \<open>Prelude\<close>
  carry the induction: \<open>invariant_machine\<close> (total steps), \<open>guarded_machine\<close> (steps that are not
  always possible) and \<open>keyed_machine\<close> (state per key, where operations on one key do not disturb
  another).

  \<^bold>\<open>The theories.\<close>

  \<^item> \<open>Prelude\<close>: the parts of the Go library that several packages use (errors, \<^verbatim>\<open>strings\<close>,
    UTF-8, decimal numbers), the machines above and lemmas about them.
  \<^item> \<open>GoPath\<close>: \<^verbatim>\<open>path/filepath\<close> (\<^verbatim>\<open>Clean\<close>, \<^verbatim>\<open>Join\<close>, \<^verbatim>\<open>Dir\<close>, \<^verbatim>\<open>IsAbs\<close>); cleaned paths are
    fixed points.
  \<^item> \<open>GoTime\<close>: the calendar and the two RFC 3339 layouts; what is formatted parses back.
  \<^item> \<open>GoJSON\<close>: JSON texts, encoded and decoded as \<^verbatim>\<open>encoding/json\<close> does; \<open>Decode_Encode\<close> is the
    round trip.
  \<^item> \<open>PathGrants\<close>: \<^verbatim>\<open>internal/permission\<close>: \<^verbatim>\<open>path_grants.go\<close>, \<^verbatim>\<open>path_mention_policy.go\<close>,
    \<^verbatim>\<open>home_dir.go\<close>. The record \<open>PathGrants\<close> is the store of grants; the operations are its methods.
    C1 to C6: no sequence of operations grants a sensitive path, a lookup covers exactly the
    session and its bounded lineage, sessions do not disturb each other, a message's mentions
    are split into granted and refused ones, confinement, and the shape of grants; a lemma says
    that clearing revokes.
  \<^item> \<open>RecoveryBroker\<close>: \<^verbatim>\<open>internal/recovery/broker\<close> with the predicates it asks of
    \<^verbatim>\<open>internal/runtime/agent\<close>. \<open>OnSessionExit\<close> is the whole orchestration of one exit. C7 to
    C9: the cap on retries, one breadcrumb per exit, cancellation by token; what a retry carries
    over, failed remediations, the rules of the classifier and the backoff's closed form are
    lemmas.
  \<^item> \<open>Classify\<close>: \<^verbatim>\<open>internal/classify\<close>: tiers, patterns and routes by keywords. C14: the
    phrase matcher. The pairs of tier and pattern that can be reached are a lemma.
  \<^item> \<open>Background\<close>: \<^verbatim>\<open>internal/background\<close>: the registry of jobs, retention, ids that can be
    recognised after they are forgotten, completion envelopes, and the output of shell jobs. C10
    to C13: one envelope per job, retention, the gate of \<^verbatim>\<open>Submit\<close>, captured output; stable records
    and recognised ids are lemmas.
  \<^item> \<open>LoopStore\<close>, \<open>LoopPolicy\<close>, \<open>LoopEngine\<close>: the tables of \<^verbatim>\<open>internal/store\<close> that loops use,
    \<^verbatim>\<open>internal/loop/decide.go\<close>, and \<^verbatim>\<open>engine.go\<close>, \<^verbatim>\<open>launcher.go\<close>, \<^verbatim>\<open>presets.go\<close>. \<open>LoopLifecycle\<close> and
    \<open>LoopHistory\<close> hold their theorems. C15 to C20: the order of the continuation rules and when the
    model is asked, refinement of an abstract lifecycle, active runs per goal, termination within
    the budget, what is persisted, the numbering of iterations; the defensive parser of the model's
    verdict, when a goal is met, and idempotence are lemmas. The code lets other parties get in the
    way of a run: the abstract machine carries the set of the runs they disturbed as its
    exceptions, and \<open>canceled_run_returns\<close> is a history in which a goal ends with two active runs.
  \<^item> \<open>Coordination\<close>: \<^verbatim>\<open>internal/coordination\<close>. \<open>CoordStore\<close> is the interface, \<open>coord_store\<close> its
    contract, and the store over Badger has it by a sublocale of \<open>badger_laws\<close>.
  \<^item> \<open>Tasks\<close>, \<open>TaskBoard\<close>: \<^verbatim>\<open>internal/task\<close>: tasks with their JSON, the local backend, snapshots in
    SQLite, the service with plugin backends. C21 to C24, proved over any store with the contract:
    refinement of an abstract board, well-formed entries, statuses along the transition table,
    snapshot and restore.
  \<^item> \<open>Elicitation\<close>: \<^verbatim>\<open>internal/elicitation\<close> and \<^verbatim>\<open>internal/mcp/elicitation.go\<close>. C25 and C26:
    the timer alone ends every question, and which step decided an answer fixes it.
  \<^item> \<open>Workers\<close>: \<^verbatim>\<open>internal/worker\<close>. C27 and C28: no interleaving exceeds the capacity or leaks a
    slot, and a worker canceled in flight stays canceled.
  \<^item> \<open>ToolRepair\<close>: \<^verbatim>\<open>internal/recover\<close>, the schema errors of \<^verbatim>\<open>internal/envelope/validator.go\<close>, and
    \<^verbatim>\<open>Execute\<close> of \<^verbatim>\<open>internal/service/tool.go\<close>. C39 and C40: one call asks the model at most once and
    retries at most once, only where that is allowed, and the arguments the model wrote are found
    in its answer whatever text and fences surround them.
  \<^item> \<open>McpRegistry\<close>: \<^verbatim>\<open>internal/mcp\<close>: \<^verbatim>\<open>validate.go\<close>, \<^verbatim>\<open>naming.go\<close>, \<^verbatim>\<open>manager.go\<close>,
    \<^verbatim>\<open>manifest_plugin_tools.go\<close>. Entries are shared by pointer between the list of tools and the
    index of names, and are renamed in place: the model has a heap of entries. C37 and C38: every
    name leads to a registered server and every result respects its tier, and the names of
    built-in tools are defended. \<open>builtin_name_lost\<close> and \<open>strip_leaves_sequence\<close> are examples where
    the code does less than its comments say.
  \<^item> \<open>ToolGrants\<close>: \<^verbatim>\<open>internal/toolclient\<close>, the rest of \<^verbatim>\<open>internal/service/tool.go\<close>,
    \<^verbatim>\<open>tool_execution_rules.go\<close>, \<^verbatim>\<open>internal/dispatch/chat_surface.go\<close> and the rows of the store with
    the grants. C34 to C36, over the registry and the repair: a tool that is not granted reaches
    no server, what is offered may be called, and the three gates decide the same.
  \<^item> \<open>AuthStore\<close>: \<^verbatim>\<open>internal/apiauth\<close>: \<^verbatim>\<open>store.go\<close>, \<^verbatim>\<open>bootstrap.go\<close>: credentials, browser sessions and
    login links as rows whose times are texts. C33: the texts compare like the instants.
  \<^item> \<open>ApiGuard\<close>: the rest of \<^verbatim>\<open>internal/apiauth\<close>: scopes of routes, bearer, cookie and service token
    authentication, CSRF, the handlers for credentials, the registry of running requests, and the
    machine over all of it. C30 to C32: who is let through, what a kind of credential can reach,
    and revocation.

  This theory holds what spans components: canceling a worker cancels its task (C29), over one
  coordination store that the worker manager and the task service share.

  \<^bold>\<open>Bounds and fuel.\<close> The walk over a session's ancestors is bounded by the source
  (\<^verbatim>\<open>lineageMaxHops\<close>), and its recursion is on that number. JSON decoding, UTF-8 scanning and the
  trimming of paths recurse with the length of their input as fuel, which every recursive call
  consumes at least one byte of; the round trips are proved with that fuel. The engine's loop is
  unbounded in the source: \<open>driveIterations\<close> runs over a list of the world's answers, one per
  pass, and gives \<^const>\<open>None\<close> if the list is too short; C18 proves that with an iteration budget a
  list of that length is enough, so that \<^verbatim>\<open>Run\<close> returns. Everything else is structural.

  \<^bold>\<open>Not modelled.\<close> Log lines, metrics and traces. The text of SQL statements: tables are lists of
  rows with the keys and checks of the schema. In the modelled packages: what only starts or
  closes a resource (opening Badger, its garbage collection, processes of shell jobs, removing
  git worktrees, building the transports of tool servers). Outside them: the rest of the chat service and the handlers of the HTTP interface (\<^verbatim>\<open>internal/service\<close>,
  \<^verbatim>\<open>internal/api\<close>, \<^verbatim>\<open>internal/chat\<close>), which mostly move data between the database, providers and
  clients; adapters of language models and of command line agents (\<^verbatim>\<open>internal/llm\<close>,
  \<^verbatim>\<open>internal/runtime\<close>); the plugin host and the MCP servers and transports, which are protocols around
  processes; the workflow host (\<^verbatim>\<open>internal/workflowhost\<close>), which drives an external engine; the
  sandbox, configuration, catalogues of skills and agents, and the user interface.

  \<^bold>\<open>Next.\<close> The reactive parts with decision logic of their own: \<^verbatim>\<open>internal/scheduler\<close>,
  \<^verbatim>\<open>internal/agent/reflexes\<close>, \<^verbatim>\<open>internal/contextbroker\<close>, \<^verbatim>\<open>internal/tool\<close>, \<^verbatim>\<open>internal/truncate\<close>.
\<close>

section \<open>Workers and tasks\<close>

text \<open>
  C29. Canceling a worker cancels its task. The worker manager and the task service share one
  coordination store that works. \<^verbatim>\<open>Manager.Cancel\<close> of a worker with a linked task marks the
  worker canceled, keeps the stored tasks well-formed and touches no task but the linked one;
  that one is moved to \<^verbatim>\<open>canceled\<close>, stamped with its time of completion, if it is stored and
  its status allows it, and is left as it was if not (it is already completed, failed or
  canceled, or it does not exist). Either way \<^verbatim>\<open>Cancel\<close> reports no error.
\<close>

theorem cancel_worker_cancels_task:
  assumes "coord_store S vw" "healthy S vw" "mc_Coord cfg = Some S" "mc_Tasks cfg = Some T"
    and "lb_coord (sv_local T) = S" "active_backend (sv_impl T) conf = Some LocalImpl"
    and "store_wf (sv_env T) vw (m_now m) (w_coord (world m))" "clock_ok clk" "m_now m \<le> clk 0"
    and "in_map m wid" "objs m wid = Some x" "W_TaskID x = tid" "tid \<noteq> []"
    and "B = board_of (sv_env T) vw (m_now m) (w_coord (world m))"
  shows "\<exists>m' x'. Manager_Cancel cfg conf clk wid m = (m', None)
    \<and> objs m' wid = Some x' \<and> W_Status x' = WStatusCanceled
    \<and> store_wf (sv_env T) vw (clk 3) (w_coord (world m'))
    \<and> board_of (sv_env T) vw (clk 3) (w_coord (world m')) = (case B tid of
         Some t \<Rightarrow> if edge (Task_Status t) StatusCanceled then B(tid \<mapsto> moved_task clk StatusCanceled t) else B
       | None \<Rightarrow> B)"
proof -
  let ?m = "writeWorkerStatus cfg wid (SetStatus wid WStatusCanceled (cancel_ctx wid m))"
  let ?w = "world ?m"
  obtain c r where tr: "Local_Transition (sv_env T) (sv_local T) clk tid StatusCanceled (w_coord ?w) = (c, r)" by force
  have "Service_Cancel T conf clk tid ?w = Some (?w\<lparr>w_coord := c\<rparr>, r)"
    using assms(6) tr by (simp add: Service_Cancel_def Service_Transition_def)
  then have eq: "Manager_Cancel cfg conf clk wid m = (?m\<lparr>world := ?w\<lparr>w_coord := c\<rparr>\<rparr>, None)"
    using assms(4,10-13) by (simp add: Manager_Cancel_def Let_def)
  have "world (SetStatus wid WStatusCanceled (cancel_ctx wid m)) = world m" by (simp add: state_defs)
  then have same: "same_tasks vw (w_coord (world m)) (w_coord ?w)"
    using coord_store.status_write_keeps_tasks [OF assms(1,3), of "SetStatus wid WStatusCanceled (cancel_ctx wid m)" wid] by simp
  note st = same_tasks_store [OF same, of "sv_env T" "m_now m"]
  have wf: "store_wf (sv_env T) vw (m_now m) (w_coord ?w)" using assms(7) st(1) by simp
  note tr' = coord_store.transition_healthy [OF assms(1,2,5) wf assms(8,9) tr]
  have "objs (?m\<lparr>world := ?w\<lparr>w_coord := c\<rparr>\<rparr>) wid = Some (x\<lparr>ctx_canceled := True, W_Status := WStatusCanceled\<rparr>)"
    using assms(11) by (simp add: state_defs)
  moreover have "board_of (sv_env T) vw (clk 3) c = (case B tid of
         Some t \<Rightarrow> if edge (Task_Status t) StatusCanceled then B(tid \<mapsto> moved_task clk StatusCanceled t) else B
       | None \<Rightarrow> B)"
    unfolding tr'(2) st(2) assms(14) by (simp split: option.split)
  ultimately show ?thesis using eq tr'(1) by auto
qed

section \<open>The property on a small state\<close>

definition linked_service :: "(mem_db, task_table, unit) task_service" where
  "linked_service = \<lparr>sv_impl = Task_NewService \<lparr>cfg_Local = True, cfg_Settings = None\<rparr>,
     sv_local = sample_local, sv_env = sample_env\<rparr>"

definition linked_config :: "(mem_db, task_table, unit) ManagerConfig" where
  "linked_config = \<lparr>MaxConcurrentWorkers = 0, mc_Coord = Some (lb_coord sample_local), mc_Tasks = Some linked_service,
     mc_Worktrees = False\<rparr>"

definition linked_manager :: "(mem_db, task_table, unit) Manager" where
  "linked_manager = acquire ''w1'' (sample_request\<lparr>Req_TaskID := ''t1''\<rparr>)
     (NewManager linked_config (sample_clock 0 3) \<lparr>w_coord = sample_store_db, w_db = [], w_plugins = ()\<rparr>)"

theorem cancel_worker_cancels_task_witness:
  "\<exists>m'. Manager_Cancel linked_config [] (sample_clock 1) ''w1'' linked_manager = (m', None)
     \<and> map_option Task_Status (board_of sample_env mem_view (sample_clock 1 3) (w_coord (world m')) ''t1'') = Some StatusCanceled"
proof -
  have m: "m_now linked_manager = sample_clock 0 3" "w_coord (world linked_manager) = sample_store_db"
    "in_map linked_manager ''w1''" "objs linked_manager ''w1'' = Some (new_worker ''w1'' (sample_request\<lparr>Req_TaskID := ''t1''\<rparr>) (sample_clock 0 3))"
    by (simp_all add: linked_manager_def acquire_def NewManager_def)
  have S: "lb_coord sample_local = BadgerStore mem_badger" by (simp add: sample_local_def NewLocalBackend_def)
  have T: "mc_Tasks linked_config = Some linked_service" "sv_local linked_service = sample_local" "sv_env linked_service = sample_env"
    "mc_Coord linked_config = Some (lb_coord sample_local)" "active_backend (sv_impl linked_service) [] = Some LocalImpl"
    by (simp_all add: linked_config_def linked_service_def Task_NewService_def active_backend_def)
  let ?B = "board_of sample_env mem_view (sample_clock 0 3) sample_store_db"
  have B: "?B ''t1'' = Some sample_created" by (simp add: sample_db_wf(2))
  have "edge StatusPending StatusCanceled" by (simp add: edge_def validTransitions_def)
  with cancel_worker_cancels_task [OF sample_store(1), of linked_config linked_service "[]" linked_manager "sample_clock 1" "''w1''" _ "''t1''" ?B]
  show ?thesis
    using m T B S mem_healthy sample_db_wf(1) sample_clock_ok [of 1] sample_times(2) sample_created_props(1)
    by (auto simp: new_worker_def moved_task_props)
qed

end
